(* ===== verification/Prelude.thy ===== *)
theory Prelude
  imports Main "HOL-Library.List_Lexorder" "HOL-Library.Option_ord"
begin

text \<open>
  Shared vocabulary of the development: Rust strings and the operations of \<open>str\<close> the
  source uses, a \<open>BTreeMap\<close> as a sorted association list, \<open>Result\<close> as a sum, and the
  generic lemmas the component theories share.
  A Rust \<open>String\<close> is the list of its Unicode scalar values, so its length counts
  \<open>chars\<close>, and the lexicographic order of the list is the order of \<open>Ord for str\<close>
  (UTF-8 preserves code point order).
\<close>

type_synonym ustr = "int list"

definition lit :: "string \<Rightarrow> ustr" where
  "lit s = map of_char s"

lemma lit_eq_iff [simp]: "lit a = lit b \<longleftrightarrow> a = b"
  unfolding lit_def by (rule inj_map_eq_map) (simp add: inj_def)

lemma lit_Nil [simp]: "lit [] = []"
  by (simp add: lit_def)

lemma lit_eq_Nil [simp]: "lit a = [] \<longleftrightarrow> a = []" "[] = lit a \<longleftrightarrow> a = []"
  by (auto simp: lit_def)

lemma lit_append: "lit (a @ b) = lit a @ lit b"
  by (simp add: lit_def)

lemma length_lit [simp]: "length (lit a) = length a"
  by (simp add: lit_def)

lemma set_map_filter: "set (List.map_filter f xs) = {y. \<exists>x\<in>set xs. f x = Some y}"
  by (induction xs) (auto simp: List.map_filter_def split: option.splits)

subsection \<open>\<open>Result\<close>\<close>

definition bind_result :: "'e + 'a \<Rightarrow> ('a \<Rightarrow> 'e + 'b) \<Rightarrow> 'e + 'b" where
  "bind_result r f = (case r of Inl e \<Rightarrow> Inl e | Inr a \<Rightarrow> f a)"

lemma bind_result_simps [simp]:
  "bind_result (Inl e) f = Inl e"
  "bind_result (Inr a) f = f a"
  by (simp_all add: bind_result_def)

lemma bind_result_Inr_iff:
  "bind_result r f = Inr b \<longleftrightarrow> (\<exists>a. r = Inr a \<and> f a = Inr b)"
  by (cases r) auto

definition ok_or :: "'e \<Rightarrow> 'a option \<Rightarrow> 'e + 'a" where
  "ok_or e x = (case x of None \<Rightarrow> Inl e | Some a \<Rightarrow> Inr a)"

lemma ok_or_simps [simp]: "ok_or e None = Inl e" "ok_or e (Some a) = Inr a"
  by (simp_all add: ok_or_def)

fun sequence_option :: "'a option list \<Rightarrow> 'a list option" where
  "sequence_option [] = Some []"
| "sequence_option (None # xs) = None"
| "sequence_option (Some x # xs) = map_option ((#) x) (sequence_option xs)"

lemma sequence_option_Some_iff:
  "sequence_option xs = Some ys \<longleftrightarrow> xs = map Some ys"
proof (induction xs arbitrary: ys rule: sequence_option.induct)
  case (3 x xs)
  then show ?case by (cases ys) auto
qed auto

subsection \<open>Numbers\<close>

text \<open>\<open>i32::clamp\<close>.\<close>

definition clamp :: "int \<Rightarrow> int \<Rightarrow> int \<Rightarrow> int" where
  "clamp lo hi x = max lo (min x hi)"

subsection \<open>Characters\<close>

definition is_ascii_lowercase :: "int \<Rightarrow> bool" where
  "is_ascii_lowercase c \<longleftrightarrow> 97 \<le> c \<and> c \<le> 122"

definition is_ascii_uppercase :: "int \<Rightarrow> bool" where
  "is_ascii_uppercase c \<longleftrightarrow> 65 \<le> c \<and> c \<le> 90"

definition is_ascii_digit :: "int \<Rightarrow> bool" where
  "is_ascii_digit c \<longleftrightarrow> 48 \<le> c \<and> c \<le> 57"

text \<open>The code points with the Unicode property \<open>White_Space\<close>, as \<open>char::is_whitespace\<close>.\<close>

definition is_whitespace :: "int \<Rightarrow> bool" where
  "is_whitespace c \<longleftrightarrow> 9 \<le> c \<and> c \<le> 13 \<or> c = 32 \<or> c = 133 \<or> c = 160 \<or> c = 5760 \<or>
     8192 \<le> c \<and> c \<le> 8202 \<or> c = 8232 \<or> c = 8233 \<or> c = 8239 \<or> c = 8287 \<or> c = 12288"

lemma is_whitespace_not_lowercase: "is_ascii_lowercase c \<Longrightarrow> \<not> is_whitespace c"
  by (auto simp: is_whitespace_def is_ascii_lowercase_def)

definition ascii_lower :: "ustr \<Rightarrow> ustr" where
  "ascii_lower = map (\<lambda>c. if is_ascii_uppercase c then c + 32 else c)"

definition ascii_upper :: "ustr \<Rightarrow> ustr" where
  "ascii_upper = map (\<lambda>c. if is_ascii_lowercase c then c - 32 else c)"

lemma ascii_upper_idem [simp]: "ascii_upper (ascii_upper s) = ascii_upper s"
  by (induction s) (auto simp: ascii_upper_def is_ascii_lowercase_def)

lemma ascii_lower_idem [simp]: "ascii_lower (ascii_lower s) = ascii_lower s"
  by (induction s) (auto simp: ascii_lower_def is_ascii_uppercase_def)

lemma ascii_upper_append: "ascii_upper (a @ b) = ascii_upper a @ ascii_upper b"
  by (simp add: ascii_upper_def)

lemma ascii_upper_eq_Nil [simp]: "ascii_upper s = [] \<longleftrightarrow> s = []"
  by (simp add: ascii_upper_def)

subsection \<open>\<open>trim\<close>, \<open>split\<close>, \<open>join\<close>\<close>

definition trim_start :: "ustr \<Rightarrow> ustr" where
  "trim_start s = dropWhile is_whitespace s"

definition trim_end :: "ustr \<Rightarrow> ustr" where
  "trim_end s = rev (dropWhile is_whitespace (rev s))"

definition trim :: "ustr \<Rightarrow> ustr" where
  "trim s = trim_end (trim_start s)"

lemma trim_id:
  assumes "s = [] \<or> \<not> is_whitespace (hd s) \<and> \<not> is_whitespace (last s)"
  shows "trim s = s"
proof (cases "s = []")
  case True
  then show ?thesis by (simp add: trim_def trim_start_def trim_end_def)
next
  case False
  with assms have "dropWhile is_whitespace s = s" by (cases s) auto
  moreover from False assms have "dropWhile is_whitespace (rev s) = rev s"
    by (cases s rule: rev_cases) auto
  ultimately show ?thesis by (simp add: trim_def trim_start_def trim_end_def)
qed

lemma trim_id_all: "\<forall>c\<in>set s. \<not> is_whitespace c \<Longrightarrow> trim s = s"
  by (rule trim_id) (cases s rule: rev_cases; auto simp: hd_append)

text \<open>\<open>str::split\<close> on one character: always at least one piece.\<close>

fun split_on :: "int \<Rightarrow> ustr \<Rightarrow> ustr list" where
  "split_on d [] = [[]]"
| "split_on d (c # s) =
     (if c = d then [] # split_on d s
      else (case split_on d s of [] \<Rightarrow> [[c]] | p # ps \<Rightarrow> (c # p) # ps))"

fun join :: "ustr \<Rightarrow> ustr list \<Rightarrow> ustr" where
  "join sep [] = []"
| "join sep [x] = x"
| "join sep (x # y # xs) = x @ sep @ join sep (y # xs)"

lemma split_on_not_Nil [simp]: "split_on d s \<noteq> []"
  by (induction s) (auto split: list.splits)

lemma split_on_no_sep: "d \<notin> set s \<Longrightarrow> split_on d s = [s]"
  by (induction s) auto

lemma split_on_append_sep: "d \<notin> set a \<Longrightarrow> split_on d (a @ d # b) = a # split_on d b"
  by (induction a) auto

lemma split_on_join:
  assumes "xs \<noteq> []" and "\<forall>x\<in>set xs. d \<notin> set x"
  shows "split_on d (join [d] xs) = xs"
  using assms by (induction "[d]" xs rule: join.induct) (auto simp: split_on_no_sep split_on_append_sep)

lemma set_split_on_no_sep: "p \<in> set (split_on d s) \<Longrightarrow> d \<notin> set p"
  by (induction s arbitrary: p) (auto split: if_splits list.splits)

lemma join_split_on: "join [d] (split_on d s) = s"
proof (induction s)
  case (Cons c s)
  then show ?case
    by (cases "split_on d s" rule: remdups_adj.cases) (auto split: list.splits)
qed simp

lemma join_append_last: "xs \<noteq> [] \<Longrightarrow> join sep (xs @ [y]) = join sep xs @ sep @ y"
  by (induction sep xs rule: join.induct) (auto)

lemma set_join_subset: "set (join sep xs) \<subseteq> set sep \<union> \<Union> (set ` set xs)"
  by (induction sep xs rule: join.induct) auto

text \<open>\<open>strip_prefix\<close>.\<close>

fun strip_prefix :: "ustr \<Rightarrow> ustr \<Rightarrow> ustr option" where
  "strip_prefix [] s = Some s"
| "strip_prefix (p # ps) [] = None"
| "strip_prefix (p # ps) (c # s) = (if p = c then strip_prefix ps s else None)"

definition starts_with :: "ustr \<Rightarrow> ustr \<Rightarrow> bool" where
  "starts_with p s \<longleftrightarrow> strip_prefix p s \<noteq> None"

definition strip_suffix :: "ustr \<Rightarrow> ustr \<Rightarrow> ustr option" where
  "strip_suffix p s = map_option rev (strip_prefix (rev p) (rev s))"

lemma strip_prefix_Some_iff: "strip_prefix p s = Some r \<longleftrightarrow> s = p @ r"
  by (induction p s rule: strip_prefix.induct) auto

lemma strip_prefix_None_iff: "strip_prefix p s = None \<longleftrightarrow> (\<forall>r. s \<noteq> p @ r)"
  using strip_prefix_Some_iff by (metis not_None_eq)

lemma strip_prefix_append [simp]: "strip_prefix p (p @ r) = Some r"
  by (simp add: strip_prefix_Some_iff)

lemma strip_suffix_Some_iff: "strip_suffix p s = Some r \<longleftrightarrow> s = r @ p"
proof -
  have "strip_suffix p s = Some r \<longleftrightarrow> strip_prefix (rev p) (rev s) = Some (rev r)"
    by (cases "strip_prefix (rev p) (rev s)") (auto simp: strip_suffix_def rev_swap)
  also have "\<dots> \<longleftrightarrow> s = r @ p"
    by (metis strip_prefix_Some_iff rev_append rev_rev_ident)
  finally show ?thesis .
qed

lemma starts_with_iff: "starts_with p s \<longleftrightarrow> (\<exists>r. s = p @ r)"
  unfolding starts_with_def by (metis not_None_eq strip_prefix_Some_iff)

text \<open>\<open>split_once\<close>: at the first separator.\<close>

fun split_once :: "int \<Rightarrow> ustr \<Rightarrow> (ustr \<times> ustr) option" where
  "split_once d [] = None"
| "split_once d (c # s) =
     (if c = d then Some ([], s)
      else map_option (\<lambda>(a, b). (c # a, b)) (split_once d s))"

lemma split_once_Some_iff:
  "split_once d s = Some (a, b) \<longleftrightarrow> s = a @ d # b \<and> d \<notin> set a"
proof (induction s arbitrary: a)
  case (Cons c s)
  show ?case
    by (cases a) (auto simp: Cons.IH)
qed simp

text \<open>\<open>str::split_whitespace\<close>: the maximal runs of characters that are not whitespace.\<close>

fun words_acc :: "ustr \<Rightarrow> ustr \<Rightarrow> ustr list" where
  "words_acc w [] = (if w = [] then [] else [w])"
| "words_acc w (c # s) =
     (if is_whitespace c then (if w = [] then words_acc [] s else w # words_acc [] s)
      else words_acc (w @ [c]) s)"

definition split_whitespace :: "ustr \<Rightarrow> ustr list" where
  "split_whitespace s = words_acc [] s"

lemma words_acc_nonempty:
  "p \<in> set (words_acc w s) \<Longrightarrow> p \<noteq> []"
  by (induction w s rule: words_acc.induct) (auto split: if_splits)

lemma words_acc_no_ws:
  "list_all (\<lambda>c. \<not> is_whitespace c) w \<Longrightarrow> p \<in> set (words_acc w s) \<Longrightarrow>
     list_all (\<lambda>c. \<not> is_whitespace c) p"
  by (induction w s rule: words_acc.induct) (auto split: if_splits)

lemma words_acc_no_ws_append:
  "list_all (\<lambda>c. \<not> is_whitespace c) x \<Longrightarrow> words_acc w (x @ s) = words_acc (w @ x) s"
  by (induction x arbitrary: w) auto

text \<open>\<open>String::len\<close>: the bytes of the UTF-8 encoding.\<close>

definition utf8_bytes :: "int \<Rightarrow> nat" where
  "utf8_bytes c = (if c < 128 then 1 else if c < 2048 then 2 else if c < 65536 then 3 else 4)"

definition utf8_len :: "ustr \<Rightarrow> nat" where
  "utf8_len s = sum_list (map utf8_bytes s)"

lemma length_le_utf8_len: "length s \<le> utf8_len s"
  by (induction s) (auto simp: utf8_len_def utf8_bytes_def)

text \<open>An optional text field as the handlers read it: trimmed, and absent when blank.\<close>

definition clean :: "ustr option \<Rightarrow> ustr option" where
  "clean value = (case value of None \<Rightarrow> None | Some v \<Rightarrow> if trim v = [] then None else Some (trim v))"

subsection \<open>Decimal numbers\<close>

fun show_nat :: "nat \<Rightarrow> ustr" where
  "show_nat n = (if n < 10 then [48 + int n] else show_nat (n div 10) @ [48 + int (n mod 10)])"

declare show_nat.simps [simp del]

definition show_int :: "int \<Rightarrow> ustr" where
  "show_int i = (if i < 0 then 45 # show_nat (nat (- i)) else show_nat (nat i))"

definition pad_left :: "int \<Rightarrow> nat \<Rightarrow> ustr \<Rightarrow> ustr" where
  "pad_left c w s = replicate (w - length s) c @ s"

definition pad_right :: "int \<Rightarrow> nat \<Rightarrow> ustr \<Rightarrow> ustr" where
  "pad_right c w s = s @ replicate (w - length s) c"

text \<open>\<open>{:0w}\<close>: the sign first, then zeros.\<close>

definition show_zero_padded :: "nat \<Rightarrow> int \<Rightarrow> ustr" where
  "show_zero_padded w i =
     (if i < 0 then 45 # pad_left 48 (w - 1) (show_nat (nat (- i)))
      else pad_left 48 w (show_nat (nat i)))"

lemma show_nat_digits: "c \<in> set (show_nat n) \<Longrightarrow> is_ascii_digit c"
proof (induction n rule: show_nat.induct)
  case (1 n)
  show ?case
  proof (cases "n < 10")
    case True
    with "1.prems" show ?thesis
      by (subst (asm) show_nat.simps) (simp add: is_ascii_digit_def)
  next
    case False
    with "1.prems" have "c \<in> set (show_nat (n div 10)) \<or> c = 48 + int (n mod 10)"
      by (subst (asm) show_nat.simps) auto
    moreover have "int (n mod 10) \<le> 9" by simp
    ultimately show ?thesis
      using "1.IH" False by (auto simp: is_ascii_digit_def)
  qed
qed

lemma show_nat_nonempty [simp]: "show_nat n \<noteq> []"
  by (subst show_nat.simps) simp

subsection \<open>\<open>BTreeMap\<close> as a sorted association list\<close>

fun bt_get :: "('k \<times> 'v) list \<Rightarrow> 'k \<Rightarrow> 'v option" where
  "bt_get [] k = None"
| "bt_get ((k', v) # m) k = (if k = k' then Some v else bt_get m k)"

fun bt_put :: "'k::linorder \<Rightarrow> 'v \<Rightarrow> ('k \<times> 'v) list \<Rightarrow> ('k \<times> 'v) list" where
  "bt_put k v [] = [(k, v)]"
| "bt_put k v ((k', v') # m) =
     (if k < k' then (k, v) # (k', v') # m
      else if k = k' then (k, v) # m
      else (k', v') # bt_put k v m)"

definition bt_inv :: "('k::linorder \<times> 'v) list \<Rightarrow> bool" where
  "bt_inv m \<longleftrightarrow> sorted (map fst m) \<and> distinct (map fst m)"

lemma set_fst_bt_put: "fst ` set (bt_put k v m) = insert k (fst ` set m)"
  by (induction k v m rule: bt_put.induct) auto

lemma bt_get_bt_put [simp]: "bt_get (bt_put k v m) k' = (if k' = k then Some v else bt_get m k')"
  by (induction k v m rule: bt_put.induct) auto

lemma bt_inv_Nil [simp]: "bt_inv []"
  by (simp add: bt_inv_def)

lemma bt_inv_Cons:
  "bt_inv ((k, v) # m) \<longleftrightarrow> bt_inv m \<and> (\<forall>k'\<in>fst ` set m. k < k')"
proof -
  have "(\<forall>k'\<in>fst ` set m. k \<le> k') \<and> k \<notin> fst ` set m \<longleftrightarrow> (\<forall>k'\<in>fst ` set m. k < k')"
    by (metis less_le)
  then show ?thesis by (auto simp: bt_inv_def)
qed

lemma bt_put_inv: "bt_inv m \<Longrightarrow> bt_inv (bt_put k v m)"
  by (induction k v m rule: bt_put.induct)
    (auto simp: bt_inv_Cons set_fst_bt_put dest: order.strict_trans)

lemma bt_get_None_iff: "bt_get m k = None \<longleftrightarrow> k \<notin> fst ` set m"
  by (induction m k rule: bt_get.induct) auto

lemma bt_get_in_set: "bt_inv m \<Longrightarrow> bt_get m k = Some v \<longleftrightarrow> (k, v) \<in> set m"
  by (induction m k rule: bt_get.induct) (auto simp: bt_inv_Cons)

text \<open>The interface its clients rely on: a lookup after a write, and sorted iteration.\<close>

locale ordered_map =
  fixes get :: "'m \<Rightarrow> 'k::linorder \<Rightarrow> 'v option"
    and put :: "'k \<Rightarrow> 'v \<Rightarrow> 'm \<Rightarrow> 'm"
    and entries :: "'m \<Rightarrow> ('k \<times> 'v) list"
    and invar :: "'m \<Rightarrow> bool"
  assumes get_put: "get (put k v m) k' = (if k' = k then Some v else get m k')"
    and put_inv: "invar m \<Longrightarrow> invar (put k v m)"
    and iter: "invar m \<Longrightarrow> (k, v) \<in> set (entries m) \<longleftrightarrow> get m k = Some v"
    and iter_sorted: "invar m \<Longrightarrow> sorted_wrt (<) (map fst (entries m))"
begin

lemma entries_put:
  assumes "invar m"
  shows "set (entries (put k v m)) = insert (k, v) {e \<in> set (entries m). fst e \<noteq> k}"
proof -
  have "e \<in> set (entries (put k v m)) \<longleftrightarrow> e = (k, v) \<or> e \<in> set (entries m) \<and> fst e \<noteq> k" for e
    using assms by (cases e) (auto simp: iter put_inv get_put)
  then show ?thesis by auto
qed

lemma entries_distinct: "invar m \<Longrightarrow> distinct (map fst (entries m))"
  using iter_sorted strict_sorted_iff by blast

lemma put_put: "invar m \<Longrightarrow> get (put k v (put k w m)) = get (put k v m)"
  by (auto simp: get_put)

end

interpretation bt: ordered_map bt_get bt_put "\<lambda>m. m" bt_inv
proof unfold_locales
  fix m :: "('a \<times> 'b) list"
  assume "bt_inv m"
  then show "sorted_wrt (<) (map fst m)"
    by (simp add: bt_inv_def strict_sorted_iff)
qed (auto simp: bt_put_inv bt_get_in_set)

end
