(* ===== verification/Errors.thy ===== *)
theory Errors
  imports Prelude
begin

text \<open>
  \<open>backend/src/errors.rs\<close>: the error type every handler and repository returns, and the
  HTTP response it becomes. The \<open>&'static str\<close> a \<open>ConflictReason\<close> carries and the
  response body are strings; a version is an \<open>i64\<close>, here an \<open>int\<close>.
\<close>

datatype api_error =
    BadRequest
  | OAuthLoginOriginMismatch
  | OAuthStateCookieMissing
  | OAuthStateMismatch
  | Unauthorized
  | Forbidden
  | NotFound
  | Conflict
  | ConflictReason ustr
  | PreconditionFailed "int option"
  | PreconditionRequired
  | PayloadTooLarge
  | TooManyRequests
  | ServiceUnavailable
  | Internal

type_synonym 'a result = "api_error + 'a"

record response =
  resp_status :: nat
  resp_error :: ustr
  resp_etag :: "ustr option"

definition quoted_version :: "int \<Rightarrow> ustr" where
  "quoted_version v = 34 # show_int v @ [34]"

fun status_and_message :: "api_error \<Rightarrow> nat \<times> ustr" where
  "status_and_message BadRequest = (400, lit ''bad_request'')"
| "status_and_message OAuthLoginOriginMismatch = (400, lit ''oauth_login_origin_mismatch'')"
| "status_and_message OAuthStateCookieMissing = (400, lit ''oauth_state_cookie_missing'')"
| "status_and_message OAuthStateMismatch = (400, lit ''oauth_state_mismatch'')"
| "status_and_message Unauthorized = (401, lit ''unauthorized'')"
| "status_and_message Forbidden = (403, lit ''forbidden'')"
| "status_and_message NotFound = (404, lit ''not_found'')"
| "status_and_message Conflict = (409, lit ''conflict'')"
| "status_and_message (ConflictReason code) = (409, code)"
| "status_and_message (PreconditionFailed etag) = (412, lit ''precondition_failed'')"
| "status_and_message PreconditionRequired = (428, lit ''precondition_required'')"
| "status_and_message PayloadTooLarge = (413, lit ''payload_too_large'')"
| "status_and_message TooManyRequests = (429, lit ''too_many_requests'')"
| "status_and_message ServiceUnavailable = (503, lit ''service_unavailable'')"
| "status_and_message Internal = (500, lit ''internal_error'')"

text \<open>Only a failed precondition carries an \<open>ETag\<close>, and only when it knows a version.\<close>

definition into_response :: "api_error \<Rightarrow> response" where
  "into_response e = (case status_and_message e of (status, message) \<Rightarrow>
     \<lparr>resp_status = status, resp_error = message,
      resp_etag = (case e of PreconditionFailed (Some version) \<Rightarrow> Some (quoted_version version)
                   | _ \<Rightarrow> None)\<rparr>)"

lemma into_response_is_error: "400 \<le> resp_status (into_response e) \<and> resp_status (into_response e) < 600"
  by (cases e) (simp_all add: into_response_def)

lemma into_response_server_error_iff:
  "500 \<le> resp_status (into_response e) \<longleftrightarrow> e = ServiceUnavailable \<or> e = Internal"
  by (cases e) (simp_all add: into_response_def)

end
