(* ===== verification/PermissionTree.thy ===== *)
theory PermissionTree
  imports Permissions
begin

text \<open>
  The tree half of \<open>crates/ois-core/src/permissions.rs\<close>: \<open>permission_tree_from_paths\<close>
  builds the nested JSON the access editor renders and \<open>normalize_permission_tree\<close> validates
  and flattens an edited tree. A tree's meaning is the set of (segments, action) pairs at its
  leaves (\<open>value_paths\<close>); insertion adds one pair, flattening prints them all.
\<close>

datatype json =
    JNull
  | JBool bool
  | JNumber int
  | JString ustr
  | JArray "json list"
  | JObject "(ustr \<times> json) list"

fun as_str :: "json \<Rightarrow> ustr option" where
  "as_str (JString s) = Some s"
| "as_str _ = None"

fun insert_permission_path :: "(ustr \<times> json) list \<Rightarrow> ustr list \<Rightarrow> ustr \<Rightarrow> (ustr \<times> json) list" where
  "insert_permission_path node [] act = node"
| "insert_permission_path node [leaf] act =
     (case bt_get node leaf of
        None \<Rightarrow> bt_put leaf (JArray [JString act]) node
      | Some (JArray actions) \<Rightarrow>
          if list_ex (\<lambda>v. as_str v = Some act) actions then node
          else bt_put leaf (JArray (sort_key as_str (actions @ [JString act]))) node
      | Some _ \<Rightarrow> node)"
| "insert_permission_path node (segment # next # rest) act =
     (case bt_get node segment of
        None \<Rightarrow> bt_put segment (JObject (insert_permission_path [] (next # rest) act)) node
      | Some (JObject child) \<Rightarrow>
          bt_put segment (JObject (insert_permission_path child (next # rest) act)) node
      | Some _ \<Rightarrow> node)"

definition permission_tree_from_paths :: "permission_path list \<Rightarrow> json" where
  "permission_tree_from_paths permissions =
     JObject (fold (\<lambda>p root. insert_permission_path root (segments p) (as_value (action p)))
       permissions [])"

fun collect_actions :: "json list \<Rightarrow> ustr set \<Rightarrow> ustr set option" where
  "collect_actions [] action_set = Some action_set"
| "collect_actions (v # vs) action_set =
     (case as_str v of None \<Rightarrow> None
      | Some action_name \<Rightarrow>
          (case action_from_value action_name of None \<Rightarrow> None
           | Some act \<Rightarrow> collect_actions vs (insert (as_value act) action_set)))"

text \<open>The accumulators are the path of keys above the node and the \<open>BTreeSet\<close> of results.\<close>

fun collect_permission_tree :: "(ustr \<times> json) list \<Rightarrow> ustr list \<Rightarrow> ustr set \<Rightarrow> ustr set option" where
  "collect_permission_tree [] path normalized = Some normalized"
| "collect_permission_tree ((key, value) # node) path normalized =
     (if \<not> is_valid_permission_segment key then None
      else case value of
        JObject child \<Rightarrow>
          (case collect_permission_tree child (path @ [key]) normalized of None \<Rightarrow> None
           | Some normalized' \<Rightarrow> collect_permission_tree node path normalized')
      | JArray actions \<Rightarrow>
          if actions = [] then None
          else (case collect_actions actions {} of None \<Rightarrow> None
            | Some action_set \<Rightarrow>
                collect_permission_tree node path
                  (normalized \<union> (\<lambda>act. join [46] (path @ [key]) @ [46] @ act) ` action_set))
      | _ \<Rightarrow> None)"

definition normalize_permission_tree :: "json \<Rightarrow> ustr list option" where
  "normalize_permission_tree value = (case value of
     JObject root \<Rightarrow>
       (case collect_permission_tree root [] {} of None \<Rightarrow> None
        | Some normalized \<Rightarrow>
            if normalized = {} then None else Some (sorted_list_of_set normalized))
   | _ \<Rightarrow> None)"

subsection \<open>What a tree stands for\<close>

function (sequential) value_paths :: "json \<Rightarrow> (ustr list \<times> ustr) set" where
  "value_paths (JObject m) = (\<Union>(k, v)\<in>set m. (\<lambda>(segs, act). (k # segs, act)) ` value_paths v)"
| "value_paths (JArray xs) = {([], act) |act. JString act \<in> set xs}"
| "value_paths _ = {}"
  by pat_completeness auto

lemma json_size_entry: "(k, v) \<in> set m \<Longrightarrow> size v < size (JObject m)"
  by (induction m) auto

termination value_paths
  by (relation "measure size") (auto dest: json_size_entry)

definition action_array :: "json list \<Rightarrow> bool" where
  "action_array xs \<longleftrightarrow> xs \<noteq> [] \<and> sorted (map as_str xs) \<and> distinct xs \<and>
     list_all (\<lambda>x. \<exists>act. x = JString (as_value act)) xs"

text \<open>A well-formed value below a key: sorted objects, valid keys, no empty object, and leaf
  arrays of distinct sorted action names.\<close>

function (sequential) wf_value :: "json \<Rightarrow> bool" where
  "wf_value (JObject m) = (m \<noteq> [] \<and> bt_inv m \<and>
     (\<forall>(k, v)\<in>set m. is_valid_permission_segment k \<and> wf_value v))"
| "wf_value (JArray xs) = action_array xs"
| "wf_value _ = False"
  by pat_completeness auto

termination wf_value
  by (relation "measure size") (auto dest: json_size_entry)

definition wf_tree :: "(ustr \<times> json) list \<Rightarrow> bool" where
  "wf_tree m \<longleftrightarrow> m = [] \<or> wf_value (JObject m)"

abbreviation tree_paths :: "(ustr \<times> json) list \<Rightarrow> (ustr list \<times> ustr) set" where
  "tree_paths m \<equiv> value_paths (JObject m)"

lemma wf_tree_Nil [simp]: "wf_tree []"
  by (simp add: wf_tree_def)

lemma wf_treeI:
  "bt_inv m \<Longrightarrow> (\<And>k v. (k, v) \<in> set m \<Longrightarrow> is_valid_permission_segment k \<and> wf_value v) \<Longrightarrow> wf_tree m"
  by (auto simp: wf_tree_def)

lemma wf_treeD:
  assumes "wf_tree m"
  shows "bt_inv m" and "(k, v) \<in> set m \<Longrightarrow> is_valid_permission_segment k"
    and "(k, v) \<in> set m \<Longrightarrow> wf_value v"
  using assms by (auto simp: wf_tree_def)

subsection \<open>Insertion adds one path\<close>

definition below :: "ustr \<Rightarrow> (ustr list \<times> ustr) set \<Rightarrow> (ustr list \<times> ustr) set" where
  "below k P = (\<lambda>(segs, act). (k # segs, act)) ` P"

definition outside :: "ustr \<Rightarrow> (ustr list \<times> ustr) set \<Rightarrow> (ustr list \<times> ustr) set" where
  "outside k P = {p \<in> P. hd (fst p) \<noteq> k}"

lemma below_iff: "p \<in> below k P \<longleftrightarrow> (\<exists>segs act. p = (k # segs, act) \<and> (segs, act) \<in> P)"
  by (auto simp: below_def image_iff Bex_def)

lemma value_paths_JObject:
  "value_paths (JObject m) = (\<Union>(k, v)\<in>set m. below k (value_paths v))"
  by (simp add: below_def)

declare value_paths.simps(1) [simp del]

lemma tree_paths_Nil: "tree_paths [] = {}"
  by (simp add: value_paths_JObject)

lemma in_tree_paths_iff:
  "p \<in> tree_paths m \<longleftrightarrow> (\<exists>k v. (k, v) \<in> set m \<and> p \<in> below k (value_paths v))"
  unfolding value_paths_JObject by auto

lemma tree_paths_not_Nil: "(segs, act) \<in> tree_paths m \<Longrightarrow> segs \<noteq> []"
  by (auto simp: in_tree_paths_iff below_iff simp del: value_paths.simps)

lemma tree_paths_get:
  assumes "bt_inv m"
  shows "tree_paths m = outside k (tree_paths m) \<union>
    (case bt_get m k of None \<Rightarrow> {} | Some v \<Rightarrow> below k (value_paths v))"
proof (rule set_eqI)
  fix p
  show "p \<in> tree_paths m \<longleftrightarrow> p \<in> outside k (tree_paths m) \<union>
    (case bt_get m k of None \<Rightarrow> {} | Some v \<Rightarrow> below k (value_paths v))"
    by (cases "hd (fst p) = k")
      (auto simp: in_tree_paths_iff outside_def below_iff bt.iter [OF assms] split: option.splits)
qed

lemma tree_paths_put:
  assumes "bt_inv m"
  shows "tree_paths (bt_put k v m) = outside k (tree_paths m) \<union> below k (value_paths v)"
proof (rule set_eqI)
  fix p
  show "p \<in> tree_paths (bt_put k v m) \<longleftrightarrow> p \<in> outside k (tree_paths m) \<union> below k (value_paths v)"
    unfolding in_tree_paths_iff bt.entries_put [OF assms] Un_iff outside_def mem_Collect_eq
    by (auto simp: below_iff)
qed

lemma wf_tree_put:
  assumes "wf_tree m" and "is_valid_permission_segment k" and "wf_value v"
  shows "wf_tree (bt_put k v m)" and "bt_put k v m \<noteq> []"
proof -
  show "wf_tree (bt_put k v m)"
    using assms by (intro wf_treeI) (auto simp: bt.entries_put wf_treeD bt_put_inv)
  show "bt_put k v m \<noteq> []"
    using bt.entries_put [OF wf_treeD(1) [OF assms(1)], of k v] by (metis insert_not_empty set_empty)
qed

lemma value_paths_nonempty: "wf_value v \<Longrightarrow> value_paths v \<noteq> {}"
proof (induction v rule: wf_value.induct)
  case (1 m)
  then obtain k v where kv: "(k, v) \<in> set m" and "wf_value v" by (cases m) auto
  with 1 have "value_paths v \<noteq> {}" by blast
  with kv show ?case by (auto simp: value_paths_JObject below_def)
next
  case (2 xs)
  then show ?case by (cases xs) (auto simp: action_array_def)
qed auto

definition compatible :: "ustr list \<Rightarrow> (ustr list \<times> ustr) set \<Rightarrow> bool" where
  "compatible segs P \<longleftrightarrow>
     (\<forall>(other, act)\<in>P. \<not> strict_prefix other segs \<and> \<not> strict_prefix segs other)"

lemma compatible_below: "compatible (k # segs) (below k P) \<longleftrightarrow> compatible segs P"
  by (auto simp: compatible_def below_def)

lemma compatible_mono: "compatible segs P \<Longrightarrow> Q \<subseteq> P \<Longrightarrow> compatible segs Q"
  by (auto simp: compatible_def)

lemma compatible_get:
  assumes "wf_tree m" and "compatible (k # segs) (tree_paths m)" and "bt_get m k = Some v"
  shows "compatible segs (value_paths v)"
proof -
  have "below k (value_paths v) \<subseteq> tree_paths m"
    using tree_paths_get [OF wf_treeD(1) [OF assms(1)], of k] assms(3) by auto
  with assms(2) show ?thesis
    using compatible_below compatible_mono by blast
qed

lemma wf_get: "wf_tree m \<Longrightarrow> bt_get m k = Some v \<Longrightarrow> wf_value v"
  by (rule wf_treeD(3) [of m k]) (simp_all add: bt.iter [OF wf_treeD(1)])

lemma paths_array_insert:
  "value_paths (JArray (sort_key as_str (xs @ [JString act]))) = insert ([], act) (value_paths (JArray xs))"
  by auto

lemma action_array_insert:
  assumes "action_array xs" and "JString (as_value a) \<notin> set xs"
  shows "action_array (sort_key as_str (xs @ [JString (as_value a)]))"
proof -
  have "sort_key as_str (xs @ [JString (as_value a)]) \<noteq> []"
    using length_sort [of as_str "xs @ [JString (as_value a)]"] by fastforce
  with assms show ?thesis
    by (auto simp: action_array_def list_all_iff)
qed

lemma compatible_leaf:
  assumes "wf_value v" and "compatible [] (value_paths v)"
  obtains xs where "v = JArray xs"
proof (cases v)
  case (JObject m)
  obtain segs act where p: "(segs, act) \<in> value_paths v"
    using value_paths_nonempty [OF assms(1)] by fast
  then have "strict_prefix [] segs"
    using JObject tree_paths_not_Nil by (cases segs) auto
  with p assms(2) show ?thesis by (auto simp: compatible_def)
qed (use assms that in auto)

lemma compatible_node:
  assumes "wf_value v" and "compatible (s # segs) (value_paths v)"
  obtains child where "v = JObject child"
proof (cases v)
  case (JArray xs)
  then obtain act where "([], act) \<in> value_paths v"
    using value_paths_nonempty [OF assms(1)] by auto
  with assms(2) show ?thesis by (auto simp: compatible_def)
qed (use assms that in auto)

text \<open>Replacing the value under \<open>k\<close> by one with one more path adds that path to the tree.\<close>

lemma put_one_path:
  assumes "wf_tree m" and "is_valid_permission_segment k" and "wf_value v'"
    and "value_paths v' = insert (segs, act)
      (case bt_get m k of None \<Rightarrow> {} | Some v \<Rightarrow> value_paths v)"
  shows "wf_tree (bt_put k v' m) \<and> bt_put k v' m \<noteq> [] \<and>
    tree_paths (bt_put k v' m) = insert (k # segs, act) (tree_paths m)"
proof -
  note inv = wf_treeD(1) [OF assms(1)]
  have "below k (value_paths v') = insert (k # segs, act)
      (case bt_get m k of None \<Rightarrow> {} | Some v \<Rightarrow> below k (value_paths v))"
    by (auto simp: assms(4) below_def split: option.splits)
  then have "tree_paths (bt_put k v' m) = insert (k # segs, act) (outside k (tree_paths m) \<union>
      (case bt_get m k of None \<Rightarrow> {} | Some v \<Rightarrow> below k (value_paths v)))"
    by (simp add: tree_paths_put [OF inv])
  also have "\<dots> = insert (k # segs, act) (tree_paths m)"
    by (simp flip: tree_paths_get [OF inv])
  finally show ?thesis
    using wf_tree_put [OF assms(1-3)] by simp
qed

lemma insert_permission_path_correct:
  assumes "wf_tree m" and "segs \<noteq> []" and "list_all is_valid_permission_segment segs"
    and "compatible segs (tree_paths m)"
  shows "wf_tree (insert_permission_path m segs (as_value a)) \<and>
    insert_permission_path m segs (as_value a) \<noteq> [] \<and>
    tree_paths (insert_permission_path m segs (as_value a)) =
      insert (segs, as_value a) (tree_paths m)"
  using assms
proof (induction m segs "as_value a" rule: insert_permission_path.induct)
  case (1 m)
  then show ?case by simp
next
  case (2 m leaf)
  then have wf: "wf_tree m" and leaf: "is_valid_permission_segment leaf" by auto
  show ?case
  proof (cases "bt_get m leaf")
    case None
    then show ?thesis
      using put_one_path [OF wf leaf, of "JArray [JString (as_value a)]" "[]" "as_value a"]
      by (auto simp: action_array_def)
  next
    case (Some v)
    obtain xs where v: "v = JArray xs"
      using compatible_leaf [OF wf_get [OF wf Some] compatible_get [OF wf _ Some]] "2.prems"(4)
      by blast
    have xs: "action_array xs" using wf_get [OF wf Some] v by simp
    have ex: "list_ex (\<lambda>v. as_str v = Some (as_value a)) xs \<longleftrightarrow> JString (as_value a) \<in> set xs"
      by (force simp: list_ex_iff elim: as_str.elims)
    show ?thesis
    proof (cases "JString (as_value a) \<in> set xs")
      case True
      have "([leaf], as_value a) \<in> tree_paths m"
        using True v wf_treeD(1) [OF wf] Some
        by (auto simp: in_tree_paths_iff below_iff bt.iter intro: exI [of _ leaf])
      with True ex Some v show ?thesis using wf by auto
    next
      case False
      then show ?thesis
        using put_one_path [OF wf leaf, of "JArray (sort_key as_str (xs @ [JString (as_value a)]))"
            "[]" "as_value a"] action_array_insert [OF xs False] ex Some v
        by auto
    qed
  qed
next
  case (3 m segment nxt rest)
  then have wf: "wf_tree m" and seg: "is_valid_permission_segment segment"
    and rest: "list_all is_valid_permission_segment (nxt # rest)" by auto
  show ?case
  proof (cases "bt_get m segment")
    case None
    let ?child = "insert_permission_path [] (nxt # rest) (as_value a)"
    have ih: "wf_tree ?child \<and> ?child \<noteq> [] \<and>
        tree_paths ?child = insert (nxt # rest, as_value a) (tree_paths [])"
      using "3.hyps"(1) [OF None _ _ rest] by (simp add: compatible_def tree_paths_Nil)
    have wfv: "wf_value (JObject ?child)"
      using ih by (auto simp only: wf_tree_def)
    have "tree_paths ?child = insert (nxt # rest, as_value a)
        (case bt_get m segment of None \<Rightarrow> {} | Some v \<Rightarrow> value_paths v)"
      using ih None by (simp add: tree_paths_Nil)
    from put_one_path [OF wf seg wfv this] show ?thesis using None by simp
  next
    case (Some v)
    note compat = compatible_get [OF wf "3.prems"(4) Some]
    obtain child where v: "v = JObject child"
      using compatible_node [OF wf_get [OF wf Some] compat] by blast
    let ?child = "insert_permission_path child (nxt # rest) (as_value a)"
    have "wf_tree child" using wf_get [OF wf Some] v by (simp add: wf_tree_def)
    then have ih: "wf_tree ?child \<and> ?child \<noteq> [] \<and>
        tree_paths ?child = insert (nxt # rest, as_value a) (tree_paths child)"
      using "3.hyps"(2) [OF Some v _ _ rest] compat v by blast
    have wfv: "wf_value (JObject ?child)"
      using ih by (auto simp only: wf_tree_def)
    have "tree_paths ?child = insert (nxt # rest, as_value a)
        (case bt_get m segment of None \<Rightarrow> {} | Some v \<Rightarrow> value_paths v)"
      using ih Some v by simp
    from put_one_path [OF wf seg wfv this] show ?thesis using Some v by simp
  qed
qed

subsection \<open>Building a tree and flattening it again\<close>

definition path_pair :: "permission_path \<Rightarrow> ustr list \<times> ustr" where
  "path_pair p = (segments p, as_value (action p))"

text \<open>No permission of the list is also a parent of another: a segment is a leaf or a node.\<close>

definition conflict_free :: "permission_path list \<Rightarrow> bool" where
  "conflict_free ps \<longleftrightarrow>
     list_all (\<lambda>p. list_all (\<lambda>q. \<not> strict_prefix (segments p) (segments q)) ps) ps"

lemma fold_insert_correct:
  assumes "list_all wf_path ps" and "wf_tree m"
    and "\<forall>p\<in>set ps. compatible (segments p) (tree_paths m \<union> path_pair ` set ps)"
  shows "wf_tree (fold (\<lambda>p root. insert_permission_path root (segments p) (as_value (action p))) ps m) \<and>
    tree_paths (fold (\<lambda>p root. insert_permission_path root (segments p) (as_value (action p))) ps m)
      = tree_paths m \<union> path_pair ` set ps"
  using assms
proof (induction ps arbitrary: m)
  case (Cons p ps)
  let ?m = "insert_permission_path m (segments p) (as_value (action p))"
  have compat: "compatible (segments p) (tree_paths m)"
    using Cons.prems(3) compatible_mono [of "segments p"] by auto
  have step: "wf_tree ?m \<and> ?m \<noteq> [] \<and> tree_paths ?m = insert (path_pair p) (tree_paths m)"
    using insert_permission_path_correct [OF Cons.prems(2) _ _ compat, of "action p"] Cons.prems(1)
    by (simp add: wf_path_def path_pair_def)
  have "\<forall>q\<in>set ps. compatible (segments q) (tree_paths ?m \<union> path_pair ` set ps)"
    using Cons.prems(3) step by simp
  with Cons.IH [of ?m] Cons.prems(1) step show ?case by simp
qed simp

lemma permission_tree_paths:
  assumes "list_all wf_path ps" and "conflict_free ps"
  obtains m where "permission_tree_from_paths ps = JObject m" and "wf_tree m"
    and "tree_paths m = path_pair ` set ps"
proof -
  have "\<forall>p\<in>set ps. compatible (segments p) (tree_paths [] \<union> path_pair ` set ps)"
    using assms(2) by (auto simp: compatible_def conflict_free_def list_all_iff path_pair_def tree_paths_Nil)
  from fold_insert_correct [OF assms(1) wf_tree_Nil this] show ?thesis
    using that by (simp add: permission_tree_from_paths_def tree_paths_Nil)
qed

lemma collect_actions_wf:
  assumes "list_all (\<lambda>x. \<exists>a. x = JString (as_value a)) xs"
  shows "collect_actions xs S = Some (S \<union> {act. JString act \<in> set xs})"
  using assms by (induction xs arbitrary: S) auto

definition print_path :: "ustr list \<Rightarrow> ustr list \<times> ustr \<Rightarrow> ustr" where
  "print_path path p = join [46] (path @ fst p @ [snd p])"

lemma print_path_below: "print_path path ` below k P = print_path (path @ [k]) ` P"
  by (force simp: print_path_def below_def)

lemma collect_permission_tree_wf:
  assumes "\<forall>(k, v)\<in>set m. is_valid_permission_segment k \<and> wf_value v"
  shows "collect_permission_tree m path S = Some (S \<union> print_path path ` tree_paths m)"
  using assms
proof (induction m path S rule: collect_permission_tree.induct)
  case (1 path S)
  then show ?case by (simp add: tree_paths_Nil)
next
  case (2 key v node path S)
  then have key: "is_valid_permission_segment key" and wf: "wf_value v" by auto
  have split: "tree_paths ((key, v) # node) = below key (value_paths v) \<union> tree_paths node"
    by (simp add: value_paths_JObject)
  show ?case
  proof (cases v)
    case (JArray xs)
    have acts: "collect_actions xs {} = Some {act. JString act \<in> set xs}" and xs: "xs \<noteq> []"
      using wf JArray by (simp_all add: action_array_def collect_actions_wf)
    moreover have "(\<lambda>act. join [46] (path @ [key]) @ [46] @ act) ` {act. JString act \<in> set xs}
        = print_path path ` below key (value_paths v)"
    proof -
      have "below key (value_paths v) = (\<lambda>act. ([key], act)) ` {act. JString act \<in> set xs}"
        using JArray by (auto simp: below_def)
      moreover have "join [46] (path @ [key]) @ [46] @ act = print_path path ([key], act)" for act
        using join_append_last [of "path @ [key]" "[46]" act] by (simp add: print_path_def)
      ultimately show ?thesis by (simp add: image_image)
    qed
    moreover have "\<forall>(k, v)\<in>set node. is_valid_permission_segment k \<and> wf_value v"
      using "2.prems" by simp
    note "2.IH"(1) [OF _ JArray xs acts this]
    ultimately show ?thesis
      using key JArray split acts xs by (simp add: image_Un Un_assoc)
  next
    case (JObject child)
    then have "\<forall>(k, v)\<in>set child. is_valid_permission_segment k \<and> wf_value v"
      using wf by simp
    then show ?thesis
      using "2.IH"(2,3) "2.prems" key JObject split
      by (simp add: image_Un Un_assoc print_path_below)
  qed (use wf in auto)
qed

lemma print_path_pair: "print_path [] (path_pair p) = as_db_value p"
  by (simp add: print_path_def path_pair_def as_db_value_def)

lemma tree_roundtrip:
  assumes "list_all wf_path ps" and "conflict_free ps" and "ps \<noteq> []"
  shows "normalize_permission_tree (permission_tree_from_paths ps) =
    Some (sorted_list_of_set (as_db_value ` set ps))"
proof -
  obtain m where m: "permission_tree_from_paths ps = JObject m" "wf_tree m"
    "tree_paths m = path_pair ` set ps"
    using permission_tree_paths assms by blast
  have "collect_permission_tree m [] {} = Some (print_path [] ` tree_paths m)"
    by (subst collect_permission_tree_wf) (use wf_treeD(2,3) [OF m(2)] in auto)
  also have "print_path [] ` tree_paths m = as_db_value ` set ps"
    by (force simp: m(3) print_path_pair image_image)
  finally show ?thesis
    using assms(3) by (simp add: normalize_permission_tree_def m(1))
qed

text \<open>C12. Building the editor's tree from a non-empty conflict-free list of well-formed paths and
  flattening it gives exactly the permission strings of the list, sorted and without duplicates.\<close>

theorem permission_tree_roundtrip:
  assumes "list_all wf_path ps" and "conflict_free ps" and "ps \<noteq> []"
  shows "normalize_permission_tree (permission_tree_from_paths ps) =
    Some (sorted_list_of_set (as_db_value ` set ps))"
  using assms by (rule tree_roundtrip)

theorem permission_tree_roundtrip_witness:
  "normalize_permission_tree (permission_tree_from_paths
      [from_segments [lit ''events'', lit ''plan''] Update, from_segments [lit ''ace''] Read]) =
    Some (sorted_list_of_set (as_db_value ` set
      [from_segments [lit ''events'', lit ''plan''] Update, from_segments [lit ''ace''] Read]))"
  by (rule permission_tree_roundtrip) code_simp+

definition canonical_permission :: "ustr \<Rightarrow> bool" where
  "canonical_permission x \<longleftrightarrow> map_option as_db_value (from_db_value x) = Some x"

lemma collect_actions_sound:
  "collect_actions xs S = Some S' \<Longrightarrow> \<forall>act\<in>S. \<exists>a. act = as_value a \<Longrightarrow> \<forall>act\<in>S'. \<exists>a. act = as_value a"
  by (induction xs S rule: collect_actions.induct) (auto split: option.splits)

lemma collect_actions_finite: "collect_actions xs S = Some S' \<Longrightarrow> finite S \<Longrightarrow> finite S'"
  by (induction xs S rule: collect_actions.induct) (auto split: option.splits)

lemma collect_actions_finite': "collect_actions xs {} = Some A \<Longrightarrow> finite A"
  using collect_actions_finite by blast

lemma collect_permission_tree_finite:
  "collect_permission_tree m path S = Some S' \<Longrightarrow> finite S \<Longrightarrow> finite S'"
proof (induction m path S arbitrary: S' rule: collect_permission_tree.induct)
  case (2 key v node path S)
  then show ?case
    by (cases v) (auto split: if_splits option.splits simp: collect_actions_finite')
qed simp

lemma canonical_print:
  assumes "list_all is_valid_permission_segment segs" and "segs \<noteq> []"
  shows "canonical_permission (join [46] segs @ [46] @ as_value a)"
proof -
  have "wf_path (from_segments segs a)"
    using assms by (simp add: wf_path_def from_segments_def)
  from path_roundtrip [OF this] have "canonical_permission (as_db_value (from_segments segs a))"
    by (simp add: canonical_permission_def)
  then show ?thesis
    using assms(2) by (simp add: as_db_value_def from_segments_def join_append_last)
qed

lemma collect_permission_tree_sound:
  assumes "collect_permission_tree m path S = Some S'"
    and "list_all is_valid_permission_segment path" and "\<forall>x\<in>S. canonical_permission x"
  shows "\<forall>x\<in>S'. canonical_permission x"
  using assms
proof (induction m path S arbitrary: S' rule: collect_permission_tree.induct)
  case (2 key v node path S)
  from "2.prems" have key: "is_valid_permission_segment key" by (auto split: if_splits)
  show ?case
  proof (cases v)
    case (JArray xs)
    with "2.prems" key obtain acts where acts: "collect_actions xs {} = Some acts" and "xs \<noteq> []"
      by (auto split: if_splits option.splits)
    have "\<forall>x\<in>S \<union> (\<lambda>act. join [46] (path @ [key]) @ [46] @ act) ` acts. canonical_permission x"
      using collect_actions_sound [OF acts] "2.prems"(2,3) key canonical_print [of "path @ [key]"]
      by auto
    with "2.IH"(1) [OF _ JArray _ acts] "2.prems" key JArray acts \<open>xs \<noteq> []\<close> show ?thesis
      by simp
  next
    case (JObject child)
    with "2.prems" key obtain S1 where S1: "collect_permission_tree child (path @ [key]) S = Some S1"
      and rest: "collect_permission_tree node path S1 = Some S'"
      by (auto split: option.splits)
    have "\<forall>x\<in>S1. canonical_permission x"
      using "2.IH"(2) [OF _ JObject S1] "2.prems"(2,3) key by simp
    with "2.IH"(3) [OF _ JObject S1 rest] "2.prems"(2) key show ?thesis by simp
  qed (use "2.prems" key in auto)
qed simp

text \<open>Whatever JSON the editor sends, an accepted tree flattens to a non-empty, strictly sorted
  list of permission strings, each of which is in canonical form.\<close>

theorem normalize_permission_tree_canonical:
  assumes "normalize_permission_tree value = Some names"
  shows "names \<noteq> [] \<and> sorted_wrt (<) names \<and> list_all canonical_permission names"
proof -
  from assms obtain root S where "value = JObject root" and S: "collect_permission_tree root [] {} = Some S"
    and "S \<noteq> {}" and names: "names = sorted_list_of_set S"
    by (auto simp: normalize_permission_tree_def split: json.splits option.splits if_splits)
  moreover have "finite S"
    using collect_permission_tree_finite [OF S] by simp
  moreover have "\<forall>x\<in>S. canonical_permission x"
    by (rule collect_permission_tree_sound [OF S]) simp_all
  ultimately show ?thesis
    by (auto simp: list_all_iff strict_sorted_iff)
qed

theorem normalize_permission_tree_canonical_witness:
  "[lit ''ace.read''] \<noteq> [] \<and> sorted_wrt (<) [lit ''ace.read''] \<and>
    list_all canonical_permission [lit ''ace.read'']"
  by (rule normalize_permission_tree_canonical
      [of "JObject [(lit ''ace'', JArray [JString (lit '' READ'')])]"]) code_simp

end
