(* ===== verification/Catalog.thy ===== *)
theory Catalog
  imports Permissions
begin

text \<open>
  \<open>crates/ois-core/src/catalog.rs\<close>: the permission and role catalog. The lemmas check the
  catalog itself: its names are canonical permission strings and pairwise distinct.
\<close>

definition SERVER_ADMIN_ROLE :: ustr where
  "SERVER_ADMIN_ROLE = lit ''SERVER_ADMIN''"

definition DOMAINS :: "ustr list" where
  "DOMAINS = map lit [
    ''access'', ''ace'', ''api_keys'', ''audit'', ''auth'',
    ''diagnostics'', ''discord'', ''emails'', ''events'', ''facilities'',
    ''feedback'', ''files'', ''flow'', ''integrations'', ''org'',
    ''pages'', ''publications'', ''stats'', ''system'', ''system_rate_limit'',
    ''tmu'', ''training'', ''users'', ''web'']"

definition default_roles :: "ustr list" where
  "default_roles = SERVER_ADMIN_ROLE # map lit [
    ''USER'', ''VATUSA_STAFF'', ''EVENTS_TEAM'', ''EC'', ''AEC'', ''ACE'',
    ''NTMO'', ''DCC_STAFF'', ''CONTROLLER'', ''BOT'', ''SERVICE_APP'']"

definition draft_new_permission_names :: "ustr list" where
  "draft_new_permission_names = map lit [
    ''auth.profile.read'', ''auth.profile.update'', ''auth.sessions.delete'',
    ''access.self.read'', ''access.catalog.read'', ''access.users.read'',
    ''access.users.update'', ''access.groups.read'', ''access.groups.update'',
    ''users.directory.read'', ''audit.logs.read'', ''service_accounts.read'',
    ''service_accounts.create'', ''service_accounts.update'',
    ''service_accounts.delete'', ''events.plan.read'', ''events.plan.update'',
    ''events.rate.update'', ''events.config.update'', ''events.support.update'',
    ''events.staffing_requests.create'', ''events.staffing_requests.read'',
    ''events.staffing_requests.decide'', ''events.slots.claim'',
    ''events.discord.publish'', ''events.debrief.read'', ''events.debrief.create'',
    ''events.availability.update'', ''tmu.ntml.read'', ''tmu.ntml.create'',
    ''tmu.ntml.update'', ''tmu.ntml.delete'', ''tmu.adv.read'', ''tmu.adv.create'',
    ''tmu.adv.update'', ''tmu.adv.publish'', ''tmu.tmi.read'', ''tmu.tmi.create'',
    ''tmu.tmi.update'', ''tmu.tmi.publish'', ''tmu.tmi.delete'',
    ''tmu.program.read'', ''tmu.program.update'', ''tmu.program.delete'',
    ''tmu.groundstop.read'', ''tmu.groundstop.create'', ''tmu.groundstop.publish'',
    ''tmu.groundstop.delete'', ''tmu.gdp.read'', ''tmu.gdp.create'',
    ''tmu.gdp.publish'', ''tmu.gdp.delete'', ''tmu.cfr.assign'',
    ''tmu.delays.read'', ''ace.requests.read'', ''ace.requests.create'',
    ''ace.requests.claim'', ''ace.requests.decide'', ''ace.team.read'',
    ''ace.team.update'', ''flow.programs.read'', ''flow.programs.create'',
    ''flow.programs.update'', ''flow.programs.publish'', ''flow.programs.delete'',
    ''flow.data.read'', ''flow.fca.read'', ''flow.fca.update'',
    ''flow.fca.delete'', ''flow.route.update'', ''flow.route.delete'',
    ''flow.runway.read'', ''flow.runway.update'', ''flow.facility_map.update'',
    ''flow.surface_data.update'', ''flow.aircraft_profiles.read'',
    ''flow.aircraft_profiles.update'', ''flow.sectors.read'',
    ''flow.sector_limits.update'', ''flow.sector_consolidations.update'',
    ''system.jobs.read'', ''system.jobs.update'', ''stats.data.read'',
    ''stats.capture.update'', ''stats.capture.delete'', ''diagnostics.reports.read'',
    ''diagnostics.reports.delete'', ''discord.config.read'', ''discord.config.update'',
    ''integration.jobs.update'', ''facilities.directory.read'',
    ''facilities.directory.update'', ''facilities.docs.read'',
    ''facilities.docs.update'', ''api_keys.key.create'', ''api_keys.key.read'',
    ''api_keys.key.delete'']"

definition catalog_paths :: "permission_path list" where
  "catalog_paths = List.map_filter from_db_value draft_new_permission_names"

lemma catalog_distinct: "distinct draft_new_permission_names"
  unfolding draft_new_permission_names_def
  by (simp add: distinct_map inj_on_def)

lemma catalog_paths_values: "map as_db_value catalog_paths = draft_new_permission_names"
  by code_simp

lemma catalog_wf_paths: "list_all wf_path catalog_paths"
  by (auto simp: catalog_paths_def list_all_iff List.map_filter_def from_db_value_wf)

text \<open>Every name of the catalog is a canonical permission string, no name occurs twice, and
  printing the parsed catalog gives the catalog back.\<close>

theorem catalog_well_formed:
  "distinct draft_new_permission_names \<and> map as_db_value catalog_paths = draft_new_permission_names \<and>
   list_all wf_path catalog_paths"
  using catalog_distinct catalog_paths_values by (auto simp: catalog_wf_paths)

end
