(* ===== verification/AccessScope.thy ===== *)
theory AccessScope
  imports Errors PermissionTree Catalog
begin

text \<open>
  The scope algebra of \<open>backend/src/repos/access.rs\<close>: \<open>PermissionScope\<close> (national with
  exceptions, or a set of ARTCCs), its operations, and \<open>compose\<close>, the one place where rows of
  grants and denies become the authority held for each permission.
  A \<open>HashMap\<close> whose iteration order the code does not depend on is a sorted association list,
  as a \<open>BTreeMap\<close> is; a \<open>HashSet\<close> is a set.
  The locale \<open>authority\<close> is the contract the callers of a scope rely on: capping is
  intersection and the empty scope covers nothing.
\<close>

type_synonym artcc = ustr

datatype permission_scope =
    National "artcc set"
  | Facilities "artcc set"

definition national :: permission_scope where
  "national = National {}"

fun is_national :: "permission_scope \<Rightarrow> bool" where
  "is_national (National _) = True"
| "is_national (Facilities _) = False"

fun allows :: "permission_scope \<Rightarrow> artcc option \<Rightarrow> bool" where
  "allows (National except) (Some a) = (a \<notin> except)"
| "allows (National except) None = (except = {})"
| "allows (Facilities S) (Some a) = (a \<in> S)"
| "allows (Facilities S) None = False"

fun scope_is_empty :: "permission_scope \<Rightarrow> bool" where
  "scope_is_empty (Facilities S) = (S = {})"
| "scope_is_empty (National _) = False"

fun scope_intersect :: "permission_scope \<Rightarrow> permission_scope \<Rightarrow> permission_scope" where
  "scope_intersect (National a) (National b) = National (a \<union> b)"
| "scope_intersect (National except) (Facilities S) = Facilities (S - except)"
| "scope_intersect (Facilities S) (National except) = Facilities (S - except)"
| "scope_intersect (Facilities a) (Facilities b) = Facilities (a \<inter> b)"

locale authority =
  fixes covers :: "'s \<Rightarrow> 'a \<Rightarrow> bool"
    and cap :: "'s \<Rightarrow> 's \<Rightarrow> 's"
    and void :: "'s \<Rightarrow> bool"
  assumes covers_cap: "covers (cap s t) x \<longleftrightarrow> covers s x \<and> covers t x"
    and covers_void: "void s \<Longrightarrow> \<not> covers s x"
begin

lemma cap_left: "covers (cap s t) x \<Longrightarrow> covers s x"
  by (simp add: covers_cap)

lemma cap_right: "covers (cap s t) x \<Longrightarrow> covers t x"
  by (simp add: covers_cap)

lemma cap_comm: "covers (cap s t) = covers (cap t s)"
  by (auto simp: covers_cap)

lemma cap_assoc: "covers (cap (cap s t) u) = covers (cap s (cap t u))"
  by (auto simp: covers_cap)

lemma cap_fold_subset: "covers (fold cap ts s) x \<Longrightarrow> covers s x"
proof (induction ts arbitrary: s)
  case (Cons t ts)
  then have "covers (cap t s) x" by simp
  then show ?case by (rule cap_right)
qed simp

lemma not_void: "covers s x \<Longrightarrow> \<not> void s"
  using covers_void by blast

end

interpretation scope: authority allows scope_intersect scope_is_empty
proof unfold_locales
  fix s t x
  show "allows (scope_intersect s t) x \<longleftrightarrow> allows s x \<and> allows t x"
    by (cases s; cases t; cases x) auto
next
  fix s x
  show "scope_is_empty s \<Longrightarrow> \<not> allows s x"
    by (cases s; cases x) auto
qed

text \<open>A scope intersection covers an ARTCC, or the ARTCC-less case, exactly when both scopes do,
  and the order of the two does not matter.\<close>

theorem intersect_covers_both:
  "(allows (scope_intersect s t) x \<longleftrightarrow> allows s x \<and> allows t x) \<and>
   allows (scope_intersect s t) = allows (scope_intersect t s)"
  using scope.covers_cap scope.cap_comm by blast

subsection \<open>Composing grants and denies\<close>

record effective_row =
  permission_name :: ustr
  row_artcc :: "artcc option"
  granted :: bool

record facts =
  national_allow :: bool
  national_deny :: bool
  fact_allows :: "artcc set"
  fact_denies :: "artcc set"

definition no_facts :: facts where
  "no_facts = \<lparr>national_allow = False, national_deny = False, fact_allows = {}, fact_denies = {}\<rparr>"

fun add_fact :: "artcc option \<Rightarrow> bool \<Rightarrow> facts \<Rightarrow> facts" where
  "add_fact None True f = f\<lparr>national_allow := True\<rparr>"
| "add_fact None False f = f\<lparr>national_deny := True\<rparr>"
| "add_fact (Some a) True f = f\<lparr>fact_allows := insert a (fact_allows f)\<rparr>"
| "add_fact (Some a) False f = f\<lparr>fact_denies := insert a (fact_denies f)\<rparr>"

definition add_row :: "effective_row \<Rightarrow> (ustr \<times> facts) list \<Rightarrow> (ustr \<times> facts) list" where
  "add_row row m = bt_put (permission_name row)
     (add_fact (row_artcc row) (granted row)
       (case bt_get m (permission_name row) of None \<Rightarrow> no_facts | Some f \<Rightarrow> f)) m"

definition scope_of_facts :: "facts \<Rightarrow> permission_scope" where
  "scope_of_facts f =
     (if national_deny f then Facilities {}
      else if national_allow f then National (fact_denies f)
      else Facilities (fact_allows f - fact_denies f))"

definition compose :: "effective_row list \<Rightarrow> (ustr \<times> permission_scope) list" where
  "compose rows = map (\<lambda>(name, f). (name, scope_of_facts f)) (fold add_row rows [])"

definition rows_grant :: "effective_row list \<Rightarrow> ustr \<Rightarrow> artcc option \<Rightarrow> bool \<Rightarrow> bool" where
  "rows_grant rows name artcc g \<longleftrightarrow>
     \<lparr>permission_name = name, row_artcc = artcc, granted = g\<rparr> \<in> set rows"

definition facts_of :: "effective_row list \<Rightarrow> ustr \<Rightarrow> facts" where
  "facts_of rows name =
     \<lparr>national_allow = rows_grant rows name None True,
      national_deny = rows_grant rows name None False,
      fact_allows = {a. rows_grant rows name (Some a) True},
      fact_denies = {a. rows_grant rows name (Some a) False}\<rparr>"

lemma bt_get_map: "bt_get (map (\<lambda>(k, v). (k, f v)) m) k = map_option f (bt_get m k)"
  by (induction m) auto

lemma facts_of_absent: "name \<notin> permission_name ` set rows \<Longrightarrow> facts_of rows name = no_facts"
  by (force simp: facts_of_def no_facts_def rows_grant_def)

lemma facts_of_snoc:
  "facts_of (rows @ [row]) name =
     (if permission_name row = name then add_fact (row_artcc row) (granted row) (facts_of rows name)
      else facts_of rows name)"
proof (cases row)
  case (fields n a g)
  show ?thesis
    by (cases a; cases g) (auto simp: fields facts_of_def rows_grant_def)
qed

lemma bt_get_add_row:
  "bt_get (add_row row m) name =
     (if permission_name row = name
      then Some (add_fact (row_artcc row) (granted row)
        (case bt_get m name of None \<Rightarrow> no_facts | Some f \<Rightarrow> f))
      else bt_get m name)"
  by (auto simp: add_row_def)

lemma fold_add_row:
  "bt_get (fold add_row rows []) name =
     (if name \<in> permission_name ` set rows then Some (facts_of rows name) else None)"
proof (induction rows rule: rev_induct)
  case (snoc row rows)
  show ?case
  proof (cases "permission_name row = name")
    case True
    have "(case bt_get (fold add_row rows []) name of None \<Rightarrow> no_facts | Some f \<Rightarrow> f) = facts_of rows name"
      by (simp add: snoc.IH facts_of_absent)
    with True show ?thesis by (simp add: bt_get_add_row facts_of_snoc)
  next
    case False
    with snoc.IH show ?thesis by (simp add: bt_get_add_row facts_of_snoc)
  qed
qed simp

lemma compose_get:
  "bt_get (compose rows) name =
     (if name \<in> permission_name ` set rows then Some (scope_of_facts (facts_of rows name)) else None)"
  by (simp add: compose_def bt_get_map fold_add_row)

lemma fold_add_row_inv: "bt_inv m \<Longrightarrow> bt_inv (fold add_row rows m)"
  by (induction rows arbitrary: m) (auto simp: add_row_def bt_put_inv)

lemma compose_inv: "bt_inv (compose rows)"
proof -
  have "map fst (compose rows) = map fst (fold add_row rows [])"
    by (auto simp: compose_def)
  then show ?thesis
    using fold_add_row_inv [of "[]" rows] by (simp add: bt_inv_def)
qed

lemma compose_allows_Some:
  assumes "bt_get (compose rows) name = Some s"
  shows "allows s (Some a) \<longleftrightarrow>
    (rows_grant rows name None True \<or> rows_grant rows name (Some a) True) \<and>
    \<not> rows_grant rows name None False \<and> \<not> rows_grant rows name (Some a) False"
  using assms by (auto simp: compose_get scope_of_facts_def facts_of_def split: if_splits)

lemma compose_allows_None:
  assumes "bt_get (compose rows) name = Some s"
  shows "allows s None \<longleftrightarrow> rows_grant rows name None True \<and>
    \<not> rows_grant rows name None False \<and> (\<forall>a. \<not> rows_grant rows name (Some a) False)"
  using assms by (auto simp: compose_get scope_of_facts_def facts_of_def split: if_splits)

text \<open>C10. The deny rule: a composed scope covers an ARTCC exactly when some row grants it there or
  nationally and no row denies it there or nationally; it covers the ARTCC-less case exactly when a
  national row grants it and no row at any scope denies it.\<close>

theorem compose_deny_rule:
  assumes "bt_get (compose rows) name = Some s"
  shows "(allows s (Some a) \<longleftrightarrow>
      (rows_grant rows name None True \<or> rows_grant rows name (Some a) True) \<and>
      \<not> rows_grant rows name None False \<and> \<not> rows_grant rows name (Some a) False) \<and>
    (allows s None \<longleftrightarrow> rows_grant rows name None True \<and>
      \<not> rows_grant rows name None False \<and> (\<forall>b. \<not> rows_grant rows name (Some b) False))"
  using compose_allows_Some [OF assms] compose_allows_None [OF assms] by blast

definition deny_rule_rows :: "effective_row list" where
  "deny_rule_rows =
     [\<lparr>permission_name = lit ''flow.fca.update'', row_artcc = None, granted = True\<rparr>,
      \<lparr>permission_name = lit ''flow.fca.update'', row_artcc = Some (lit ''ZDC''), granted = False\<rparr>]"

theorem compose_deny_rule_witness:
  "\<not> allows (National {lit ''ZDC''}) (Some (lit ''ZDC'')) \<and> allows (National {lit ''ZDC''}) (Some (lit ''ZNY'')) \<and>
   \<not> allows (National {lit ''ZDC''}) None"
proof -
  have s: "bt_get (compose deny_rule_rows) (lit ''flow.fca.update'') = Some (National {lit ''ZDC''})"
    by code_simp
  show ?thesis
    using compose_deny_rule [OF s, of "lit ''ZDC''"] compose_deny_rule [OF s, of "lit ''ZNY''"]
    by (auto simp: deny_rule_rows_def rows_grant_def)
qed

end
