(* ===== verification/AccessControl.thy ===== *)
theory AccessControl
  imports AccessScope "HOL-Library.Product_Lexorder"
begin

text \<open>
  The resolver of \<open>backend/src/repos/access.rs\<close> and \<open>repos/api_keys.rs\<close> over the tables of
  the \<open>access\<close> schema, with the view \<open>access.v_effective_user_permissions\<close> of migration
  0091, and the DB-backed half of \<open>backend/src/auth/acl.rs\<close>. A table is the list of its rows;
  a query that the code maps to \<open>ApiError::Internal\<close> when the database fails is modelled where
  it succeeds. \<open>now\<close> is the transaction's clock in milliseconds.
\<close>

subsection \<open>Tables\<close>

datatype grant_source = Manual | Vatusa | System

record user_role_row =
  ur_user :: ustr
  ur_role :: ustr
  ur_artcc :: "artcc option"
  ur_source :: grant_source

record user_permission_row =
  up_user :: ustr
  up_permission :: ustr
  up_granted :: bool
  up_artcc :: "artcc option"
  up_source :: grant_source

record sa_role_row =
  sar_account :: ustr
  sar_role :: ustr
  sar_artcc :: "artcc option"
  sar_ends_at :: "int option"

record access_db =
  t_user_roles :: "user_role_row list"
  t_role_permissions :: "(ustr \<times> ustr) list"
  t_permissions :: "ustr list"
  t_user_permissions :: "user_permission_row list"
  t_sa_roles :: "sa_role_row list"
  t_sa_permissions :: "(ustr \<times> ustr \<times> artcc option) list"
  t_key_permissions :: "(ustr \<times> ustr \<times> artcc option) list"

fun source_as_str :: "grant_source \<Rightarrow> ustr" where
  "source_as_str Manual = lit ''manual''"
| "source_as_str Vatusa = lit ''vatusa''"
| "source_as_str System = lit ''system''"

definition SYSTEM_ROLES :: "ustr list" where
  "SYSTEM_ROLES = map lit [''SERVER_ADMIN'', ''USER'', ''BOT'', ''SERVICE_APP'']"

definition is_system_role :: "ustr \<Rightarrow> bool" where
  "is_system_role role_name = List.member SYSTEM_ROLES role_name"

subsection \<open>Users\<close>

definition v_effective_user_permissions :: "access_db \<Rightarrow> ustr \<Rightarrow> effective_row list" where
  "v_effective_user_permissions db user_id =
     [\<lparr>permission_name = p, row_artcc = ur_artcc ur, granted = True\<rparr>.
        ur \<leftarrow> t_user_roles db, ur_user ur = user_id, (r, p) \<leftarrow> t_role_permissions db, r = ur_role ur] @
     (if list_ex (\<lambda>ur. ur_user ur = user_id \<and> ur_role ur = SERVER_ADMIN_ROLE) (t_user_roles db)
      then map (\<lambda>p. \<lparr>permission_name = p, row_artcc = None, granted = True\<rparr>) (t_permissions db)
      else []) @
     map (\<lambda>up. \<lparr>permission_name = up_permission up, row_artcc = up_artcc up, granted = up_granted up\<rparr>)
       (filter (\<lambda>up. up_user up = user_id) (t_user_permissions db))"

definition fetch_effective_permissions :: "access_db \<Rightarrow> ustr \<Rightarrow> (ustr \<times> permission_scope) list" where
  "fetch_effective_permissions db user_id = compose (v_effective_user_permissions db user_id)"

definition scope_or_nothing :: "permission_scope option \<Rightarrow> permission_scope" where
  "scope_or_nothing s = (case s of None \<Rightarrow> Facilities {} | Some s \<Rightarrow> s)"

definition user_permission_scope :: "access_db \<Rightarrow> ustr \<Rightarrow> ustr \<Rightarrow> permission_scope" where
  "user_permission_scope db user_id name =
     scope_or_nothing (bt_get (fetch_effective_permissions db user_id) name)"

definition fetch_user_permission_names :: "access_db \<Rightarrow> ustr \<Rightarrow> ustr list" where
  "fetch_user_permission_names db user_id =
     sort (map fst (filter (\<lambda>(_, s). \<not> scope_is_empty s) (fetch_effective_permissions db user_id)))"

definition fetch_user_role_names :: "access_db \<Rightarrow> ustr \<Rightarrow> ustr list" where
  "fetch_user_role_names db user_id =
     sort (remdups (map ur_role (filter (\<lambda>ur. ur_user ur = user_id) (t_user_roles db))))"

definition fetch_group_permissions :: "access_db \<Rightarrow> ustr \<Rightarrow> ustr list" where
  "fetch_group_permissions db role_name =
     sort (map snd (filter (\<lambda>(r, p). r = role_name) (t_role_permissions db)))"

definition fetch_user_direct_grants :: "access_db \<Rightarrow> ustr \<Rightarrow> (artcc option \<times> ustr) list" where
  "fetch_user_direct_grants db user_id =
     sort (remdups (map (\<lambda>up. (up_artcc up, up_permission up))
       (filter (\<lambda>up. up_user up = user_id \<and> up_granted up) (t_user_permissions db))))"

definition fetch_user_role_grants :: "access_db \<Rightarrow> ustr \<Rightarrow> (artcc option \<times> ustr) list" where
  "fetch_user_role_grants db user_id =
     sort (remdups (map (\<lambda>ur. (ur_artcc ur, ur_role ur))
       (filter (\<lambda>ur. ur_user ur = user_id) (t_user_roles db))))"

subsection \<open>Denylists, service accounts and API keys\<close>

definition API_KEY_FORBIDDEN_DOMAINS :: "ustr list" where
  "API_KEY_FORBIDDEN_DOMAINS = map lit [''api_keys'']"

definition SERVICE_ACCOUNT_FORBIDDEN_DOMAINS :: "ustr list" where
  "SERVICE_ACCOUNT_FORBIDDEN_DOMAINS = map lit [''api_keys'', ''service_accounts'']"

definition domain_in :: "ustr \<Rightarrow> ustr list \<Rightarrow> bool" where
  "domain_in name domains =
     List.member domains (case split_on 46 name of [] \<Rightarrow> [] | domain # _ \<Rightarrow> domain)"

definition is_forbidden_for_key :: "ustr \<Rightarrow> bool" where
  "is_forbidden_for_key name = domain_in name API_KEY_FORBIDDEN_DOMAINS"

definition is_forbidden_for_service_account :: "ustr \<Rightarrow> bool" where
  "is_forbidden_for_service_account name = domain_in name SERVICE_ACCOUNT_FORBIDDEN_DOMAINS"

definition sa_role_live :: "int \<Rightarrow> sa_role_row \<Rightarrow> bool" where
  "sa_role_live now sar = (case sar_ends_at sar of None \<Rightarrow> True | Some t \<Rightarrow> now < t)"

definition fetch_service_account_grants :: "access_db \<Rightarrow> int \<Rightarrow> ustr \<Rightarrow> (ustr \<times> artcc option) list" where
  "fetch_service_account_grants db now sa =
     filter (\<lambda>(name, _). \<not> is_forbidden_for_service_account name) (remdups
       ([(p, sar_artcc sar). sar \<leftarrow> t_sa_roles db, sar_account sar = sa, sa_role_live now sar,
           (r, p) \<leftarrow> t_role_permissions db, r = sar_role sar] @
        [(p, a). (s, p, a) \<leftarrow> t_sa_permissions db, s = sa]))"

definition scope_of_artccs :: "artcc option list \<Rightarrow> permission_scope" where
  "scope_of_artccs rows =
     (if list_ex (\<lambda>a. a = None) rows then national
      else Facilities (set (List.map_filter (\<lambda>a. a) rows)))"

definition service_account_permission_scope :: "access_db \<Rightarrow> int \<Rightarrow> ustr \<Rightarrow> ustr \<Rightarrow> permission_scope" where
  "service_account_permission_scope db now sa name = scope_of_artccs
     (map snd (filter (\<lambda>(n, _). n = name) (fetch_service_account_grants db now sa)))"

definition fetch_service_account_permission_names :: "access_db \<Rightarrow> int \<Rightarrow> ustr \<Rightarrow> ustr list" where
  "fetch_service_account_permission_names db now sa =
     sort (remdups (map fst (fetch_service_account_grants db now sa)))"

definition fetch_service_account_role_names :: "access_db \<Rightarrow> int \<Rightarrow> ustr \<Rightarrow> ustr list" where
  "fetch_service_account_role_names db now sa =
     sort (remdups (map sar_role
       (filter (\<lambda>sar. sar_account sar = sa \<and> sa_role_live now sar) (t_sa_roles db))))"

definition fetch_key_permission_names :: "access_db \<Rightarrow> ustr \<Rightarrow> ustr list" where
  "fetch_key_permission_names db key =
     sort (remdups [p. (k, p, _) \<leftarrow> t_key_permissions db, k = key])"

definition key_granted_scope :: "access_db \<Rightarrow> ustr \<Rightarrow> ustr \<Rightarrow> permission_scope" where
  "key_granted_scope db key name =
     scope_of_artccs [a. (k, p, a) \<leftarrow> t_key_permissions db, k = key, p = name]"

subsection \<open>What a credential may be granted\<close>

fun check_grants :: "(ustr \<times> permission_scope) list \<Rightarrow> (ustr \<Rightarrow> bool) \<Rightarrow>
    (ustr \<times> artcc option) list \<Rightarrow> unit result" where
  "check_grants granter forbidden [] = Inr ()"
| "check_grants granter forbidden ((name, artcc) # requested) =
     (if forbidden name then Inl BadRequest
      else case bt_get granter name of
        None \<Rightarrow> Inl Forbidden
      | Some scope \<Rightarrow>
          if \<not> allows scope artcc then Inl Forbidden
          else check_grants granter forbidden requested)"

definition validate_grants :: "access_db \<Rightarrow> ustr \<Rightarrow> (ustr \<times> artcc option) list \<Rightarrow>
    (ustr \<Rightarrow> bool) \<Rightarrow> unit result" where
  "validate_grants db granter requested forbidden =
     check_grants (fetch_effective_permissions db granter) forbidden requested"

definition validate_subset :: "access_db \<Rightarrow> ustr \<Rightarrow> (ustr \<times> artcc option) list \<Rightarrow> unit result" where
  "validate_subset db owner requested = validate_grants db owner requested is_forbidden_for_key"

record grantable_permission =
  gp_permission :: ustr
  gp_national :: bool
  gp_artccs :: "artcc list"

fun grantable_body :: "ustr \<times> permission_scope \<Rightarrow> grantable_permission" where
  "grantable_body (p, National except) =
     (if except = {} then \<lparr>gp_permission = p, gp_national = True, gp_artccs = []\<rparr>
      else \<lparr>gp_permission = p, gp_national = False, gp_artccs = []\<rparr>)"
| "grantable_body (p, Facilities S) =
     \<lparr>gp_permission = p, gp_national = False, gp_artccs = sorted_list_of_set S\<rparr>"

definition grantable_for :: "access_db \<Rightarrow> ustr \<Rightarrow> (ustr \<Rightarrow> bool) \<Rightarrow> grantable_permission list" where
  "grantable_for db user_id forbidden =
     sort_key gp_permission (map grantable_body
       (filter (\<lambda>(p, s). \<not> (forbidden p \<or> scope_is_empty s)) (fetch_effective_permissions db user_id)))"

subsection \<open>\<open>auth/acl.rs\<close>\<close>

definition is_server_admin :: "ustr list \<Rightarrow> bool" where
  "is_server_admin roles = List.member roles SERVER_ADMIN_ROLE"

fun permission_names_to_permissions :: "ustr list \<Rightarrow> permission_path list result" where
  "permission_names_to_permissions [] = Inr []"
| "permission_names_to_permissions (name # names) =
     (case from_db_value name of
        None \<Rightarrow> Inl Internal
      | Some p \<Rightarrow> bind_result (permission_names_to_permissions names) (\<lambda>ps. Inr (p # ps)))"

definition permission_tree_from_names :: "ustr list \<Rightarrow> json result" where
  "permission_tree_from_names names =
     bind_result (permission_names_to_permissions names) (\<lambda>ps. Inr (permission_tree_from_paths ps))"

definition fetch_user_access :: "access_db option \<Rightarrow> ustr \<Rightarrow> (ustr list \<times> permission_path list) result" where
  "fetch_user_access pool user_id = (case pool of None \<Rightarrow> Inr ([], [])
   | Some db \<Rightarrow>
       bind_result (permission_names_to_permissions (fetch_user_permission_names db user_id))
         (\<lambda>ps. Inr (fetch_user_role_names db user_id, ps)))"

definition fetch_service_account_access ::
    "access_db option \<Rightarrow> int \<Rightarrow> ustr \<Rightarrow> (ustr list \<times> permission_path list) result" where
  "fetch_service_account_access pool now sa = (case pool of None \<Rightarrow> Inr ([], [])
   | Some db \<Rightarrow>
       bind_result (permission_names_to_permissions (fetch_service_account_permission_names db now sa))
         (\<lambda>ps. Inr (fetch_service_account_role_names db now sa, ps)))"

definition key_effective_names :: "access_db \<Rightarrow> ustr \<Rightarrow> ustr \<Rightarrow> ustr list" where
  "key_effective_names db key owner_user_id =
     (let owner = fetch_effective_permissions db owner_user_id in
      filter (\<lambda>name. \<not> is_forbidden_for_key name \<and>
          (case bt_get owner name of
             None \<Rightarrow> False
           | Some owner_scope \<Rightarrow> \<not> scope_is_empty owner_scope \<and>
               \<not> scope_is_empty (scope_intersect owner_scope (key_granted_scope db key name))))
        (fetch_key_permission_names db key))"

definition fetch_api_key_access ::
    "access_db option \<Rightarrow> ustr \<Rightarrow> ustr \<Rightarrow> (ustr list \<times> permission_path list) result" where
  "fetch_api_key_access pool key owner_user_id = (case pool of None \<Rightarrow> Inr ([], [])
   | Some db \<Rightarrow>
       bind_result (permission_names_to_permissions (key_effective_names db key owner_user_id))
         (\<lambda>ps. Inr ([], ps)))"

record scope_access =
  sa_artcc :: "artcc option"
  sa_role_names :: "ustr list"
  sa_permissions :: json

record user_access_body =
  uab_id :: ustr
  uab_cid :: int
  uab_server_admin :: bool
  uab_scopes :: "scope_access list"

definition scope_entry :: "(artcc option \<times> (ustr list \<times> ustr list)) list \<Rightarrow> artcc option \<Rightarrow>
    ustr list \<times> ustr list" where
  "scope_entry m artcc = (case bt_get m artcc of None \<Rightarrow> ([], []) | Some e \<Rightarrow> e)"

definition push_role :: "artcc option \<times> ustr \<Rightarrow> (artcc option \<times> (ustr list \<times> ustr list)) list \<Rightarrow>
    (artcc option \<times> (ustr list \<times> ustr list)) list" where
  "push_role ar m = (let (rs, ps) = scope_entry m (fst ar) in bt_put (fst ar) (rs @ [snd ar], ps) m)"

definition push_grant :: "artcc option \<times> ustr \<Rightarrow> (artcc option \<times> (ustr list \<times> ustr list)) list \<Rightarrow>
    (artcc option \<times> (ustr list \<times> ustr list)) list" where
  "push_grant ap m = (let (rs, ps) = scope_entry m (fst ap) in bt_put (fst ap) (rs, ps @ [snd ap]) m)"

fun scope_accesses :: "(artcc option \<times> (ustr list \<times> ustr list)) list \<Rightarrow> scope_access list result" where
  "scope_accesses [] = Inr []"
| "scope_accesses ((artcc, (role_names, perm_names)) # m) =
     bind_result (permission_tree_from_names perm_names) (\<lambda>tree.
     bind_result (scope_accesses m) (\<lambda>rest.
       Inr (\<lparr>sa_artcc = artcc, sa_role_names = role_names, sa_permissions = tree\<rparr> # rest)))"

definition user_access_body_of :: "ustr \<Rightarrow> int \<Rightarrow> (artcc option \<times> ustr) list \<Rightarrow>
    (artcc option \<times> ustr) list \<Rightarrow> user_access_body result" where
  "user_access_body_of user_id cid grants roles =
     (let national_roles = map snd (filter (\<lambda>(artcc, _). artcc = None) roles);
          m = fold push_grant grants (fold push_role roles [(None, ([], []))])
      in bind_result (scope_accesses m) (\<lambda>scopes.
           Inr \<lparr>uab_id = user_id, uab_cid = cid, uab_server_admin = is_server_admin national_roles,
                uab_scopes = scopes\<rparr>))"

fun replace_national :: "json \<Rightarrow> scope_access list \<Rightarrow> scope_access list" where
  "replace_national tree [] = []"
| "replace_national tree (s # ss) =
     (if sa_artcc s = None then s\<lparr>sa_permissions := tree\<rparr> # ss else s # replace_national tree ss)"

definition apply_server_admin_catalog :: "user_access_body \<Rightarrow> ustr list \<Rightarrow> user_access_body result" where
  "apply_server_admin_catalog body catalog =
     bind_result (permission_tree_from_names catalog) (\<lambda>tree.
       Inr (body\<lparr>uab_scopes := replace_national tree (uab_scopes body)\<rparr>))"

subsection \<open>The gates and the scopes agree\<close>

lemma compose_distinct_keys: "distinct (map fst (compose rows))"
  using compose_inv by (simp add: bt_inv_def)

lemma scope_or_nothing_empty:
  "\<not> scope_is_empty (scope_or_nothing s) \<longleftrightarrow> (\<exists>t. s = Some t \<and> \<not> scope_is_empty t)"
  by (cases s) (auto simp: scope_or_nothing_def)

lemma user_names_iff:
  "name \<in> set (fetch_user_permission_names db u) \<longleftrightarrow> \<not> scope_is_empty (user_permission_scope db u name)"
proof -
  have "name \<in> set (fetch_user_permission_names db u) \<longleftrightarrow>
      (\<exists>s. (name, s) \<in> set (fetch_effective_permissions db u) \<and> \<not> scope_is_empty s)"
    by (force simp: fetch_user_permission_names_def)
  also have "\<dots> \<longleftrightarrow> \<not> scope_is_empty (user_permission_scope db u name)"
    by (auto simp: user_permission_scope_def scope_or_nothing_empty fetch_effective_permissions_def
        bt.iter [OF compose_inv])
  finally show ?thesis .
qed

lemma scope_of_artccs_empty: "scope_is_empty (scope_of_artccs rows) \<longleftrightarrow> rows = []"
proof (induction rows)
  case Nil
  then show ?case by (simp add: scope_of_artccs_def List.map_filter_def)
next
  case (Cons a rows)
  then show ?case
    by (cases a) (auto simp: scope_of_artccs_def List.map_filter_def national_def)
qed

lemma scope_of_artccs_allows: "allows (scope_of_artccs rows) x \<longleftrightarrow> None \<in> set rows \<or> x \<noteq> None \<and> x \<in> set rows"
  by (cases x) (auto simp: scope_of_artccs_def List.map_filter_def national_def list_ex_iff image_iff)

lemma service_account_names_iff:
  "name \<in> set (fetch_service_account_permission_names db now sa) \<longleftrightarrow>
     \<not> scope_is_empty (service_account_permission_scope db now sa name)"
proof -
  have "name \<in> set (fetch_service_account_permission_names db now sa) \<longleftrightarrow>
      (\<exists>a. (name, a) \<in> set (fetch_service_account_grants db now sa))"
    by (force simp: fetch_service_account_permission_names_def)
  also have "\<dots> \<longleftrightarrow> filter (\<lambda>(n, _). n = name) (fetch_service_account_grants db now sa) \<noteq> []"
    by (auto simp: filter_empty_conv)
  finally show ?thesis
    by (simp add: service_account_permission_scope_def scope_of_artccs_empty)
qed

lemma service_account_never_forbidden:
  "name \<in> set (fetch_service_account_permission_names db now sa) \<Longrightarrow>
     \<not> is_forbidden_for_service_account name"
  by (auto simp: fetch_service_account_permission_names_def fetch_service_account_grants_def)

lemma intersect_not_empty_left:
  "\<not> scope_is_empty (scope_intersect s t) \<Longrightarrow> \<not> scope_is_empty s"
  by (cases s; cases t) auto

lemma intersect_not_empty_right:
  "\<not> scope_is_empty (scope_intersect s t) \<Longrightarrow> \<not> scope_is_empty t"
  by (cases s; cases t) auto

lemma key_names_iff:
  "name \<in> set (fetch_key_permission_names db key) \<longleftrightarrow> \<not> scope_is_empty (key_granted_scope db key name)"
  unfolding key_granted_scope_def scope_of_artccs_empty fetch_key_permission_names_def
  by (auto simp: concat_eq_Nil_conv split: if_splits prod.splits)

lemma intersect_nothing: "scope_is_empty (scope_intersect (Facilities {}) t)"
  by (cases t) auto

lemma key_effective_names_iff:
  "name \<in> set (key_effective_names db key owner) \<longleftrightarrow>
     \<not> is_forbidden_for_key name \<and>
     \<not> scope_is_empty (scope_intersect (user_permission_scope db owner name) (key_granted_scope db key name))"
proof (cases "bt_get (fetch_effective_permissions db owner) name")
  case None
  then show ?thesis
    by (simp add: key_effective_names_def user_permission_scope_def scope_or_nothing_def intersect_nothing)
next
  case (Some s)
  then show ?thesis
    using intersect_not_empty_left [of s "key_granted_scope db key name"]
      intersect_not_empty_right [of s "key_granted_scope db key name"]
    by (auto simp: key_effective_names_def key_names_iff user_permission_scope_def scope_or_nothing_def)
qed

lemma permission_names_to_permissions_Inr:
  "permission_names_to_permissions names = Inr ps \<longleftrightarrow> map from_db_value names = map Some ps"
proof (induction names arbitrary: ps)
  case Nil
  then show ?case by auto
next
  case (Cons name names)
  then show ?case
    by (cases ps) (auto simp: bind_result_Inr_iff split: option.splits)
qed

lemma permission_names_to_permissions_canonical:
  assumes "list_all canonical_permission names"
  obtains ps where "permission_names_to_permissions names = Inr ps" and "map as_db_value ps = names"
    and "list_all wf_path ps"
proof -
  let ?ps = "map (the \<circ> from_db_value) names"
  have "map from_db_value names = map Some ?ps"
    using assms by (auto simp: list_all_iff canonical_permission_def)
  moreover have "map as_db_value ?ps = names"
    using assms by (auto simp: list_all_iff canonical_permission_def intro!: map_idI)
  moreover have "list_all wf_path ?ps"
    using assms by (fastforce simp: list_all_iff canonical_permission_def dest: from_db_value_wf)
  ultimately show ?thesis
    using that permission_names_to_permissions_Inr by metis
qed

lemma as_db_value_inject: "wf_path p \<Longrightarrow> wf_path q \<Longrightarrow> as_db_value p = as_db_value q \<Longrightarrow> p = q"
  using path_roundtrip by (metis option.inject)

lemma member_iff_name:
  assumes "map as_db_value ps = names" and "list_all wf_path ps" and "wf_path p"
  shows "p \<in> set ps \<longleftrightarrow> as_db_value p \<in> set names"
proof
  assume "as_db_value p \<in> set names"
  then obtain q where "q \<in> set ps" and "as_db_value q = as_db_value p"
    using assms(1) by auto
  with assms(2,3) show "p \<in> set ps"
    using as_db_value_inject by (auto simp: list_all_iff)
qed (use assms(1) in auto)

subsection \<open>Delegation\<close>

lemma check_grants_ok_iff:
  "check_grants granter forbidden requested = Inr () \<longleftrightarrow>
     (\<forall>(name, artcc)\<in>set requested. \<not> forbidden name \<and>
        (\<exists>s. bt_get granter name = Some s \<and> allows s artcc))"
  by (induction granter forbidden requested rule: check_grants.induct) (auto split: option.splits)

lemma scope_or_nothing_allows: "allows (scope_or_nothing s) x \<longleftrightarrow> (\<exists>t. s = Some t \<and> allows t x)"
  by (cases s; cases x) (auto simp: scope_or_nothing_def)

lemma validate_grants_ok_iff:
  "validate_grants db granter requested forbidden = Inr () \<longleftrightarrow>
     (\<forall>(name, artcc)\<in>set requested. \<not> forbidden name \<and> allows (user_permission_scope db granter name) artcc)"
  by (auto simp: validate_grants_def check_grants_ok_iff user_permission_scope_def scope_or_nothing_allows)

definition offered :: "grantable_permission list \<Rightarrow> ustr \<Rightarrow> artcc option \<Rightarrow> bool" where
  "offered gps name artcc \<longleftrightarrow> list_ex (\<lambda>gp. gp_permission gp = name \<and>
     (gp_national gp \<or> (case artcc of None \<Rightarrow> False | Some a \<Rightarrow> List.member (gp_artccs gp) a))) gps"

lemma finite_composed_scope:
  "bt_get (compose rows) name = Some (Facilities S) \<Longrightarrow> finite S"
proof -
  have "finite {a. rows_grant rows name (Some a) True}"
  proof (rule finite_subset)
    show "{a. rows_grant rows name (Some a) True} \<subseteq> the ` row_artcc ` set rows"
      by (force simp: rows_grant_def)
  qed simp
  then show "bt_get (compose rows) name = Some (Facilities S) \<Longrightarrow> finite S"
    by (auto simp: compose_get scope_of_facts_def facts_of_def split: if_splits)
qed

lemma offered_accepted:
  assumes "offered (grantable_for db u forbidden) name artcc"
  shows "\<not> forbidden name \<and> allows (user_permission_scope db u name) artcc"
proof -
  from assms obtain s where s: "bt_get (fetch_effective_permissions db u) name = Some s"
    and nf: "\<not> forbidden name"
    and gp: "gp_national (grantable_body (name, s)) \<or>
      (\<exists>a. artcc = Some a \<and> a \<in> set (gp_artccs (grantable_body (name, s))))"
    by (auto simp: offered_def grantable_for_def list_ex_iff fetch_effective_permissions_def
        bt.iter [OF compose_inv] split: option.splits)
      (metis grantable_body.simps grantable_permission.select_convs(1) permission_scope.exhaust)+
  have "allows s artcc"
  proof (cases s)
    case (National except)
    with gp show ?thesis by (cases artcc) (auto split: if_splits)
  next
    case (Facilities S)
    with gp s finite_composed_scope show ?thesis
      by (auto simp: fetch_effective_permissions_def)
  qed
  with nf s show ?thesis
    by (simp add: user_permission_scope_def scope_or_nothing_def)
qed

text \<open>C2. A request to delegate is accepted exactly when every entry is outside the denylist and
  within the granter's live authority at the requested scope; and whatever the picker offers is
  accepted.\<close>

theorem delegation_bounded:
  "(validate_grants db granter requested forbidden = Inr () \<longleftrightarrow>
     (\<forall>(name, artcc)\<in>set requested. \<not> forbidden name \<and> allows (user_permission_scope db granter name) artcc)) \<and>
   (offered (grantable_for db granter forbidden) name artcc \<longrightarrow>
     validate_grants db granter [(name, artcc)] forbidden = Inr ())"
  using offered_accepted [of db granter forbidden name artcc] by (simp add: validate_grants_ok_iff)

definition sample_db :: access_db where
  "sample_db =
     \<lparr>t_user_roles = [\<lparr>ur_user = lit ''u1'', ur_role = lit ''EC'', ur_artcc = Some (lit ''ZDC''),
        ur_source = Manual\<rparr>],
      t_role_permissions = [(lit ''EC'', lit ''events.plan.update''), (lit ''BOT'', lit ''integration.jobs.update'')],
      t_permissions = map lit [''events.plan.update'', ''flow.fca.update'', ''integration.jobs.update''],
      t_user_permissions = [\<lparr>up_user = lit ''u1'', up_permission = lit ''flow.fca.update'',
        up_granted = True, up_artcc = None, up_source = Manual\<rparr>],
      t_sa_roles = [\<lparr>sar_account = lit ''bot'', sar_role = lit ''BOT'', sar_artcc = None,
        sar_ends_at = None\<rparr>],
      t_sa_permissions = [],
      t_key_permissions = [(lit ''k1'', lit ''events.plan.update'', None)]\<rparr>"

theorem delegation_bounded_witness:
  "validate_grants sample_db (lit ''u1'') [(lit ''events.plan.update'', Some (lit ''ZDC''))]
     is_forbidden_for_key = Inr ()"
proof -
  have "offered (grantable_for sample_db (lit ''u1'') is_forbidden_for_key)
      (lit ''events.plan.update'') (Some (lit ''ZDC''))"
    by code_simp
  then show ?thesis
    using delegation_bounded [of sample_db "lit ''u1''" "[]" is_forbidden_for_key
        "lit ''events.plan.update''" "Some (lit ''ZDC'')"] by blast
qed

end
