(* ===== verification/Authorization.thy ===== *)
theory Authorization
  imports AccessControl
begin

text \<open>
  Who a request is and what it may do: \<open>auth/context.rs\<close>, \<open>auth/principal.rs\<close>,
  \<open>auth/middleware.rs\<close> and \<open>auth/require_permission.rs\<close>. The session, API-key and
  service-account lookups are SQL over hashed tokens; they are arguments (\<open>lookups\<close>), and
  \<open>resolve_current_user\<close> also returns the lookups it made, since which tables a token is
  tried against is part of what the code promises. A header is the text \<open>HeaderValue::to_str\<close>
  gives, \<open>None\<close> when the header is absent or not visible ASCII (the code treats both alike).
\<close>

subsection \<open>Principals\<close>

record current_user =
  cu_id :: ustr
  cu_cid :: int
  cu_email :: ustr
  cu_display_name :: ustr
  cu_rating :: "ustr option"
  cu_primary_role :: "ustr option"

record current_service_account =
  csa_id :: ustr
  csa_key :: ustr
  csa_name :: ustr
  csa_rate_limit_per_min :: "int option"

record current_api_key =
  cak_id :: ustr
  cak_owner_user_id :: ustr
  cak_prefix :: ustr
  cak_name :: ustr
  cak_rate_limit_per_min :: "int option"

datatype principal =
    User current_user
  | ApiKey current_api_key
  | ServiceAccount current_service_account

record attribution =
  at_user_id :: "ustr option"
  at_actor_id :: "ustr option"

definition machine_actor :: "attribution \<Rightarrow> ustr option" where
  "machine_actor a = (case at_user_id a of
     Some _ \<Rightarrow> None
   | None \<Rightarrow> Some (case at_actor_id a of None \<Rightarrow> [] | Some actor \<Rightarrow> actor))"

definition principal_require :: "current_user option \<Rightarrow> current_api_key option \<Rightarrow> principal result" where
  "principal_require user api_key = (case user of
     Some u \<Rightarrow> Inr (User u)
   | None \<Rightarrow> (case api_key of Some k \<Rightarrow> Inr (ApiKey k) | None \<Rightarrow> Inl Unauthorized))"

definition require_any :: "current_user option \<Rightarrow> current_service_account option \<Rightarrow>
    current_api_key option \<Rightarrow> principal result" where
  "require_any user service_account api_key = (case service_account of
     Some sa \<Rightarrow> if user = None then Inr (ServiceAccount sa) else principal_require user api_key
   | None \<Rightarrow> principal_require user api_key)"

fun principal_user_id :: "principal \<Rightarrow> ustr option" where
  "principal_user_id (User u) = Some (cu_id u)"
| "principal_user_id (ApiKey k) = Some (cak_owner_user_id k)"
| "principal_user_id (ServiceAccount _) = None"

text \<open>\<open>resolve_user\<close>, \<open>resolve_key\<close> and \<open>resolve_sa\<close> stand for
  \<open>audit_repo::resolve_*_actor_id\<close>, the find-or-create of a row of \<open>access.actors\<close>.\<close>

fun attribution_in :: "(ustr \<Rightarrow> ustr \<Rightarrow> ustr option) \<Rightarrow> (ustr \<Rightarrow> ustr \<Rightarrow> ustr option) \<Rightarrow>
    (ustr \<Rightarrow> ustr \<Rightarrow> ustr option) \<Rightarrow> principal \<Rightarrow> attribution" where
  "attribution_in resolve_user resolve_key resolve_sa (User u) =
     \<lparr>at_user_id = Some (cu_id u), at_actor_id = resolve_user (cu_id u) (cu_display_name u)\<rparr>"
| "attribution_in resolve_user resolve_key resolve_sa (ApiKey k) =
     \<lparr>at_user_id = None, at_actor_id = resolve_key (cak_id k)
        (cak_name k @ lit '' ('' @ cak_prefix k @ lit '')'')\<rparr>"
| "attribution_in resolve_user resolve_key resolve_sa (ServiceAccount sa) =
     \<lparr>at_user_id = None, at_actor_id = resolve_sa (csa_id sa) (csa_name sa)\<rparr>"

fun permission_scope_in :: "access_db \<Rightarrow> int \<Rightarrow> principal \<Rightarrow> ustr \<Rightarrow> permission_scope" where
  "permission_scope_in db now (User u) name = user_permission_scope db (cu_id u) name"
| "permission_scope_in db now (ApiKey k) name =
     scope_intersect (user_permission_scope db (cak_owner_user_id k) name)
       (key_granted_scope db (cak_id k) name)"
| "permission_scope_in db now (ServiceAccount sa) name =
     service_account_permission_scope db now (csa_id sa) name"

definition principal_permission_scope :: "access_db option \<Rightarrow> int \<Rightarrow> principal \<Rightarrow> ustr \<Rightarrow>
    permission_scope result" where
  "principal_permission_scope pool now p name =
     bind_result (ok_or ServiceUnavailable pool) (\<lambda>db. Inr (permission_scope_in db now p name))"

subsection \<open>The permission gate\<close>

definition gate :: "(ustr list \<times> permission_path list) result \<Rightarrow> permission_path \<Rightarrow> unit result" where
  "gate held permission = bind_result held (\<lambda>(_, permissions).
     if List.member permissions permission then Inr () else Inl Unauthorized)"

definition ensure_permission :: "access_db option \<Rightarrow> int \<Rightarrow> current_user option \<Rightarrow>
    current_service_account option \<Rightarrow> current_api_key option \<Rightarrow> permission_path \<Rightarrow> unit result" where
  "ensure_permission pool now user service_account api_key permission =
     (case user of
        Some u \<Rightarrow> gate (fetch_user_access pool (cu_id u)) permission
      | None \<Rightarrow>
     (case service_account of
        Some sa \<Rightarrow> gate (fetch_service_account_access pool now (csa_id sa)) permission
      | None \<Rightarrow>
     (case api_key of
        Some k \<Rightarrow> gate (fetch_api_key_access pool (cak_id k) (cak_owner_user_id k)) permission
      | None \<Rightarrow> Inl Unauthorized)))"

subsection \<open>Reading the credential off the request\<close>

definition SESSION_COOKIE :: ustr where "SESSION_COOKIE = lit ''ois_session''"
definition API_KEY_TOKEN_PREFIX :: ustr where "API_KEY_TOKEN_PREFIX = lit ''ois_pat_''"
definition SERVICE_ACCOUNT_TOKEN_PREFIX :: ustr where "SERVICE_ACCOUNT_TOKEN_PREFIX = lit ''ois_sa_''"
definition DESKTOP_SESSION_TOKEN_PREFIX :: ustr where "DESKTOP_SESSION_TOKEN_PREFIX = lit ''ois_dsk_''"
definition WS_BEARER_PROTOCOL_PREFIX :: ustr where "WS_BEARER_PROTOCOL_PREFIX = lit ''ois.bearer.''"
definition WS_ROUTE :: ustr where "WS_ROUTE = lit ''/api/v1/ws''"

datatype bearer_kind = ApiKeyBearer | ServiceAccountBearer

definition bearer_kind_of :: "ustr \<Rightarrow> bearer_kind option" where
  "bearer_kind_of token =
     (if starts_with API_KEY_TOKEN_PREFIX token then Some ApiKeyBearer
      else if starts_with SERVICE_ACCOUNT_TOKEN_PREFIX token then Some ServiceAccountBearer
      else None)"

definition bearer_route :: "ustr option \<Rightarrow> (ustr \<times> bearer_kind) option" where
  "bearer_route bearer =
     Option.bind bearer (\<lambda>token. map_option (\<lambda>kind. (token, kind)) (bearer_kind_of token))"

fun find_map :: "('a \<Rightarrow> 'b option) \<Rightarrow> 'a list \<Rightarrow> 'b option" where
  "find_map f [] = None"
| "find_map f (x # xs) = (case f x of None \<Rightarrow> find_map f xs | Some y \<Rightarrow> Some y)"

definition nonempty :: "ustr \<Rightarrow> ustr option" where
  "nonempty s = (if s = [] then None else Some s)"

definition parse_ws_protocol_token :: "ustr option \<Rightarrow> ustr option" where
  "parse_ws_protocol_token header =
     Option.bind header (\<lambda>value.
     Option.bind (find_map (strip_prefix WS_BEARER_PROTOCOL_PREFIX) (map trim (split_on 44 value)))
       nonempty)"

text \<open>\<open>splitn(2, '=')\<close> gives the name, and the value when there is an \<open>=\<close>; the \<open>?\<close> on
  the value ends the whole search at a piece that has none.\<close>

fun parse_cookie_pieces :: "ustr list \<Rightarrow> ustr \<Rightarrow> ustr option" where
  "parse_cookie_pieces [] cookie_name = None"
| "parse_cookie_pieces (raw # pieces) cookie_name =
     (case split_once 61 (trim raw) of
        None \<Rightarrow> None
      | Some (name, value) \<Rightarrow>
          if trim name = cookie_name then Some (trim value) else parse_cookie_pieces pieces cookie_name)"

definition parse_cookie :: "ustr option \<Rightarrow> ustr \<Rightarrow> ustr option" where
  "parse_cookie header cookie_name =
     Option.bind header (\<lambda>value. parse_cookie_pieces (split_on 59 value) cookie_name)"

definition parse_bearer_token :: "ustr option \<Rightarrow> ustr option" where
  "parse_bearer_token header =
     Option.bind header (\<lambda>value.
     Option.bind (strip_prefix (lit ''Bearer '') (trim value)) (\<lambda>token. nonempty (trim token)))"

record request =
  rq_path :: ustr
  rq_cookie :: "ustr option"
  rq_authorization :: "ustr option"
  rq_ws_protocol :: "ustr option"

record lookups =
  by_session :: "ustr \<Rightarrow> current_user option"
  by_api_key :: "ustr \<Rightarrow> current_api_key option"
  by_service_account :: "ustr \<Rightarrow> current_service_account option"

datatype lookup_made = SessionLookup ustr | ApiKeyLookup ustr | ServiceAccountLookup ustr

record resolved =
  rs_user :: "current_user option"
  rs_service_account :: "current_service_account option"
  rs_api_key :: "current_api_key option"
  rs_session_token :: "ustr option"
  rs_bearer_token :: "ustr option"
  rs_lookups :: "lookup_made list"

definition or_else :: "'a option \<Rightarrow> 'a option \<Rightarrow> 'a option" where
  "or_else a b = (case a of None \<Rightarrow> b | Some _ \<Rightarrow> a)"

definition option_filter :: "('a \<Rightarrow> bool) \<Rightarrow> 'a option \<Rightarrow> 'a option" where
  "option_filter f a = (case a of None \<Rightarrow> None | Some x \<Rightarrow> if f x then Some x else None)"

definition request_ws_token :: "request \<Rightarrow> ustr option" where
  "request_ws_token rq =
     (if rq_path rq = WS_ROUTE then parse_ws_protocol_token (rq_ws_protocol rq) else None)"

definition request_bearer :: "request \<Rightarrow> ustr option" where
  "request_bearer rq = or_else (parse_bearer_token (rq_authorization rq))
     (option_filter (\<lambda>token. bearer_kind_of token \<noteq> None) (request_ws_token rq))"

definition request_session :: "request \<Rightarrow> ustr option" where
  "request_session rq =
     or_else (or_else (parse_cookie (rq_cookie rq) SESSION_COOKIE)
         (option_filter (starts_with DESKTOP_SESSION_TOKEN_PREFIX) (request_bearer rq)))
       (option_filter (starts_with DESKTOP_SESSION_TOKEN_PREFIX) (request_ws_token rq))"

definition resolve_current_user :: "lookups option \<Rightarrow> request \<Rightarrow> resolved" where
  "resolve_current_user pool rq =
     (let session = request_session rq;
          bearer = request_bearer rq;
          (user, user_lookups) = (case (pool, session) of
              (Some db, Some token) \<Rightarrow> (by_session db token, [SessionLookup token])
            | _ \<Rightarrow> (None, []));
          (sa, key, bearer_lookups) = (case (pool, bearer_route bearer) of
              (Some db, Some (token, ApiKeyBearer)) \<Rightarrow> (None, by_api_key db token, [ApiKeyLookup token])
            | (Some db, Some (token, ServiceAccountBearer)) \<Rightarrow>
                (by_service_account db token, None, [ServiceAccountLookup token])
            | _ \<Rightarrow> (None, None, []))
      in \<lparr>rs_user = user, rs_service_account = sa, rs_api_key = key, rs_session_token = session,
          rs_bearer_token = bearer, rs_lookups = user_lookups @ bearer_lookups\<rparr>)"

subsection \<open>The gate agrees with the scope\<close>

definition canonical_db :: "access_db \<Rightarrow> bool" where
  "canonical_db db \<longleftrightarrow>
     list_all canonical_permission (map snd (t_role_permissions db)) \<and>
     list_all canonical_permission (t_permissions db) \<and>
     list_all canonical_permission (map up_permission (t_user_permissions db)) \<and>
     list_all canonical_permission (map (fst \<circ> snd) (t_sa_permissions db)) \<and>
     list_all canonical_permission (map (fst \<circ> snd) (t_key_permissions db))"

lemma effective_names_canonical:
  assumes "canonical_db db" and "(name, s) \<in> set (fetch_effective_permissions db u)"
  shows "canonical_permission name"
proof -
  from assms(2) have "bt_get (fetch_effective_permissions db u) name = Some s"
    by (simp add: fetch_effective_permissions_def bt.iter [OF compose_inv])
  then have "name \<in> permission_name ` set (v_effective_user_permissions db u)"
    by (auto simp: fetch_effective_permissions_def compose_get split: if_splits)
  with assms(1) show ?thesis
    by (force simp: v_effective_user_permissions_def canonical_db_def list_all_iff split: if_splits)
qed

lemma user_names_canonical:
  "canonical_db db \<Longrightarrow> list_all canonical_permission (fetch_user_permission_names db u)"
  by (auto simp: list_all_iff fetch_user_permission_names_def dest: effective_names_canonical)

lemma service_account_names_canonical:
  "canonical_db db \<Longrightarrow> list_all canonical_permission (fetch_service_account_permission_names db now sa)"
  by (force simp: list_all_iff fetch_service_account_permission_names_def
      fetch_service_account_grants_def canonical_db_def)

lemma key_names_canonical:
  "canonical_db db \<Longrightarrow> list_all canonical_permission (key_effective_names db key owner)"
  by (force simp: list_all_iff key_effective_names_def fetch_key_permission_names_def canonical_db_def)

lemma gate_names:
  assumes "list_all canonical_permission names" and "wf_path p"
  shows "gate (bind_result (permission_names_to_permissions names) (\<lambda>ps. Inr (roles, ps))) p = Inr ()
    \<longleftrightarrow> as_db_value p \<in> set names"
proof -
  obtain ps where "permission_names_to_permissions names = Inr ps" "map as_db_value ps = names"
    "list_all wf_path ps"
    using permission_names_to_permissions_canonical [OF assms(1)] .
  then show ?thesis
    using member_iff_name [of ps names p] assms(2) by (simp add: gate_def)
qed

lemma user_gate_iff:
  assumes "canonical_db db" and "wf_path p"
  shows "gate (fetch_user_access (Some db) u) p = Inr () \<longleftrightarrow>
    \<not> scope_is_empty (user_permission_scope db u (as_db_value p))"
  by (simp add: fetch_user_access_def gate_names user_names_canonical assms user_names_iff)

lemma service_account_gate_iff:
  assumes "canonical_db db" and "wf_path p"
  shows "gate (fetch_service_account_access (Some db) now sa) p = Inr () \<longleftrightarrow>
    \<not> scope_is_empty (service_account_permission_scope db now sa (as_db_value p))"
  by (simp add: fetch_service_account_access_def gate_names service_account_names_canonical assms
      service_account_names_iff)

lemma key_gate_iff:
  assumes "canonical_db db" and "wf_path p"
  shows "gate (fetch_api_key_access (Some db) key owner) p = Inr () \<longleftrightarrow>
    \<not> is_forbidden_for_key (as_db_value p) \<and>
    \<not> scope_is_empty (scope_intersect (user_permission_scope db owner (as_db_value p))
        (key_granted_scope db key (as_db_value p)))"
  by (simp add: fetch_api_key_access_def gate_names key_names_canonical assms key_effective_names_iff)

fun key_denylisted :: "principal \<Rightarrow> ustr \<Rightarrow> bool" where
  "key_denylisted (ApiKey _) name = is_forbidden_for_key name"
| "key_denylisted _ name = False"

text \<open>C11. The coarse gate and the scope the handler reads agree: for the principal a request
  resolves to, \<open>RequirePermission\<close> admits it exactly when its scope for that permission is not
  empty and, for an API key, the permission is not denylisted.\<close>

theorem gate_agrees_with_scope:
  assumes "canonical_db db" and "wf_path p" and "require_any user sa key = Inr pr"
  shows "ensure_permission (Some db) now user sa key p = Inr () \<longleftrightarrow>
    \<not> scope_is_empty (permission_scope_in db now pr (as_db_value p)) \<and>
    \<not> key_denylisted pr (as_db_value p)"
  using assms(3)
  by (auto simp: ensure_permission_def require_any_def principal_require_def user_gate_iff
      service_account_gate_iff key_gate_iff assms(1,2) split: option.splits if_splits)

definition sample_user :: current_user where
  "sample_user = \<lparr>cu_id = lit ''u1'', cu_cid = 1, cu_email = [], cu_display_name = lit ''U'',
     cu_rating = None, cu_primary_role = None\<rparr>"

definition sample_key :: current_api_key where
  "sample_key = \<lparr>cak_id = lit ''k1'', cak_owner_user_id = lit ''u1'', cak_prefix = lit ''ois_pat_x'',
     cak_name = lit ''tool'', cak_rate_limit_per_min = None\<rparr>"

definition plan_update :: permission_path where
  "plan_update = from_segments [lit ''events'', lit ''plan''] Update"

lemma sample_db_canonical: "canonical_db sample_db"
  by code_simp

lemma plan_update_wf: "wf_path plan_update"
  by code_simp

theorem gate_agrees_with_scope_witness:
  "ensure_permission (Some sample_db) 0 None None (Some sample_key) plan_update = Inr ()"
proof -
  have "\<not> scope_is_empty (permission_scope_in sample_db 0 (ApiKey sample_key) (as_db_value plan_update))"
    and "\<not> key_denylisted (ApiKey sample_key) (as_db_value plan_update)"
    by code_simp+
  then show ?thesis
    using gate_agrees_with_scope [OF sample_db_canonical plan_update_wf,
        of None None "Some sample_key" "ApiKey sample_key" 0]
    by (simp add: require_any_def principal_require_def)
qed

lemma key_scope_capped:
  "allows (permission_scope_in db now (ApiKey k) name) x \<Longrightarrow>
     allows (user_permission_scope db (cak_owner_user_id k) name) x"
  by (auto dest: scope.cap_left)

text \<open>C1. An API key never exceeds its owner: wherever its scope reaches, the owner's live scope
  reaches, and a permission gate that admits the key admits the owner.\<close>

theorem api_key_never_exceeds_owner:
  assumes "canonical_db db" and "wf_path p" and "cak_owner_user_id k = cu_id owner"
  shows "(allows (permission_scope_in db now (ApiKey k) name) x \<longrightarrow>
      allows (permission_scope_in db now (User owner) name) x) \<and>
    (ensure_permission (Some db) now None None (Some k) p = Inr () \<longrightarrow>
      ensure_permission (Some db) now (Some owner) None None p = Inr ())"
proof -
  have "ensure_permission (Some db) now (Some owner) None None p = Inr ()"
    if "ensure_permission (Some db) now None None (Some k) p = Inr ()"
  proof -
    from that have "\<not> scope_is_empty (scope_intersect
        (user_permission_scope db (cu_id owner) (as_db_value p)) (key_granted_scope db (cak_id k) (as_db_value p)))"
      using assms by (simp add: ensure_permission_def key_gate_iff)
    from intersect_not_empty_left [OF this] show ?thesis
      using assms by (simp add: ensure_permission_def user_gate_iff)
  qed
  then show ?thesis
    using key_scope_capped [of db now k name x] assms(3) by simp
qed

theorem api_key_never_exceeds_owner_witness:
  "ensure_permission (Some sample_db) 0 (Some sample_user) None None plan_update = Inr ()"
proof -
  have "ensure_permission (Some sample_db) 0 None None (Some sample_key) plan_update = Inr ()"
    by code_simp
  then show ?thesis
    using api_key_never_exceeds_owner [OF sample_db_canonical plan_update_wf,
        of sample_key sample_user 0 "lit ''events.plan.update''" None]
    by (simp add: sample_key_def sample_user_def)
qed

subsection \<open>Which lookups a request costs\<close>

lemma set_trim_subset: "set (trim s) \<subseteq> set s"
  unfolding trim_def trim_end_def trim_start_def
  by (auto dest!: set_dropWhileD)

lemma trim_no_sep: "61 \<notin> set s \<Longrightarrow> split_once 61 (trim s) = None"
proof -
  assume "61 \<notin> set s"
  then have "61 \<notin> set (trim s)" using set_trim_subset by blast
  then show ?thesis by (cases "split_once 61 (trim s)") (auto simp: split_once_Some_iff)
qed

lemma resolve_bearer_exclusive:
  "rs_service_account (resolve_current_user pool rq) = None \<or> rs_api_key (resolve_current_user pool rq) = None"
  by (auto simp: resolve_current_user_def Let_def split: prod.splits option.splits bearer_kind.splits)

lemma bearer_route_None_iff:
  "bearer_route bearer = None \<longleftrightarrow>
     (\<forall>token. bearer = Some token \<longrightarrow> \<not> starts_with API_KEY_TOKEN_PREFIX token \<and>
        \<not> starts_with SERVICE_ACCOUNT_TOKEN_PREFIX token)"
  by (cases bearer) (auto simp: bearer_route_def bearer_kind_of_def)

text \<open>A request resolves to at most one machine credential, and a bearer token of neither
  machine kind costs no lookup: only a session token is ever tried against the session table.\<close>

theorem unrecognised_bearer_costs_no_lookup:
  assumes "rs_bearer_token (resolve_current_user pool rq) = Some token"
    and "\<not> starts_with API_KEY_TOKEN_PREFIX token" and "\<not> starts_with SERVICE_ACCOUNT_TOKEN_PREFIX token"
  shows "rs_lookups (resolve_current_user pool rq) =
      (case (pool, rs_session_token (resolve_current_user pool rq)) of
         (Some _, Some t) \<Rightarrow> [SessionLookup t] | _ \<Rightarrow> []) \<and>
    rs_service_account (resolve_current_user pool rq) = None \<and>
    rs_api_key (resolve_current_user pool rq) = None"
proof -
  have "request_bearer rq = Some token"
    using assms(1) by (auto simp: resolve_current_user_def Let_def split: prod.splits)
  with assms(2,3) have "bearer_route (request_bearer rq) = None"
    by (simp add: bearer_route_def bearer_kind_of_def)
  then show ?thesis
    by (auto simp: resolve_current_user_def Let_def split: option.splits)
qed

definition metrics_request :: request where
  "metrics_request = \<lparr>rq_path = lit ''/metrics'', rq_cookie = None,
     rq_authorization = Some (lit ''Bearer s3cret-metrics-token''), rq_ws_protocol = None\<rparr>"

theorem unrecognised_bearer_costs_no_lookup_witness:
  "rs_lookups (resolve_current_user None metrics_request) = [] \<and>
   rs_service_account (resolve_current_user None metrics_request) = None \<and>
   rs_api_key (resolve_current_user None metrics_request) = None"
proof -
  have a: "rs_bearer_token (resolve_current_user None metrics_request) = Some (lit ''s3cret-metrics-token'')"
    and b: "\<not> starts_with API_KEY_TOKEN_PREFIX (lit ''s3cret-metrics-token'')"
    and c: "\<not> starts_with SERVICE_ACCOUNT_TOKEN_PREFIX (lit ''s3cret-metrics-token'')"
    by code_simp+
  show ?thesis
    using unrecognised_bearer_costs_no_lookup [OF a b c] by simp
qed

text \<open>A cookie header with a piece that has no \<open>=\<close> before the session cookie hides the
  session: the search ends at that piece instead of skipping it.\<close>

theorem valueless_cookie_hides_session:
  "61 \<notin> set junk \<Longrightarrow> 59 \<notin> set junk \<Longrightarrow>
     parse_cookie (Some (junk @ [59] @ rest)) cookie_name = None"
  by (simp add: parse_cookie_def split_on_append_sep trim_no_sep)

theorem valueless_cookie_hides_session_witness:
  "parse_cookie (Some (lit ''foo; ois_session=abc'')) (lit ''ois_session'') = None"
proof -
  have "lit ''foo; ois_session=abc'' = lit ''foo'' @ [59] @ lit '' ois_session=abc''"
    by code_simp
  moreover have "61 \<notin> set (lit ''foo'')" and "59 \<notin> set (lit ''foo'')"
    by code_simp+
  ultimately show ?thesis
    using valueless_cookie_hides_session [of "lit ''foo''" "lit '' ois_session=abc''" "lit ''ois_session''"]
    by simp
qed

end
