(* ===== verification/JobQueue.thy ===== *)
theory JobQueue
  imports PermissionTree Errors "HOL-Library.Multiset"
begin

text \<open>
  \<open>backend/src/repos/integration.rs\<close>, the outbound-job queue: the backend enqueues a job,
  a consumer leases it, performs it and acknowledges it, and a reaper returns the jobs whose worker
  died. The table \<open>integration.outbound_jobs\<close> is a list of rows in no particular order; each
  SQL statement is one function on it. Instants are integers in microseconds.
  The random id Postgres gives a row, the statement's \<open>now()\<close> and the rows other
  transactions hold locked are arguments.
\<close>

section \<open>The table\<close>

datatype job_status = Pending | InProgress | Succeeded | Failed

record job =
  jb_id :: ustr
  jb_type :: ustr
  jb_payload :: json
  jb_subject_type :: "ustr option"
  jb_subject_id :: "ustr option"
  jb_consumer :: ustr
  jb_status :: job_status
  jb_attempt_count :: int
  jb_next_attempt_at :: int
  jb_last_attempt_at :: "int option"
  jb_error :: "ustr option"
  jb_result :: "json option"
  jb_created_at :: int

definition MAX_ATTEMPTS :: int where "MAX_ATTEMPTS = 8"

definition DISCORD_CONSUMER :: ustr where "DISCORD_CONSUMER = lit ''discord''"

definition seconds :: "int \<Rightarrow> int" where "seconds n = n * 1000000"

definition job_ids :: "job list \<Rightarrow> ustr set" where
  "job_ids q = jb_id ` set q"

section \<open>Enqueue, lease, acknowledge, reap\<close>

text \<open>The columns the insert leaves out take the defaults of migration 0048. A repeated id is a
  primary key violation, which the source reports as \<open>Internal\<close>.\<close>

definition new_job :: "int \<Rightarrow> ustr \<Rightarrow> ustr \<Rightarrow> json \<Rightarrow> ustr option \<Rightarrow> ustr option \<Rightarrow> job" where
  "new_job now jid job_type payload subject_type subject_id =
     \<lparr>jb_id = jid, jb_type = job_type, jb_payload = payload, jb_subject_type = subject_type,
      jb_subject_id = subject_id, jb_consumer = DISCORD_CONSUMER, jb_status = Pending,
      jb_attempt_count = 0, jb_next_attempt_at = now, jb_last_attempt_at = None,
      jb_error = None, jb_result = None, jb_created_at = now\<rparr>"

definition enqueue_job ::
    "int \<Rightarrow> ustr \<Rightarrow> ustr \<Rightarrow> json \<Rightarrow> ustr option \<Rightarrow> ustr option \<Rightarrow> job list \<Rightarrow> (ustr \<times> job list) result" where
  "enqueue_job now jid job_type payload subject_type subject_id q =
     (if list_ex (\<lambda>j. jb_id j = jid) q then Inl Internal
      else Inr (jid, q @ [new_job now jid job_type payload subject_type subject_id]))"

record outbound_job_body =
  ob_id :: ustr
  ob_job_type :: ustr
  ob_payload :: json
  ob_subject_type :: "ustr option"
  ob_subject_id :: "ustr option"
  ob_attempt_count :: int
  ob_created_at :: int

definition job_body :: "job \<Rightarrow> outbound_job_body" where
  "job_body r = \<lparr>ob_id = jb_id r, ob_job_type = jb_type r, ob_payload = jb_payload r,
     ob_subject_type = jb_subject_type r, ob_subject_id = jb_subject_id r,
     ob_attempt_count = jb_attempt_count r, ob_created_at = jb_created_at r\<rparr>"

text \<open>The subselect: the consumer's due pending rows, oldest first, rows another transaction has
  locked skipped.\<close>

definition due :: "int \<Rightarrow> ustr \<Rightarrow> ustr list \<Rightarrow> job \<Rightarrow> bool" where
  "due now consumer locked j \<longleftrightarrow> jb_status j = Pending \<and> jb_consumer j = consumer \<and>
     jb_next_attempt_at j \<le> now \<and> jb_id j \<notin> set locked"

definition lease_limit :: "int \<Rightarrow> nat" where
  "lease_limit limit = nat (max 1 (min 100 limit))"

definition picked :: "int \<Rightarrow> ustr \<Rightarrow> int \<Rightarrow> ustr list \<Rightarrow> job list \<Rightarrow> job list" where
  "picked now consumer limit locked q =
     take (lease_limit limit) (sort_key jb_next_attempt_at (filter (due now consumer locked) q))"

definition lease_row :: "int \<Rightarrow> job \<Rightarrow> job" where
  "lease_row now j = j\<lparr>jb_status := InProgress, jb_attempt_count := jb_attempt_count j + 1,
     jb_last_attempt_at := Some now\<rparr>"

definition lease_jobs ::
    "int \<Rightarrow> ustr \<Rightarrow> int \<Rightarrow> ustr list \<Rightarrow> job list \<Rightarrow> outbound_job_body list \<times> job list" where
  "lease_jobs now consumer limit locked q =
     (let d = picked now consumer limit locked q in
      (map (\<lambda>j. job_body (lease_row now j)) d,
       map (\<lambda>j. if jb_id j \<in> set (map jb_id d) then lease_row now j else j) q))"

definition ack_matches :: "ustr \<Rightarrow> ustr \<Rightarrow> int option \<Rightarrow> job \<Rightarrow> bool" where
  "ack_matches jid consumer attempt j \<longleftrightarrow> jb_id j = jid \<and> jb_status j = InProgress \<and>
     jb_consumer j = consumer \<and> (attempt = None \<or> attempt = Some (jb_attempt_count j))"

text \<open>The retry policy a failed acknowledgement and the reaper share.\<close>

definition retry_or_fail :: "int \<Rightarrow> job \<Rightarrow> job" where
  "retry_or_fail now j = j\<lparr>
     jb_status := (if MAX_ATTEMPTS \<le> jb_attempt_count j then Failed else Pending),
     jb_next_attempt_at := now + seconds 30 * min (jb_attempt_count j) 10\<rparr>"

definition ack_row :: "int \<Rightarrow> bool \<Rightarrow> json option \<Rightarrow> ustr option \<Rightarrow> job \<Rightarrow> job" where
  "ack_row now success res err j =
     (if success then j\<lparr>jb_status := Succeeded, jb_result := res, jb_error := None\<rparr>
      else (retry_or_fail now j)\<lparr>jb_error := err\<rparr>)"

definition ack_job ::
    "int \<Rightarrow> ustr \<Rightarrow> ustr \<Rightarrow> bool \<Rightarrow> json option \<Rightarrow> ustr option \<Rightarrow> int option \<Rightarrow> job list \<Rightarrow> bool \<times> job list" where
  "ack_job now jid consumer success res err attempt q =
     (list_ex (ack_matches jid consumer attempt) q,
      map (\<lambda>j. if ack_matches jid consumer attempt j then ack_row now success res err j else j) q)"

definition stranded :: "int \<Rightarrow> job \<Rightarrow> bool" where
  "stranded stranded_before j \<longleftrightarrow> jb_status j = InProgress \<and>
     (case jb_last_attempt_at j of None \<Rightarrow> True | Some t \<Rightarrow> t < stranded_before)"

definition reap_row :: "int \<Rightarrow> job \<Rightarrow> job" where
  "reap_row now j = (retry_or_fail now j)\<lparr>jb_error :=
     (case jb_error j of None \<Rightarrow> Some (lit ''lease expired: the worker never acked'') | Some e \<Rightarrow> Some e)\<rparr>"

definition reap_stranded_jobs :: "int \<Rightarrow> int \<Rightarrow> job list \<Rightarrow> nat \<times> job list" where
  "reap_stranded_jobs now stranded_before q =
     (length (filter (stranded stranded_before) q),
      map (\<lambda>j. if stranded stranded_before j then reap_row now j else j) q)"

definition OUTBOUND_JOB_LEASE_TIMEOUT_MINS :: int where
  "OUTBOUND_JOB_LEASE_TIMEOUT_MINS = 5"

text \<open>\<open>clock\<close> is the process's \<open>Utc::now()\<close>, \<open>now\<close> the database's.\<close>

definition outbound_job_reaper_once :: "int \<Rightarrow> int \<Rightarrow> job list \<Rightarrow> ustr \<times> job list" where
  "outbound_job_reaper_once clock now q =
     (case reap_stranded_jobs now (clock - seconds (60 * OUTBOUND_JOB_LEASE_TIMEOUT_MINS)) q of
        (n, q') \<Rightarrow> (show_nat n @ lit '' requeued'', q'))"

section \<open>The two endpoints\<close>

text \<open>\<open>handlers/integration.rs\<close>: the consumer is the calling service account's key; a
  declared one must match it.\<close>

definition bound_consumer :: "ustr option \<Rightarrow> ustr option \<Rightarrow> ustr result" where
  "bound_consumer account_key declared =
     bind_result (ok_or Forbidden account_key) (\<lambda>key.
       case declared of
         None \<Rightarrow> Inr key
       | Some c \<Rightarrow> if trim c \<noteq> [] \<and> trim c \<noteq> key then Inl Forbidden else Inr key)"

definition lease_jobs_handler ::
    "int \<Rightarrow> ustr option \<Rightarrow> ustr option \<Rightarrow> int option \<Rightarrow> ustr list \<Rightarrow> job list \<Rightarrow> (outbound_job_body list \<times> job list) result" where
  "lease_jobs_handler now account_key consumer limit locked q =
     bind_result (bound_consumer account_key consumer) (\<lambda>c.
       Inr (lease_jobs now c (case limit of None \<Rightarrow> 10 | Some n \<Rightarrow> n) locked q))"

definition ack_job_handler ::
    "int \<Rightarrow> ustr option \<Rightarrow> ustr \<Rightarrow> ustr option \<Rightarrow> bool \<Rightarrow> json option \<Rightarrow> ustr option \<Rightarrow> int option \<Rightarrow> job list \<Rightarrow> unit result \<times> job list" where
  "ack_job_handler now account_key jid consumer success res err attempt q =
     (case bound_consumer account_key consumer of
        Inl e \<Rightarrow> (Inl e, q)
      | Inr c \<Rightarrow> (case ack_job now jid c success res err attempt q of
          (ok, q') \<Rightarrow> (if ok then Inr () else Inl NotFound, q')))"

section \<open>Reading a published channel back\<close>

text \<open>\<open>order by created_at desc limit 1\<close>: the first of the newest.\<close>

definition latest :: "job list \<Rightarrow> job option" where
  "latest js = (case sort_key (\<lambda>j. - jb_created_at j) js of [] \<Rightarrow> None | j # _ \<Rightarrow> Some j)"

definition about_subject :: "ustr \<Rightarrow> ustr \<Rightarrow> ustr \<Rightarrow> job \<Rightarrow> bool" where
  "about_subject subject_type subject_id job_type j \<longleftrightarrow> jb_subject_type j = Some subject_type \<and>
     jb_subject_id j = Some subject_id \<and> jb_type j = job_type"

text \<open>\<open>field_text\<close> is Postgres' \<open>payload->>'channel_id'\<close>.\<close>

definition published_channel_for_advisory :: "(json \<Rightarrow> ustr option) \<Rightarrow> job list \<Rightarrow> ustr \<Rightarrow> ustr option" where
  "published_channel_for_advisory field_text q advisory_id =
     Option.bind (latest (filter (about_subject (lit ''advisory'') advisory_id (lit ''adv_publish'')) q))
       (\<lambda>j. field_text (jb_payload j))"

definition published_channel_for_tmi :: "(json \<Rightarrow> ustr option) \<Rightarrow> job list \<Rightarrow> ustr \<Rightarrow> ustr option" where
  "published_channel_for_tmi field_text q tmi_id =
     Option.bind (latest (filter (about_subject (lit ''tmi'') tmi_id (lit ''tmi_publish'')) q))
       (\<lambda>j. field_text (jb_payload j))"

text \<open>A string member of a payload, \<open>payload->>'name'\<close>.\<close>

fun json_str_field :: "json \<Rightarrow> ustr \<Rightarrow> ustr option" where
  "json_str_field (JObject members) name = Option.bind (map_of members name) as_str"
| "json_str_field _ name = None"

definition succeeded_job_result :: "job list \<Rightarrow> ustr \<Rightarrow> ustr \<Rightarrow> ustr \<Rightarrow> json option" where
  "succeeded_job_result q subject_type subject_id job_type =
     Option.bind (latest (filter (\<lambda>j. about_subject subject_type subject_id job_type j \<and>
       jb_status j = Succeeded) q)) jb_result"

section \<open>Runs of the queue\<close>

text \<open>Every writer of the table, and any reordering of its rows (a table has no order).\<close>

inductive job_step :: "job list \<Rightarrow> job list \<Rightarrow> bool" where
  enqueue: "enqueue_job now jid ty payload st si q = Inr (jid', q') \<Longrightarrow> job_step q q'"
| lease: "lease_jobs now consumer limit locked q = (bodies, q') \<Longrightarrow> job_step q q'"
| ack: "ack_job now jid consumer success res err attempt q = (ok, q') \<Longrightarrow> job_step q q'"
| reap: "reap_stranded_jobs now stranded_before q = (n, q') \<Longrightarrow> job_step q q'"
| reorder: "mset q' = mset q \<Longrightarrow> job_step q q'"

abbreviation job_steps :: "job list \<Rightarrow> job list \<Rightarrow> bool" where
  "job_steps \<equiv> job_step\<^sup>*\<^sup>*"

definition terminal :: "job \<Rightarrow> bool" where
  "terminal j \<longleftrightarrow> jb_status j = Succeeded \<or> jb_status j = Failed"

definition job_ok :: "job \<Rightarrow> bool" where
  "job_ok j \<longleftrightarrow> (case jb_status j of
       Pending \<Rightarrow> 0 \<le> jb_attempt_count j \<and> jb_attempt_count j < MAX_ATTEMPTS
     | InProgress \<Rightarrow> 1 \<le> jb_attempt_count j \<and> jb_attempt_count j \<le> MAX_ATTEMPTS \<and> jb_last_attempt_at j \<noteq> None
     | Succeeded \<Rightarrow> 1 \<le> jb_attempt_count j \<and> jb_attempt_count j \<le> MAX_ATTEMPTS
     | Failed \<Rightarrow> jb_attempt_count j = MAX_ATTEMPTS)"

definition queue_inv :: "job list \<Rightarrow> bool" where
  "queue_inv q \<longleftrightarrow> distinct (map jb_id q) \<and> list_all job_ok q"

section \<open>Invariants\<close>

lemma lease_row_simps [simp]:
  "jb_id (lease_row now j) = jb_id j" "jb_consumer (lease_row now j) = jb_consumer j"
  "jb_status (lease_row now j) = InProgress"
  "jb_attempt_count (lease_row now j) = jb_attempt_count j + 1"
  by (simp_all add: lease_row_def)

lemma retry_or_fail_simps [simp]:
  "jb_id (retry_or_fail now j) = jb_id j" "jb_consumer (retry_or_fail now j) = jb_consumer j"
  "jb_attempt_count (retry_or_fail now j) = jb_attempt_count j"
  "jb_status (retry_or_fail now j) \<noteq> InProgress"
  by (simp_all add: retry_or_fail_def)

lemma ack_row_simps [simp]:
  "jb_id (ack_row now success r e j) = jb_id j" "jb_consumer (ack_row now success r e j) = jb_consumer j"
  "jb_attempt_count (ack_row now success r e j) = jb_attempt_count j"
  "jb_status (ack_row now success r e j) \<noteq> InProgress"
  by (simp_all add: ack_row_def)

lemma reap_row_simps [simp]:
  "jb_id (reap_row now j) = jb_id j" "jb_consumer (reap_row now j) = jb_consumer j"
  "jb_attempt_count (reap_row now j) = jb_attempt_count j"
  "jb_status (reap_row now j) \<noteq> InProgress"
  by (simp_all add: reap_row_def)

lemma set_picked: "set (picked now consumer limit locked q) \<subseteq> {j \<in> set q. due now consumer locked j}"
  unfolding picked_def by (auto dest: in_set_takeD)

lemma job_ok_lease: "job_ok j \<Longrightarrow> jb_status j = Pending \<Longrightarrow> job_ok (lease_row now j)"
  by (auto simp: job_ok_def lease_row_def MAX_ATTEMPTS_def)

lemma job_ok_retry: "job_ok j \<Longrightarrow> jb_status j = InProgress \<Longrightarrow> job_ok (retry_or_fail now j)"
  by (auto simp: job_ok_def retry_or_fail_def MAX_ATTEMPTS_def)

lemma job_ok_error [simp]: "job_ok (j\<lparr>jb_error := e\<rparr>) = job_ok j"
  by (cases "jb_status j") (simp_all add: job_ok_def)

lemma job_ok_ack: "job_ok j \<Longrightarrow> jb_status j = InProgress \<Longrightarrow> job_ok (ack_row now success r e j)"
  using job_ok_retry [of j now] by (auto simp: ack_row_def) (simp add: job_ok_def)

lemma job_ok_reap: "job_ok j \<Longrightarrow> jb_status j = InProgress \<Longrightarrow> job_ok (reap_row now j)"
  using job_ok_retry [of j now] by (auto simp: reap_row_def)

text \<open>What one step does to the rows: an old row is kept, leased, acknowledged or reaped, and a
  new row has a new id.\<close>

definition row_step :: "job \<Rightarrow> job \<Rightarrow> bool" where
  "row_step j j' \<longleftrightarrow> j' = j \<or>
     (jb_status j = Pending \<and> (\<exists>now. j' = lease_row now j)) \<or>
     (jb_status j = InProgress \<and> (\<exists>now success r e. j' = ack_row now success r e j)) \<or>
     (jb_status j = InProgress \<and> (\<exists>now. j' = reap_row now j))"

lemma row_step_intros [intro]:
  "row_step j j"
  "jb_status j = Pending \<Longrightarrow> row_step j (lease_row now j)"
  "jb_status j = InProgress \<Longrightarrow> row_step j (ack_row now success r e j)"
  "jb_status j = InProgress \<Longrightarrow> row_step j (reap_row now j)"
  by (auto simp: row_step_def)

lemma row_step_id: "row_step j j' \<Longrightarrow> jb_id j' = jb_id j"
  by (auto simp: row_step_def)

lemma row_step_ok: "row_step j j' \<Longrightarrow> job_ok j \<Longrightarrow> job_ok j'"
  by (auto simp: row_step_def job_ok_lease job_ok_ack job_ok_reap)

lemma distinct_id_inj:
  "distinct (map jb_id q) \<Longrightarrow> j \<in> set q \<Longrightarrow> k \<in> set q \<Longrightarrow> jb_id j = jb_id k \<Longrightarrow> j = k"
  by (simp add: distinct_map inj_on_def)

lemma lease_rows:
  assumes "distinct (map jb_id q)"
  shows "snd (lease_jobs now consumer limit locked q) =
    map (\<lambda>j. if j \<in> set (picked now consumer limit locked q) then lease_row now j else j) q"
  unfolding lease_jobs_def Let_def snd_conv
proof (rule map_cong [OF refl])
  fix j assume "j \<in> set q"
  have "jb_id j \<in> set (map jb_id (picked now consumer limit locked q)) \<longleftrightarrow> j \<in> set (picked now consumer limit locked q)"
    using distinct_id_inj [OF assms \<open>j \<in> set q\<close>] set_picked [of now consumer limit locked q] by auto
  then show "(if jb_id j \<in> set (map jb_id (picked now consumer limit locked q)) then lease_row now j else j) =
      (if j \<in> set (picked now consumer limit locked q) then lease_row now j else j)" by simp
qed

definition rows_step :: "job list \<Rightarrow> job list \<Rightarrow> bool" where
  "rows_step q q' \<longleftrightarrow>
     (\<forall>j'\<in>set q'. (\<exists>j\<in>set q. row_step j j') \<or> (jb_id j' \<notin> job_ids q \<and> job_ok j')) \<and>
     distinct (map jb_id q') \<and> job_ids q \<subseteq> job_ids q'"

lemma rows_step_map:
  assumes "distinct (map jb_id q)" and "\<And>j. j \<in> set q \<Longrightarrow> row_step j (f j)"
  shows "rows_step q (map f q)"
proof -
  have "map jb_id (map f q) = map jb_id q"
    using assms(2) by (auto simp: row_step_id)
  then have "distinct (map jb_id (map f q))" and "job_ids (map f q) = job_ids q"
    using assms(1) by (metis, metis job_ids_def set_map)
  then show ?thesis using assms(2) by (auto simp: rows_step_def)
qed

lemma job_step_rows:
  assumes "job_step q q'" and "distinct (map jb_id q)"
  shows "rows_step q q'"
  using assms(1)
proof cases
  case (enqueue now jid ty payload st si jid')
  then have q': "q' = q @ [new_job now jid ty payload st si]" and "\<forall>j\<in>set q. jb_id j \<noteq> jid"
    by (auto simp: enqueue_job_def list_ex_iff split: if_splits)
  moreover have "job_ok (new_job now jid ty payload st si)" "jb_id (new_job now jid ty payload st si) = jid"
    by (simp_all add: new_job_def job_ok_def MAX_ATTEMPTS_def)
  ultimately show ?thesis using assms(2) by (auto simp: row_step_def rows_step_def job_ids_def)
next
  case (lease now consumer limit locked bodies)
  then have "q' = map (\<lambda>j. if j \<in> set (picked now consumer limit locked q) then lease_row now j else j) q"
    using lease_rows [OF assms(2), of now consumer limit locked] by simp
  moreover have "row_step j (if j \<in> set (picked now consumer limit locked q) then lease_row now j else j)" for j
    using set_picked [of now consumer limit locked q] by (auto simp: row_step_def due_def)
  ultimately show ?thesis by (simp add: rows_step_map [OF assms(2)])
next
  case (ack now jid consumer success r e attempt ok)
  then have "q' = map (\<lambda>j. if ack_matches jid consumer attempt j then ack_row now success r e j else j) q"
    by (simp add: ack_job_def)
  then show ?thesis
    by (auto simp: ack_matches_def intro!: rows_step_map [OF assms(2)])
next
  case (reap now stranded_before n)
  then have "q' = map (\<lambda>j. if stranded stranded_before j then reap_row now j else j) q"
    by (simp add: reap_stranded_jobs_def)
  then show ?thesis
    by (auto simp: stranded_def intro!: rows_step_map [OF assms(2)])
next
  case reorder
  then have "set q' = set q" and "mset (map jb_id q') = mset (map jb_id q)"
    by (auto dest: mset_eq_setD)
  from this(1) mset_eq_imp_distinct_iff [OF this(2)] show ?thesis
    using assms(2) by (auto simp: rows_step_def job_ids_def)
qed

lemma queue_inv_step: "job_step q q' \<Longrightarrow> queue_inv q \<Longrightarrow> queue_inv q'"
  using job_step_rows [of q q'] row_step_ok
  by (force simp: queue_inv_def rows_step_def list_all_iff)

lemma queue_inv_steps: "job_steps q q' \<Longrightarrow> queue_inv q \<Longrightarrow> queue_inv q'"
  by (induction rule: rtranclp_induct) (auto dest: queue_inv_step)

lemma queue_inv_Nil: "queue_inv []"
  by (simp add: queue_inv_def)

lemma job_row_step:
  assumes "job_step q q'" and "queue_inv q" and "j \<in> set q"
  shows "\<exists>j'\<in>set q'. row_step j j'"
proof -
  have rs: "rows_step q q'" using assms(1,2) by (simp add: job_step_rows queue_inv_def)
  then obtain j' where "j' \<in> set q'" "jb_id j' = jb_id j"
    using assms(3) by (auto simp: rows_step_def job_ids_def)
  moreover from this rs obtain k where "k \<in> set q" "row_step k j'"
    using assms(3) by (auto simp: rows_step_def job_ids_def)
  moreover from this have "k = j"
    using assms(2,3) calculation(2) row_step_id distinct_id_inj by (metis queue_inv_def)
  ultimately show ?thesis by blast
qed

text \<open>A property of one row that every row step keeps holds along a whole run.\<close>

lemma job_steps_row:
  assumes "job_steps q q'" and "queue_inv q" and "j \<in> set q" and "P j"
    and "\<And>k k'. row_step k k' \<Longrightarrow> P k \<Longrightarrow> P k'"
  shows "\<exists>j'\<in>set q'. jb_id j' = jb_id j \<and> P j'"
  using assms(1)
proof (induction rule: rtranclp_induct)
  case base
  then show ?case using assms(3,4) by blast
next
  case (step q1 q2)
  then obtain k where k: "k \<in> set q1" "jb_id k = jb_id j" "P k" by blast
  have "queue_inv q1" using step.hyps(1) assms(2) by (rule queue_inv_steps)
  then obtain k' where "k' \<in> set q2" "row_step k k'" using job_row_step step.hyps(2) k(1) by blast
  then show ?case using k assms(5) by (metis row_step_id)
qed

text \<open>C17. Whatever the producers, workers and the reaper do, starting from an empty table ids stay
  unique, a job waits with fewer than eight attempts behind it, runs or succeeds within its eight
  attempts, and is given up only after all eight.\<close>

theorem job_queue_invariant:
  assumes "job_steps [] q" and "j \<in> set q"
  shows "distinct (map jb_id q) \<and> 0 \<le> jb_attempt_count j \<and> jb_attempt_count j \<le> 8 \<and>
    (jb_status j = Pending \<longrightarrow> jb_attempt_count j < 8) \<and>
    (jb_status j = InProgress \<longrightarrow> 1 \<le> jb_attempt_count j \<and> jb_last_attempt_at j \<noteq> None) \<and>
    (jb_status j = Failed \<longrightarrow> jb_attempt_count j = 8)"
proof -
  have "queue_inv q" using assms(1) queue_inv_Nil by (rule queue_inv_steps)
  then show ?thesis
    using assms(2) by (cases "jb_status j") (auto simp: queue_inv_def list_all_iff job_ok_def MAX_ATTEMPTS_def)
qed

text \<open>C19. A delivered or given-up job is final: no later lease, acknowledgement or reaper pass
  changes any column of it.\<close>

theorem terminal_jobs_final:
  assumes "job_steps [] q" and "job_steps q q'" and "j \<in> set q" and "terminal j"
  shows "j \<in> set q'"
proof -
  have "queue_inv q" using assms(1) queue_inv_Nil by (rule queue_inv_steps)
  moreover have "row_step k k' \<Longrightarrow> k = j \<Longrightarrow> k' = j" for k k'
    using assms(4) by (auto simp: row_step_def terminal_def)
  ultimately show ?thesis
    using job_steps_row [OF assms(2) _ assms(3), of "\<lambda>k. k = j"] by auto
qed

text \<open>C18. The attempt number fences a lease: when an acknowledgement that carries the attempt
  number a lease handed out applies at all, the row is still exactly as that lease left it, so no other
  worker has leased, acknowledged or lost the job since.\<close>

theorem lease_fences_ack:
  assumes "job_steps [] q" and "lease_jobs now consumer limit locked q = (bodies, q1)" and "b \<in> set bodies"
    and "job_steps q1 q2"
    and "fst (ack_job now' (ob_id b) c success r e (Some (ob_attempt_count b)) q2)"
  shows "\<exists>j\<in>set q. j \<in> set (picked now consumer limit locked q) \<and> job_body (lease_row now j) = b \<and>
    lease_row now j \<in> set q2"
proof -
  let ?fenced = "\<lambda>j k. k = lease_row now j \<or> jb_attempt_count j + 1 < jb_attempt_count k \<or>
      jb_attempt_count k = jb_attempt_count j + 1 \<and> jb_status k \<noteq> InProgress"
  have inv: "queue_inv q" using assms(1) queue_inv_Nil by (rule queue_inv_steps)
  have inv1: "queue_inv q1"
    using queue_inv_step [OF job_step.lease [OF assms(2)] inv] .
  obtain j where j: "j \<in> set (picked now consumer limit locked q)" and b: "b = job_body (lease_row now j)"
    using assms(2,3) by (auto simp: lease_jobs_def Let_def)
  then have jq: "j \<in> set q" using set_picked by blast
  have "lease_row now j \<in> set q1"
    using lease_rows [of q now consumer limit locked] inv assms(2) j jq by (auto simp: queue_inv_def)
  moreover have "row_step k k' \<Longrightarrow> ?fenced j k \<Longrightarrow> ?fenced j k'" for k k'
    by (auto simp: row_step_def)
  ultimately obtain k where k: "k \<in> set q2" "jb_id k = jb_id j" "?fenced j k"
    using job_steps_row [OF assms(4) inv1, of "lease_row now j" "?fenced j"] by auto
  obtain k2 where k2: "k2 \<in> set q2" "jb_id k2 = jb_id j" "jb_status k2 = InProgress"
      "jb_attempt_count k2 = jb_attempt_count j + 1"
    using assms(5) b by (auto simp: ack_job_def list_ex_iff ack_matches_def job_body_def)
  moreover have "k2 = k"
    using k k2 queue_inv_steps [OF assms(4) inv1] distinct_id_inj by (metis queue_inv_def)
  ultimately show ?thesis using k j b jq by auto
qed

subsection \<open>What a lease hands out\<close>

lemma sorted_key_take_before:
  assumes "sorted (map f xs)" and "x \<in> set (take n xs)" and "y \<in> set xs" and "y \<notin> set (take n xs)"
  shows "f x \<le> (f y :: 'b :: linorder)"
proof -
  have "sorted (map f (take n xs) @ map f (drop n xs))"
    using assms(1) by (metis append_take_drop_id map_append)
  moreover have "y \<in> set (drop n xs)"
    using assms(3,4) by (metis Un_iff append_take_drop_id set_append)
  ultimately show ?thesis using assms(2) by (auto simp: sorted_append)
qed

lemma filter_leased:
  "\<forall>k\<in>A. jb_consumer k = c \<Longrightarrow>
     filter (\<lambda>j. jb_consumer j \<noteq> c) (map (\<lambda>j. if j \<in> A then lease_row now j else j) q) =
     filter (\<lambda>j. jb_consumer j \<noteq> c) q"
  by (induction q) auto

text \<open>A lease hands out at most the clamped number of jobs, every one a due, unlocked job of
  the consumer, and oldest first: a due job left behind was due no earlier than any handed out, and is
  left only when the limit is used up. Every other consumer's row is untouched.\<close>

theorem lease_jobs_picks_oldest_due:
  assumes "queue_inv q" and "lease_jobs now consumer limit locked q = (bodies, q')"
  shows "length bodies \<le> 100 \<and>
    (\<forall>b\<in>set bodies. \<exists>j\<in>set q. due now consumer locked j \<and> b = job_body (lease_row now j) \<and> lease_row now j \<in> set q') \<and>
    (\<forall>j\<in>set q. due now consumer locked j \<and> j \<in> set q' \<longrightarrow> length bodies = lease_limit limit \<and>
      (\<forall>b\<in>set bodies. \<exists>k\<in>set q. ob_id b = jb_id k \<and> jb_next_attempt_at k \<le> jb_next_attempt_at j)) \<and>
    filter (\<lambda>j. jb_consumer j \<noteq> consumer) q' = filter (\<lambda>j. jb_consumer j \<noteq> consumer) q"
proof -
  let ?d = "picked now consumer limit locked q" and ?due = "filter (due now consumer locked) q"
  have bodies: "bodies = map (\<lambda>j. job_body (lease_row now j)) ?d"
    using assms(2) by (auto simp: lease_jobs_def Let_def)
  have q': "q' = map (\<lambda>j. if j \<in> set ?d then lease_row now j else j) q"
    using lease_rows [of q now consumer limit locked] assms by (simp add: queue_inv_def)
  have d: "?d = take (lease_limit limit) (sort_key jb_next_attempt_at ?due)"
    by (simp add: picked_def)
  have "\<forall>b\<in>set bodies. \<exists>j\<in>set q. due now consumer locked j \<and> b = job_body (lease_row now j) \<and> lease_row now j \<in> set q'"
    using set_picked [of now consumer limit locked q] by (auto simp: bodies q')
  moreover have "length bodies = lease_limit limit \<and>
      (\<forall>b\<in>set bodies. \<exists>k\<in>set q. ob_id b = jb_id k \<and> jb_next_attempt_at k \<le> jb_next_attempt_at j)"
    if j: "j \<in> set q" "due now consumer locked j" "j \<in> set q'" for j
  proof -
    have "j \<notin> set ?d"
    proof
      assume "j \<in> set ?d"
      moreover obtain k where "k \<in> set q" "j = (if k \<in> set ?d then lease_row now k else k)"
        using j(3) by (auto simp: q')
      ultimately have "j = lease_row now k" and "k \<in> set ?d" by (metis, metis)
      then show False using j(2) by (simp add: due_def)
    qed
    moreover have "j \<in> set (sort_key jb_next_attempt_at ?due)" using j by simp
    ultimately have "lease_limit limit < length (sort_key jb_next_attempt_at ?due)"
      unfolding d by (metis not_less take_all)
    moreover have "\<forall>k\<in>set ?d. jb_next_attempt_at k \<le> jb_next_attempt_at j"
    proof
      fix k assume "k \<in> set ?d"
      then show "jb_next_attempt_at k \<le> jb_next_attempt_at j"
        using \<open>j \<in> set (sort_key _ _)\<close> \<open>j \<notin> set ?d\<close> unfolding d
        by (rule sorted_key_take_before [OF sorted_sort_key])
    qed
    moreover have "ob_id (job_body (lease_row now k)) = jb_id k" for k by (simp add: job_body_def)
    moreover have "length bodies = lease_limit limit"
      using calculation(1) by (simp add: bodies d)
    ultimately show ?thesis
      using set_picked [of now consumer limit locked q] unfolding bodies set_map by blast
  qed
  moreover have "filter (\<lambda>j. jb_consumer j \<noteq> consumer) q' = filter (\<lambda>j. jb_consumer j \<noteq> consumer) q"
  proof -
    have "\<forall>k\<in>set ?d. jb_consumer k = consumer"
      using set_picked [of now consumer limit locked q] by (auto simp: due_def)
    then show ?thesis unfolding q' by (rule filter_leased)
  qed
  moreover have "length bodies \<le> 100" by (simp add: bodies d lease_limit_def)
  ultimately show ?thesis by blast
qed

text \<open>A reaper pass leaves no stranded job: every job whose lease began before the cutoff is
  requeued, or given up after eight attempts, its recorded failure kept; jobs inside their lease and
  all other rows are untouched.\<close>

theorem reaper_leaves_none_stranded:
  assumes "outbound_job_reaper_once clock now q = (msg, q')" and "job_steps [] q"
  shows "(\<forall>j\<in>set q'. jb_status j = InProgress \<longrightarrow>
      (\<exists>t. jb_last_attempt_at j = Some t \<and> clock - 300000000 \<le> t)) \<and>
    (\<forall>j\<in>set q. jb_status j = InProgress \<and> the (jb_last_attempt_at j) < clock - 300000000 \<longrightarrow>
      (\<exists>j'\<in>set q'. jb_id j' = jb_id j \<and> jb_error j' \<noteq> None \<and>
        (jb_error j \<noteq> None \<longrightarrow> jb_error j' = jb_error j) \<and>
        jb_status j' = (if jb_attempt_count j = 8 then Failed else Pending))) \<and>
    (\<forall>j\<in>set q. \<not> (jb_status j = InProgress \<and> the (jb_last_attempt_at j) < clock - 300000000) \<longrightarrow> j \<in> set q')"
proof -
  let ?cut = "clock - 300000000"
  have inv: "list_all job_ok q"
    using queue_inv_steps [OF assms(2) queue_inv_Nil] by (simp add: queue_inv_def)
  have q': "q' = map (\<lambda>j. if stranded ?cut j then reap_row now j else j) q"
    using assms(1) by (simp add: outbound_job_reaper_once_def reap_stranded_jobs_def
        OUTBOUND_JOB_LEASE_TIMEOUT_MINS_def seconds_def)
  have st: "stranded ?cut j \<longleftrightarrow> jb_status j = InProgress \<and> the (jb_last_attempt_at j) < ?cut" if "j \<in> set q" for j
    using inv that by (auto simp: list_all_iff stranded_def job_ok_def split: option.splits)
  have "jb_error (reap_row now j) \<noteq> None \<and> (jb_error j \<noteq> None \<longrightarrow> jb_error (reap_row now j) = jb_error j) \<and>
      jb_status (reap_row now j) = (if jb_attempt_count j = 8 then Failed else Pending)"
    if "j \<in> set q" "stranded ?cut j" for j
    using inv that by (auto simp: list_all_iff stranded_def job_ok_def reap_row_def retry_or_fail_def
        MAX_ATTEMPTS_def split: option.splits)
  then have "\<forall>j\<in>set q. stranded ?cut j \<longrightarrow> (\<exists>j'\<in>set q'. jb_id j' = jb_id j \<and> jb_error j' \<noteq> None \<and>
        (jb_error j \<noteq> None \<longrightarrow> jb_error j' = jb_error j) \<and>
        jb_status j' = (if jb_attempt_count j = 8 then Failed else Pending))"
  proof (intro ballI impI, goal_cases)
    case (1 j)
    then have "reap_row now j \<in> set q'" by (auto simp: q')
    with 1 show ?case by (intro bexI [of _ "reap_row now j"]) simp_all
  qed
  moreover have "\<forall>j\<in>set q'. jb_status j = InProgress \<longrightarrow>
      (\<exists>t. jb_last_attempt_at j = Some t \<and> ?cut \<le> t)"
    by (auto simp: q' stranded_def split: if_splits option.splits)
  ultimately show ?thesis using st by (auto simp: q')
qed

lemma bound_consumer_Inr: "bound_consumer account declared = Inr c \<Longrightarrow> account = Some c"
  by (auto simp: bound_consumer_def bind_result_Inr_iff ok_or_def split: option.splits if_splits)

text \<open>An acknowledgement reaches only the calling account's own jobs: whatever it sends, every
  row of another consumer is unchanged, a refused request changes nothing, and a caller that is no
  service account is refused.\<close>

theorem ack_handler_isolates_consumers:
  "case ack_job_handler now account jid declared success res e attempt q of (reply, q') \<Rightarrow>
     filter (\<lambda>j. Some (jb_consumer j) \<noteq> account) q' = filter (\<lambda>j. Some (jb_consumer j) \<noteq> account) q \<and>
     (case reply of Inl er \<Rightarrow> q' = q | Inr u \<Rightarrow> account \<noteq> None)"
proof -
  have keep: "filter (\<lambda>j. jb_consumer j \<noteq> c) (map (\<lambda>j. if ack_matches jid c attempt j then ack_row now success res e j else j) q) =
      filter (\<lambda>j. jb_consumer j \<noteq> c) q" for c
    by (induction q) (auto simp: ack_matches_def)
  have none: "map (\<lambda>j. if ack_matches jid c attempt j then ack_row now success res e j else j) q = q"
    if "\<not> list_ex (ack_matches jid c attempt) q" for c
    using that by (induction q) auto
  show ?thesis
  proof (cases "bound_consumer account declared")
    case (Inl er)
    then show ?thesis by (simp add: ack_job_handler_def)
  next
    case (Inr c)
    then have "account = Some c" by (rule bound_consumer_Inr)
    then show ?thesis using Inr keep [of c] none [of c] by (simp add: ack_job_handler_def ack_job_def)
  qed
qed

section \<open>A sample run\<close>

definition sample_queue :: "job list" where
  "sample_queue = [new_job 0 (lit ''j1'') (lit ''tmi_publish'') JNull None None]"

definition leased_queue :: "job list" where
  "leased_queue = snd (lease_jobs 10 DISCORD_CONSUMER 10 [] sample_queue)"

definition delivered_queue :: "job list" where
  "delivered_queue = snd (ack_job 20 (lit ''j1'') DISCORD_CONSUMER True None None (Some 1) leased_queue)"

lemma sample_queue_run: "job_steps [] sample_queue"
  by (rule r_into_rtranclp, rule job_step.enqueue [of 0 "lit ''j1''" "lit ''tmi_publish''" JNull None None _ "lit ''j1''"])
    code_simp

lemma leased_queue_run: "job_steps [] leased_queue"
  by (rule rtranclp.rtrancl_into_rtrancl [OF sample_queue_run])
    (rule job_step.lease [of 10 DISCORD_CONSUMER 10 "[]" _ "fst (lease_jobs 10 DISCORD_CONSUMER 10 [] sample_queue)"],
      simp add: leased_queue_def)

lemma delivered_queue_run: "job_steps [] delivered_queue"
  by (rule rtranclp.rtrancl_into_rtrancl [OF leased_queue_run])
    (rule job_step.ack [of 20 "lit ''j1''" DISCORD_CONSUMER True None None "Some 1" _
        "fst (ack_job 20 (lit ''j1'') DISCORD_CONSUMER True None None (Some 1) leased_queue)"],
      simp add: delivered_queue_def)

theorem job_queue_invariant_witness:
  "jb_status (hd leased_queue) = InProgress \<and> 1 \<le> jb_attempt_count (hd leased_queue)"
proof -
  have "hd leased_queue \<in> set leased_queue" and "jb_status (hd leased_queue) = InProgress"
    by code_simp+
  then show ?thesis using job_queue_invariant [OF leased_queue_run, of "hd leased_queue"] by simp
qed

theorem terminal_jobs_final_witness:
  "hd delivered_queue \<in> set (snd (reap_stranded_jobs 900 800 delivered_queue))"
proof -
  have "hd delivered_queue \<in> set delivered_queue" and "terminal (hd delivered_queue)"
    by code_simp+
  moreover have "job_steps delivered_queue (snd (reap_stranded_jobs 900 800 delivered_queue))"
    by (rule r_into_rtranclp) (rule job_step.reap, rule prod.collapse [symmetric])
  ultimately show ?thesis using terminal_jobs_final [OF delivered_queue_run] by blast
qed

theorem lease_fences_ack_witness:
  "\<exists>j\<in>set sample_queue. lease_row 10 j \<in> set leased_queue"
proof -
  let ?l = "lease_jobs 10 DISCORD_CONSUMER 10 [] sample_queue" and ?b = "hd (fst (lease_jobs 10 DISCORD_CONSUMER 10 [] sample_queue))"
  have "?l = (fst ?l, leased_queue)" by (simp add: leased_queue_def)
  moreover have "?b \<in> set (fst ?l)"
    and "fst (ack_job 20 (ob_id ?b) DISCORD_CONSUMER True None None (Some (ob_attempt_count ?b)) leased_queue)"
    by code_simp+
  ultimately show ?thesis
    using lease_fences_ack [OF sample_queue_run _ _ rtranclp.rtrancl_refl,
        of 10 DISCORD_CONSUMER 10 "[]" "fst ?l" leased_queue ?b 20 DISCORD_CONSUMER True None None] by blast
qed

theorem lease_jobs_picks_oldest_due_witness:
  "length (fst (lease_jobs 10 DISCORD_CONSUMER 10 [] sample_queue)) \<le> 100"
  using lease_jobs_picks_oldest_due [OF queue_inv_steps [OF sample_queue_run queue_inv_Nil] prod.collapse [symmetric],
      of 10 DISCORD_CONSUMER 10 "[]"]
  by simp

theorem reaper_leaves_none_stranded_witness:
  "\<exists>j'\<in>set (snd (outbound_job_reaper_once 400000000 400000000 leased_queue)).
     jb_id j' = lit ''j1'' \<and> jb_status j' = Pending"
proof -
  have "hd leased_queue \<in> set leased_queue" and "jb_status (hd leased_queue) = InProgress"
    and "the (jb_last_attempt_at (hd leased_queue)) < 400000000 - 300000000"
    and "jb_id (hd leased_queue) = lit ''j1''" and "jb_attempt_count (hd leased_queue) \<noteq> 8"
    by code_simp+
  then show ?thesis
    using reaper_leaves_none_stranded [OF prod.collapse [symmetric] leased_queue_run, of 400000000 400000000]
    by fastforce
qed

end
