(* ===== verification/AceTimes.thy ===== *)
theory AceTimes
  imports Errors
begin

text \<open>
  The pure time helpers of \<open>backend/src/handlers/ace.rs\<close>: the check on a claim's window, the
  parser of a Discord modal's Zulu \<open>HHMM\<close> and the options its time select offers. An instant is
  the integer number of microseconds since the epoch, which is what the database stores.
\<close>

definition minute :: int where "minute = 60000000"
definition day :: int where "day = 1440 * minute"

lemma day_pos: "0 < day" and minute_pos: "0 < minute"
  by (simp_all add: day_def minute_def)

section \<open>A claim's window\<close>

definition validate_window :: "int option \<Rightarrow> int option \<Rightarrow> int \<Rightarrow> int \<Rightarrow> unit result" where
  "validate_window start stop event_start event_end =
     (if (case (start, stop) of (Some s, Some e) \<Rightarrow> e \<le> s | _ \<Rightarrow> False) then Inl BadRequest
      else if list_ex (\<lambda>t. case t of None \<Rightarrow> False | Some t \<Rightarrow> t < event_start \<or> event_end < t) [start, stop]
      then Inl BadRequest else Inr ())"

lemma validate_window_Inr_iff:
  "validate_window start stop event_start event_end = Inr () \<longleftrightarrow>
     (\<forall>s e. start = Some s \<longrightarrow> stop = Some e \<longrightarrow> s < e) \<and>
     (\<forall>t. start = Some t \<or> stop = Some t \<longrightarrow> event_start \<le> t \<and> t \<le> event_end)"
  by (cases start; cases stop) (auto simp: validate_window_def)

section \<open>Reading an \<open>HHMM\<close>\<close>

definition digits_value :: "ustr \<Rightarrow> int" where
  "digits_value s = foldl (\<lambda>n c. 10 * n + (c - 48)) 0 s"

definition midnight :: "int \<Rightarrow> int" where
  "midnight t = t div day * day"

definition parse_hhmm_in_window :: "ustr option \<Rightarrow> int \<Rightarrow> int \<Rightarrow> int option" where
  "parse_hhmm_in_window raw event_start event_end =
     (case raw of None \<Rightarrow> None | Some r \<Rightarrow>
        let s = filter (\<lambda>c. c \<noteq> 58) (trim r) in
        if length s \<noteq> 4 \<or> \<not> list_all is_ascii_digit s then None else
        let hh = digits_value (take 2 s); mm = digits_value (drop 2 s) in
        if 24 \<le> hh \<or> 60 \<le> mm then None else
        let cand0 = midnight event_start + (hh * 60 + mm) * minute;
            cand = (if cand0 < event_start then cand0 + day else cand0) in
        if event_start \<le> cand \<and> cand \<le> event_end then Some cand else None)"

section \<open>The options of the time select\<close>

text \<open>\<open>%H%M\<close>, as the minute of the day printed in four digits.\<close>

definition minute_of_day :: "int \<Rightarrow> int" where
  "minute_of_day t = t div minute mod 1440"

definition fmt_hhmm :: "int \<Rightarrow> ustr" where
  "fmt_hhmm t = show_zero_padded 2 (minute_of_day t div 60) @ show_zero_padded 2 (minute_of_day t mod 60)"

fun first_step :: "int \<Rightarrow> int list \<Rightarrow> int" where
  "first_step mins [] = 60"
| "first_step mins (s # ss) = (if mins div s < 25 then s else first_step mins ss)"

text \<open>The loop adds at most 25 options, so its bound is the fuel.\<close>

fun option_times :: "nat \<Rightarrow> int \<Rightarrow> int \<Rightarrow> int \<Rightarrow> int list" where
  "option_times 0 t stop step = []"
| "option_times (Suc n) t stop step = (if t \<le> stop then t # option_times n (t + step * minute) stop step else [])"

definition event_time_options :: "int \<Rightarrow> int \<Rightarrow> ustr \<times> ustr list" where
  "event_time_options start stop =
     (let label = fmt_hhmm start @ [8211] @ fmt_hhmm stop @ lit ''z'';
          total_min = max 0 ((stop - start) div minute);
          step = first_step total_min [15, 30, 60];
          opts = map fmt_hhmm (option_times 25 start stop step) in
      (label, if (opts = [] \<or> last opts \<noteq> fmt_hhmm stop) \<and> length opts < 25
              then opts @ [fmt_hhmm stop] else opts))"

section \<open>What the parser and the options promise\<close>

lemma digits_value_two:
  "length s = 2 \<Longrightarrow> list_all is_ascii_digit s \<Longrightarrow> 0 \<le> digits_value s \<and> digits_value s \<le> 99"
  by (cases s rule: remdups_adj.cases) (auto simp: is_ascii_digit_def digits_value_def)

lemma midnight_bounds: "midnight t \<le> t \<and> t < midnight t + day" and midnight_mod: "midnight t mod day = 0"
proof -
  have "t = midnight t + t mod day" "0 \<le> t mod day" "t mod day < day"
    using day_pos by (simp_all add: midnight_def)
  then show "midnight t \<le> t \<and> t < midnight t + day" by linarith
qed (simp add: midnight_def)

lemma next_time_of_day:
  fixes s :: int
  assumes "0 \<le> x" and "x < day"
  defines "c \<equiv> if midnight s + x < s then midnight s + x + day else midnight s + x"
  shows "s \<le> c \<and> c < s + day \<and> c mod day = x"
proof -
  have "(midnight s + x) mod day = x"
    using assms(1,2) midnight_mod [of s] by (metis add.left_neutral mod_add_left_eq mod_pos_pos_trivial)
  then show ?thesis using midnight_bounds [of s] assms(1,2) by (auto simp: c_def)
qed

definition hhmm_of :: "ustr \<Rightarrow> (int \<times> int) option" where
  "hhmm_of raw = (let s = filter (\<lambda>c. c \<noteq> 58) (trim raw) in
     if length s = 4 \<and> list_all is_ascii_digit s \<and> digits_value (take 2 s) < 24 \<and> digits_value (drop 2 s) < 60
     then Some (digits_value (take 2 s), digits_value (drop 2 s)) else None)"

lemma parse_hhmm_hhmm_of:
  "parse_hhmm_in_window (Some raw) event_start event_end =
     (case hhmm_of raw of None \<Rightarrow> None
      | Some (hh, mm) \<Rightarrow>
          let c0 = midnight event_start + (hh * 60 + mm) * minute;
              c = (if c0 < event_start then c0 + day else c0)
          in if event_start \<le> c \<and> c \<le> event_end then Some c else None)"
  by (auto simp: parse_hhmm_in_window_def hhmm_of_def Let_def)

lemma hhmm_of_bounds: "hhmm_of raw = Some (hh, mm) \<Longrightarrow> 0 \<le> hh \<and> hh < 24 \<and> 0 \<le> mm \<and> mm < 60"
proof -
  let ?s = "filter (\<lambda>c. c \<noteq> 58) (trim raw)"
  assume a: "hhmm_of raw = Some (hh, mm)"
  then have s: "length ?s = 4" "list_all is_ascii_digit ?s" "hh = digits_value (take 2 ?s)" "mm = digits_value (drop 2 ?s)"
    "hh < 24" "mm < 60" by (simp_all add: hhmm_of_def Let_def split: if_splits)
  have "list_all is_ascii_digit (take 2 ?s)" "list_all is_ascii_digit (drop 2 ?s)"
    using s(2) by (auto simp: list_all_iff simp del: set_filter dest: in_set_takeD in_set_dropD)
  then show ?thesis
    using s digits_value_two [of "take 2 ?s"] digits_value_two [of "drop 2 ?s"] by simp
qed

text \<open>A modal time is read as the one instant within a day from the event's start that shows
  that time of day, and is accepted exactly when the event has not ended by then.\<close>

theorem parse_hhmm_is_next_occurrence:
  assumes "hhmm_of raw = Some (hh, mm)"
  shows "\<exists>c. event_start \<le> c \<and> c < event_start + day \<and> c mod day = (hh * 60 + mm) * minute \<and>
    parse_hhmm_in_window (Some raw) event_start event_end = (if c \<le> event_end then Some c else None)"
proof -
  let ?x = "(hh * 60 + mm) * minute"
  define c where "c = (if midnight event_start + ?x < event_start
    then midnight event_start + ?x + day else midnight event_start + ?x)"
  have "0 \<le> ?x" and "?x < day"
    using hhmm_of_bounds [OF assms] by (auto simp: day_def minute_def)
  from next_time_of_day [OF this, of event_start]
  have c: "event_start \<le> c \<and> c < event_start + day \<and> c mod day = ?x" by (simp add: c_def)
  have "parse_hhmm_in_window (Some raw) event_start event_end = (if c \<le> event_end then Some c else None)"
    unfolding parse_hhmm_hhmm_of assms option.case prod.case Let_def c_def [symmetric] using c by simp
  with c show ?thesis by blast
qed

theorem parse_hhmm_is_next_occurrence_witness:
  "\<exists>c. 23 * 60 * minute \<le> c \<and> c mod day = 90 * minute \<and>
    parse_hhmm_in_window (Some (lit '' 01:30 '')) (23 * 60 * minute) (26 * 60 * minute) =
      (if c \<le> 26 * 60 * minute then Some c else None)"
proof -
  have "hhmm_of (lit '' 01:30 '') = Some (1, 30)" by code_simp
  from parse_hhmm_is_next_occurrence [OF this, of "23 * 60 * minute" "26 * 60 * minute"]
  show ?thesis by auto
qed

lemma option_times_bounds:
  "set (option_times n t stop step) \<subseteq> {x. x \<le> stop} \<and> length (option_times n t stop step) \<le> n"
  by (induction n t stop step rule: option_times.induct) auto

lemma option_times_lower:
  "x \<in> set (option_times n t stop step) \<Longrightarrow> 0 < step \<Longrightarrow> t \<le> x"
proof (induction n t stop step rule: option_times.induct)
  case (2 n t stop step)
  have "0 < step * minute" using "2.prems"(2) minute_pos by simp
  then show ?case using 2 by (auto split: if_splits)
qed simp

text \<open>The select never exceeds Discord's 25 options; it starts at the event's start and ends at
  the event's end unless all 25 options are used.\<close>

theorem event_time_options_fit:
  assumes "start \<le> stop"
  shows "case event_time_options start stop of (label, opts) \<Rightarrow>
    length opts \<le> 25 \<and> hd opts = fmt_hhmm start \<and> (last opts = fmt_hhmm stop \<or> length opts = 25) \<and>
    set opts \<subseteq> fmt_hhmm ` {start..stop}"
proof -
  define step where "step = first_step (max 0 ((stop - start) div minute)) [15, 30, 60]"
  define ts where "ts = option_times 25 start stop step"
  have "0 < step" unfolding step_def by auto
  then have lower: "\<forall>x\<in>set ts. start \<le> x" unfolding ts_def using option_times_lower by blast
  have first: "ts = start # option_times 24 (start + step * minute) stop step"
    unfolding ts_def using option_times.simps(2) [of 24 start stop step] assms by (simp del: option_times.simps)
  have "length ts \<le> 25" and "set ts \<subseteq> {start..stop}"
    using option_times_bounds [of 25 start stop step] lower unfolding ts_def by auto
  moreover have "ts \<noteq> []" and "hd ts = start" by (simp_all add: first)
  ultimately show ?thesis
    unfolding event_time_options_def Let_def prod.case step_def [symmetric] ts_def [symmetric]
    using assms by (auto simp: hd_map hd_append)
qed

theorem event_time_options_fit_witness:
  "length (snd (event_time_options 0 (367 * minute))) \<le> 25"
  using event_time_options_fit [of 0 "367 * minute"] by (simp add: minute_def split: prod.splits)

text \<open>The end of a window can be missing: six hours and seven minutes fill the select first.\<close>

lemma event_end_not_offered:
  "last (snd (event_time_options 0 (367 * minute))) \<noteq> fmt_hhmm (367 * minute)"
  by code_simp

end
