(* ===== verification/DiscordConfig.thy ===== *)
theory DiscordConfig
  imports Errors "HOL-Library.Multiset" "HOL-Library.AList" "HOL-Library.Product_Lexorder"
begin

text \<open>
  The Discord guild configuration of \<open>backend/src/repos/integration.rs\<close>: each configured guild
  maps logical channel and role names to Discord ids and lists the ARTCCs it serves;
  \<open>resolve_scoped_id\<close> answers which guild's channel a post for a facility goes to. A guild's
  rows in the four tables are one record; \<open>org.facilities\<close>, the target of a foreign key, and the
  random row ids are arguments.
\<close>

section \<open>Facility and airport names\<close>

definition is_ascii_alphanumeric :: "int \<Rightarrow> bool" where
  "is_ascii_alphanumeric c \<longleftrightarrow> is_ascii_digit c \<or> is_ascii_uppercase c \<or> is_ascii_lowercase c"

text \<open>A name that passes the character test is ASCII, so its length in bytes is the length of the
  list.\<close>

definition normalize_facility :: "ustr \<Rightarrow> ustr option" where
  "normalize_facility raw = (let f = ascii_upper (trim raw) in
     if f \<noteq> [] \<and> length f \<le> 8 \<and> list_all is_ascii_alphanumeric f then Some f else None)"

definition normalize_icao :: "ustr \<Rightarrow> ustr option" where
  "normalize_icao raw = (let s = ascii_upper (trim raw) in
     if 3 \<le> length s \<and> length s \<le> 4 \<and> list_all is_ascii_alphanumeric s then Some s else None)"

lemma alphanumeric_upper_not_space:
  "is_ascii_alphanumeric c \<Longrightarrow> \<not> is_whitespace c"
  by (auto simp: is_ascii_alphanumeric_def is_ascii_digit_def is_ascii_uppercase_def
      is_ascii_lowercase_def is_whitespace_def)

lemma upper_trim_id: "list_all is_ascii_alphanumeric (ascii_upper s) \<Longrightarrow> trim (ascii_upper s) = ascii_upper s"
  by (rule trim_id_all) (auto simp: list_all_iff alphanumeric_upper_not_space)

lemma normalize_facility_idem: "normalize_facility raw = Some f \<Longrightarrow> normalize_facility f = Some f"
  by (auto simp: normalize_facility_def Let_def upper_trim_id split: if_splits)

lemma normalize_icao_idem: "normalize_icao raw = Some s \<Longrightarrow> normalize_icao s = Some s"
  by (auto simp: normalize_icao_def Let_def upper_trim_id split: if_splits)

section \<open>The tables\<close>

record guild_config =
  gc_id :: ustr
  gc_name :: ustr
  gc_guild_id :: ustr
  gc_sort_order :: int
  gc_channels :: "(ustr \<times> ustr) list"
  gc_roles :: "(ustr \<times> ustr) list"
  gc_facilities :: "ustr list"

record guild_config_input =
  gi_name :: ustr
  gi_guild_id :: ustr
  gi_channels :: "(ustr \<times> ustr) list"
  gi_roles :: "(ustr \<times> ustr) list"
  gi_facilities :: "ustr list"

text \<open>\<open>replace_map\<close> on a fresh configuration row: blank entries are skipped, a repeated name keeps
  the last id.\<close>

fun replace_map :: "(ustr \<times> ustr) list \<Rightarrow> (ustr \<times> ustr) list \<Rightarrow> (ustr \<times> ustr) list" where
  "replace_map stored [] = stored"
| "replace_map stored ((name, snowflake) # entries) =
     (if trim name = [] \<or> trim snowflake = [] then replace_map stored entries
      else replace_map (AList.update (trim name) (trim snowflake) stored) entries)"

text \<open>The facility rows; one outside \<open>org.facilities\<close> violates the foreign key.\<close>

fun insert_facilities :: "ustr list \<Rightarrow> ustr list \<Rightarrow> ustr list \<Rightarrow> ustr list result" where
  "insert_facilities orgs stored [] = Inr stored"
| "insert_facilities orgs stored (raw # raws) =
     (case normalize_facility raw of
        None \<Rightarrow> insert_facilities orgs stored raws
      | Some artcc \<Rightarrow>
          if artcc \<notin> set orgs then Inl Internal
          else insert_facilities orgs (if artcc \<in> set stored then stored else stored @ [artcc]) raws)"

definition config_row :: "ustr \<Rightarrow> nat \<Rightarrow> guild_config_input \<Rightarrow> ustr list \<Rightarrow> guild_config" where
  "config_row cid i g facilities = \<lparr>gc_id = cid, gc_name = trim (gi_name g), gc_guild_id = trim (gi_guild_id g),
     gc_sort_order = int i, gc_channels = replace_map [] (gi_channels g),
     gc_roles = replace_map [] (gi_roles g), gc_facilities = facilities\<rparr>"

fun insert_guilds :: "(nat \<Rightarrow> ustr) \<Rightarrow> ustr list \<Rightarrow> nat \<Rightarrow> guild_config_input list \<Rightarrow> guild_config list result" where
  "insert_guilds fresh orgs i [] = Inr []"
| "insert_guilds fresh orgs i (g # gs) =
     (if trim (gi_guild_id g) = [] then insert_guilds fresh orgs (Suc i) gs
      else bind_result (insert_facilities orgs [] (gi_facilities g)) (\<lambda>facilities.
           bind_result (insert_guilds fresh orgs (Suc i) gs) (\<lambda>rest.
             Inr (config_row (fresh i) i g facilities # rest))))"

text \<open>A full replacement in one transaction: an error leaves the stored configuration alone.\<close>

definition upsert_config ::
    "(nat \<Rightarrow> ustr) \<Rightarrow> ustr list \<Rightarrow> guild_config_input list \<Rightarrow> guild_config list \<Rightarrow> unit result \<times> guild_config list" where
  "upsert_config fresh orgs req stored =
     (case insert_guilds fresh orgs 0 req of Inl e \<Rightarrow> (Inl e, stored) | Inr cs \<Rightarrow> (Inr (), cs))"

section \<open>Resolving a name\<close>

datatype map_table = DiscordChannels | DiscordRoles

fun table_of :: "map_table \<Rightarrow> guild_config \<Rightarrow> (ustr \<times> ustr) list" where
  "table_of DiscordChannels = gc_channels"
| "table_of DiscordRoles = gc_roles"

definition serves :: "ustr option \<Rightarrow> guild_config \<Rightarrow> bool" where
  "serves facility c \<longleftrightarrow> (case facility of None \<Rightarrow> False | Some f \<Rightarrow> f \<in> set (gc_facilities c))"

definition resolve_scoped_id :: "map_table \<Rightarrow> guild_config list \<Rightarrow> ustr \<Rightarrow> ustr option \<Rightarrow> ustr option" where
  "resolve_scoped_id table cs name facility =
     (case sort_key (\<lambda>c. (\<not> serves facility c, gc_sort_order c))
             (filter (\<lambda>c. map_of (table_of table c) name \<noteq> None) cs) of
        [] \<Rightarrow> None
      | c # _ \<Rightarrow> map_of (table_of table c) name)"

definition channel_id :: "guild_config list \<Rightarrow> ustr \<Rightarrow> ustr option \<Rightarrow> ustr option" where
  "channel_id cs name facility = resolve_scoped_id DiscordChannels cs name facility"

definition role_id :: "guild_config list \<Rightarrow> ustr \<Rightarrow> ustr option \<Rightarrow> ustr option" where
  "role_id cs name facility = resolve_scoped_id DiscordRoles cs name facility"

section \<open>Which guild answers\<close>

text \<open>The contract the callers rely on, without sorting: the first configured guild that serves
  the facility and maps the name, else the first that maps it.\<close>

definition preferred :: "map_table \<Rightarrow> guild_config list \<Rightarrow> ustr \<Rightarrow> ustr option \<Rightarrow> ustr option" where
  "preferred table cs name facility =
     (case find (\<lambda>c. serves facility c \<and> map_of (table_of table c) name \<noteq> None) cs of
        Some c \<Rightarrow> map_of (table_of table c) name
      | None \<Rightarrow> (case find (\<lambda>c. map_of (table_of table c) name \<noteq> None) cs of
          Some c \<Rightarrow> map_of (table_of table c) name | None \<Rightarrow> None))"

lemma sort_key_flag_first:
  assumes "sorted (map s xs)"
  shows "sort_key (\<lambda>x. (\<not> m x, s x :: 'b :: linorder)) xs = filter m xs @ filter (\<lambda>x. \<not> m x) xs"
proof (rule properties_for_sort_key)
  show "mset (filter m xs @ filter (\<lambda>x. \<not> m x) xs) = mset xs"
    by (induction xs) auto
  show "filter (\<lambda>x. (\<not> m k, s k) = (\<not> m x, s x)) (filter m xs @ filter (\<lambda>x. \<not> m x) xs) =
      filter (\<lambda>x. (\<not> m k, s k) = (\<not> m x, s x)) xs" for k
    by (induction xs) (auto simp: filter_empty_conv)
  have "sorted (map s (filter m xs))" "sorted (map s (filter (\<lambda>x. \<not> m x) xs))"
    using assms by (simp_all add: sorted_filter)
  then show "sorted (map (\<lambda>x. (\<not> m x, s x)) (filter m xs @ filter (\<lambda>x. \<not> m x) xs))"
    by (auto simp: sorted_append sorted_map sorted_wrt_filter sorted_wrt_map less_eq_prod_def
        intro: sorted_wrt_mono_rel [rotated])
qed

lemma find_filter_hd: "find P xs = (case filter P xs of [] \<Rightarrow> None | x # _ \<Rightarrow> Some x)"
  by (induction xs) auto

lemma resolve_scoped_id_preferred:
  assumes "sorted (map gc_sort_order cs)"
  shows "resolve_scoped_id table cs name facility = preferred table cs name facility"
proof -
  let ?ys = "filter (\<lambda>c. map_of (table_of table c) name \<noteq> None) cs" and ?s = "serves facility"
  have sorted: "sorted (map gc_sort_order ?ys)" using assms by (rule sorted_filter)
  have pick: "find (\<lambda>c. ?s c \<and> map_of (table_of table c) name \<noteq> None) cs =
      (case filter ?s ?ys of [] \<Rightarrow> None | c # _ \<Rightarrow> Some c)"
    by (simp add: find_filter_hd filter_filter conj_commute)
  have any: "find (\<lambda>c. map_of (table_of table c) name \<noteq> None) cs = (case ?ys of [] \<Rightarrow> None | c # _ \<Rightarrow> Some c)"
    by (rule find_filter_hd)
  show ?thesis
  proof (cases "filter ?s ?ys")
    case Nil
    then have "filter (\<lambda>c. \<not> ?s c) ?ys = ?ys"
      unfolding filter_empty_conv by (intro filter_True) blast
    then show ?thesis
      unfolding resolve_scoped_id_def preferred_def pick any sort_key_flag_first [OF sorted] Nil
      by (simp split: list.splits)
  next
    case (Cons c r)
    then show ?thesis
      unfolding resolve_scoped_id_def preferred_def pick any sort_key_flag_first [OF sorted] by simp
  qed
qed

lemma insert_guilds_sort_order:
  "insert_guilds fresh orgs i gs = Inr cs \<Longrightarrow>
     sorted_wrt (<) (map gc_sort_order cs) \<and> (\<forall>c\<in>set cs. int i \<le> gc_sort_order c)"
proof (induction gs arbitrary: i cs)
  case (Cons g gs)
  then show ?case
  proof (cases "trim (gi_guild_id g) = []")
    case True
    with Cons.prems have "insert_guilds fresh orgs (Suc i) gs = Inr cs" by simp
    from Cons.IH [OF this] show ?thesis by auto
  next
    case False
    with Cons.prems obtain fs rest where r: "insert_guilds fresh orgs (Suc i) gs = Inr rest"
      "cs = config_row (fresh i) i g fs # rest"
      by (auto simp: bind_result_Inr_iff)
    from Cons.IH [OF r(1)] show ?thesis unfolding r(2) by (auto simp: config_row_def)
  qed
qed simp

lemma insert_facilities_valid:
  "insert_facilities orgs stored raws = Inr fs \<Longrightarrow>
     \<forall>f\<in>set stored. f \<in> set orgs \<and> normalize_facility f = Some f \<Longrightarrow> distinct stored \<Longrightarrow>
     distinct fs \<and> (\<forall>f\<in>set fs. f \<in> set orgs \<and> normalize_facility f = Some f)"
proof (induction orgs stored raws rule: insert_facilities.induct)
  case (2 orgs stored raw raws)
  show ?case
  proof (cases "normalize_facility raw")
    case None
    with 2 show ?thesis by simp
  next
    case (Some artcc)
    have fixed: "normalize_facility artcc = Some artcc" using Some by (rule normalize_facility_idem)
    have known: "artcc \<in> set orgs"
      and rest: "insert_facilities orgs (if artcc \<in> set stored then stored else stored @ [artcc]) raws = Inr fs"
      using 2(3) Some by (simp_all split: if_splits)
    have "\<forall>f\<in>set (if artcc \<in> set stored then stored else stored @ [artcc]). f \<in> set orgs \<and> normalize_facility f = Some f"
      and "distinct (if artcc \<in> set stored then stored else stored @ [artcc])"
      using 2(4,5) known fixed by auto
    with 2(2) [OF Some _ rest] known show ?thesis by simp
  qed
qed simp

lemma insert_guilds_facilities:
  "insert_guilds fresh orgs i gs = Inr cs \<Longrightarrow>
     \<forall>c\<in>set cs. distinct (gc_facilities c) \<and> (\<forall>f\<in>set (gc_facilities c). f \<in> set orgs \<and> normalize_facility f = Some f)"
proof (induction gs arbitrary: i cs)
  case (Cons g gs)
  show ?case
  proof (cases "trim (gi_guild_id g) = []")
    case True
    with Cons.prems have "insert_guilds fresh orgs (Suc i) gs = Inr cs" by simp
    then show ?thesis by (rule Cons.IH)
  next
    case False
    with Cons.prems obtain fs rest where r: "insert_facilities orgs [] (gi_facilities g) = Inr fs"
      "insert_guilds fresh orgs (Suc i) gs = Inr rest" "cs = config_row (fresh i) i g fs # rest"
      by (auto simp: bind_result_Inr_iff)
    have "gc_facilities (config_row (fresh i) i g fs) = fs" by (simp add: config_row_def)
    moreover have "distinct fs \<and> (\<forall>f\<in>set fs. f \<in> set orgs \<and> normalize_facility f = Some f)"
      using insert_facilities_valid [OF r(1)] by simp
    ultimately show ?thesis using Cons.IH [OF r(2)] unfolding r(3) by simp
  qed
qed simp

text \<open>After a successful save, a post for a facility goes to the first configured guild that
  lists the facility and maps the name, and otherwise to the first that maps it at all; the stored
  facilities are normalized, known and unique per guild. A failed save changes nothing.\<close>

theorem saved_config_routes_by_facility:
  "case upsert_config fresh orgs req stored of
     (Inl e, stored') \<Rightarrow> stored' = stored
   | (Inr u, cs) \<Rightarrow>
       channel_id cs name facility = preferred DiscordChannels cs name facility \<and>
       role_id cs name facility = preferred DiscordRoles cs name facility \<and>
       list_all (\<lambda>c. distinct (gc_facilities c) \<and>
         list_all (\<lambda>f. f \<in> set orgs \<and> normalize_facility f = Some f) (gc_facilities c)) cs"
proof (cases "insert_guilds fresh orgs 0 req")
  case (Inl e)
  then show ?thesis by (simp add: upsert_config_def)
next
  case (Inr cs)
  from insert_guilds_sort_order [OF this] have "sorted (map gc_sort_order cs)"
    by (blast intro: strict_sorted_imp_sorted)
  moreover from insert_guilds_facilities [OF Inr]
  have "list_all (\<lambda>c. distinct (gc_facilities c) \<and>
      list_all (\<lambda>f. f \<in> set orgs \<and> normalize_facility f = Some f) (gc_facilities c)) cs"
    by (simp add: list_all_iff)
  ultimately show ?thesis
    by (simp add: upsert_config_def Inr channel_id_def role_id_def resolve_scoped_id_preferred)
qed

end
