(* ===== verification/Ace.thy ===== *)
theory Ace
  imports AceTimes DiscordConfig JobQueue
begin

text \<open>
  ACE support, \<open>backend/src/repos/ace.rs\<close> and \<open>handlers/ace.rs\<close>: controllers open a
  request for cover at an event, people claim its slots, staff complete or cancel it, and a scheduler
  reminds the claimers. The tables the queries read are one record; a handler's transaction is a
  function that returns the committed record, or an error and nothing. Columns joined in from
  \<open>identity.users\<close> only for display are left out, and the rows a statement inserts take
  their random id, the clock and the RFC 3339 rendering of an instant from a \<open>call\<close>.
\<close>

section \<open>The tables\<close>

datatype request_status = Open | Completed | Cancelled

record ace_request =
  ar_id :: ustr
  ar_event_id :: int
  ar_requested_by :: ustr
  ar_artcc :: "ustr option"
  ar_position :: "ustr option"
  ar_slots :: int
  ar_details :: ustr
  ar_status :: request_status
  ar_decided_by :: "ustr option"
  ar_decided_by_actor :: "ustr option"
  ar_decided_at :: "int option"
  ar_created_at :: int

record ace_claim =
  cl_id :: ustr
  cl_request_id :: ustr
  cl_claimed_by :: ustr
  cl_notes :: ustr
  cl_start :: "int option"
  cl_end :: "int option"
  cl_claimed_at :: int

record event =
  ev_id :: int
  ev_title :: ustr
  ev_start :: int
  ev_end :: int

record ace_world =
  aw_requests :: "ace_request list"
  aw_claims :: "ace_claim list"
  aw_jobs :: "job list"
  aw_events :: "event list"
  aw_discord_links :: "(ustr \<times> ustr) list"
  aw_names :: "ustr \<Rightarrow> ustr"
  aw_guilds :: "guild_config list"
  aw_documents :: "(ustr \<times> ustr \<times> ustr) list"

record call =
  at :: int
  row_id :: ustr
  notify_id :: ustr
  dm_id :: ustr
  rfc3339 :: "int \<Rightarrow> ustr"

definition get_request :: "ace_world \<Rightarrow> ustr \<Rightarrow> ace_request option" where
  "get_request w rid = find (\<lambda>r. ar_id r = rid) (aw_requests w)"

definition get_event :: "ace_world \<Rightarrow> int \<Rightarrow> event option" where
  "get_event w eid = find (\<lambda>e. ev_id e = eid) (aw_events w)"

definition claims_of :: "ace_world \<Rightarrow> ustr \<Rightarrow> ace_claim list" where
  "claims_of w rid = filter (\<lambda>c. cl_request_id c = rid) (aw_claims w)"

definition claims_count :: "ace_world \<Rightarrow> ustr \<Rightarrow> int" where
  "claims_count w rid = int (length (claims_of w rid))"

section \<open>\<open>repos/ace.rs\<close>\<close>

text \<open>A row that breaks a constraint of migration 0050 (the primary key, the event's foreign key,
  one to ninety-nine slots) is refused by the database, which the source reports as
  \<open>Internal\<close>.\<close>

definition create_request ::
    "call \<Rightarrow> int \<Rightarrow> ustr \<Rightarrow> ustr option \<Rightarrow> ustr option \<Rightarrow> int \<Rightarrow> ustr \<Rightarrow> ace_world \<Rightarrow> (ustr \<times> ace_world) result" where
  "create_request c event_id requested_by artcc position slots details w =
     (if get_request w (row_id c) \<noteq> None \<or> get_event w event_id = None \<or> slots < 1 \<or> 99 < slots
      then Inl Internal
      else Inr (row_id c, w\<lparr>aw_requests := aw_requests w @
        [\<lparr>ar_id = row_id c, ar_event_id = event_id, ar_requested_by = requested_by, ar_artcc = artcc,
          ar_position = position, ar_slots = slots, ar_details = details, ar_status = Open,
          ar_decided_by = None, ar_decided_by_actor = None, ar_decided_at = None, ar_created_at = at c\<rparr>]\<rparr>))"

definition has_claim :: "ace_world \<Rightarrow> ustr \<Rightarrow> ustr \<Rightarrow> bool" where
  "has_claim w rid claimer = list_ex (\<lambda>cl. cl_request_id cl = rid \<and> cl_claimed_by cl = claimer) (aw_claims w)"

definition claim_request ::
    "call \<Rightarrow> ustr \<Rightarrow> ustr \<Rightarrow> ustr \<Rightarrow> int option \<Rightarrow> int option \<Rightarrow> ace_world \<Rightarrow> ((int \<times> int) \<times> ace_world) result" where
  "claim_request c rid claimer notes start stop w =
     bind_result (ok_or NotFound (get_request w rid)) (\<lambda>r.
       if ar_status r \<noteq> Open then Inl Conflict
       else let held = claims_count w rid in
         if ar_slots r \<le> held then Inl Conflict
         else if list_ex (\<lambda>cl. cl_id cl = row_id c) (aw_claims w) then Inl Internal
         else if has_claim w rid claimer then Inl Conflict
         else Inr ((ar_slots r, held + 1), w\<lparr>aw_claims := aw_claims w @
           [\<lparr>cl_id = row_id c, cl_request_id = rid, cl_claimed_by = claimer, cl_notes = notes,
             cl_start = start, cl_end = stop, cl_claimed_at = at c\<rparr>]\<rparr>))"

definition release_claim :: "ustr \<Rightarrow> ustr \<Rightarrow> ace_world \<Rightarrow> ((int \<times> int) \<times> ace_world) result" where
  "release_claim rid claimer w =
     (if \<not> has_claim w rid claimer then Inl NotFound
      else let w' = w\<lparr>aw_claims := filter (\<lambda>cl. \<not> (cl_request_id cl = rid \<and> cl_claimed_by cl = claimer)) (aw_claims w)\<rparr>
        in bind_result (ok_or Internal (get_request w' rid)) (\<lambda>r. Inr ((ar_slots r, claims_count w' rid), w')))"

definition claims_for :: "ace_world \<Rightarrow> ustr \<Rightarrow> ace_claim list" where
  "claims_for w rid = sort_key cl_claimed_at (claims_of w rid)"

text \<open>The delete cascades to the request's claims.\<close>

definition delete_request :: "ustr \<Rightarrow> ace_world \<Rightarrow> bool \<times> ace_world" where
  "delete_request rid w =
     (get_request w rid \<noteq> None,
      w\<lparr>aw_requests := filter (\<lambda>r. ar_id r \<noteq> rid) (aw_requests w),
        aw_claims := filter (\<lambda>cl. cl_request_id cl \<noteq> rid) (aw_claims w)\<rparr>)"

definition decided :: "call \<Rightarrow> ustr option \<Rightarrow> ustr option \<Rightarrow> request_status \<Rightarrow> ace_request \<Rightarrow> ace_request" where
  "decided c user actor outcome r = r\<lparr>ar_status := outcome, ar_decided_by := user,
     ar_decided_by_actor := actor, ar_decided_at := Some (at c)\<rparr>"

definition decide_request ::
    "call \<Rightarrow> ustr \<Rightarrow> ustr option \<Rightarrow> ustr option \<Rightarrow> request_status \<Rightarrow> ace_world \<Rightarrow> ace_world result" where
  "decide_request c rid user actor outcome w =
     bind_result (ok_or NotFound (get_request w rid)) (\<lambda>r.
       if ar_status r = Completed \<or> ar_status r = Cancelled then Inl Conflict
       else Inr (w\<lparr>aw_requests := map (\<lambda>q. if ar_id q = rid then decided c user actor outcome q else q) (aw_requests w)\<rparr>))"

definition list_requests :: "ace_world \<Rightarrow> int \<Rightarrow> request_status option \<Rightarrow> ace_request list" where
  "list_requests w event_id status = sort_key (\<lambda>r. - ar_created_at r)
     (filter (\<lambda>r. ar_event_id r = event_id \<and> (status = None \<or> status = Some (ar_status r))) (aw_requests w))"

definition open_request_artccs :: "ace_world \<Rightarrow> int \<Rightarrow> ustr list" where
  "open_request_artccs w event_id = remdups (List.map_filter ar_artcc
     (filter (\<lambda>r. ar_event_id r = event_id \<and> ar_status r = Open) (aw_requests w)))"

text \<open>A claim joined with its request, unless cancelled, and the request's event.\<close>

definition live_claims :: "ace_world \<Rightarrow> (ace_claim \<times> ace_request \<times> event) list" where
  "live_claims w = List.map_filter (\<lambda>cl.
     case get_request w (cl_request_id cl) of
       None \<Rightarrow> None
     | Some r \<Rightarrow> if ar_status r = Cancelled then None
         else map_option (\<lambda>e. (cl, r, e)) (get_event w (ar_event_id r))) (aw_claims w)"

definition my_upcoming_claims :: "int \<Rightarrow> ace_world \<Rightarrow> ustr \<Rightarrow> (ace_claim \<times> ace_request \<times> event) list" where
  "my_upcoming_claims now w user = sort_key (\<lambda>(cl, r, e). ev_start e)
     (filter (\<lambda>(cl, r, e). cl_claimed_by cl = user \<and> now < ev_start e) (live_claims w))"

section \<open>Reminders\<close>

definition hours :: "int \<Rightarrow> int" where "hours n = n * 60 * minute"

definition in_reminder_window :: "int \<Rightarrow> int \<Rightarrow> int \<Rightarrow> event \<Rightarrow> bool" where
  "in_reminder_window now after before e \<longleftrightarrow> now + hours after < ev_start e \<and> ev_start e \<le> now + hours before"

definition reminder_sent :: "ace_world \<Rightarrow> ustr \<Rightarrow> ustr \<Rightarrow> bool" where
  "reminder_sent w job_type claim_id = list_ex (about_subject (lit ''ace_claim'') claim_id job_type) (aw_jobs w)"

record due_reminder =
  dr_claim_id :: ustr
  dr_discord_user_id :: ustr
  dr_event_title :: ustr
  dr_position :: "ustr option"

definition claims_due_for_reminder :: "int \<Rightarrow> int \<Rightarrow> int \<Rightarrow> ustr \<Rightarrow> ace_world \<Rightarrow> due_reminder list" where
  "claims_due_for_reminder now after before job_type w =
     concat (map (\<lambda>(cl, r, e).
       if in_reminder_window now after before e \<and> \<not> reminder_sent w job_type (cl_id cl)
       then map (\<lambda>(user, discord). \<lparr>dr_claim_id = cl_id cl, dr_discord_user_id = discord,
              dr_event_title = ev_title e, dr_position = ar_position r\<rparr>)
            (filter (\<lambda>(user, discord). user = cl_claimed_by cl) (aw_discord_links w))
       else []) (live_claims w))"

definition claims_in_reminder_window :: "int \<Rightarrow> int \<Rightarrow> int \<Rightarrow> ace_world \<Rightarrow> int" where
  "claims_in_reminder_window now after before w =
     int (length (filter (\<lambda>(cl, r, e). in_reminder_window now after before e) (live_claims w)))"

definition reminder_types :: "ustr list" where
  "reminder_types = [lit ''ace_claim_reminder_24h'', lit ''ace_claim_reminder_6h'']"

text \<open>The insert that yields to the partial unique index of migration 0066. The consumer column
  takes its default, which is the Discord bot.\<close>

definition enqueue_reminder_job :: "int \<Rightarrow> ustr \<Rightarrow> ustr \<Rightarrow> ustr \<Rightarrow> json \<Rightarrow> job list \<Rightarrow> (bool \<times> job list) result" where
  "enqueue_reminder_job now jid job_type claim_id payload q =
     (if list_ex (\<lambda>j. jb_id j = jid) q then Inl Internal
      else if job_type \<in> set reminder_types \<and>
              list_ex (\<lambda>j. jb_subject_id j = Some claim_id \<and> jb_type j = job_type) q then Inr (False, q)
      else Inr (True, q @ [new_job now jid job_type payload (Some (lit ''ace_claim'')) (Some claim_id)]))"

definition ACE_REMINDER_TIERS :: "(int \<times> int \<times> ustr) list" where
  "ACE_REMINDER_TIERS = [(6, 24, lit ''ace_claim_reminder_24h''), (0, 6, lit ''ace_claim_reminder_6h'')]"

definition json_opt :: "ustr option \<Rightarrow> json" where
  "json_opt x = (case x of None \<Rightarrow> JNull | Some s \<Rightarrow> JString s)"

definition reminder_payload :: "int \<Rightarrow> due_reminder \<Rightarrow> json" where
  "reminder_payload before r = JObject
     [(lit ''discord_user_id'', JString (dr_discord_user_id r)), (lit ''event_title'', JString (dr_event_title r)),
      (lit ''position'', json_opt (dr_position r)), (lit ''reminder'', JString (show_int before @ lit ''h''))]"

text \<open>One tier's inserts; a failed insert is logged and skipped. \<open>fresh k\<close> is the id of the
  \<open>k\<close>-th row the pass tries to insert.\<close>

fun enqueue_due :: "int \<Rightarrow> (nat \<Rightarrow> ustr) \<Rightarrow> int \<Rightarrow> ustr \<Rightarrow> due_reminder list \<Rightarrow> nat \<times> nat \<times> job list \<Rightarrow> nat \<times> nat \<times> job list" where
  "enqueue_due now fresh before job_type [] acc = acc"
| "enqueue_due now fresh before job_type (r # rs) (k, sent, q) =
     (case enqueue_reminder_job now (fresh k) job_type (dr_claim_id r) (reminder_payload before r) q of
        Inr (inserted, q') \<Rightarrow>
          enqueue_due now fresh before job_type rs (Suc k, if inserted then sent + 1 else sent, q')
      | Inl e \<Rightarrow> enqueue_due now fresh before job_type rs (Suc k, sent, q))"

fun reminder_tiers ::
    "int \<Rightarrow> (nat \<Rightarrow> ustr) \<Rightarrow> (int \<times> int \<times> ustr) list \<Rightarrow> ace_world \<Rightarrow> nat \<times> nat \<times> int \<Rightarrow> (nat \<times> int) \<times> ace_world" where
  "reminder_tiers now fresh [] w (k, sent, in_window) = ((sent, in_window), w)"
| "reminder_tiers now fresh ((after, before, job_type) # tiers) w (k, sent, in_window) =
     (let in_window' = in_window + claims_in_reminder_window now after before w in
      case enqueue_due now fresh before job_type (claims_due_for_reminder now after before job_type w) (k, sent, aw_jobs w) of
        (k', sent', q') \<Rightarrow> reminder_tiers now fresh tiers (w\<lparr>aw_jobs := q'\<rparr>) (k', sent', in_window'))"

text \<open>A pass whose queries succeed: its report, whether it nudges the clients
  (\<open>topic::EVENT_REMINDER\<close>), and the committed state.\<close>

definition ace_reminder_scheduler_once :: "int \<Rightarrow> (nat \<Rightarrow> ustr) \<Rightarrow> ace_world \<Rightarrow> ustr \<times> bool \<times> ace_world" where
  "ace_reminder_scheduler_once now fresh w =
     (case reminder_tiers now fresh ACE_REMINDER_TIERS w (0, 0, 0) of
        ((sent, in_window), w') \<Rightarrow>
          (if sent = 0 then lit ''no changes'' else show_nat sent @ lit '' reminder(s) enqueued'',
           0 < in_window, w'))"

end
