(* ===== verification/AceHandlers.thy ===== *)
theory AceHandlers
  imports Ace
begin

text \<open>
  The endpoints of \<open>backend/src/handlers/ace.rs\<close> and the Discord claim button of
  \<open>handlers/integration.rs\<close>, each one transaction, and the runs of the whole ACE component:
  every handler, the reminder scheduler, the job queue underneath and the cascades other tables cause.
\<close>

definition ACE_CHANNEL :: ustr where "ACE_CHANNEL = lit ''aceteam-requests''"

definition json_time :: "call \<Rightarrow> int option \<Rightarrow> json" where
  "json_time c t = (case t of None \<Rightarrow> JNull | Some x \<Rightarrow> JString (rfc3339 c x))"

section \<open>The Discord jobs of a transaction\<close>

definition push_job :: "int \<Rightarrow> ustr \<Rightarrow> ustr \<Rightarrow> json \<Rightarrow> ustr \<Rightarrow> ace_world \<Rightarrow> ace_world result" where
  "push_job now jid job_type payload rid w =
     bind_result (enqueue_job now jid job_type payload (Some (lit ''ace_request'')) (Some rid) (aw_jobs w))
       (\<lambda>(_, q). Inr (w\<lparr>aw_jobs := q\<rparr>))"

definition request_facts :: "ace_world \<Rightarrow> ustr \<Rightarrow> ustr option \<times> ustr option \<times> ustr \<times> ustr" where
  "request_facts w rid = (case get_request w rid of
       None \<Rightarrow> (None, None, [], [])
     | Some r \<Rightarrow> (ar_artcc r, ar_position r, ar_details r,
         case get_event w (ar_event_id r) of None \<Rightarrow> [] | Some e \<Rightarrow> ev_title e))"

definition claimer_json :: "call \<Rightarrow> ace_world \<Rightarrow> ace_claim \<Rightarrow> json" where
  "claimer_json c w cl = JObject
     [(lit ''name'', JString (aw_names w (cl_claimed_by cl))), (lit ''notes'', JString (cl_notes cl)),
      (lit ''start_time'', json_time c (cl_start cl)), (lit ''end_time'', json_time c (cl_end cl))]"

definition enqueue_notify :: "call \<Rightarrow> ustr \<Rightarrow> int \<Rightarrow> int \<Rightarrow> ace_world \<Rightarrow> ace_world result" where
  "enqueue_notify c rid slots held w =
     (let message_id = Option.bind
            (succeeded_job_result (aw_jobs w) (lit ''ace_request'') rid (lit ''ace_request_post''))
            (\<lambda>r. json_str_field r (lit ''message_id''))
      in case request_facts w rid of (artcc, position, details, title) \<Rightarrow>
        let channel = channel_id (aw_guilds w) ACE_CHANNEL (Option.bind artcc normalize_facility)
        in (case (message_id, channel) of
          (Some m, Some ch) \<Rightarrow> push_job (at c) (notify_id c) (lit ''ace_request_notify'') (JObject
            [(lit ''channel_id'', JString ch), (lit ''message_id'', JString m), (lit ''request_id'', JString rid),
             (lit ''slots'', JNumber slots), (lit ''claims_count'', JNumber held),
             (lit ''filled'', JBool (slots \<le> held)), (lit ''artcc_id'', json_opt artcc),
             (lit ''position'', json_opt position), (lit ''details'', JString details),
             (lit ''event_title'', JString title),
             (lit ''claimers'', JArray (map (claimer_json c w) (claims_for w rid)))]) rid w
        | _ \<Rightarrow> Inr w))"

definition enqueue_claim_dm :: "call \<Rightarrow> ustr \<Rightarrow> ustr \<Rightarrow> ace_world \<Rightarrow> ace_world result" where
  "enqueue_claim_dm c rid claimer w =
     (case map_of (aw_discord_links w) claimer of
        None \<Rightarrow> Inr w
      | Some discord \<Rightarrow> (case request_facts w rid of (artcc, position, details, title) \<Rightarrow>
          let documents = (case artcc of None \<Rightarrow> []
                | Some a \<Rightarrow> map (\<lambda>(_, t, u). JObject [(lit ''title'', JString t), (lit ''url'', JString u)])
                    (filter (\<lambda>(f, t, u). f = a) (aw_documents w)))
          in push_job (at c) (dm_id c) (lit ''ace_claim_dm'') (JObject
            [(lit ''discord_user_id'', JString discord), (lit ''event_title'', JString title),
             (lit ''position'', json_opt position), (lit ''documents'', JArray documents)]) rid w))"

section \<open>The endpoints\<close>

text \<open>An answer: the request as it now stands with its claims, the committed state, and whether
  the ACE topic was published.\<close>

type_synonym ace_reply = "(ace_request \<times> ace_claim list) \<times> ace_world \<times> bool"

definition reply_with :: "api_error \<Rightarrow> ustr \<Rightarrow> bool \<Rightarrow> ace_world \<Rightarrow> ace_reply result" where
  "reply_with e rid published w =
     bind_result (ok_or e (get_request w rid)) (\<lambda>r. Inr ((r, claims_for w rid), w, published))"

definition create_one ::
    "call \<Rightarrow> event \<Rightarrow> ustr option \<Rightarrow> ustr \<Rightarrow> ustr \<Rightarrow> ustr option \<Rightarrow> ustr option \<Rightarrow> int \<Rightarrow> ustr \<Rightarrow> ace_world \<Rightarrow> (ustr \<times> ace_world) result" where
  "create_one c e channel requester_id requester_name artcc position slots details w =
     bind_result (create_request c (ev_id e) requester_id artcc position slots details w) (\<lambda>(rid, w1).
       case channel of
         None \<Rightarrow> Inr (rid, w1)
       | Some ch \<Rightarrow> bind_result (push_job (at c) (notify_id c) (lit ''ace_request_post'') (JObject
            [(lit ''channel_id'', JString ch), (lit ''request_id'', JString rid),
             (lit ''requested_by_name'', JString requester_name), (lit ''artcc_id'', json_opt artcc),
             (lit ''position'', json_opt position), (lit ''slots'', JNumber slots),
             (lit ''details'', JString details), (lit ''event_title'', JString (ev_title e)),
             (lit ''event_start'', JString (rfc3339 c (ev_start e))),
             (lit ''event_end'', JString (rfc3339 c (ev_end e)))]) rid w1) (\<lambda>w2. Inr (rid, w2)))"

record create_payload =
  cp_artcc_id :: "ustr option"
  cp_position :: "ustr option"
  cp_slots :: int
  cp_details :: ustr

definition create_request_handler ::
    "call \<Rightarrow> ustr option \<Rightarrow> int \<Rightarrow> create_payload \<Rightarrow> ace_world \<Rightarrow> ace_reply result" where
  "create_request_handler c user event_id payload w =
     bind_result (ok_or Unauthorized user) (\<lambda>u.
       let details = trim (cp_details payload) in
       if details = [] \<or> 4000 < utf8_len details \<or> cp_slots payload < 1 \<or> 99 < cp_slots payload then Inl BadRequest
       else bind_result (ok_or NotFound (get_event w event_id)) (\<lambda>e.
         let artcc = map_option ascii_upper (clean (cp_artcc_id payload));
             channel = channel_id (aw_guilds w) ACE_CHANNEL (Option.bind artcc normalize_facility)
         in bind_result (create_one c e channel u (aw_names w u) artcc (clean (cp_position payload))
              (cp_slots payload) details w) (\<lambda>(rid, w'). reply_with Internal rid True w')))"

definition delete_request_handler :: "ustr \<Rightarrow> ace_world \<Rightarrow> (ace_world \<times> bool) result" where
  "delete_request_handler rid w = (case delete_request rid w of (found, w') \<Rightarrow>
     if found then Inr (w', True) else Inl NotFound)"

record claim_payload =
  cm_notes :: "ustr option"
  cm_start :: "int option"
  cm_end :: "int option"

text \<open>The claim, its two Discord jobs and the commit, shared by both ways to claim.\<close>

definition claim_and_notify ::
    "call \<Rightarrow> ustr \<Rightarrow> ustr \<Rightarrow> ustr \<Rightarrow> int option \<Rightarrow> int option \<Rightarrow> ace_world \<Rightarrow> ace_world result" where
  "claim_and_notify c rid claimer notes start stop w =
     bind_result (claim_request c rid claimer notes start stop w) (\<lambda>((slots, held), w1).
     bind_result (enqueue_notify c rid slots held w1) (\<lambda>w2. enqueue_claim_dm c rid claimer w2))"

definition claim_request_handler ::
    "call \<Rightarrow> ustr option \<Rightarrow> int \<Rightarrow> ustr \<Rightarrow> claim_payload \<Rightarrow> ace_world \<Rightarrow> ace_reply result" where
  "claim_request_handler c user event_id rid payload w =
     bind_result (ok_or Unauthorized user) (\<lambda>u.
     bind_result (ok_or NotFound (get_request w rid)) (\<lambda>r.
       if ar_event_id r \<noteq> event_id then Inl NotFound
       else bind_result (ok_or NotFound (get_event w event_id)) (\<lambda>e.
       bind_result (validate_window (cm_start payload) (cm_end payload) (ev_start e) (ev_end e)) (\<lambda>_.
       bind_result (claim_and_notify c rid u (case clean (cm_notes payload) of None \<Rightarrow> [] | Some n \<Rightarrow> n)
           (cm_start payload) (cm_end payload) w) (\<lambda>w'. reply_with NotFound rid True w')))))"

record discord_claim_payload =
  dc_discord_user_id :: ustr
  dc_notes :: "ustr option"
  dc_start_hhmm :: "ustr option"
  dc_end_hhmm :: "ustr option"

text \<open>The mapping is read backwards: the OIS user a Discord account is linked to.\<close>

definition find_user_by_discord_id :: "ace_world \<Rightarrow> ustr \<Rightarrow> ustr option" where
  "find_user_by_discord_id w discord_id =
     map_option fst (find (\<lambda>(user, discord). discord = discord_id) (aw_discord_links w))"

definition discord_ace_claim :: "call \<Rightarrow> ustr \<Rightarrow> discord_claim_payload \<Rightarrow> ace_world \<Rightarrow> ace_reply result" where
  "discord_ace_claim c rid payload w =
     bind_result (ok_or Forbidden (find_user_by_discord_id w (dc_discord_user_id payload))) (\<lambda>u.
     bind_result (ok_or NotFound (get_request w rid)) (\<lambda>r.
     bind_result (ok_or NotFound (get_event w (ar_event_id r))) (\<lambda>e.
       let start = parse_hhmm_in_window (dc_start_hhmm payload) (ev_start e) (ev_end e);
           stop = parse_hhmm_in_window (dc_end_hhmm payload) (ev_start e) (ev_end e);
           notes = trim (case dc_notes payload of None \<Rightarrow> [] | Some n \<Rightarrow> n)
       in bind_result (claim_and_notify c rid u notes start stop w) (\<lambda>w'. reply_with NotFound rid False w'))))"

definition release_claim_handler :: "call \<Rightarrow> ustr option \<Rightarrow> ustr \<Rightarrow> ace_world \<Rightarrow> ace_reply result" where
  "release_claim_handler c user rid w =
     bind_result (ok_or Unauthorized user) (\<lambda>u.
     bind_result (release_claim rid u w) (\<lambda>((slots, held), w1).
     bind_result (enqueue_notify c rid slots held w1) (\<lambda>w2. reply_with NotFound rid True w2)))"

definition outcome_of :: "ustr \<Rightarrow> request_status option" where
  "outcome_of s = (if s = lit ''completed'' then Some Completed
     else if s = lit ''cancelled'' then Some Cancelled else None)"

definition decide_request_handler ::
    "call \<Rightarrow> ustr option \<Rightarrow> ustr option \<Rightarrow> ustr \<Rightarrow> ustr \<Rightarrow> ace_world \<Rightarrow> ace_reply result" where
  "decide_request_handler c user actor rid outcome w =
     bind_result (ok_or BadRequest (outcome_of outcome)) (\<lambda>result_status.
     bind_result (decide_request c rid user actor result_status w) (\<lambda>w'. reply_with NotFound rid True w'))"

section \<open>Runs of the component\<close>

text \<open>One committed transaction: an endpoint's, a reminder pass, a step of the job queue that adds
  no reminder, or a cascade from a deleted user or event, which removes requests together with their
  claims. The events, links, guilds and documents may change at any time.\<close>

definition same_ace :: "ace_world \<Rightarrow> ace_world \<Rightarrow> bool" where
  "same_ace w w' \<longleftrightarrow> aw_requests w' = aw_requests w \<and> aw_claims w' = aw_claims w \<and> aw_jobs w' = aw_jobs w"

definition no_new_reminder :: "job list \<Rightarrow> job list \<Rightarrow> bool" where
  "no_new_reminder q q' \<longleftrightarrow> list_all (\<lambda>j. jb_id j \<in> job_ids q \<or> jb_type j \<notin> set reminder_types) q'"

inductive ace_step :: "ace_world \<Rightarrow> ace_world \<Rightarrow> bool" where
  create: "create_request_handler c user eid payload w = Inr (body, w', p) \<Longrightarrow> ace_step w w'"
| delete: "delete_request_handler rid w = Inr (w', p) \<Longrightarrow> ace_step w w'"
| claim: "claim_request_handler c user eid rid claim w = Inr (body, w', p) \<Longrightarrow> ace_step w w'"
| discord_claim: "discord_ace_claim c rid button w = Inr (body, w', p) \<Longrightarrow> ace_step w w'"
| release: "release_claim_handler c user rid w = Inr (body, w', p) \<Longrightarrow> ace_step w w'"
| decide: "decide_request_handler c user actor rid outcome w = Inr (body, w', p) \<Longrightarrow> ace_step w w'"
| remind: "ace_reminder_scheduler_once now fresh w = (msg, nudge, w') \<Longrightarrow> ace_step w w'"
| queue: "job_step (aw_jobs w) q \<Longrightarrow> no_new_reminder (aw_jobs w) q \<Longrightarrow> ace_step w (w\<lparr>aw_jobs := q\<rparr>)"
| cascade: "requests = filter keep (aw_requests w) \<Longrightarrow>
    claims = filter (\<lambda>cl. stay cl \<and> cl_request_id cl \<in> ar_id ` set requests) (aw_claims w) \<Longrightarrow>
    ace_step w (w\<lparr>aw_requests := requests, aw_claims := claims\<rparr>)"
| other_tables: "same_ace w w' \<Longrightarrow> ace_step w w'"

text \<open>What the booking must never lose: request ids are unique, every claim is on an existing
  request, nobody holds two claims on one request, and a request of one to ninety-nine slots never has
  more claims than slots.\<close>

definition ace_inv :: "ace_world \<Rightarrow> bool" where
  "ace_inv w \<longleftrightarrow> distinct (map ar_id (aw_requests w)) \<and>
     distinct (map (\<lambda>cl. (cl_request_id cl, cl_claimed_by cl)) (aw_claims w)) \<and>
     (\<forall>cl\<in>set (aw_claims w). cl_request_id cl \<in> ar_id ` set (aw_requests w)) \<and>
     (\<forall>r\<in>set (aw_requests w). 1 \<le> ar_slots r \<and> ar_slots r \<le> 99 \<and> claims_count w (ar_id r) \<le> ar_slots r)"

lemma get_request_Some: "get_request w rid = Some r \<Longrightarrow> r \<in> set (aw_requests w) \<and> ar_id r = rid"
  by (auto simp: get_request_def find_Some_iff)

lemma get_request_None: "get_request w rid = None \<longleftrightarrow> rid \<notin> ar_id ` set (aw_requests w)"
  by (auto simp: get_request_def find_None_iff)

lemma find_key:
  "distinct (map f xs) \<Longrightarrow> x \<in> set xs \<Longrightarrow> find (\<lambda>y. f y = f x) xs = Some x"
  by (induction xs) (auto simp: image_iff)

lemma get_request_in:
  "distinct (map ar_id (aw_requests w)) \<Longrightarrow> r \<in> set (aw_requests w) \<Longrightarrow> get_request w (ar_id r) = Some r"
  by (simp add: get_request_def find_key)

subsection \<open>What a transaction does to requests and claims\<close>

inductive core_change :: "ace_world \<Rightarrow> ace_world \<Rightarrow> bool" where
  keep: "aw_requests w' = aw_requests w \<Longrightarrow> aw_claims w' = aw_claims w \<Longrightarrow> core_change w w'"
| add_request: "aw_requests w' = aw_requests w @ [r] \<Longrightarrow> aw_claims w' = aw_claims w \<Longrightarrow>
    get_request w (ar_id r) = None \<Longrightarrow> 1 \<le> ar_slots r \<Longrightarrow> ar_slots r \<le> 99 \<Longrightarrow> core_change w w'"
| add_claim: "aw_requests w' = aw_requests w \<Longrightarrow> aw_claims w' = aw_claims w @ [cl] \<Longrightarrow>
    get_request w (cl_request_id cl) = Some r \<Longrightarrow> ar_status r = Open \<Longrightarrow>
    claims_count w (cl_request_id cl) < ar_slots r \<Longrightarrow>
    \<not> has_claim w (cl_request_id cl) (cl_claimed_by cl) \<Longrightarrow> core_change w w'"
| remove: "aw_requests w' = filter P (aw_requests w) \<Longrightarrow> aw_claims w' = filter Q (aw_claims w) \<Longrightarrow>
    \<forall>cl\<in>set (aw_claims w'). cl_request_id cl \<in> ar_id ` set (aw_requests w) \<longrightarrow>
      cl_request_id cl \<in> ar_id ` set (aw_requests w') \<Longrightarrow> core_change w w'"
| settle: "aw_requests w' = map (\<lambda>q. if ar_id q = rid then decided c user actor outcome q else q) (aw_requests w) \<Longrightarrow>
    aw_claims w' = aw_claims w \<Longrightarrow> get_request w rid = Some r \<Longrightarrow> ar_status r = Open \<Longrightarrow> core_change w w'"

definition quiet :: "ace_world \<Rightarrow> ace_world \<Rightarrow> bool" where
  "quiet w w' \<longleftrightarrow> (\<exists>js. w' = w\<lparr>aw_jobs := aw_jobs w @ js\<rparr> \<and> (\<forall>j\<in>set js. jb_type j \<notin> set reminder_types))"

lemma quiet_refl [simp]: "quiet w w"
  unfolding quiet_def by (intro exI [of _ "[]"]) simp

lemma quiet_trans: "quiet u v \<Longrightarrow> quiet v w \<Longrightarrow> quiet u w"
  unfolding quiet_def by (elim exE conjE) (rule_tac x = "js @ jsa" in exI, auto)

lemma quiet_rows: "quiet w w' \<Longrightarrow> aw_requests w' = aw_requests w \<and> aw_claims w' = aw_claims w"
  by (auto simp: quiet_def)

lemma core_change_rows:
  assumes "core_change w v" and "aw_requests w' = aw_requests v" and "aw_claims w' = aw_claims v"
  shows "core_change w w'"
  using assms(1)
proof cases
  case (remove P Q)
  with assms(2,3) show ?thesis by (intro core_change.remove [of w' P w Q]) simp_all
qed (use assms(2,3) in \<open>auto intro: core_change.intros\<close>)

lemma core_change_quiet: "core_change w v \<Longrightarrow> quiet v w' \<Longrightarrow> core_change w w'"
  using core_change_rows quiet_rows by blast

lemma push_job_quiet:
  "push_job now jid ty payload rid w = Inr w' \<Longrightarrow> ty \<notin> set reminder_types \<Longrightarrow> quiet w w'"
  by (auto simp: push_job_def enqueue_job_def bind_result_Inr_iff quiet_def new_job_def split: if_splits)

lemma posted_types_quiet:
  "lit ''ace_request_notify'' \<notin> set reminder_types" "lit ''ace_claim_dm'' \<notin> set reminder_types"
  "lit ''ace_request_post'' \<notin> set reminder_types"
  by (simp_all add: reminder_types_def)

lemma enqueue_notify_quiet: "enqueue_notify c rid slots held w = Inr w' \<Longrightarrow> quiet w w'"
  by (auto simp: enqueue_notify_def Let_def split: prod.splits option.splits
      dest: push_job_quiet [OF _ posted_types_quiet(1)])

lemma enqueue_claim_dm_quiet: "enqueue_claim_dm c rid claimer w = Inr w' \<Longrightarrow> quiet w w'"
  by (auto simp: enqueue_claim_dm_def Let_def split: prod.splits option.splits
      dest: push_job_quiet [OF _ posted_types_quiet(2)])

lemma reply_with_Inr: "reply_with e rid p w = Inr (body, w', p') \<Longrightarrow> w' = w"
  by (auto simp: reply_with_def bind_result_Inr_iff)

lemma claim_and_notify_quiet:
  "claim_and_notify c rid claimer notes start stop w = Inr w' \<Longrightarrow>
     \<exists>res v. claim_request c rid claimer notes start stop w = Inr (res, v) \<and> quiet v w'"
  unfolding claim_and_notify_def
  by (auto simp: bind_result_Inr_iff dest!: enqueue_notify_quiet enqueue_claim_dm_quiet)
    (blast intro: quiet_trans)

lemma create_one_quiet:
  "create_one c e channel u name artcc position slots details w = Inr (rid, w') \<Longrightarrow>
     \<exists>v. create_request c (ev_id e) u artcc position slots details w = Inr (rid, v) \<and> quiet v w'"
  unfolding create_one_def
  by (cases channel) (auto simp: bind_result_Inr_iff dest: push_job_quiet [OF _ posted_types_quiet(3)])

lemma claim_request_core:
  "claim_request c rid claimer notes start stop w = Inr (res, v) \<Longrightarrow> core_change w v"
  unfolding claim_request_def bind_result_Inr_iff ok_or_def
  by (auto simp: Let_def split: option.splits if_splits intro: core_change.add_claim)

lemma create_request_core:
  "create_request c eid u artcc position slots details w = Inr (rid, v) \<Longrightarrow> core_change w v"
  unfolding create_request_def
  by (auto split: if_splits intro: core_change.add_request)

lemma release_claim_core: "release_claim rid claimer w = Inr (res, v) \<Longrightarrow> core_change w v"
  unfolding release_claim_def bind_result_Inr_iff ok_or_def
  by (auto simp: Let_def split: option.splits if_splits intro!: core_change.remove [where P = "\<lambda>_. True"])

lemma delete_request_core: "core_change w (snd (delete_request rid w))"
  unfolding delete_request_def by (rule core_change.remove) auto

lemma decide_request_core: "decide_request c rid user actor outcome w = Inr v \<Longrightarrow> core_change w v"
  unfolding decide_request_def bind_result_Inr_iff ok_or_def
  by (cases "get_request w rid"; cases "ar_status (the (get_request w rid))")
    (auto split: if_splits intro: core_change.settle [where rid = rid and c = c and user = user
        and actor = actor and outcome = outcome])

lemma reminder_tiers_rows:
  "reminder_tiers now fresh tiers w acc = (res, w') \<Longrightarrow> aw_requests w' = aw_requests w \<and> aw_claims w' = aw_claims w"
  by (induction now fresh tiers w acc rule: reminder_tiers.induct) (auto simp: Let_def split: prod.splits)

lemma ace_step_core: "ace_step w w' \<Longrightarrow> core_change w w'"
proof (induction rule: ace_step.induct)
  case (create c user eid payload w body w' p)
  then show ?case
    by (auto simp: create_request_handler_def bind_result_Inr_iff Let_def split: if_splits
        dest!: create_one_quiet reply_with_Inr intro: create_request_core core_change_quiet)
next
  case (delete rid w w' p)
  then show ?case
    using delete_request_core [of w rid] by (auto simp: delete_request_handler_def split: prod.splits if_splits)
next
  case (claim c user eid rid claim w body w' p)
  then show ?case
    by (auto simp: claim_request_handler_def bind_result_Inr_iff split: if_splits
        dest!: claim_and_notify_quiet reply_with_Inr intro: claim_request_core core_change_quiet)
next
  case (discord_claim c rid button w body w' p)
  then show ?case
    by (auto simp: discord_ace_claim_def bind_result_Inr_iff Let_def split: if_splits
        dest!: claim_and_notify_quiet reply_with_Inr intro: claim_request_core core_change_quiet)
next
  case (release c user rid w body w' p)
  then show ?case
    by (auto simp: release_claim_handler_def bind_result_Inr_iff split: if_splits
        dest!: enqueue_notify_quiet reply_with_Inr intro: release_claim_core core_change_quiet)
next
  case (decide c user actor rid outcome w body w' p)
  then show ?case
    by (auto simp: decide_request_handler_def bind_result_Inr_iff
        dest!: reply_with_Inr intro: decide_request_core)
next
  case (remind now fresh w msg nudge w')
  then show ?case
    by (auto simp: ace_reminder_scheduler_once_def split: prod.splits dest: reminder_tiers_rows
        intro!: core_change.keep)
next
  case (cascade requests keep w claims stay)
  then show ?case by (intro core_change.remove) auto
qed (auto simp: same_ace_def intro: core_change.keep)

subsection \<open>Invariants\<close>

lemma claims_count_append:
  "aw_claims w' = aw_claims w @ [cl] \<Longrightarrow>
     claims_count w' rid = (if cl_request_id cl = rid then claims_count w rid + 1 else claims_count w rid)"
  by (simp add: claims_count_def claims_of_def)

lemma claims_count_same: "aw_claims w' = aw_claims w \<Longrightarrow> claims_count w' rid = claims_count w rid"
  by (simp add: claims_count_def claims_of_def)

lemma claims_count_filter:
  assumes "aw_claims w' = filter Q (aw_claims w)"
  shows "claims_count w' rid \<le> claims_count w rid"
proof -
  have "claims_of w' rid = filter Q (claims_of w rid)"
    by (auto simp: assms claims_of_def filter_filter intro: filter_cong)
  then show ?thesis by (simp add: claims_count_def)
qed

lemma has_claim_iff:
  "has_claim w rid u \<longleftrightarrow> (rid, u) \<in> set (map (\<lambda>cl. (cl_request_id cl, cl_claimed_by cl)) (aw_claims w))"
  by (auto simp: has_claim_def list_ex_iff image_iff)

lemma decided_simps [simp]:
  "ar_id (decided c user actor outcome r) = ar_id r" "ar_slots (decided c user actor outcome r) = ar_slots r"
  by (simp_all add: decided_def)

lemma distinct_map_filter: "distinct (map f xs) \<Longrightarrow> distinct (map f (filter P xs))"
  by (induction xs) auto

lemma map_if_same: "(\<And>x. f (g x) = f x) \<Longrightarrow> map f (map (\<lambda>x. if P x then g x else x) xs) = map f xs"
  by (induction xs) auto

lemma ace_inv_id_inj:
  "ace_inv w \<Longrightarrow> q \<in> set (aw_requests w) \<Longrightarrow> r \<in> set (aw_requests w) \<Longrightarrow> ar_id q = ar_id r \<Longrightarrow> q = r"
  by (simp add: ace_inv_def distinct_map inj_on_def)

lemma ace_inv_core: "core_change w w' \<Longrightarrow> ace_inv w \<Longrightarrow> ace_inv w'"
proof (induction rule: core_change.induct)
  case (keep w' w)
  then show ?case by (simp add: ace_inv_def claims_count_same [of w' w])
next
  case (add_request w' w r)
  have "claims_of w (ar_id r) = []"
    using add_request.hyps(3) add_request.prems
    unfolding claims_of_def filter_empty_conv ace_inv_def get_request_None by metis
  then have "claims_count w' (ar_id r) = 0"
    using add_request.hyps(2) by (simp add: claims_count_def claims_of_def)
  then show ?case
    using add_request claims_count_same [of w' w] by (auto simp: ace_inv_def get_request_None)
next
  case (add_claim w' w cl r)
  then have r: "r \<in> set (aw_requests w)" "ar_id r = cl_request_id cl" by (auto dest: get_request_Some)
  have "claims_count w' (ar_id q) \<le> ar_slots q" if "q \<in> set (aw_requests w)" for q
  proof (cases "ar_id q = cl_request_id cl")
    case True
    then have "q = r" using that r add_claim.prems ace_inv_id_inj by metis
    then show ?thesis using add_claim r claims_count_append [of w' w cl] by auto
  next
    case False
    then show ?thesis using that add_claim claims_count_append [of w' w cl] by (auto simp: ace_inv_def)
  qed
  moreover have "cl_request_id cl \<in> ar_id ` set (aw_requests w)" using r by (metis imageI)
  ultimately show ?case using add_claim by (auto simp: ace_inv_def has_claim_iff)
next
  case (remove w' P w Q)
  have "claims_count w' rid \<le> claims_count w rid" for rid using remove.hyps(2) by (rule claims_count_filter)
  then have "\<forall>r\<in>set (aw_requests w). claims_count w' (ar_id r) \<le> ar_slots r"
    using remove.prems order_trans unfolding ace_inv_def by blast
  then show ?case using remove by (auto simp: ace_inv_def distinct_map_filter)
next
  case (settle w' rid c user actor outcome w r)
  have ids: "map ar_id (aw_requests w') = map ar_id (aw_requests w)"
    unfolding settle.hyps(1) by (rule map_if_same) simp
  then have id_set: "ar_id ` set (aw_requests w') = ar_id ` set (aw_requests w)"
    by (metis set_map)
  have "\<exists>q\<in>set (aw_requests w). ar_id q' = ar_id q \<and> ar_slots q' = ar_slots q"
    if "q' \<in> set (aw_requests w')" for q'
    using that unfolding settle.hyps(1) by auto
  then have "1 \<le> ar_slots q' \<and> ar_slots q' \<le> 99 \<and> claims_count w' (ar_id q') \<le> ar_slots q'"
    if "q' \<in> set (aw_requests w')" for q'
    using that settle.prems claims_count_same [OF settle.hyps(2)] unfolding ace_inv_def by metis
  then show ?case
    using settle.prems unfolding ace_inv_def ids id_set settle.hyps(2) by blast
qed

abbreviation ace_steps :: "ace_world \<Rightarrow> ace_world \<Rightarrow> bool" where
  "ace_steps \<equiv> ace_step\<^sup>*\<^sup>*"

definition ace_start :: "ace_world \<Rightarrow> bool" where
  "ace_start w \<longleftrightarrow> aw_requests w = [] \<and> aw_claims w = [] \<and> aw_jobs w = []"

lemma ace_inv_steps: "ace_steps w w' \<Longrightarrow> ace_inv w \<Longrightarrow> ace_inv w'"
  by (induction rule: rtranclp_induct) (auto dest: ace_step_core ace_inv_core)

lemma ace_inv_start: "ace_start w \<Longrightarrow> ace_inv w"
  by (simp add: ace_start_def ace_inv_def)

text \<open>C27. Whatever the endpoints, the Discord button, the schedulers and the cascades do, a request is
  never overbooked, nobody holds two of its slots, and every claim is on a request that exists.\<close>

theorem ace_never_overbooked:
  assumes "ace_start w0" and "ace_steps w0 w" and "r \<in> set (aw_requests w)"
  shows "claims_count w (ar_id r) \<le> ar_slots r \<and> ar_slots r \<le> 99 \<and>
    distinct (map cl_claimed_by (claims_of w (ar_id r))) \<and>
    cl_request_id ` set (aw_claims w) \<subseteq> ar_id ` set (aw_requests w)"
proof -
  have inv: "ace_inv w" using assms(1,2) ace_inv_start ace_inv_steps by blast
  have "distinct (map (\<lambda>cl. (cl_request_id cl, cl_claimed_by cl)) (claims_of w (ar_id r)))"
    using inv unfolding ace_inv_def claims_of_def by (blast intro: distinct_map_filter)
  moreover have "map (\<lambda>cl. (cl_request_id cl, cl_claimed_by cl)) (claims_of w (ar_id r)) =
      map (Pair (ar_id r)) (map cl_claimed_by (claims_of w (ar_id r)))"
    by (simp add: claims_of_def)
  ultimately have "distinct (map cl_claimed_by (claims_of w (ar_id r)))"
    by (metis distinct_map)
  then show ?thesis using inv assms(3) by (auto simp: ace_inv_def)
qed

text \<open>A completed or cancelled request is settled: while it exists its row never changes again
  and it gains no claim.\<close>

theorem decided_request_is_final:
  assumes "ace_start w0" and "ace_steps w0 w" and "get_request w rid = Some r" and "ar_status r \<noteq> Open"
    and "ace_step w w'"
  shows "get_request w' rid = None \<or>
    get_request w' rid = Some r \<and> set (claims_of w' rid) \<subseteq> set (claims_of w rid)"
proof -
  have inv: "ace_inv w" using assms(1,2) ace_inv_start ace_inv_steps by blast
  have core: "core_change w w'" using assms(5) by (rule ace_step_core)
  then have inv': "ace_inv w'" using inv by (rule ace_inv_core)
  have r: "r \<in> set (aw_requests w)" "ar_id r = rid" using get_request_Some [OF assms(3)] by auto
  have same: "q = r" if "q \<in> set (aw_requests w)" "ar_id q = rid" for q
    using that r ace_inv_id_inj [OF inv] by metis
  have keep: "get_request w' rid = Some r" if "r \<in> set (aw_requests w')"
    using get_request_in [OF _ that] inv' r(2) by (simp add: ace_inv_def)
  from core show ?thesis
  proof cases
    case keep
    then show ?thesis using assms(3) by (simp add: get_request_def claims_of_def)
  next
    case (add_request q)
    then show ?thesis using keep r by (simp add: claims_of_def)
  next
    case (add_claim cl q)
    have "cl_request_id cl \<noteq> rid" using add_claim(3,4) assms(3,4) by auto
    then show ?thesis using keep r add_claim(1,2) by (simp add: claims_of_def)
  next
    case (remove P Q)
    have "get_request w' rid = None \<or> get_request w' rid = Some r"
    proof (cases "P r")
      case True
      then show ?thesis using keep remove(1) r by simp
    next
      case False
      then show ?thesis using same remove(1) by (auto simp: get_request_None)
    qed
    then show ?thesis using remove(2) by (auto simp: claims_of_def)
  next
    case (settle rid' c user actor outcome q)
    have "rid' \<noteq> rid" using settle(3,4) assms(3,4) by auto
    then have "r \<in> set (aw_requests w')" using settle(1) r by force
    then show ?thesis using keep settle(2) by (simp add: claims_of_def)
  qed
qed

text \<open>\<open>claim_request\<close> books exactly when it may: the request is open, has a free slot, and
  the claimer holds none of its slots; then it adds that one claim and reports the new count.\<close>

theorem claim_request_books_iff:
  assumes "row_id c \<notin> cl_id ` set (aw_claims w)"
  shows "(\<exists>res w'. claim_request c rid claimer notes start stop w = Inr (res, w')) =
      (\<exists>r. get_request w rid = Some r \<and> ar_status r = Open \<and> claims_count w rid < ar_slots r \<and>
        \<not> has_claim w rid claimer) \<and>
    (case claim_request c rid claimer notes start stop w of
       Inl e \<Rightarrow> e = (if get_request w rid = None then NotFound else Conflict)
     | Inr ((slots, held), w') \<Rightarrow> has_claim w' rid claimer \<and> held = claims_count w' rid \<and>
         claims_count w' rid = claims_count w rid + 1 \<and> aw_requests w' = aw_requests w)"
proof -
  have "\<not> list_ex (\<lambda>cl. cl_id cl = row_id c) (aw_claims w)"
    using assms by (auto simp: list_ex_iff image_iff)
  then show ?thesis
    by (cases "get_request w rid")
      (auto simp: claim_request_def Let_def claims_count_def claims_of_def has_claim_def)
qed

subsection \<open>Reminders go out once\<close>

definition reminder_keys :: "job list \<Rightarrow> (ustr \<times> ustr option) list" where
  "reminder_keys q = map (\<lambda>j. (jb_type j, jb_subject_id j)) (filter (\<lambda>j. jb_type j \<in> set reminder_types) q)"

lemma reminder_keys_append: "reminder_keys (q @ js) = reminder_keys q @ reminder_keys js"
  by (simp add: reminder_keys_def)

lemma reminder_keys_map:
  "(\<And>j. jb_type (f j) = jb_type j \<and> jb_subject_id (f j) = jb_subject_id j) \<Longrightarrow> reminder_keys (map f q) = reminder_keys q"
  by (induction q) (auto simp: reminder_keys_def)

lemma row_ops_keep_subject:
  "jb_type (lease_row now j) = jb_type j \<and> jb_subject_id (lease_row now j) = jb_subject_id j"
  "jb_type (ack_row now success r e j) = jb_type j \<and> jb_subject_id (ack_row now success r e j) = jb_subject_id j"
  "jb_type (reap_row now j) = jb_type j \<and> jb_subject_id (reap_row now j) = jb_subject_id j"
  by (simp_all add: lease_row_def ack_row_def reap_row_def retry_or_fail_def)

lemma quiet_reminders: "quiet w w' \<Longrightarrow> reminder_keys (aw_jobs w') = reminder_keys (aw_jobs w)"
  by (auto simp: quiet_def reminder_keys_def filter_empty_conv)

lemma job_step_reminders:
  assumes "job_step q q'" and "no_new_reminder q q'" and "distinct (reminder_keys q)"
  shows "distinct (reminder_keys q')"
  using assms(1)
proof cases
  case (enqueue now jid ty payload st si jid')
  then have q': "q' = q @ [new_job now jid ty payload st si]" and "jid \<notin> job_ids q"
    by (auto simp: enqueue_job_def list_ex_iff job_ids_def split: if_splits)
  then have "ty \<notin> set reminder_types"
    using assms(2) by (simp add: no_new_reminder_def new_job_def)
  then show ?thesis using assms(3) by (simp add: q' reminder_keys_def new_job_def)
next
  case (lease now consumer limit locked bodies)
  then have "reminder_keys q' = reminder_keys q"
    by (auto simp: lease_jobs_def Let_def row_ops_keep_subject intro!: reminder_keys_map)
  then show ?thesis using assms(3) by simp
next
  case (ack now jid consumer success r e attempt ok)
  then have "reminder_keys q' = reminder_keys q"
    by (auto simp: ack_job_def row_ops_keep_subject intro!: reminder_keys_map)
  then show ?thesis using assms(3) by simp
next
  case (reap now stranded_before n)
  then have "reminder_keys q' = reminder_keys q"
    by (auto simp: reap_stranded_jobs_def row_ops_keep_subject intro!: reminder_keys_map)
  then show ?thesis using assms(3) by simp
next
  case reorder
  then have "mset (reminder_keys q') = mset (reminder_keys q)" by (simp add: reminder_keys_def)
  then show ?thesis using assms(3) mset_eq_imp_distinct_iff by blast
qed

lemma enqueue_reminder_job_distinct:
  assumes "enqueue_reminder_job now jid ty claim_id payload q = Inr (inserted, q')" and "distinct (reminder_keys q)"
  shows "distinct (reminder_keys q')"
proof (cases inserted)
  case True
  then have "q' = q @ [new_job now jid ty payload (Some (lit ''ace_claim'')) (Some claim_id)]"
    and "ty \<in> set reminder_types \<longrightarrow> (ty, Some claim_id) \<notin> set (reminder_keys q)"
    using assms(1) by (auto simp: enqueue_reminder_job_def reminder_keys_def list_ex_iff split: if_splits)
  then show ?thesis using assms(2) by (auto simp: reminder_keys_def new_job_def)
next
  case False
  then show ?thesis using assms by (auto simp: enqueue_reminder_job_def split: if_splits)
qed

lemma enqueue_due_distinct:
  "enqueue_due now fresh before ty rs (k, sent, q) = (k', sent', q') \<Longrightarrow> distinct (reminder_keys q) \<Longrightarrow>
     distinct (reminder_keys q')"
  by (induction now fresh before ty rs "(k, sent, q)" arbitrary: k sent q rule: enqueue_due.induct)
    (auto split: sum.splits prod.splits dest: enqueue_reminder_job_distinct)

lemma reminder_tiers_distinct:
  "reminder_tiers now fresh tiers w acc = (res, w') \<Longrightarrow> distinct (reminder_keys (aw_jobs w)) \<Longrightarrow>
     distinct (reminder_keys (aw_jobs w'))"
  by (induction now fresh tiers w acc rule: reminder_tiers.induct)
    (auto simp: Let_def split: prod.splits dest: enqueue_due_distinct)

lemma handler_reminders:
  assumes "reminder_keys (aw_jobs v) = reminder_keys (aw_jobs w)" and "quiet v w'"
  shows "reminder_keys (aw_jobs w') = reminder_keys (aw_jobs w)"
  using assms quiet_reminders by simp

lemma core_ops_keep_jobs:
  "claim_request c rid u notes start stop w = Inr (res, v) \<Longrightarrow> aw_jobs v = aw_jobs w"
  "create_request c eid u artcc position slots details w = Inr (rid', v) \<Longrightarrow> aw_jobs v = aw_jobs w"
  "release_claim rid u w = Inr (res, v) \<Longrightarrow> aw_jobs v = aw_jobs w"
  "decide_request c rid user actor outcome w = Inr v \<Longrightarrow> aw_jobs v = aw_jobs w"
  by (auto simp: claim_request_def create_request_def release_claim_def decide_request_def
      bind_result_Inr_iff Let_def split: if_splits)

lemma ace_step_reminders:
  "ace_step w w' \<Longrightarrow> distinct (reminder_keys (aw_jobs w)) \<Longrightarrow> distinct (reminder_keys (aw_jobs w'))"
proof (induction rule: ace_step.induct)
  case (create c user eid payload w body w' p)
  then show ?case
    by (auto simp: create_request_handler_def bind_result_Inr_iff Let_def split: if_splits
        dest!: create_one_quiet reply_with_Inr core_ops_keep_jobs(2) quiet_reminders)
next
  case (delete rid w w' p)
  then show ?case by (auto simp: delete_request_handler_def delete_request_def split: if_splits)
next
  case (claim c user eid rid claim w body w' p)
  then show ?case
    by (auto simp: claim_request_handler_def bind_result_Inr_iff split: if_splits
        dest!: claim_and_notify_quiet reply_with_Inr core_ops_keep_jobs(1) quiet_reminders)
next
  case (discord_claim c rid button w body w' p)
  then show ?case
    by (auto simp: discord_ace_claim_def bind_result_Inr_iff Let_def split: if_splits
        dest!: claim_and_notify_quiet reply_with_Inr core_ops_keep_jobs(1) quiet_reminders)
next
  case (release c user rid w body w' p)
  then show ?case
    by (auto simp: release_claim_handler_def bind_result_Inr_iff split: if_splits
        dest!: enqueue_notify_quiet reply_with_Inr core_ops_keep_jobs(3) quiet_reminders)
next
  case (decide c user actor rid outcome w body w' p)
  then show ?case
    by (auto simp: decide_request_handler_def bind_result_Inr_iff
        dest!: reply_with_Inr core_ops_keep_jobs(4))
next
  case (remind now fresh w msg nudge w')
  then show ?case
    by (auto simp: ace_reminder_scheduler_once_def split: prod.splits dest: reminder_tiers_distinct)
next
  case (queue w q)
  then show ?case by (simp add: job_step_reminders)
qed (auto simp: same_ace_def)


section \<open>A sample run\<close>

definition sample_start :: ace_world where
  "sample_start = \<lparr>aw_requests = [], aw_claims = [], aw_jobs = [],
     aw_events = [\<lparr>ev_id = 9, ev_title = lit ''FNO'', ev_start = 22 * 60 * minute, ev_end = 27 * 60 * minute\<rparr>],
     aw_discord_links = [(lit ''u2'', lit ''d2'')], aw_names = (\<lambda>_. []), aw_guilds = [], aw_documents = []\<rparr>"

definition sample_call :: "string \<Rightarrow> call" where
  "sample_call k = \<lparr>at = 7, row_id = lit k, notify_id = lit (k @ ''n''), dm_id = lit (k @ ''d''), rfc3339 = (\<lambda>_. [])\<rparr>"

definition reply_world :: "ace_reply result \<Rightarrow> ace_world" where
  "reply_world res = fst (snd (projr res))"

definition sample_create :: "ace_reply result" where
  "sample_create = create_request_handler (sample_call ''r1'') (Some (lit ''u1'')) 9
     \<lparr>cp_artcc_id = None, cp_position = None, cp_slots = 1, cp_details = lit ''tower''\<rparr> sample_start"

definition sample_claim :: "ace_reply result" where
  "sample_claim = discord_ace_claim (sample_call ''c1'') (lit ''r1'')
     \<lparr>dc_discord_user_id = lit ''d2'', dc_notes = None, dc_start_hhmm = Some (lit ''0200''), dc_end_hhmm = Some (lit ''2300'')\<rparr>
     (reply_world sample_create)"

definition sample_decide :: "ace_reply result" where
  "sample_decide = decide_request_handler (sample_call ''x1'') (Some (lit ''u3'')) None (lit ''r1'') (lit ''completed'')
     (reply_world sample_claim)"

lemma reply_world_eq: "\<not> isl res \<Longrightarrow> \<exists>body p. res = Inr (body, reply_world res, p)"
  by (cases res) (auto simp: reply_world_def)

lemma sample_create_step: "ace_step sample_start (reply_world sample_create)"
proof -
  have "\<not> isl sample_create" by code_simp
  from reply_world_eq [OF this] show ?thesis unfolding sample_create_def by (blast intro: ace_step.create)
qed

lemma sample_claim_step: "ace_step (reply_world sample_create) (reply_world sample_claim)"
proof -
  have "\<not> isl sample_claim" by code_simp
  from reply_world_eq [OF this] show ?thesis unfolding sample_claim_def by (blast intro: ace_step.discord_claim)
qed

lemma sample_decide_step: "ace_step (reply_world sample_claim) (reply_world sample_decide)"
proof -
  have "\<not> isl sample_decide" by code_simp
  from reply_world_eq [OF this] show ?thesis unfolding sample_decide_def by (blast intro: ace_step.decide)
qed

lemma sample_start_ok: "ace_start sample_start"
  by (simp add: ace_start_def sample_start_def)

lemma sample_claim_run: "ace_steps sample_start (reply_world sample_claim)"
  using sample_create_step sample_claim_step by (meson converse_rtranclp_into_rtranclp rtranclp.rtrancl_refl)

lemma sample_decide_run: "ace_steps sample_start (reply_world sample_decide)"
  using sample_claim_run sample_decide_step by (rule rtranclp.rtrancl_into_rtrancl)

theorem ace_never_overbooked_witness:
  "claims_count (reply_world sample_claim) (lit ''r1'') \<le> 1"
proof -
  have "hd (aw_requests (reply_world sample_claim)) \<in> set (aw_requests (reply_world sample_claim))"
    by (rule hd_in_set) code_simp
  moreover have "ar_id (hd (aw_requests (reply_world sample_claim))) = lit ''r1''"
    and "ar_slots (hd (aw_requests (reply_world sample_claim))) = 1"
    by code_simp+
  ultimately show ?thesis using ace_never_overbooked [OF sample_start_ok sample_claim_run] by metis
qed

theorem decided_request_is_final_witness:
  "get_request (reply_world sample_decide) (lit ''r1'') \<noteq> None"
proof -
  let ?w = "reply_world sample_decide" and ?r = "the (get_request (reply_world sample_decide) (lit ''r1''))"
  have ne: "get_request ?w (lit ''r1'') \<noteq> None" and "ar_status ?r \<noteq> Open"
    by code_simp+
  then have "get_request ?w (lit ''r1'') = Some ?r" by simp
  from decided_request_is_final [OF sample_start_ok sample_decide_run this \<open>ar_status ?r \<noteq> Open\<close>
      ace_step.other_tables [of ?w ?w]] ne
  show ?thesis by (auto simp: same_ace_def)
qed

theorem claim_request_books_iff_witness:
  "\<exists>res w'. claim_request (sample_call ''c1'') (lit ''r1'') (lit ''u2'') [] None None (reply_world sample_create) = Inr (res, w')"
proof -
  let ?w = "reply_world sample_create"
  have "row_id (sample_call ''c1'') \<notin> cl_id ` set (aw_claims ?w)"
    and "get_request ?w (lit ''r1'') = Some (the (get_request ?w (lit ''r1'')))"
    and "ar_status (the (get_request ?w (lit ''r1''))) = Open"
    and "claims_count ?w (lit ''r1'') < ar_slots (the (get_request ?w (lit ''r1'')))"
    and "\<not> has_claim ?w (lit ''r1'') (lit ''u2'')"
    by code_simp+
  then show ?thesis
    using claim_request_books_iff [of "sample_call ''c1''" ?w "lit ''r1''" "lit ''u2''" "[]" None None] by blast
qed


text \<open>The Discord button skips the check the web form makes: it books a window that ends before it
  starts, and it does not publish the board's topic.\<close>

lemma discord_claim_inverted_and_silent:
  "cl_start (hd (aw_claims (reply_world sample_claim))) > cl_end (hd (aw_claims (reply_world sample_claim))) \<and>
   \<not> snd (snd (projr sample_claim)) \<and>
   isl (validate_window (cl_start (hd (aw_claims (reply_world sample_claim))))
     (cl_end (hd (aw_claims (reply_world sample_claim)))) (22 * 60 * minute) (27 * 60 * minute))"
  by code_simp

end
