(* ===== verification/Banner.thy ===== *)
theory Banner
  imports Errors "HOL-Library.Word"
begin

unbundle bit_operations_syntax

text \<open>
  The event-banner relay of \<open>backend/src/handlers/events.rs\<close>: the backend fetches an image URL
  an organiser chose. The guards are the address filter inside DNS resolution
  (\<open>is_public_ip\<close>, \<open>PublicOnlyResolver\<close>), the scheme check, and the size and
  content-type limits of \<open>relay_banner\<close>. The URL parser, the system's name lookup and the HTTP
  client are third-party code, hence arguments.
\<close>

section \<open>The address filter\<close>

type_synonym octet = "8 word"

datatype ip_addr =
    V4 octet octet octet octet
  | V6 "16 word" "16 word" "16 word" "16 word" "16 word" "16 word" "16 word" "16 word"

text \<open>The predicates of \<open>std::net::Ipv4Addr\<close> the source calls.\<close>

definition v4_is_private :: "octet \<Rightarrow> octet \<Rightarrow> octet \<Rightarrow> octet \<Rightarrow> bool" where
  "v4_is_private a b c d \<longleftrightarrow> a = 10 \<or> a = 172 \<and> 16 \<le> b \<and> b \<le> 31 \<or> a = 192 \<and> b = 168"

definition v4_is_documentation :: "octet \<Rightarrow> octet \<Rightarrow> octet \<Rightarrow> octet \<Rightarrow> bool" where
  "v4_is_documentation a b c d \<longleftrightarrow> a = 192 \<and> b = 0 \<and> c = 2 \<or> a = 198 \<and> b = 51 \<and> c = 100 \<or>
     a = 203 \<and> b = 0 \<and> c = 113"

definition is_public_v4 :: "octet \<Rightarrow> octet \<Rightarrow> octet \<Rightarrow> octet \<Rightarrow> bool" where
  "is_public_v4 a b c d \<longleftrightarrow>
     \<not> (a = 127 \<or> v4_is_private a b c d \<or> a = 169 \<and> b = 254 \<or>
        a = 255 \<and> b = 255 \<and> c = 255 \<and> d = 255 \<or> v4_is_documentation a b c d \<or>
        a = 0 \<and> b = 0 \<and> c = 0 \<and> d = 0 \<or> a = 0 \<or> 224 \<le> a \<or> a = 100 \<and> 64 \<le> b \<and> b < 128)"

definition octet_hi :: "16 word \<Rightarrow> octet" where "octet_hi w = ucast (drop_bit 8 w)"
definition octet_lo :: "16 word \<Rightarrow> octet" where "octet_lo w = ucast w"

fun is_public_ip :: "ip_addr \<Rightarrow> bool" where
  "is_public_ip (V4 a b c d) = is_public_v4 a b c d"
| "is_public_ip (V6 s0 s1 s2 s3 s4 s5 s6 s7) =
     (if s0 = 0 \<and> s1 = 0 \<and> s2 = 0 \<and> s3 = 0 \<and> s4 = 0 \<and> s5 = 0xffff
      then is_public_v4 (octet_hi s6) (octet_lo s6) (octet_hi s7) (octet_lo s7)
      else \<not> ((s0 = 0 \<and> s1 = 0 \<and> s2 = 0 \<and> s3 = 0 \<and> s4 = 0 \<and> s5 = 0 \<and> s6 = 0 \<and> s7 = 1) \<or>
              (s0 = 0 \<and> s1 = 0 \<and> s2 = 0 \<and> s3 = 0 \<and> s4 = 0 \<and> s5 = 0 \<and> s6 = 0 \<and> s7 = 0) \<or>
              drop_bit 8 s0 = 0xff \<or> s0 AND 0xfe00 = 0xfc00 \<or> s0 AND 0xffc0 = 0xfe80))"

text \<open>\<open>PublicOnlyResolver::resolve\<close>: all or nothing. \<open>lookup\<close> is the system's name lookup.\<close>

definition public_only_resolve :: "(ustr \<Rightarrow> ip_addr list option) \<Rightarrow> ustr \<Rightarrow> ip_addr list option" where
  "public_only_resolve lookup host =
     (case lookup host of
        None \<Rightarrow> None
      | Some addrs \<Rightarrow> if addrs = [] \<or> list_ex (\<lambda>a. \<not> is_public_ip a) addrs then None else Some addrs)"

section \<open>The relay\<close>

datatype banner_reject = Missing | NotHttps | Unusable

definition BANNER_MAX_BYTES :: int where "BANNER_MAX_BYTES = 8 * 1024 * 1024"

record url_parts =
  scheme :: ustr
  host_str :: "ustr option"

definition check_banner_scheme :: "(ustr \<Rightarrow> url_parts option) \<Rightarrow> ustr \<Rightarrow> banner_reject + unit" where
  "check_banner_scheme parse url =
     bind_result (ok_or NotHttps (parse url)) (\<lambda>parsed.
       if scheme parsed \<noteq> lit ''https'' \<or> host_str parsed = None then Inl NotHttps else Inr ())"

text \<open>What the client received: a chunk is \<open>None\<close> when reading it fails.\<close>

record http_response =
  hr_status :: nat
  hr_content_type :: "ustr option"
  hr_content_length :: "int option"
  hr_chunks :: "octet list option list"

fun read_capped :: "octet list \<Rightarrow> octet list option list \<Rightarrow> banner_reject + octet list" where
  "read_capped bytes [] = Inr bytes"
| "read_capped bytes (None # chunks) = Inl Unusable"
| "read_capped bytes (Some chunk # chunks) =
     (if BANNER_MAX_BYTES < int (length bytes) + int (length chunk) then Inl Unusable
      else read_capped (bytes @ chunk) chunks)"

definition relay_banner ::
    "(ustr \<Rightarrow> url_parts option) \<Rightarrow> (ustr \<Rightarrow> http_response option) \<Rightarrow> ustr \<Rightarrow> banner_reject + ustr \<times> octet list" where
  "relay_banner parse send url =
     (if url = [] then Inl Missing else
      bind_result (check_banner_scheme parse url) (\<lambda>_.
      bind_result (ok_or Unusable (send url)) (\<lambda>res.
        if \<not> (200 \<le> hr_status res \<and> hr_status res < 300) then Inl Unusable else
        let content_type = (case hr_content_type res of None \<Rightarrow> [] | Some t \<Rightarrow> t) in
        if \<not> starts_with (lit ''image/'') content_type then Inl Unusable else
        if (case hr_content_length res of None \<Rightarrow> False | Some n \<Rightarrow> BANNER_MAX_BYTES < n) then Inl Unusable else
        bind_result (read_capped [] (hr_chunks res)) (\<lambda>bytes. Inr (content_type, bytes)))))"

text \<open>\<open>get_event_banner\<close>'s answer; every rejection but a missing banner looks the same.\<close>

definition banner_error :: "banner_reject \<Rightarrow> api_error" where
  "banner_error e = (case e of Missing \<Rightarrow> NotFound | _ \<Rightarrow> ServiceUnavailable)"

definition get_event_banner ::
    "(ustr \<Rightarrow> url_parts option) \<Rightarrow> (ustr \<Rightarrow> http_response option) \<Rightarrow> ustr option \<Rightarrow> (ustr \<times> octet list) result" where
  "get_event_banner parse send banner_image_url =
     bind_result (ok_or NotFound banner_image_url) (\<lambda>url.
       case relay_banner parse send url of Inl e \<Rightarrow> Inl (banner_error e) | Inr r \<Rightarrow> Inr r)"

section \<open>What the filter refuses\<close>

definition v4_number :: "octet \<Rightarrow> octet \<Rightarrow> octet \<Rightarrow> octet \<Rightarrow> int" where
  "v4_number a b c d = ((uint a * 256 + uint b) * 256 + uint c) * 256 + uint d"

text \<open>\<open>cidr a b c d n\<close> is the block \<open>a.b.c.d/n\<close>.\<close>

definition in_cidr :: "octet \<times> octet \<times> octet \<times> octet \<Rightarrow> nat \<Rightarrow> int \<Rightarrow> bool" where
  "in_cidr net n x = (case net of (a, b, c, d) \<Rightarrow> x div 2 ^ (32 - n) = v4_number a b c d div 2 ^ (32 - n))"

definition refused_blocks :: "((octet \<times> octet \<times> octet \<times> octet) \<times> nat) list" where
  "refused_blocks =
     [((0, 0, 0, 0), 8), ((10, 0, 0, 0), 8), ((100, 64, 0, 0), 10), ((127, 0, 0, 0), 8),
      ((169, 254, 0, 0), 16), ((172, 16, 0, 0), 12), ((192, 0, 2, 0), 24), ((192, 168, 0, 0), 16),
      ((198, 51, 100, 0), 24), ((203, 0, 113, 0), 24), ((224, 0, 0, 0), 3)]"

lemma octet_bounds: "0 \<le> uint (a :: octet)" "uint (a :: octet) < 256"
  using uint_bounded [of a] by simp_all

lemma octet_le: "(a :: octet) \<le> b \<longleftrightarrow> uint a \<le> uint b" and octet_less: "(a :: octet) < b \<longleftrightarrow> uint a < uint b"
  and octet_eq: "(a :: octet) = b \<longleftrightarrow> uint a = uint b"
  by (simp_all add: word_le_def word_less_def word_uint_eq_iff)

lemma div_eqI: "x = k * q + r \<Longrightarrow> 0 \<le> r \<Longrightarrow> r < k \<Longrightarrow> x div k = (q :: int)"
  by (simp add: int_div_pos_eq)

lemma div_split:
  "0 < k \<Longrightarrow> (\<And>q r. x = k * q + r \<Longrightarrow> 0 \<le> r \<Longrightarrow> r < k \<Longrightarrow> P q) \<Longrightarrow> P ((x :: int) div k)"
  by (metis mult_div_mod_eq pos_mod_bound pos_mod_sign)

lemma v4_number_div:
  "v4_number a b c d div 16777216 = uint a"
  "v4_number a b c d div 65536 = uint a * 256 + uint b"
  "v4_number a b c d div 256 = (uint a * 256 + uint b) * 256 + uint c"
  "v4_number a b c d div 4194304 = uint a * 4 + uint b div 64"
  "v4_number a b c d div 1048576 = uint a * 16 + uint b div 16"
  "v4_number a b c d div 536870912 = uint a div 32"
proof -
  note b = octet_bounds [of a] octet_bounds [of b] octet_bounds [of c] octet_bounds [of d]
  show "v4_number a b c d div 16777216 = uint a"
    by (rule div_eqI [of _ _ _ "(uint b * 256 + uint c) * 256 + uint d"])
      (insert b, simp_all add: v4_number_def distrib_right)
  show "v4_number a b c d div 65536 = uint a * 256 + uint b"
    by (rule div_eqI [of _ _ _ "uint c * 256 + uint d"])
      (insert b, simp_all add: v4_number_def distrib_right)
  show "v4_number a b c d div 256 = (uint a * 256 + uint b) * 256 + uint c"
    by (rule div_eqI [of _ _ _ "uint d"])
      (insert b, simp_all add: v4_number_def distrib_right)
  show "v4_number a b c d div 4194304 = uint a * 4 + uint b div 64"
  proof (rule div_split [of 64 "uint b"])
    fix q r assume "uint b = 64 * q + r" "0 \<le> r" "r < 64"
    with b show "v4_number a b c d div 4194304 = uint a * 4 + q"
      by (intro div_eqI [of _ _ _ "(r * 256 + uint c) * 256 + uint d"]) (simp_all add: v4_number_def distrib_right)
  qed simp
  show "v4_number a b c d div 1048576 = uint a * 16 + uint b div 16"
  proof (rule div_split [of 16 "uint b"])
    fix q r assume "uint b = 16 * q + r" "0 \<le> r" "r < 16"
    with b show "v4_number a b c d div 1048576 = uint a * 16 + q"
      by (intro div_eqI [of _ _ _ "(r * 256 + uint c) * 256 + uint d"]) (simp_all add: v4_number_def distrib_right)
  qed simp
  show "v4_number a b c d div 536870912 = uint a div 32"
  proof (rule div_split [of 32 "uint a"])
    fix q r assume "uint a = 32 * q + r" "0 \<le> r" "r < 32"
    with b show "v4_number a b c d div 536870912 = q"
      by (intro div_eqI [of _ _ _ "((r * 256 + uint b) * 256 + uint c) * 256 + uint d"])
        (simp_all add: v4_number_def distrib_right)
  qed simp
qed

lemma digits_eq:
  assumes "0 \<le> y" and "y < k" and "0 \<le> z" and "z < (k :: int)"
  shows "x * k + y = u * k + z \<longleftrightarrow> x = u \<and> y = z"
proof
  assume e: "x * k + y = u * k + z"
  have "(x * k + y) div k = x" "(u * k + z) div k = u"
    using assms by (simp_all add: div_eqI mult.commute)
  with e have "x = u" by simp
  with e show "x = u \<and> y = z" by simp
qed simp

lemma div_blocks:
  "y div 64 = 1 \<longleftrightarrow> 64 \<le> y \<and> y < (128 :: int)"
  "y div 16 = 1 \<longleftrightarrow> 16 \<le> y \<and> y \<le> (31 :: int)"
  "x < 256 \<Longrightarrow> x div 32 = 7 \<longleftrightarrow> 224 \<le> (x :: int)"
  by linarith+

lemma octet_numbers:
  fixes a b c :: octet
  shows "uint a * 256 + uint b = 43518 \<longleftrightarrow> uint a = 169 \<and> uint b = 254"
    and "uint a * 256 + uint b = 49320 \<longleftrightarrow> uint a = 192 \<and> uint b = 168"
    and "uint a * 4 + uint b div 64 = 401 \<longleftrightarrow> uint a = 100 \<and> 64 \<le> uint b \<and> uint b < 128"
    and "uint a * 16 + uint b div 16 = 2753 \<longleftrightarrow> uint a = 172 \<and> 16 \<le> uint b \<and> uint b \<le> 31"
    and "uint a div 32 = 7 \<longleftrightarrow> 224 \<le> uint a"
    and "65536 * uint a + uint b * 256 + uint c = 12582914 \<longleftrightarrow> uint a = 192 \<and> uint b = 0 \<and> uint c = 2"
    and "65536 * uint a + uint b * 256 + uint c = 12989284 \<longleftrightarrow> uint a = 198 \<and> uint b = 51 \<and> uint c = 100"
    and "65536 * uint a + uint b * 256 + uint c = 13303921 \<longleftrightarrow> uint a = 203 \<and> uint b = 0 \<and> uint c = 113"
proof -
  note b = octet_bounds [of a] octet_bounds [of b] octet_bounds [of c]
  have d: "0 \<le> uint b div 64" "uint b div 64 < 4" "0 \<le> uint b div 16" "uint b div 16 < 16"
    using octet_bounds [of b] by linarith+
  have two: "uint a * 256 + uint b = x * 256 + y \<longleftrightarrow> uint a = x \<and> uint b = y" if "0 \<le> y" "y < 256" for x y
    using digits_eq [of "uint b" 256 y "uint a" x] b that by simp
  have three: "(uint a * 256 + uint b) * 256 + uint c = (x * 256 + y) * 256 + z \<longleftrightarrow>
      uint a = x \<and> uint b = y \<and> uint c = z" if "0 \<le> y" "y < 256" "0 \<le> z" "z < 256" for x y z
    using digits_eq [of "uint c" 256 z "uint a * 256 + uint b" "x * 256 + y"] two [of y x] b that by simp
  show "uint a * 256 + uint b = 43518 \<longleftrightarrow> uint a = 169 \<and> uint b = 254" using two [of 254 169] by simp
  show "uint a * 256 + uint b = 49320 \<longleftrightarrow> uint a = 192 \<and> uint b = 168" using two [of 168 192] by simp
  show "uint a * 4 + uint b div 64 = 401 \<longleftrightarrow> uint a = 100 \<and> 64 \<le> uint b \<and> uint b < 128"
    using digits_eq [of "uint b div 64" 4 1 "uint a" 100] d div_blocks(1) [of "uint b"] by simp
  show "uint a * 16 + uint b div 16 = 2753 \<longleftrightarrow> uint a = 172 \<and> 16 \<le> uint b \<and> uint b \<le> 31"
    using digits_eq [of "uint b div 16" 16 1 "uint a" 172] d div_blocks(2) [of "uint b"] by simp
  show "uint a div 32 = 7 \<longleftrightarrow> 224 \<le> uint a" using div_blocks(3) b by simp
  show "65536 * uint a + uint b * 256 + uint c = 12582914 \<longleftrightarrow> uint a = 192 \<and> uint b = 0 \<and> uint c = 2"
    using three [of 0 2 192] by simp
  show "65536 * uint a + uint b * 256 + uint c = 12989284 \<longleftrightarrow> uint a = 198 \<and> uint b = 51 \<and> uint c = 100"
    using three [of 51 100 198] by simp
  show "65536 * uint a + uint b * 256 + uint c = 13303921 \<longleftrightarrow> uint a = 203 \<and> uint b = 0 \<and> uint c = 113"
    using three [of 0 113 203] by simp
qed

lemma in_blocks:
  "in_cidr (0, 0, 0, 0) 8 (v4_number a b c d) \<longleftrightarrow> uint a = 0"
  "in_cidr (10, 0, 0, 0) 8 (v4_number a b c d) \<longleftrightarrow> uint a = 10"
  "in_cidr (100, 64, 0, 0) 10 (v4_number a b c d) \<longleftrightarrow> uint a = 100 \<and> 64 \<le> uint b \<and> uint b < 128"
  "in_cidr (127, 0, 0, 0) 8 (v4_number a b c d) \<longleftrightarrow> uint a = 127"
  "in_cidr (169, 254, 0, 0) 16 (v4_number a b c d) \<longleftrightarrow> uint a = 169 \<and> uint b = 254"
  "in_cidr (172, 16, 0, 0) 12 (v4_number a b c d) \<longleftrightarrow> uint a = 172 \<and> 16 \<le> uint b \<and> uint b \<le> 31"
  "in_cidr (192, 0, 2, 0) 24 (v4_number a b c d) \<longleftrightarrow> uint a = 192 \<and> uint b = 0 \<and> uint c = 2"
  "in_cidr (192, 168, 0, 0) 16 (v4_number a b c d) \<longleftrightarrow> uint a = 192 \<and> uint b = 168"
  "in_cidr (198, 51, 100, 0) 24 (v4_number a b c d) \<longleftrightarrow> uint a = 198 \<and> uint b = 51 \<and> uint c = 100"
  "in_cidr (203, 0, 113, 0) 24 (v4_number a b c d) \<longleftrightarrow> uint a = 203 \<and> uint b = 0 \<and> uint c = 113"
  "in_cidr (224, 0, 0, 0) 3 (v4_number a b c d) \<longleftrightarrow> 224 \<le> uint a"
  by (simp_all add: in_cidr_def v4_number_div octet_numbers)

text \<open>The filter refuses exactly the addresses of eleven blocks: for every IPv4 address,
  \<open>is_public_ip\<close> holds when its 32-bit number lies in none of them, and a v4 address mapped
  into IPv6 gets the same answer.\<close>

theorem public_v4_iff_outside_blocks:
  "is_public_ip (V4 a b c d) = (\<not> list_ex (\<lambda>(net, n). in_cidr net n (v4_number a b c d)) refused_blocks) \<and>
   is_public_ip (V6 0 0 0 0 0 0xffff (word_cat a b) (word_cat c d)) = is_public_ip (V4 a b c d)"
proof -
  have "octet_hi (word_cat a b) = a" "octet_lo (word_cat a b) = b"
    "octet_hi (word_cat c d) = c" "octet_lo (word_cat c d) = d"
    by (rule bit_word_eqI; simp add: octet_hi_def octet_lo_def bit_ucast_iff bit_drop_bit_eq bit_word_cat_iff)+
  moreover have "is_public_v4 a b c d = (\<not> list_ex (\<lambda>(net, n). in_cidr net n (v4_number a b c d)) refused_blocks)"
  proof -
    have "list_ex (\<lambda>(net, n). in_cidr net n (v4_number a b c d)) refused_blocks \<longleftrightarrow>
        uint a = 0 \<or> uint a = 10 \<or> uint a = 100 \<and> 64 \<le> uint b \<and> uint b < 128 \<or> uint a = 127 \<or>
        uint a = 169 \<and> uint b = 254 \<or> uint a = 172 \<and> 16 \<le> uint b \<and> uint b \<le> 31 \<or>
        uint a = 192 \<and> uint b = 0 \<and> uint c = 2 \<or> uint a = 192 \<and> uint b = 168 \<or>
        uint a = 198 \<and> uint b = 51 \<and> uint c = 100 \<or> uint a = 203 \<and> uint b = 0 \<and> uint c = 113 \<or>
        224 \<le> uint a"
      by (simp only: refused_blocks_def list_ex_Nil_iff list_ex_Cons_iff prod.case in_blocks simp_thms disj_assoc)
    moreover have "is_public_v4 a b c d \<longleftrightarrow>
        \<not> (uint a = 127 \<or> (uint a = 10 \<or> uint a = 172 \<and> 16 \<le> uint b \<and> uint b \<le> 31 \<or> uint a = 192 \<and> uint b = 168) \<or>
        uint a = 169 \<and> uint b = 254 \<or> uint a = 255 \<and> uint b = 255 \<and> uint c = 255 \<and> uint d = 255 \<or>
        (uint a = 192 \<and> uint b = 0 \<and> uint c = 2 \<or> uint a = 198 \<and> uint b = 51 \<and> uint c = 100 \<or>
         uint a = 203 \<and> uint b = 0 \<and> uint c = 113) \<or>
        uint a = 0 \<and> uint b = 0 \<and> uint c = 0 \<and> uint d = 0 \<or> uint a = 0 \<or> 224 \<le> uint a \<or>
        uint a = 100 \<and> 64 \<le> uint b \<and> uint b < 128)"
      by (simp add: is_public_v4_def v4_is_private_def v4_is_documentation_def octet_le octet_less octet_eq)
    moreover have "uint a = 255 \<Longrightarrow> 224 \<le> uint a" by simp
    ultimately show ?thesis by argo
  qed
  ultimately show ?thesis by simp
qed

text \<open>It is a list of blocks to refuse, so any other reserved range passes: benchmarking and
  protocol-assignment v4 addresses, IPv6 site-local ones, and a private v4 address behind the NAT64
  prefix.\<close>

lemma filter_allows_unlisted_ranges:
  "is_public_ip (V4 198 18 0 1) \<and> is_public_ip (V4 192 0 0 8) \<and>
   is_public_ip (V6 0xfec0 0 0 0 0 0 0 1) \<and> is_public_ip (V6 0x64 0xff9b 0 0 0 0 0x0a00 1)"
  by code_simp

section \<open>What the relay returns\<close>

lemma read_capped_Inr:
  "read_capped acc chunks = Inr bytes \<Longrightarrow> int (length acc) \<le> BANNER_MAX_BYTES \<Longrightarrow>
     \<exists>parts. chunks = map Some parts \<and> bytes = acc @ concat parts \<and> int (length bytes) \<le> BANNER_MAX_BYTES"
proof (induction acc chunks rule: read_capped.induct)
  case (3 acc chunk chunks)
  then have "int (length (acc @ chunk)) \<le> BANNER_MAX_BYTES" and "read_capped (acc @ chunk) chunks = Inr bytes"
    by (auto split: if_splits)
  with 3 obtain parts where "chunks = map Some parts" "bytes = (acc @ chunk) @ concat parts"
    "int (length bytes) \<le> BANNER_MAX_BYTES" by (auto split: if_splits)
  then show ?case by (intro exI [of _ "chunk # parts"]) simp
qed auto

lemma not_image_empty: "\<not> starts_with (lit ''image/'') []"
  by code_simp

text \<open>Whatever a hostile host declares or streams, a relayed banner came from an \<open>https\<close>
  URL with a host, answered with success and an \<open>image/\<close> type, is the whole body, and is at
  most eight mebibytes.\<close>

theorem relayed_banner_is_bounded_image:
  assumes "relay_banner parse send url = Inr (content_type, bytes)"
  shows "\<exists>parts host res body. parse url = Some parts \<and> scheme parts = lit ''https'' \<and> host_str parts = Some host \<and>
    send url = Some res \<and> 200 \<le> hr_status res \<and> hr_status res < 300 \<and>
    hr_content_type res = Some content_type \<and> starts_with (lit ''image/'') content_type \<and>
    hr_chunks res = map Some body \<and> bytes = concat body \<and> length bytes \<le> 8388608"
proof -
  obtain res where res: "check_banner_scheme parse url = Inr ()" "send url = Some res"
    "200 \<le> hr_status res" "hr_status res < 300" "read_capped [] (hr_chunks res) = Inr bytes"
    "content_type = (case hr_content_type res of None \<Rightarrow> [] | Some t \<Rightarrow> t)"
    "starts_with (lit ''image/'') content_type"
    using assms by (auto simp: relay_banner_def bind_result_Inr_iff ok_or_def Let_def split: if_splits option.splits)
  obtain parts host where "parse url = Some parts" "scheme parts = lit ''https''" "host_str parts = Some host"
    using res(1) by (auto simp: check_banner_scheme_def bind_result_Inr_iff ok_or_def split: if_splits option.splits)
  moreover have "hr_content_type res = Some content_type"
    using res(6,7) not_image_empty by (cases "hr_content_type res") auto
  moreover obtain body where "hr_chunks res = map Some body" "bytes = concat body" "int (length bytes) \<le> BANNER_MAX_BYTES"
    using read_capped_Inr [OF res(5)] by (auto simp: BANNER_MAX_BYTES_def)
  ultimately show ?thesis using res by (auto simp: BANNER_MAX_BYTES_def)
qed

definition sample_parse :: "ustr \<Rightarrow> url_parts option" where
  "sample_parse url = (case strip_prefix (lit ''https://'') url of
     None \<Rightarrow> None | Some rest \<Rightarrow> Some \<lparr>scheme = lit ''https'', host_str = Some rest\<rparr>)"

definition sample_send :: "ustr \<Rightarrow> http_response option" where
  "sample_send url = Some \<lparr>hr_status = 200, hr_content_type = Some (lit ''image/png''),
     hr_content_length = None, hr_chunks = [Some [1, 2], Some [3]]\<rparr>"

theorem relayed_banner_is_bounded_image_witness:
  "\<exists>res. sample_send (lit ''https://h'') = Some res \<and> hr_content_type res = Some (lit ''image/png'')"
proof -
  have "relay_banner sample_parse sample_send (lit ''https://h'') = Inr (lit ''image/png'', [1, 2, 3])"
    by code_simp
  from relayed_banner_is_bounded_image [OF this] show ?thesis by blast
qed

end
