(* ===== verification/Gdp.thy ===== *)
theory Gdp
  imports Prelude "HOL-Library.Signed_Division" "HOL-Library.Multiset"
begin

text \<open>
  The ground delay program engine, \<open>backend/src/feed/gdp.rs\<close>: ration-by-schedule gives every
  inbound the next free arrival slot at the airport's acceptance rate, holds the controlled ones on the
  ground until it, and tallies demand and delay. Instants are integers in milliseconds. The source
  computes three values in \<open>f64\<close> that are exact on the integers involved: the slot spacing is
  \<open>3600000 div rate\<close>, a bin's capacity is a quarter of the rate rounded half up, and the
  comparisons with \<open>cap\<close> and \<open>1.25 cap\<close> are integer comparisons.
\<close>

section \<open>The data\<close>

definition BIN_MIN :: int where "BIN_MIN = 15"

definition EXEMPT_AIRBORNE :: ustr where "EXEMPT_AIRBORNE = lit ''airborne''"
definition EXEMPT_WINDOW :: ustr where "EXEMPT_WINDOW = lit ''outside window''"
definition EXEMPT_SCOPE :: ustr where "EXEMPT_SCOPE = lit ''out of scope''"
definition EXEMPT_TIER :: ustr where "EXEMPT_TIER = lit ''beyond tier''"

record inbound =
  in_cs :: ustr
  in_dep :: ustr
  in_dep_artcc :: "ustr option"
  in_status :: ustr
  in_eta_ms :: int
  in_etd_ms :: "int option"

record assignment =
  as_cs :: ustr
  as_dep :: ustr
  as_status :: ustr
  as_original_eta_ms :: int
  as_cta_ms :: int
  as_edct_ms :: "int option"
  as_delay_min :: int
  as_controlled :: bool
  as_frozen :: bool
  as_exempt_reason :: "ustr option"

section \<open>The rate schedule\<close>

type_synonym rate_schedule = "(int \<times> int) list"

definition flat_schedule :: "int \<Rightarrow> int \<Rightarrow> rate_schedule" where
  "flat_schedule aar window_start_ms = [(window_start_ms, max aar 1)]"

definition new_schedule :: "int \<Rightarrow> int \<Rightarrow> (int \<times> int) list \<Rightarrow> rate_schedule" where
  "new_schedule base_aar window_start_ms steps =
     sort_key fst ((window_start_ms, max base_aar 1) #
       map (\<lambda>(start, aar). (max start window_start_ms, max aar 1)) steps)"

fun rate_from :: "int \<Rightarrow> int \<Rightarrow> rate_schedule \<Rightarrow> int" where
  "rate_from rate t [] = rate"
| "rate_from rate t ((start, aar) # segments) = (if start \<le> t then rate_from aar t segments else rate)"

text \<open>Both constructors leave at least one segment, which is what \<open>segments[0]\<close> relies on.\<close>

definition rate_at :: "rate_schedule \<Rightarrow> int \<Rightarrow> int" where
  "rate_at segments t = rate_from (snd (hd segments)) t segments"

definition slot_ms_at :: "rate_schedule \<Rightarrow> int \<Rightarrow> int" where
  "slot_ms_at segments t = 3600000 div max (rate_at segments t) 1"

section \<open>Ration by schedule\<close>

definition enroute_ms :: "inbound \<Rightarrow> int option" where
  "enroute_ms f = map_option (\<lambda>etd. max (in_eta_ms f - etd) 0) (in_etd_ms f)"

definition exempt_reason ::
    "int \<Rightarrow> int \<Rightarrow> bool \<Rightarrow> ustr list \<Rightarrow> int option \<Rightarrow> inbound \<Rightarrow> ustr option" where
  "exempt_reason window_start window_end exempt_airborne in_scope_artccs max_enroute_min f =
     (let enroute_min = map_option (\<lambda>ms. ms div 60000) (enroute_ms f);
          in_scope = in_scope_artccs = [] \<or>
            (case in_dep_artcc f of None \<Rightarrow> False | Some a \<Rightarrow> a \<in> set in_scope_artccs)
      in if exempt_airborne \<and> in_status f = lit ''airborne'' then Some EXEMPT_AIRBORNE
         else if in_eta_ms f < window_start \<or> window_end < in_eta_ms f then Some EXEMPT_WINDOW
         else if \<not> in_scope then Some EXEMPT_SCOPE
         else if (case (max_enroute_min, enroute_min) of (Some m, Some er) \<Rightarrow> m < er | _ \<Rightarrow> False)
              then Some EXEMPT_TIER
         else None)"

definition assign_slot :: "ustr option \<Rightarrow> inbound \<Rightarrow> int \<Rightarrow> assignment" where
  "assign_slot reason f slot =
     (if reason \<noteq> None then
        \<lparr>as_cs = in_cs f, as_dep = in_dep f, as_status = in_status f, as_original_eta_ms = in_eta_ms f,
         as_cta_ms = in_eta_ms f, as_edct_ms = None, as_delay_min = 0, as_controlled = False,
         as_frozen = False, as_exempt_reason = reason\<rparr>
      else
        \<lparr>as_cs = in_cs f, as_dep = in_dep f, as_status = in_status f, as_original_eta_ms = in_eta_ms f,
         as_cta_ms = slot, as_edct_ms = map_option (\<lambda>er. slot - er) (enroute_ms f),
         as_delay_min = max (slot - in_eta_ms f) 0 div 60000, as_controlled = True,
         as_frozen = False, as_exempt_reason = None\<rparr>)"

fun ration :: "rate_schedule \<Rightarrow> (inbound \<Rightarrow> ustr option) \<Rightarrow> int \<Rightarrow> inbound list \<Rightarrow> assignment list" where
  "ration rates reason cursor [] = []"
| "ration rates reason cursor (f # fs) =
     (let slot = max cursor (in_eta_ms f) in
      assign_slot (reason f) f slot # ration rates reason (slot + slot_ms_at rates slot) fs)"

definition ration_by_schedule ::
    "inbound list \<Rightarrow> rate_schedule \<Rightarrow> int \<Rightarrow> int \<Rightarrow> bool \<Rightarrow> ustr list \<Rightarrow> int option \<Rightarrow> assignment list" where
  "ration_by_schedule inbounds rates window_start window_end exempt_airborne in_scope_artccs max_enroute_min =
     ration rates (exempt_reason window_start window_end exempt_airborne in_scope_artccs max_enroute_min)
       window_start (sort_key in_eta_ms inbounds)"

definition compress_slot :: "assignment \<Rightarrow> int \<Rightarrow> int \<times> int option \<times> int" where
  "compress_slot fresh frozen_cta =
     (let cta = min (as_cta_ms fresh) frozen_cta;
          enroute = map_option (\<lambda>e. as_cta_ms fresh - e) (as_edct_ms fresh)
      in (cta, map_option (\<lambda>er. cta - er) enroute, max (cta - as_original_eta_ms fresh) 0 div 60000))"

section \<open>Demand and delay\<close>

record demand =
  dm_start :: int
  dm_count :: int
  dm_cap :: int
  dm_level :: ustr

definition bin_ms :: int where "bin_ms = BIN_MIN * 60000"

definition bin_number :: "int \<Rightarrow> int \<Rightarrow> nat" where
  "bin_number window_start window_end = nat ((max (window_end - window_start) 0 + bin_ms - 1) div bin_ms)"

text \<open>\<open>i64\<close> division truncates toward zero.\<close>

definition bin_index :: "int \<Rightarrow> assignment \<Rightarrow> int" where
  "bin_index window_start a = (as_cta_ms a - window_start) sdiv bin_ms"

fun count_bins :: "int \<Rightarrow> nat list \<Rightarrow> assignment list \<Rightarrow> nat list" where
  "count_bins window_start counts [] = counts"
| "count_bins window_start counts (a # as) =
     (let idx = bin_index window_start a in
      count_bins window_start
        (if 0 \<le> idx \<and> nat idx < length counts then counts[nat idx := counts ! nat idx + 1] else counts) as)"

definition level_of :: "int \<Rightarrow> int \<Rightarrow> ustr" where
  "level_of n cap = (if n \<le> cap then lit ''green'' else if 4 * n \<le> 5 * cap then lit ''yellow'' else lit ''red'')"

definition demand_bins :: "assignment list \<Rightarrow> int \<Rightarrow> int \<Rightarrow> rate_schedule \<Rightarrow> demand list" where
  "demand_bins as window_start window_end rates =
     map (\<lambda>(i, n).
       let bin_start = window_start + int i * bin_ms;
           cap = (max (rate_at rates bin_start) 1 + 2) div 4
       in \<lparr>dm_start = bin_start, dm_count = int n, dm_cap = cap, dm_level = level_of (int n) cap\<rparr>)
       (enumerate 0 (count_bins window_start (replicate (bin_number window_start window_end) 0) as))"

record gdp_stats =
  gs_controlled :: int
  gs_exempt :: int
  gs_avg_delay_min :: int
  gs_max_delay_min :: int
  gs_total_delay_min :: int

definition program_stats :: "assignment list \<Rightarrow> gdp_stats" where
  "program_stats as =
     (let delays = map as_delay_min (filter as_controlled as); n = int (length delays) in
      \<lparr>gs_controlled = n, gs_exempt = int (length as) - n,
       gs_avg_delay_min = (if delays = [] then 0 else sum_list delays sdiv n),
       gs_max_delay_min = (case delays of [] \<Rightarrow> 0 | d # ds \<Rightarrow> fold max ds d),
       gs_total_delay_min = sum_list delays\<rparr>)"

section \<open>The rate in force\<close>

lemma rate_from_takeWhile:
  "rate_from rate t segments =
     (let begun = takeWhile (\<lambda>seg. fst seg \<le> t) segments in if begun = [] then rate else snd (last begun))"
proof (induction rate t segments rule: rate_from.induct)
  case (2 rate t start aar segments)
  then show ?case
    by (cases "takeWhile (\<lambda>seg. fst seg \<le> t) segments") (auto simp: Let_def)
qed simp

lemma takeWhile_sorted_filter:
  "sorted (map fst xs) \<Longrightarrow> takeWhile (\<lambda>x. fst x \<le> (t :: int)) xs = filter (\<lambda>x. fst x \<le> t) xs"
proof (induction xs)
  case (Cons x xs)
  show ?case
  proof (cases "fst x \<le> t")
    case True
    then show ?thesis using Cons by simp
  next
    case False
    then have "\<forall>y\<in>set xs. \<not> fst y \<le> t" using Cons.prems by auto
    then show ?thesis using False by (simp add: filter_empty_conv)
  qed
qed simp

lemma last_sort_key:
  assumes "\<forall>y\<in>set pre. f y \<le> f x" and "\<forall>y\<in>set post. f y < (f x :: int)"
  shows "last (sort_key f (pre @ x # post)) = x"
proof -
  have "sort_key f (pre @ x # post) = sort_key f (pre @ post) @ [x]"
  proof (rule properties_for_sort_key)
    show "mset (sort_key f (pre @ post) @ [x]) = mset (pre @ x # post)" by simp
    show "filter (\<lambda>y. f k = f y) (sort_key f (pre @ post) @ [x]) = filter (\<lambda>y. f k = f y) (pre @ x # post)" for k
    proof -
      have "filter (\<lambda>y. f k = f y) post = []" if "f k = f x" using assms(2) that by (auto simp: filter_empty_conv)
      moreover have "filter (\<lambda>y. f k = f y) (sort_key f (pre @ post)) = filter (\<lambda>y. f k = f y) (pre @ post)"
        using sort_key_stable [of f "f k" "pre @ post"] by (simp add: eq_commute [of "f k"])
      ultimately show ?thesis by auto
    qed
    show "sorted (map f (sort_key f (pre @ post) @ [x]))"
      using assms by (auto simp: sorted_append less_imp_le)
  qed
  then show ?thesis by simp
qed

lemma rate_at_positive:
  "0 < rate_at (new_schedule base ws steps) t \<and> 0 < rate_at (flat_schedule base ws) t"
proof -
  have seg: "\<forall>x\<in>set (new_schedule base ws steps). 0 < snd x" and ne: "new_schedule base ws steps \<noteq> []"
    by (auto simp: new_schedule_def set_insort_key)
  have pos: "0 < rate_from r t segments" if "0 < r" "\<forall>x\<in>set segments. 0 < snd x" for r segments
    using that by (induction r t segments rule: rate_from.induct) auto
  from ne have "0 < snd (hd (new_schedule base ws steps))" using seg by (simp add: hd_in_set)
  from pos [OF this seg] show ?thesis by (simp add: rate_at_def flat_schedule_def)
qed

definition clamp_step :: "int \<Rightarrow> int \<times> int \<Rightarrow> int \<times> int" where
  "clamp_step ws = (\<lambda>(start, aar). (max start ws, max aar 1))"

text \<open>The rate in force at an instant is that of the latest step that has begun; of two steps that
  begin together the later listed wins; before every step it is the base rate; and it is never below
  one.\<close>

theorem rate_at_latest_step:
  assumes "steps = pre @ (start, aar) # post" and "ws \<le> start" and "start \<le> t"
    and "\<forall>(s, a)\<in>set pre. s \<le> start \<or> t < s" and "\<forall>(s, a)\<in>set post. max s ws < start \<or> t < s"
  shows "rate_at (new_schedule base ws steps) t = max aar 1"
proof -
  let ?c = "clamp_step ws" and ?le = "\<lambda>x :: int \<times> int. fst x \<le> t"
  let ?pre = "filter ?le ((ws, max base 1) # map ?c pre)" and ?post = "filter ?le (map ?c post)"
  have sched: "new_schedule base ws steps = sort_key fst ((ws, max base 1) # map ?c steps)"
    by (simp add: new_schedule_def clamp_step_def)
  have "filter ?le (new_schedule base ws steps) = sort_key fst (?pre @ (start, max aar 1) # ?post)"
    unfolding sched filter_sort using assms(1-3) by (simp add: clamp_step_def)
  moreover have "\<forall>x\<in>set ?pre. fst x \<le> fst (start, max aar 1)" and "\<forall>x\<in>set ?post. fst x < fst (start, max aar 1)"
    using assms(2-5) by (auto simp: clamp_step_def)
  ultimately have last: "last (filter ?le (new_schedule base ws steps)) = (start, max aar 1)"
    and ne: "filter ?le (new_schedule base ws steps) \<noteq> []"
    using last_sort_key [of ?pre fst "(start, max aar 1)" ?post] by (simp, force dest: arg_cong [where f = length])
  have "sorted (map fst (new_schedule base ws steps))"
    unfolding new_schedule_def by (rule sorted_sort_key)
  then show ?thesis
    using last ne unfolding rate_at_def rate_from_takeWhile takeWhile_sorted_filter
    by (simp add: takeWhile_sorted_filter Let_def)
qed

theorem rate_at_latest_step_witness:
  "rate_at (new_schedule 30 1000 [(2000, 40), (2000, 20), (5000, 60)]) 3000 = 20"
  using rate_at_latest_step [of "[(2000, 40), (2000, 20), (5000, 60)]" "[(2000, 40)]" 2000 20 "[(5000, 60)]" 1000 3000 30]
  by simp

section \<open>The slots a ration takes\<close>

fun slots :: "rate_schedule \<Rightarrow> int \<Rightarrow> inbound list \<Rightarrow> int list" where
  "slots rates cursor [] = []"
| "slots rates cursor (f # fs) =
     (let slot = max cursor (in_eta_ms f) in slot # slots rates (slot + slot_ms_at rates slot) fs)"

lemma length_slots [simp]: "length (slots rates cursor fs) = length fs"
  by (induction rates cursor fs rule: slots.induct) (auto simp: Let_def)

lemma ration_slots:
  "ration rates reason cursor fs = map2 (\<lambda>f slot. assign_slot (reason f) f slot) fs (slots rates cursor fs)"
  by (induction rates reason cursor fs rule: ration.induct) (auto simp: Let_def)

lemma slots_lower: "i < length fs \<Longrightarrow> cursor \<le> slots rates cursor fs ! i \<and> in_eta_ms (fs ! i) \<le> slots rates cursor fs ! i"
  if "\<And>t. 0 \<le> slot_ms_at rates t"
proof (induction fs arbitrary: cursor i)
  case (Cons f fs)
  show ?case
  proof (cases i)
    case (Suc k)
    let ?s = "max cursor (in_eta_ms f)"
    have "?s + slot_ms_at rates ?s \<le> slots rates (?s + slot_ms_at rates ?s) fs ! k"
      "in_eta_ms (fs ! k) \<le> slots rates (?s + slot_ms_at rates ?s) fs ! k"
      using Cons.IH [of k "?s + slot_ms_at rates ?s"] Cons.prems Suc by auto
    then show ?thesis using Suc that [of ?s] by (auto simp: Let_def)
  qed (simp add: Let_def)
qed simp

lemma slots_spaced:
  assumes nonneg: "\<And>t. 0 \<le> slot_ms_at rates t"
  shows "i < j \<Longrightarrow> j < length fs \<Longrightarrow>
    slots rates cursor fs ! i + slot_ms_at rates (slots rates cursor fs ! i) \<le> slots rates cursor fs ! j"
proof (induction fs arbitrary: cursor i j)
  case (Cons f fs)
  then obtain k where j: "j = Suc k" by (cases j) auto
  let ?s = "max cursor (in_eta_ms f)"
  let ?rest = "slots rates (?s + slot_ms_at rates ?s) fs"
  show ?case
  proof (cases i)
    case 0
    have "?s + slot_ms_at rates ?s \<le> ?rest ! k"
      using slots_lower [OF nonneg, where fs = fs and i = k and cursor = "?s + slot_ms_at rates ?s"] Cons.prems j by simp
    then show ?thesis using 0 j by (simp add: Let_def)
  next
    case (Suc m)
    then show ?thesis using Cons.IH [of m k "?s + slot_ms_at rates ?s"] Cons.prems j by (simp add: Let_def)
  qed
qed simp

lemma slot_ms_nonneg: "0 \<le> slot_ms_at rates t"
  by (simp add: slot_ms_at_def pos_imp_zdiv_nonneg_iff)

lemma ration_nth:
  "i < length fs \<Longrightarrow> ration rates reason cursor fs ! i = assign_slot (reason (fs ! i)) (fs ! i) (slots rates cursor fs ! i)"
  by (simp add: ration_slots)

lemma length_ration [simp]: "length (ration rates reason cursor fs) = length fs"
  by (simp add: ration_slots)

text \<open>Control times are fair and metered: the \<open>i\<close>-th assignment is for the \<open>i\<close>-th inbound by
  ETA; two controlled arrivals are never closer than the spacing in force at the earlier one; and a
  controlled flight never arrives before its ETA or the window, its wheels-up is its departure estimate
  plus exactly the arrival delay, and that delay is what is reported.\<close>

theorem ration_meters_arrivals:
  assumes "out = ration_by_schedule inbounds rates ws we air scp tier" and "i < length inbounds"
  shows "length out = length inbounds \<and>
    (case (sort_key in_eta_ms inbounds ! i, out ! i) of (f, a) \<Rightarrow>
      as_cs a = in_cs f \<and> as_original_eta_ms a = in_eta_ms f \<and>
      as_controlled a = (exempt_reason ws we air scp tier f = None) \<and>
      (if as_controlled a
       then max ws (in_eta_ms f) \<le> as_cta_ms a \<and> as_delay_min a = (as_cta_ms a - in_eta_ms f) div 60000 \<and>
         (\<forall>etd. in_etd_ms f = Some etd \<longrightarrow> etd \<le> in_eta_ms f \<longrightarrow>
           as_edct_ms a = Some (etd + (as_cta_ms a - in_eta_ms f)))
       else as_cta_ms a = in_eta_ms f \<and> as_edct_ms a = None \<and> as_delay_min a = 0)) \<and>
    (\<forall>j. i < j \<longrightarrow> j < length inbounds \<longrightarrow> as_controlled (out ! i) \<longrightarrow> as_controlled (out ! j) \<longrightarrow>
      as_cta_ms (out ! i) + slot_ms_at rates (as_cta_ms (out ! i)) \<le> as_cta_ms (out ! j))"
proof -
  let ?fs = "sort_key in_eta_ms inbounds" and ?r = "exempt_reason ws we air scp tier"
  let ?s = "slots rates ws ?fs"
  have out: "out = ration rates ?r ws ?fs" by (simp add: assms(1) ration_by_schedule_def)
  have nth: "out ! k = assign_slot (?r (?fs ! k)) (?fs ! k) (?s ! k)" if "k < length inbounds" for k
    unfolding out using that by (simp add: ration_nth)
  have "ws \<le> ?s ! i" "in_eta_ms (?fs ! i) \<le> ?s ! i"
    using slots_lower [OF slot_ms_nonneg, where fs = ?fs and i = i and cursor = ws] assms(2) by auto
  moreover have "?s ! i + slot_ms_at rates (?s ! i) \<le> ?s ! j" if "i < j" "j < length inbounds" for j
    using slots_spaced [OF slot_ms_nonneg, of i j ?fs rates ws] that by simp
  moreover have "length out = length inbounds" by (simp add: out)
  ultimately show ?thesis
    using nth [OF assms(2)] nth by (auto simp: assign_slot_def enroute_ms_def split: if_splits)
qed

definition sample_inbounds :: "inbound list" where
  "sample_inbounds =
     [\<lparr>in_cs = lit ''B'', in_dep = lit ''KBOS'', in_dep_artcc = Some (lit ''ZBW''), in_status = lit ''ground'',
       in_eta_ms = 1000, in_etd_ms = Some 400\<rparr>,
      \<lparr>in_cs = lit ''A'', in_dep = lit ''KATL'', in_dep_artcc = Some (lit ''ZTL''), in_status = lit ''proposed'',
       in_eta_ms = 500, in_etd_ms = Some 100\<rparr>]"

theorem ration_meters_arrivals_witness:
  "as_cta_ms (ration_by_schedule sample_inbounds (flat_schedule 30 0) 0 10000 True [] None ! 0) + 120000 \<le>
   as_cta_ms (ration_by_schedule sample_inbounds (flat_schedule 30 0) 0 10000 True [] None ! 1)"
proof -
  let ?out = "ration_by_schedule sample_inbounds (flat_schedule 30 0) 0 10000 True [] None"
  have c: "as_controlled (?out ! 0)" "as_controlled (?out ! 1)"
    "slot_ms_at (flat_schedule 30 0) (as_cta_ms (?out ! 0)) = 120000" "0 < length sample_inbounds"
    "1 < length sample_inbounds"
    by code_simp+
  have "\<forall>j. 0 < j \<longrightarrow> j < length sample_inbounds \<longrightarrow> as_controlled (?out ! 0) \<longrightarrow> as_controlled (?out ! j) \<longrightarrow>
      as_cta_ms (?out ! 0) + slot_ms_at (flat_schedule 30 0) (as_cta_ms (?out ! 0)) \<le> as_cta_ms (?out ! j)"
    by (rule ration_meters_arrivals [OF refl c(4), THEN conjunct2, THEN conjunct2])
  from this [rule_format, OF zero_less_one c(5,1,2)] show ?thesis unfolding c(3) .
qed

section \<open>A flat rate\<close>

definition spacing :: "int \<Rightarrow> int" where "spacing aar = 3600000 div max aar 1"

lemma slot_ms_flat: "slot_ms_at (flat_schedule aar ws) t = spacing aar"
  by (simp add: slot_ms_at_def rate_at_def flat_schedule_def spacing_def)

lemma slots_minimal:
  assumes "length c = length fs" and "\<forall>i<length fs. cursor \<le> c ! i \<and> in_eta_ms (fs ! i) \<le> c ! i"
    and "\<forall>i. Suc i < length fs \<longrightarrow> c ! i + spacing aar \<le> c ! Suc i" and "i < length fs"
  shows "slots (flat_schedule aar ws) cursor fs ! i \<le> c ! i"
  using assms
proof (induction fs arbitrary: cursor c i)
  case (Cons f fs)
  obtain x cs where c: "c = x # cs" using Cons.prems(1) by (cases c) auto
  let ?s = "max cursor (in_eta_ms f)"
  have s: "?s \<le> x" using Cons.prems(2) by (auto simp: c dest: spec [of _ 0])
  have spaced: "\<forall>k. Suc k < length fs \<longrightarrow> cs ! k + spacing aar \<le> cs ! Suc k"
    using Cons.prems(3) by (auto simp: c)
  have first: "x + spacing aar \<le> cs ! 0" if "fs \<noteq> []"
    using Cons.prems(3) that by (auto simp: c dest: spec [of _ 0])
  have mono: "cs ! 0 \<le> cs ! k" if "k < length fs" for k
    using that
  proof (induction k)
    case (Suc k)
    have "0 \<le> spacing aar" by (simp add: spacing_def pos_imp_zdiv_nonneg_iff)
    then show ?case using Suc spaced by fastforce
  qed simp
  show ?case
  proof (cases i)
    case 0
    then show ?thesis using s by (simp add: c Let_def)
  next
    case (Suc k)
    have "\<forall>m<length fs. ?s + spacing aar \<le> cs ! m \<and> in_eta_ms (fs ! m) \<le> cs ! m"
    proof (intro allI impI)
      fix m assume m: "m < length fs"
      then have "?s + spacing aar \<le> cs ! m" using first mono [OF m] s by fastforce
      then show "?s + spacing aar \<le> cs ! m \<and> in_eta_ms (fs ! m) \<le> cs ! m"
        using Cons.prems(2) m by (auto simp: c dest: spec [of _ "Suc m"])
    qed
    moreover have "length cs = length fs" using Cons.prems(1) by (simp add: c)
    ultimately show ?thesis
      using Cons.IH [of cs "?s + spacing aar" k] spaced Cons.prems(4) Suc
      by (simp add: c Let_def slot_ms_flat)
  qed
qed simp

text \<open>Under a flat rate ration-by-schedule wastes no slot: any other arrival stream in the same
  order, no earlier than the window and each flight's ETA and spaced at the rate, brings no controlled
  flight in sooner.\<close>

theorem ration_is_earliest:
  assumes "out = ration_by_schedule inbounds (flat_schedule aar ws) ws we air scp tier"
    and "length c = length inbounds"
    and "\<forall>i<length inbounds. max ws (in_eta_ms (sort_key in_eta_ms inbounds ! i)) \<le> c ! i"
    and "\<forall>i. Suc i < length inbounds \<longrightarrow> c ! i + spacing aar \<le> c ! Suc i"
    and "i < length inbounds" and "as_controlled (out ! i)"
  shows "as_cta_ms (out ! i) \<le> c ! i"
proof -
  let ?fs = "sort_key in_eta_ms inbounds"
  have "out ! i = assign_slot (exempt_reason ws we air scp tier (?fs ! i)) (?fs ! i) (slots (flat_schedule aar ws) ws ?fs ! i)"
    using assms(1,5) by (simp add: ration_by_schedule_def ration_nth)
  then have "as_cta_ms (out ! i) = slots (flat_schedule aar ws) ws ?fs ! i"
    using assms(6) by (auto simp: assign_slot_def split: if_splits)
  also have "\<dots> \<le> c ! i"
    by (rule slots_minimal) (use assms in auto)
  finally show ?thesis .
qed

theorem ration_is_earliest_witness:
  "as_cta_ms (ration_by_schedule sample_inbounds (flat_schedule 30 0) 0 10000 True [] None ! 1) \<le> 200000"
proof -
  let ?out = "ration_by_schedule sample_inbounds (flat_schedule 30 0) 0 10000 True [] None"
  have c: "as_controlled (?out ! 1)" "sort_key in_eta_ms sample_inbounds = rev sample_inbounds"
    by code_simp+
  have "length sample_inbounds = 2" by (simp add: sample_inbounds_def)
  moreover have "\<forall>i<2. max 0 (in_eta_ms (sort_key in_eta_ms sample_inbounds ! i)) \<le> [1000, 200000] ! i"
    unfolding c(2) by (auto simp: less_2_cases_iff sample_inbounds_def)
  moreover have "\<forall>i. Suc i < 2 \<longrightarrow> [1000, 200000] ! i + spacing 30 \<le> [1000, 200000 :: int] ! Suc i"
    by (auto simp: spacing_def less_Suc_eq)
  ultimately show ?thesis
    using ration_is_earliest [OF refl, of "[1000, 200000]" sample_inbounds 0 30 1 10000 True "[]" None] c(1) by simp
qed

lemma spaced_length:
  "sorted_wrt (\<lambda>x y. x + d \<le> y) xs \<Longrightarrow> \<forall>x\<in>set xs. t \<le> x \<and> x < t + n * d \<Longrightarrow> 0 \<le> d \<Longrightarrow> 0 \<le> n \<Longrightarrow>
     int (length xs) \<le> (n :: int)"
proof (induction xs arbitrary: t n)
  case (Cons x xs)
  have x: "t \<le> x" "x < t + n * d" using Cons.prems(2) by auto
  then have "0 < n * d" by linarith
  then have n: "1 \<le> n" "0 < d" using Cons.prems(3,4) by (auto simp: zero_less_mult_iff)
  have "\<forall>y\<in>set xs. t + d \<le> y \<and> y < (t + d) + (n - 1) * d"
    using Cons.prems(1,2) x by (auto simp: algebra_simps)
  then have "int (length xs) \<le> n - 1"
    using Cons.IH [of "t + d" "n - 1"] Cons.prems n by simp
  then show ?case by simp
qed simp



section \<open>Compression\<close>

text \<open>Compression only ever moves an issued control time earlier, keeps the flight's enroute time,
  and is idempotent: compressing again with the new time changes nothing.\<close>

theorem compress_slot_never_later:
  "case compress_slot fresh frozen_cta of (cta, edct, delay) \<Rightarrow>
     cta \<le> frozen_cta \<and> cta \<le> as_cta_ms fresh \<and> 0 \<le> delay \<and>
     edct = map_option (\<lambda>e. cta - (as_cta_ms fresh - e)) (as_edct_ms fresh) \<and>
     compress_slot fresh cta = (cta, edct, delay)"
  by (cases "as_edct_ms fresh") (simp_all add: compress_slot_def Let_def pos_imp_zdiv_nonneg_iff)

section \<open>Demand bins\<close>

lemma bin_ms_value: "bin_ms = 900000"
  by (simp add: bin_ms_def BIN_MIN_def)

lemma sdiv_bin_nonneg: "0 \<le> x sdiv bin_ms \<longleftrightarrow> - bin_ms < x"
  by (auto simp: signed_divide_int_def bin_ms_value sgn_if div_eq_0_iff pos_imp_zdiv_nonneg_iff
      zero_le_mult_iff not_less; linarith)

lemma sdiv_bin_less:
  assumes "0 < n"
  shows "x sdiv bin_ms < n \<longleftrightarrow> x < n * bin_ms"
proof (cases "0 \<le> x")
  case True
  then have "x sdiv bin_ms = x div bin_ms"
    by (simp add: signed_divide_int_def bin_ms_value sgn_if)
  then show ?thesis by (simp add: bin_ms_value) linarith
next
  case False
  have "0 \<le> - x div 900000" using False by (simp add: pos_imp_zdiv_nonneg_iff)
  moreover have "x sdiv bin_ms = - (- x div 900000)"
    using False by (simp add: signed_divide_int_def bin_ms_value sgn_if)
  ultimately have "x sdiv bin_ms \<le> 0" by linarith
  moreover have "0 < n * bin_ms" using assms by (simp add: bin_ms_value)
  ultimately show ?thesis using assms False by linarith
qed

lemma count_bins_total:
  "length (count_bins ws counts as) = length counts \<and>
   sum_list (count_bins ws counts as) =
     sum_list counts + length (filter (\<lambda>a. 0 \<le> bin_index ws a \<and> bin_index ws a < int (length counts)) as)"
proof (induction ws counts as rule: count_bins.induct)
  case (2 ws counts a as)
  have "sum_list (counts[k := Suc (counts ! k)]) = Suc (sum_list counts)" if "k < length counts" for k
    using that elem_le_sum_list [OF that] by (simp add: sum_list_update)
  then have "sum_list (counts[nat (bin_index ws a) := Suc (counts ! nat (bin_index ws a))]) = Suc (sum_list counts)"
    if "0 \<le> bin_index ws a" "bin_index ws a < int (length counts)"
    using that by (simp add: nat_less_iff)
  then show ?case using 2 by (auto simp: Let_def nat_less_iff)
qed simp

lemma map_int_enumerate: "map (\<lambda>x. int (snd x)) (enumerate n xs) = map int xs"
  by (induction xs arbitrary: n) auto

lemma sum_list_map_int: "sum_list (map int xs) = int (sum_list xs)"
  by (induction xs) auto

text \<open>No arrival is lost or counted twice: over a window the bins together hold exactly the
  arrivals later than one bin before the window and earlier than the end of the last bin.\<close>

theorem demand_bins_account_for_arrivals:
  assumes "ws < we"
  shows "sum_list (map dm_count (demand_bins as ws we rates)) =
    int (length (filter (\<lambda>a. ws - 900000 < as_cta_ms a \<and> as_cta_ms a < ws + int (bin_number ws we) * 900000) as))"
proof -
  let ?n = "bin_number ws we" and ?counts = "count_bins ws (replicate (bin_number ws we) 0) as"
  have n: "0 < int ?n" using assms by (simp add: bin_number_def bin_ms_value pos_imp_zdiv_pos_iff)
  have "map dm_count (demand_bins as ws we rates) = map int ?counts"
    unfolding demand_bins_def Let_def map_map o_def case_prod_beta demand.simps by (rule map_int_enumerate)
  then have "sum_list (map dm_count (demand_bins as ws we rates)) = int (sum_list ?counts)"
    by (simp add: sum_list_map_int)
  also have "sum_list ?counts = length (filter (\<lambda>a. 0 \<le> bin_index ws a \<and> bin_index ws a < int ?n) as)"
    using count_bins_total [of ws "replicate ?n 0" as] by simp
  also have "(\<lambda>a. 0 \<le> bin_index ws a \<and> bin_index ws a < int ?n) =
      (\<lambda>a. ws - 900000 < as_cta_ms a \<and> as_cta_ms a < ws + int ?n * 900000)"
    unfolding bin_index_def sdiv_bin_nonneg sdiv_bin_less [OF n] unfolding bin_ms_value
    by (intro ext) linarith
  finally show ?thesis .
qed

theorem demand_bins_account_for_arrivals_witness:
  "sum_list (map dm_count (demand_bins (ration_by_schedule sample_inbounds (flat_schedule 30 0) 0 10000 True [] None)
     0 1800000 (flat_schedule 30 0))) = 2"
proof -
  have "bin_number 0 1800000 = 2" and
    "length (filter (\<lambda>a. 0 - 900000 < as_cta_ms a \<and> as_cta_ms a < 0 + int 2 * 900000)
      (ration_by_schedule sample_inbounds (flat_schedule 30 0) 0 10000 True [] None)) = 2"
    by code_simp+
  then show ?thesis by (subst demand_bins_account_for_arrivals) simp_all
qed

text \<open>A flight due up to a quarter of an hour before the window is counted in its first bin: the
  truncating division rounds its negative offset up to zero.\<close>

lemma early_arrival_in_first_bin:
  "dm_count (hd (demand_bins [\<lparr>as_cs = [], as_dep = [], as_status = [], as_original_eta_ms = -840000,
     as_cta_ms = -840000, as_edct_ms = None, as_delay_min = 0, as_controlled = False, as_frozen = False,
     as_exempt_reason = Some EXEMPT_WINDOW\<rparr>] 0 1800000 (flat_schedule 30 0))) = 1"
  by code_simp

section \<open>Delay statistics\<close>

lemma fold_max_upper: "\<forall>d\<in>set (x # ds). (d :: int) \<le> fold max ds x"
proof (induction ds arbitrary: x)
  case (Cons d ds)
  have "max d x \<le> fold max ds (max d x)" and "\<forall>y\<in>set ds. y \<le> fold max ds (max d x)"
    using Cons.IH [of "max d x"] by auto
  then show ?case by auto
qed simp

lemma sum_list_le_length: "\<forall>d\<in>set ds. d \<le> m \<Longrightarrow> sum_list ds \<le> int (length ds) * (m :: int)"
  by (induction ds) (auto simp: algebra_simps)

lemma sum_list_nonneg_int: "\<forall>d\<in>set ds. 0 \<le> d \<Longrightarrow> 0 \<le> sum_list (ds :: int list)"
  by (induction ds) auto

text \<open>The statistics of a ration are consistent: every flight is counted once, no controlled
  delay exceeds the maximum, the average does not either, and the total is within one minute per
  flight of the average.\<close>

theorem program_stats_consistent:
  assumes "out = ration_by_schedule inbounds rates ws we air scp tier" and "st = program_stats out"
  shows "gs_controlled st + gs_exempt st = int (length inbounds) \<and>
    list_all (\<lambda>a. as_controlled a \<longrightarrow> as_delay_min a \<le> gs_max_delay_min st) out \<and>
    0 \<le> gs_avg_delay_min st \<and> gs_avg_delay_min st \<le> gs_max_delay_min st \<and>
    gs_avg_delay_min st * gs_controlled st \<le> gs_total_delay_min st \<and>
    (0 < gs_controlled st \<longrightarrow> gs_total_delay_min st < (gs_avg_delay_min st + 1) * gs_controlled st)"
proof -
  let ?ds = "map as_delay_min (filter as_controlled out)"
  let ?n = "int (length ?ds)" and ?t = "sum_list ?ds" and ?m = "gs_max_delay_min st"
  have nonneg: "\<forall>d\<in>set ?ds. 0 \<le> d"
    by (auto simp: assms(1) ration_by_schedule_def ration_slots assign_slot_def set_zip pos_imp_zdiv_nonneg_iff)
  have len: "length out = length inbounds" by (simp add: assms(1) ration_by_schedule_def)
  have upper: "\<forall>d\<in>set ?ds. d \<le> ?m"
    using fold_max_upper by (cases ?ds) (auto simp: assms(2) program_stats_def Let_def)
  have st: "gs_controlled st = ?n" "gs_exempt st = int (length out) - ?n" "gs_total_delay_min st = ?t"
    by (simp_all add: assms(2) program_stats_def Let_def)
  have all: "list_all (\<lambda>a. as_controlled a \<longrightarrow> as_delay_min a \<le> ?m) out"
    using upper by (auto simp: list_all_iff)
  show ?thesis
  proof (cases "?ds = []")
    case True
    then have "?m = 0" "gs_avg_delay_min st = 0" by (simp_all add: assms(2) program_stats_def Let_def)
    then show ?thesis using True st len all by simp
  next
    case False
    then have n: "0 < ?n" by simp
    have t: "0 \<le> ?t" using nonneg by (rule sum_list_nonneg_int)
    have "gs_avg_delay_min st = ?t sdiv ?n" using False by (simp add: assms(2) program_stats_def Let_def)
    also have "\<dots> = ?t div ?n" using t n by (simp add: signed_divide_int_def sgn_if)
    finally have avg: "gs_avg_delay_min st = ?t div ?n" .
    define q r where "q = ?t div ?n" and "r = ?t mod ?n"
    have e: "?t = ?n * q + r" "0 \<le> r" "r < ?n" using n by (simp_all add: q_def r_def)
    have q0: "0 \<le> q" using t n by (simp add: q_def pos_imp_zdiv_nonneg_iff)
    have "?n * q \<le> ?n * ?m" using sum_list_le_length [OF upper] e by linarith
    then have "q \<le> ?m" using n by simp
    moreover have "q * ?n \<le> ?t" "?t < (q + 1) * ?n"
      using e by (simp_all add: algebra_simps)
    moreover have "gs_avg_delay_min st = q" by (simp add: avg q_def)
    ultimately show ?thesis using st len all q0 by simp
  qed
qed

theorem program_stats_consistent_witness:
  "gs_controlled (program_stats (ration_by_schedule sample_inbounds (flat_schedule 30 0) 0 10000 True [] None)) +
   gs_exempt (program_stats (ration_by_schedule sample_inbounds (flat_schedule 30 0) 0 10000 True [] None)) = 2"
  using program_stats_consistent [OF refl refl, of sample_inbounds "flat_schedule 30 0" 0 10000 True "[]" None]
  by (simp add: sample_inbounds_def)

text \<open>Compression treats each flight alone, so it can put two flights on one control time, and one
  ahead of its own ETA.\<close>

lemma compression_can_collide:
  "let fresh = ration_by_schedule
         [\<lparr>in_cs = lit ''A'', in_dep = [], in_dep_artcc = None, in_status = lit ''ground'', in_eta_ms = 200000, in_etd_ms = None\<rparr>,
          \<lparr>in_cs = lit ''B'', in_dep = [], in_dep_artcc = None, in_status = lit ''ground'', in_eta_ms = 120000, in_etd_ms = None\<rparr>]
         (flat_schedule 30 0) 0 3600000 True [] None;
       b = compress_slot (fresh ! 0) 240000; a = compress_slot (fresh ! 1) 120000
   in fst a = fst b \<and> fst a < as_original_eta_ms (fresh ! 1)"
  by code_simp

end
