(* ===== verification/GdpWindow.thy ===== *)
theory GdpWindow
  imports Gdp AceTimes
begin

text \<open>
  The window arithmetic of \<open>backend/src/handlers/gdp.rs\<close>: reading and normalising an
  \<open>HHMM\<close>, resolving a program's window and its rate steps to instants, and the validation of the
  steps. Instants are whole milliseconds since the epoch.
\<close>

definition minute_ms :: int where "minute_ms = 60000"
definition day_ms :: int where "day_ms = 1440 * minute_ms"

definition midnight_ms :: "int \<Rightarrow> int" where "midnight_ms t = t div day_ms * day_ms"

section \<open>Clock strings\<close>

definition hhmm_to_min :: "ustr \<Rightarrow> int option" where
  "hhmm_to_min raw =
     (let digits = filter is_ascii_digit raw;
          padded = (if length digits = 3 then 48 # digits else digits) in
      if length padded \<noteq> 4 then None
      else let hh = digits_value (take 2 padded); mm = digits_value (take 2 (drop 2 padded)) in
        if 24 \<le> hh \<or> 60 \<le> mm then None else Some (hh * 60 + mm))"

definition norm_hhmm :: "ustr \<Rightarrow> ustr result" where
  "norm_hhmm raw = bind_result (ok_or BadRequest (hhmm_to_min raw)) (\<lambda>m.
     Inr (show_zero_padded 2 (m div 60) @ show_zero_padded 2 (m mod 60)))"

definition normalize_scope :: "ustr option \<Rightarrow> ustr" where
  "normalize_scope raw = join [32] (map ascii_upper (split_whitespace (case raw of None \<Rightarrow> [] | Some s \<Rightarrow> s)))"

section \<open>The window\<close>

fun min_by_key :: "('a \<Rightarrow> int) \<Rightarrow> 'a list \<Rightarrow> 'a option" where
  "min_by_key f [] = None"
| "min_by_key f (x # xs) = (case min_by_key f xs of None \<Rightarrow> Some x | Some y \<Rightarrow> if f x \<le> f y then Some x else Some y)"

text \<open>\<open>num_seconds().abs()\<close>: the whole seconds of a distance, truncated toward zero.\<close>

definition seconds_between :: "int \<Rightarrow> int \<Rightarrow> int" where
  "seconds_between a b = \<bar>a - b\<bar> div 1000"

text \<open>The \<open>while\<close> loop adds one day until the end lies after the start. Both are on the start's
  date, so it runs at most once; as written it is this recursion.\<close>

function advance_past :: "int \<Rightarrow> int \<Rightarrow> int" where
  "advance_past start stop = (if stop \<le> start then advance_past start (stop + day_ms) else stop)"
  by pat_completeness auto

termination
  by (relation "measure (\<lambda>(start, stop). nat (start - stop + 1))") (auto simp: day_ms_def minute_ms_def)

definition resolve_window :: "int \<Rightarrow> ustr \<Rightarrow> ustr \<Rightarrow> (int \<times> int) option" where
  "resolve_window now start stop =
     (case (hhmm_to_min start, hhmm_to_min stop) of
        (Some sm, Some em) \<Rightarrow>
          let today_start = midnight_ms now + sm * minute_ms in
          (case min_by_key (\<lambda>c. seconds_between c now) (map (\<lambda>d. today_start + d * day_ms) [-1, 0, 1]) of
             None \<Rightarrow> None
           | Some start_ts \<Rightarrow> Some (start_ts, advance_past start_ts (midnight_ms start_ts + em * minute_ms)))
      | _ \<Rightarrow> None)"

function advance_to :: "int \<Rightarrow> int \<Rightarrow> int" where
  "advance_to start cand = (if cand < start then advance_to start (cand + day_ms) else cand)"
  by pat_completeness auto

termination
  by (relation "measure (\<lambda>(start, cand). nat (start - cand))") (auto simp: day_ms_def minute_ms_def)

declare advance_past.simps [simp del] advance_to.simps [simp del]

definition resolve_step_ms :: "int \<Rightarrow> int \<Rightarrow> ustr \<Rightarrow> int option" where
  "resolve_step_ms win_start win_end hhmm =
     Option.bind (hhmm_to_min hhmm) (\<lambda>m.
       let cand = advance_to win_start (midnight_ms win_start + m * minute_ms)
       in if cand \<le> win_end then Some cand else None)"

record aar_step =
  step_start_time :: ustr
  step_aar :: int

definition rate_schedule_of :: "int \<Rightarrow> aar_step list \<Rightarrow> int \<Rightarrow> int \<Rightarrow> rate_schedule" where
  "rate_schedule_of aar steps win_start win_end =
     new_schedule aar win_start
       (List.map_filter (\<lambda>s. map_option (\<lambda>ms. (ms, step_aar s)) (resolve_step_ms win_start win_end (step_start_time s))) steps)"

fun validate_steps :: "aar_step list \<Rightarrow> int \<Rightarrow> int \<Rightarrow> aar_step list result" where
  "validate_steps [] win_start win_end = Inr []"
| "validate_steps (s # ss) win_start win_end =
     (if step_aar s < 1 \<or> 200 < step_aar s then Inl BadRequest
      else bind_result (norm_hhmm (step_start_time s)) (\<lambda>hhmm.
        if resolve_step_ms win_start win_end hhmm = None then Inl BadRequest
        else bind_result (validate_steps ss win_start win_end) (\<lambda>rest.
          Inr (\<lparr>step_start_time = hhmm, step_aar = step_aar s\<rparr> # rest))))"

section \<open>Normalised clocks\<close>

lemma hhmm_to_min_bounds: "hhmm_to_min raw = Some m \<Longrightarrow> 0 \<le> m \<and> m < 1440"
proof -
  assume a: "hhmm_to_min raw = Some m"
  let ?d = "filter is_ascii_digit raw"
  let ?p = "if length ?d = 3 then 48 # ?d else ?d"
  have p: "length ?p = 4" "list_all is_ascii_digit ?p"
    "m = digits_value (take 2 ?p) * 60 + digits_value (take 2 (drop 2 ?p))"
    "digits_value (take 2 ?p) < 24" "digits_value (take 2 (drop 2 ?p)) < 60"
    using a by (auto simp: hhmm_to_min_def Let_def list_all_iff is_ascii_digit_def split: if_splits)
  have "list_all is_ascii_digit (take 2 ?p)" "list_all is_ascii_digit (take 2 (drop 2 ?p))"
    using p(2) unfolding list_all_iff by (meson in_set_takeD in_set_dropD)+
  then have "0 \<le> digits_value (take 2 ?p)" "0 \<le> digits_value (take 2 (drop 2 ?p))"
    using digits_value_two p(1) by (auto split: if_splits)
  then show ?thesis using p(3-5) by linarith
qed

lemma two_digits: "0 \<le> n \<Longrightarrow> n < 100 \<Longrightarrow> show_zero_padded 2 n = [48 + n div 10, 48 + n mod 10]"
  by (subst show_zero_padded_def, subst show_nat.simps)
    (auto simp: pad_left_def show_nat.simps [of "nat n div 10"] nat_div_distrib [symmetric] nat_mod_distrib [symmetric]
      zmod_int zdiv_int)

lemma hhmm_of_printed:
  assumes "0 \<le> m" and "m < 1440"
  defines "s \<equiv> show_zero_padded 2 (m div 60) @ show_zero_padded 2 (m mod 60)"
  shows "hhmm_to_min s = Some m" and "length s = 4"
proof -
  define h n where "h = m div 60" and "n = m mod 60"
  have b: "0 \<le> h" "h < 24" "0 \<le> n" "n < 60" and m: "m = h * 60 + n"
    using assms(1,2) by (auto simp: h_def n_def)
  then have s: "s = [48 + h div 10, 48 + h mod 10, 48 + n div 10, 48 + n mod 10]"
    by (simp add: s_def h_def [symmetric] n_def [symmetric] two_digits)
  then show "length s = 4" by simp
  have d: "is_ascii_digit (48 + h div 10)" "is_ascii_digit (48 + h mod 10)"
    "is_ascii_digit (48 + n div 10)" "is_ascii_digit (48 + n mod 10)"
    using b by (auto simp: is_ascii_digit_def)
  have "10 * (h div 10) + h mod 10 = h" "10 * (n div 10) + n mod 10 = n" by simp_all
  with b show "hhmm_to_min s = Some m"
    unfolding s hhmm_to_min_def Let_def by (simp add: d digits_value_def m)
qed

text \<open>Normalising a clock string is canonical: the result has four digits, means the same minute
  and normalises to itself, and a string is refused exactly when it names no minute of the day.\<close>

theorem norm_hhmm_canonical:
  "case norm_hhmm raw of
     Inl e \<Rightarrow> e = BadRequest \<and> hhmm_to_min raw = None
   | Inr s \<Rightarrow> length s = 4 \<and> hhmm_to_min s = hhmm_to_min raw \<and> hhmm_to_min raw \<noteq> None \<and> norm_hhmm s = Inr s"
proof (cases "hhmm_to_min raw")
  case (Some m)
  with hhmm_to_min_bounds have "0 \<le> m" "m < 1440" by auto
  from hhmm_of_printed [OF this] show ?thesis
    unfolding norm_hhmm_def Some by (simp del: length_append)
qed (simp add: norm_hhmm_def)

section \<open>The resolved window\<close>

lemma min_by_key_None [simp]: "min_by_key f xs = None \<longleftrightarrow> xs = []"
  by (cases xs) (auto split: option.splits)

lemma min_by_key_ex: "xs \<noteq> [] \<Longrightarrow> \<exists>y. min_by_key f xs = Some y"
  using min_by_key_None [of f xs] by (cases "min_by_key f xs") simp_all

lemma min_by_key_Some:
  "min_by_key f xs = Some y \<Longrightarrow> y \<in> set xs \<and> (\<forall>x\<in>set xs. f y \<le> f x)"
proof (induction xs arbitrary: y)
  case (Cons x xs)
  show ?case
  proof (cases "min_by_key f xs")
    case None
    then show ?thesis using Cons.prems by simp
  next
    case (Some z)
    with Cons.IH have "z \<in> set xs" "\<forall>x\<in>set xs. f z \<le> f x" by auto
    with Some Cons.prems show ?thesis by (auto split: if_splits)
  qed
qed simp

lemma length_map_filter: "\<forall>x\<in>set xs. g x \<noteq> None \<Longrightarrow> length (List.map_filter g xs) = length xs"
  by (induction xs) (auto simp: map_filter_simps)

lemma day_ms_pos: "0 < day_ms"
  by (simp add: day_ms_def minute_ms_def)

lemma midnight_ms_bounds: "midnight_ms t \<le> t" "t < midnight_ms t + day_ms" "midnight_ms t mod day_ms = 0"
proof -
  have "t = midnight_ms t + t mod day_ms" "0 \<le> t mod day_ms" "t mod day_ms < day_ms"
    using day_ms_pos by (simp_all add: midnight_ms_def)
  then show "midnight_ms t \<le> t" "t < midnight_ms t + day_ms" by linarith+
qed (simp add: midnight_ms_def)

lemma advance_past_bounds:
  "start < advance_past start stop \<and> stop \<le> advance_past start stop \<and>
   advance_past start stop mod day_ms = stop mod day_ms \<and>
   (stop \<le> start + day_ms \<longrightarrow> advance_past start stop \<le> start + day_ms)"
proof (induction start stop rule: advance_past.induct)
  case (1 start stop)
  then show ?case
    using day_ms_pos by (subst (1 2 3 4) advance_past.simps) auto
qed

lemma advance_to_bounds:
  "start \<le> advance_to start cand \<and> advance_to start cand mod day_ms = cand mod day_ms \<and>
   (cand < start + day_ms \<longrightarrow> advance_to start cand < start + day_ms)"
proof (induction start cand rule: advance_to.induct)
  case (1 start cand)
  then show ?case
    using day_ms_pos by (subst (1 2 3) advance_to.simps) auto
qed

lemma clock_mod: "0 \<le> m \<Longrightarrow> m < 1440 \<Longrightarrow> (midnight_ms t + m * minute_ms) mod day_ms = m * minute_ms"
proof -
  assume "0 \<le> m" "m < 1440"
  then have "0 \<le> m * minute_ms" "m * minute_ms < day_ms" by (simp_all add: day_ms_def minute_ms_def)
  then show ?thesis
    using midnight_ms_bounds(3) [of t] by (metis add.left_neutral mod_add_left_eq mod_pos_pos_trivial)
qed

lemma near_candidate:
  assumes "- (24 * h) < x" and "x < 24 * (h :: int)"
  shows "\<exists>d\<in>{-1, 0, 1}. \<bar>x + d * (24 * h)\<bar> \<le> 12 * h"
  using assms by auto

text \<open>A program's window starts at the occurrence of its start time nearest to now, at most half a
  day away, and ends at the first occurrence of its end time after that, at most a day later; it
  resolves whenever both strings name a time of day.\<close>

theorem resolve_window_nearest:
  assumes "hhmm_to_min start = Some sm" and "hhmm_to_min stop = Some em"
  shows "\<exists>ws we. resolve_window now start stop = Some (ws, we) \<and>
    ws mod day_ms = sm * minute_ms \<and> we mod day_ms = em * minute_ms \<and>
    \<bar>ws - now\<bar> < 43201000 \<and> ws < we \<and> we \<le> ws + day_ms"
proof -
  let ?today = "midnight_ms now + sm * minute_ms"
  let ?cs = "map (\<lambda>d. ?today + d * day_ms) [-1, 0, 1]"
  have sm: "0 \<le> sm" "sm < 1440" and em: "0 \<le> em" "em < 1440"
    using assms hhmm_to_min_bounds by auto
  obtain ws where ws: "min_by_key (\<lambda>c. seconds_between c now) ?cs = Some ws"
    using min_by_key_ex [of ?cs "\<lambda>c. seconds_between c now"] unfolding map_is_Nil_conv by blast
  note min = min_by_key_Some [OF ws]
  have day: "day_ms = 24 * 3600000" by (simp add: day_ms_def minute_ms_def)
  have "0 \<le> sm * minute_ms" "sm * minute_ms < day_ms" using sm by (simp_all add: day_ms_def minute_ms_def)
  then have "- day_ms < ?today - now" "?today - now < day_ms"
    using midnight_ms_bounds [of now] by linarith+
  then obtain d where "d \<in> {-1, 0, 1}" and d: "\<bar>?today - now + d * day_ms\<bar> \<le> 12 * 3600000"
    using near_candidate [of 3600000 "?today - now"] unfolding day by blast
  then have "?today + d * day_ms \<in> set ?cs" by auto
  with min have "seconds_between ws now \<le> seconds_between (?today + d * day_ms) now" by blast
  also have "\<dots> \<le> 43200" using d by (simp add: seconds_between_def algebra_simps)
  finally have near: "\<bar>ws - now\<bar> < 43201000" by (simp add: seconds_between_def)
  have "ws mod day_ms = sm * minute_ms" using min clock_mod [OF sm, of now] by auto
  moreover have "midnight_ms ws + em * minute_ms \<le> ws + day_ms"
    using midnight_ms_bounds(1) [of ws] em by (simp add: day_ms_def minute_ms_def)
  ultimately show ?thesis
    using near advance_past_bounds [of ws "midnight_ms ws + em * minute_ms"] clock_mod [OF em, of ws]
    by (simp only: resolve_window_def assms option.case prod.case Let_def ws) blast
qed

theorem resolve_window_nearest_witness:
  "\<exists>ws we. resolve_window 84600000 (lit ''0030'') (lit ''0200'') = Some (ws, we) \<and> ws < we"
proof -
  have "hhmm_to_min (lit ''0030'') = Some 30" "hhmm_to_min (lit ''0200'') = Some 120" by code_simp+
  from resolve_window_nearest [OF this, of 84600000] show ?thesis by blast
qed

text \<open>Accepted rate steps are canonical and all take effect: each is a normalised clock inside the
  window with a rate of one to two hundred, and the schedule built from them has one segment per step
  besides the base.\<close>

theorem validated_steps_take_effect:
  assumes "validate_steps steps ws we = Inr steps'"
  shows "length (rate_schedule_of base steps' ws we) = Suc (length steps) \<and>
    map step_aar steps' = map step_aar steps \<and>
    list_all (\<lambda>s. norm_hhmm (step_start_time s) = Inr (step_start_time s) \<and> 1 \<le> step_aar s \<and> step_aar s \<le> 200 \<and>
      (\<exists>t. resolve_step_ms ws we (step_start_time s) = Some t \<and> ws \<le> t \<and> t \<le> we)) steps'"
proof -
  have in_window: "ws \<le> t \<and> t \<le> we" if "resolve_step_ms ws we x = Some t" for x t
    using that advance_to_bounds by (auto simp: resolve_step_ms_def Let_def bind_eq_Some_conv split: if_splits)
  have fixed: "norm_hhmm h = Inr h" if "norm_hhmm raw = Inr h" for raw h
    using norm_hhmm_canonical [of raw] that by simp
  have "map step_aar steps' = map step_aar steps \<and>
    list_all (\<lambda>s. norm_hhmm (step_start_time s) = Inr (step_start_time s) \<and> 1 \<le> step_aar s \<and> step_aar s \<le> 200 \<and>
      resolve_step_ms ws we (step_start_time s) \<noteq> None) steps'"
    using assms
  proof (induction steps arbitrary: steps')
    case (Cons s ss)
    then obtain h rest where "norm_hhmm (step_start_time s) = Inr h" "resolve_step_ms ws we h \<noteq> None"
      "validate_steps ss ws we = Inr rest" "steps' = \<lparr>step_start_time = h, step_aar = step_aar s\<rparr> # rest"
      "1 \<le> step_aar s" "step_aar s \<le> 200"
      by (auto simp: bind_result_Inr_iff split: if_splits)
    then show ?case using Cons.IH [of rest] fixed by auto
  qed simp
  moreover from this have "length (List.map_filter (\<lambda>s. map_option (\<lambda>ms. (ms, step_aar s))
      (resolve_step_ms ws we (step_start_time s))) steps') = length steps'"
    by (intro length_map_filter) (auto simp: list_all_iff)
  moreover have "length steps' = length steps" using calculation(1) by (metis length_map)
  ultimately show ?thesis
    using in_window by (auto simp: rate_schedule_of_def new_schedule_def list_all_iff)
qed

theorem validated_steps_take_effect_witness:
  "length (rate_schedule_of 30 [\<lparr>step_start_time = lit ''0130'', step_aar = 40\<rparr>] 3600000 10800000) = 2"
proof -
  have "validate_steps [\<lparr>step_start_time = lit ''1:30'', step_aar = 40\<rparr>] 3600000 10800000 =
      Inr [\<lparr>step_start_time = lit ''0130'', step_aar = 40\<rparr>]"
    by (simp add: norm_hhmm_def) (code_simp)
  from validated_steps_take_effect [OF this, of 30] show ?thesis by simp
qed

end
