(* ===== verification/GdpProgram.thy ===== *)
theory GdpProgram
  imports GdpWindow
begin

text \<open>
  The life of a ground delay program: \<open>backend/src/repos/gdp.rs\<close>, the endpoints of
  \<open>handlers/gdp.rs\<close> and the program's part of the cleanup pass and of \<open>delete_or_retain\<close> in
  \<open>repos/tmu.rs\<close>. The tables are one record; an endpoint maps it to its answer and the committed
  record. The live arrival picture is an argument, and so is the SQL function \<open>tmu.gdp_end_ts\<close>.
  Of a generated advisory only the program it belongs to and whether it is live are kept; who did it
  is not kept. Instants are milliseconds.
\<close>

section \<open>The tables\<close>

datatype gdp_status = Draft | Published | Expired | Cancelled

record gdp =
  gd_id :: ustr
  gd_airport :: ustr
  gd_aar :: int
  gd_scope :: ustr
  gd_start_time :: ustr
  gd_end_time :: ustr
  gd_max_enroute_min :: "int option"
  gd_exempt_airborne :: bool
  gd_aar_steps :: "aar_step list"
  gd_status :: gdp_status
  gd_published_at :: "int option"
  gd_created_at :: int
  gd_updated_at :: int
  gd_ended_at :: "int option"
  gd_dismissed_at :: "int option"

record gdp_slot_row =
  sl_gdp_id :: ustr
  sl_callsign :: ustr
  sl_dep :: ustr
  sl_original_eta :: int
  sl_cta :: int
  sl_edct :: "int option"
  sl_delay_min :: int

record gdp_world =
  gw_programs :: "gdp list"
  gw_slots :: "gdp_slot_row list"
  gw_advisories :: "(ustr \<times> bool) list"

definition get_gdp :: "gdp_world \<Rightarrow> ustr \<Rightarrow> gdp option" where
  "get_gdp w gid = find (\<lambda>g. gd_id g = gid) (gw_programs w)"

definition update_program :: "(gdp \<Rightarrow> bool) \<Rightarrow> (gdp \<Rightarrow> gdp) \<Rightarrow> gdp_world \<Rightarrow> bool \<times> gdp_world" where
  "update_program P f w = (list_ex P (gw_programs w),
     w\<lparr>gw_programs := map (\<lambda>g. if P g then f g else g) (gw_programs w)\<rparr>)"

section \<open>\<open>repos/gdp.rs\<close>\<close>

definition list_slots :: "gdp_world \<Rightarrow> ustr \<Rightarrow> gdp_slot_row list" where
  "list_slots w gid = filter (\<lambda>s. sl_gdp_id s = gid) (gw_slots w)"

definition publish_row :: "int \<Rightarrow> gdp \<Rightarrow> gdp" where
  "publish_row now g = g\<lparr>gd_status := Published, gd_published_at := Some now, gd_updated_at := now\<rparr>"

definition publish_gdp :: "int \<Rightarrow> ustr \<Rightarrow> gdp_world \<Rightarrow> bool \<times> gdp_world" where
  "publish_gdp now gid = update_program (\<lambda>g. gd_id g = gid \<and> gd_status g = Draft) (publish_row now)"

definition active :: "gdp \<Rightarrow> bool" where
  "active g \<longleftrightarrow> gd_status g = Draft \<or> gd_status g = Published"

definition coalesce :: "'a option \<Rightarrow> 'a \<Rightarrow> 'a" where
  "coalesce x d = (case x of None \<Rightarrow> d | Some y \<Rightarrow> y)"

definition cancel_row :: "int \<Rightarrow> gdp \<Rightarrow> gdp" where
  "cancel_row now g = g\<lparr>gd_status := Cancelled, gd_ended_at := Some (coalesce (gd_ended_at g) now), gd_updated_at := now\<rparr>"

definition cancel_gdp :: "int \<Rightarrow> ustr \<Rightarrow> gdp_world \<Rightarrow> bool \<times> gdp_world" where
  "cancel_gdp now gid = update_program (\<lambda>g. gd_id g = gid \<and> active g) (cancel_row now)"

record gdp_payload =
  gp_aar :: int
  gp_start_time :: ustr
  gp_end_time :: ustr
  gp_scope :: "ustr option"
  gp_max_enroute_min :: "int option"
  gp_exempt_airborne :: bool
  gp_aar_steps :: "aar_step list"

definition update_row :: "int \<Rightarrow> gdp_payload \<Rightarrow> gdp \<Rightarrow> gdp" where
  "update_row now p g = g\<lparr>gd_aar := gp_aar p, gd_scope := coalesce (gp_scope p) [], gd_start_time := gp_start_time p,
     gd_end_time := gp_end_time p, gd_max_enroute_min := gp_max_enroute_min p,
     gd_exempt_airborne := gp_exempt_airborne p, gd_aar_steps := gp_aar_steps p, gd_updated_at := now\<rparr>"

definition update_gdp :: "int \<Rightarrow> ustr \<Rightarrow> gdp_payload \<Rightarrow> gdp_world \<Rightarrow> bool \<times> gdp_world" where
  "update_gdp now gid p = update_program (\<lambda>g. gd_id g = gid \<and> active g) (update_row now p)"

text \<open>\<open>delete_or_retain\<close>: a program never published vanishes with its slots, and its
  advisories lose their link; one that was ever published is kept, cancelled and dismissed.\<close>

definition retain_row :: "int \<Rightarrow> gdp \<Rightarrow> gdp" where
  "retain_row now g = g\<lparr>gd_status := (if active g then Cancelled else gd_status g),
     gd_ended_at := (if active g then Some (coalesce (gd_ended_at g) now) else gd_ended_at g),
     gd_dismissed_at := Some (coalesce (gd_dismissed_at g) now), gd_updated_at := now\<rparr>"

definition drop_programs :: "(gdp \<Rightarrow> bool) \<Rightarrow> gdp_world \<Rightarrow> gdp_world" where
  "drop_programs P w =
     (let gone = map gd_id (filter P (gw_programs w)) in
      \<lparr>gw_programs = filter (\<lambda>g. \<not> P g) (gw_programs w),
       gw_slots = filter (\<lambda>s. sl_gdp_id s \<notin> set gone) (gw_slots w),
       gw_advisories = filter (\<lambda>a. fst a \<notin> set gone) (gw_advisories w)\<rparr>)"

definition delete_gdp :: "int \<Rightarrow> ustr \<Rightarrow> gdp_world \<Rightarrow> bool \<times> gdp_world" where
  "delete_gdp now gid w =
     (let P = (\<lambda>g. gd_id g = gid \<and> gd_published_at g = None) in
      if list_ex P (gw_programs w) then (True, drop_programs P w)
      else update_program (\<lambda>g. gd_id g = gid) (retain_row now) w)"

text \<open>The inserts of \<open>replace_slots_in\<close>: the primary key is the program and the callsign.\<close>

fun insert_slots :: "gdp_slot_row list \<Rightarrow> gdp_slot_row list \<Rightarrow> gdp_slot_row list result" where
  "insert_slots stored [] = Inr stored"
| "insert_slots stored (s # ss) =
     (if list_ex (\<lambda>x. sl_gdp_id x = sl_gdp_id s \<and> sl_callsign x = sl_callsign s) stored then Inl Internal
      else insert_slots (stored @ [s]) ss)"

definition replace_slots :: "ustr \<Rightarrow> gdp_slot_row list \<Rightarrow> gdp_world \<Rightarrow> gdp_world result" where
  "replace_slots gid rows w =
     bind_result (insert_slots (filter (\<lambda>s. sl_gdp_id s \<noteq> gid) (gw_slots w)) rows) (\<lambda>ss. Inr (w\<lparr>gw_slots := ss\<rparr>))"

definition upsert_slot :: "gdp_slot_row \<Rightarrow> gdp_world \<Rightarrow> gdp_world" where
  "upsert_slot s w =
     (let same = (\<lambda>x. sl_gdp_id x = sl_gdp_id s \<and> sl_callsign x = sl_callsign s) in
      w\<lparr>gw_slots := (if list_ex same (gw_slots w) then map (\<lambda>x. if same x then s else x) (gw_slots w)
                     else gw_slots w @ [s])\<rparr>)"

definition delete_slot :: "ustr \<Rightarrow> ustr \<Rightarrow> gdp_world \<Rightarrow> bool \<times> gdp_world" where
  "delete_slot gid callsign w =
     (let same = (\<lambda>x. sl_gdp_id x = gid \<and> sl_callsign x = callsign) in
      (list_ex same (gw_slots w), w\<lparr>gw_slots := filter (\<lambda>x. \<not> same x) (gw_slots w)\<rparr>))"

definition cancel_program_advisory :: "ustr \<Rightarrow> gdp_world \<Rightarrow> gdp_world" where
  "cancel_program_advisory gid w =
     w\<lparr>gw_advisories := map (\<lambda>(g, live). (g, live \<and> g \<noteq> gid)) (gw_advisories w)\<rparr>"

definition generate_gdp_advisory :: "ustr \<Rightarrow> gdp_world \<Rightarrow> gdp_world" where
  "generate_gdp_advisory gid w = w\<lparr>gw_advisories := gw_advisories w @ [(gid, True)]\<rparr>"

section \<open>Control times off the live feed\<close>

definition fresh_assignments :: "gdp \<Rightarrow> inbound list \<Rightarrow> int \<Rightarrow> (int \<times> int \<times> assignment list) result" where
  "fresh_assignments g inbounds now =
     bind_result (ok_or Internal (resolve_window now (gd_start_time g) (gd_end_time g))) (\<lambda>(ws, we).
       Inr (ws, we, ration_by_schedule inbounds (rate_schedule_of (gd_aar g) (gd_aar_steps g) ws we) ws we
         (gd_exempt_airborne g) (split_whitespace (gd_scope g)) (gd_max_enroute_min g)))"

definition slot_of :: "ustr \<Rightarrow> assignment \<Rightarrow> gdp_slot_row" where
  "slot_of gid a = \<lparr>sl_gdp_id = gid, sl_callsign = as_cs a, sl_dep = as_dep a, sl_original_eta = as_original_eta_ms a,
     sl_cta = as_cta_ms a, sl_edct = as_edct_ms a, sl_delay_min = as_delay_min a\<rparr>"

definition frozen_slots_for :: "gdp \<Rightarrow> inbound list \<Rightarrow> int \<Rightarrow> (gdp_slot_row list \<times> gdp_stats) result" where
  "frozen_slots_for g inbounds now =
     bind_result (fresh_assignments g inbounds now) (\<lambda>(ws, we, as).
       Inr (map (slot_of (gd_id g)) (filter as_controlled as), program_stats as))"

definition hold_frozen :: "gdp_slot_row list \<Rightarrow> assignment \<Rightarrow> assignment" where
  "hold_frozen frozen a =
     (case find (\<lambda>s. sl_callsign s = as_cs a) frozen of
        None \<Rightarrow> a
      | Some s \<Rightarrow> a\<lparr>as_cta_ms := sl_cta s, as_edct_ms := sl_edct s, as_delay_min := sl_delay_min s,
          as_controlled := True, as_frozen := True, as_exempt_reason := None\<rparr>)"

definition assign_live :: "gdp_world \<Rightarrow> gdp \<Rightarrow> inbound list \<Rightarrow> int \<Rightarrow> (int \<times> int \<times> assignment list) result" where
  "assign_live w g inbounds now =
     bind_result (fresh_assignments g inbounds now) (\<lambda>(ws, we, as).
       Inr (ws, we, if gd_status g = Published then map (hold_frozen (list_slots w (gd_id g))) as else as))"

section \<open>The endpoints\<close>

definition clean_airport :: "ustr \<Rightarrow> ustr" where
  "clean_airport raw = ascii_upper (filter (\<lambda>c. is_ascii_digit c \<or> is_ascii_uppercase c \<or> is_ascii_lowercase c) raw)"

text \<open>The checks creation and revision share, and the fields as they are stored.\<close>

definition validate_payload :: "int \<Rightarrow> gdp_payload \<Rightarrow> gdp_payload result" where
  "validate_payload now p =
     (if gp_aar p < 1 \<or> 200 < gp_aar p then Inl BadRequest else
      bind_result (norm_hhmm (gp_start_time p)) (\<lambda>start.
      bind_result (norm_hhmm (gp_end_time p)) (\<lambda>stop.
      bind_result (ok_or BadRequest (resolve_window now start stop)) (\<lambda>(ws, we).
      bind_result (validate_steps (gp_aar_steps p) ws we) (\<lambda>steps.
        Inr (p\<lparr>gp_start_time := start, gp_end_time := stop, gp_scope := Some (normalize_scope (gp_scope p)),
               gp_max_enroute_min := (case gp_max_enroute_min p of None \<Rightarrow> None
                 | Some m \<Rightarrow> if 0 < m then Some m else None),
               gp_aar_steps := steps\<rparr>))))))"

definition new_gdp :: "int \<Rightarrow> ustr \<Rightarrow> ustr \<Rightarrow> gdp_payload \<Rightarrow> gdp" where
  "new_gdp now gid airport p = \<lparr>gd_id = gid, gd_airport = airport, gd_aar = gp_aar p,
     gd_scope = coalesce (gp_scope p) [], gd_start_time = gp_start_time p, gd_end_time = gp_end_time p,
     gd_max_enroute_min = gp_max_enroute_min p, gd_exempt_airborne = gp_exempt_airborne p,
     gd_aar_steps = gp_aar_steps p, gd_status = Draft, gd_published_at = None, gd_created_at = now,
     gd_updated_at = now, gd_ended_at = None, gd_dismissed_at = None\<rparr>"

definition create_gdp_handler :: "int \<Rightarrow> ustr \<Rightarrow> ustr \<Rightarrow> gdp_payload \<Rightarrow> gdp_world \<Rightarrow> unit result \<times> gdp_world" where
  "create_gdp_handler now gid airport p w =
     (let icao = clean_airport airport in
      if length icao < 3 \<or> 4 < length icao then (Inl BadRequest, w) else
      case validate_payload now p of
        Inl e \<Rightarrow> (Inl e, w)
      | Inr q \<Rightarrow>
          if get_gdp w gid \<noteq> None then (Inl Internal, w)
          else (Inr (), w\<lparr>gw_programs := gw_programs w @ [new_gdp now gid icao q]\<rparr>))"

text \<open>A revision of a live program commits its parameters first; freezing and reissuing the
  advisory are a second transaction.\<close>

definition revise_gdp_handler ::
    "int \<Rightarrow> ustr \<Rightarrow> gdp_payload \<Rightarrow> inbound list \<Rightarrow> gdp_world \<Rightarrow> unit result \<times> gdp_world" where
  "revise_gdp_handler now gid p inbounds w =
     (case validate_payload now p of
        Inl e \<Rightarrow> (Inl e, w)
      | Inr q \<Rightarrow>
          if get_gdp w gid = None then (Inl NotFound, w)
          else case update_gdp now gid q w of
            (False, w') \<Rightarrow> (Inl Conflict, w)
          | (True, w1) \<Rightarrow> (case get_gdp w1 gid of
                None \<Rightarrow> (Inl NotFound, w1)
              | Some g \<Rightarrow>
                  if gd_status g \<noteq> Published then (Inr (), w1)
                  else case bind_result (frozen_slots_for g inbounds now) (\<lambda>(rows, stats).
                         bind_result (replace_slots gid rows w1) (\<lambda>w2.
                           Inr (generate_gdp_advisory gid (cancel_program_advisory gid w2)))) of
                    Inl e \<Rightarrow> (Inl e, w1)
                  | Inr w3 \<Rightarrow> (Inr (), w3)))"

definition publish_gdp_handler :: "int \<Rightarrow> ustr \<Rightarrow> inbound list \<Rightarrow> gdp_world \<Rightarrow> unit result \<times> gdp_world" where
  "publish_gdp_handler now gid inbounds w =
     (case get_gdp w gid of
        None \<Rightarrow> (Inl NotFound, w)
      | Some draft \<Rightarrow>
          if gd_status draft \<noteq> Draft then (Inl Conflict, w)
          else case bind_result (frozen_slots_for draft inbounds now) (\<lambda>(rows, stats).
                 case publish_gdp now gid w of
                   (False, w1) \<Rightarrow> Inl Conflict
                 | (True, w1) \<Rightarrow> bind_result (replace_slots gid rows w1) (\<lambda>w2. Inr (generate_gdp_advisory gid w2))) of
            Inl e \<Rightarrow> (Inl e, w)
          | Inr w3 \<Rightarrow> (Inr (), w3))"

definition answer :: "api_error \<Rightarrow> bool \<times> gdp_world \<Rightarrow> unit result \<times> gdp_world" where
  "answer e r = (case r of (ok, w) \<Rightarrow> (if ok then Inr () else Inl e, w))"

definition cancel_gdp_handler :: "int \<Rightarrow> ustr \<Rightarrow> gdp_world \<Rightarrow> unit result \<times> gdp_world" where
  "cancel_gdp_handler now gid w = answer Conflict (cancel_gdp now gid w)"

definition delete_gdp_handler :: "int \<Rightarrow> ustr \<Rightarrow> gdp_world \<Rightarrow> unit result \<times> gdp_world" where
  "delete_gdp_handler now gid w = answer NotFound (delete_gdp now gid w)"

definition lock_slot :: "int \<Rightarrow> ustr \<Rightarrow> ustr \<Rightarrow> inbound list \<Rightarrow> gdp_world \<Rightarrow> unit result \<times> gdp_world" where
  "lock_slot now gid callsign inbounds w =
     (case get_gdp w gid of
        None \<Rightarrow> (Inl NotFound, w)
      | Some g \<Rightarrow>
          if gd_status g \<noteq> Published then (Inl Conflict, w)
          else case fresh_assignments g inbounds now of
            Inl e \<Rightarrow> (Inl e, w)
          | Inr (ws, we, as) \<Rightarrow>
              (case find (\<lambda>a. as_controlled a \<and> ascii_lower (as_cs a) = ascii_lower (ascii_upper callsign)) as of
                 None \<Rightarrow> (Inl NotFound, w)
               | Some a \<Rightarrow> (Inr (), upsert_slot (slot_of gid a) w)))"

definition unlock_slot :: "ustr \<Rightarrow> ustr \<Rightarrow> gdp_world \<Rightarrow> unit result \<times> gdp_world" where
  "unlock_slot gid callsign w =
     (if get_gdp w gid = None then (Inl NotFound, w)
      else answer NotFound (delete_slot gid (ascii_upper callsign) w))"

definition compressed :: "ustr \<Rightarrow> gdp_slot_row list \<Rightarrow> assignment \<Rightarrow> gdp_slot_row option" where
  "compressed gid frozen a =
     (if \<not> as_controlled a then None
      else map_option (\<lambda>s. case compress_slot a (sl_cta s) of (cta, edct, delay) \<Rightarrow>
             (slot_of gid a)\<lparr>sl_cta := cta, sl_edct := edct, sl_delay_min := delay\<rparr>)
           (find (\<lambda>s. sl_callsign s = as_cs a) frozen))"

definition compress_gdp :: "int \<Rightarrow> ustr \<Rightarrow> inbound list \<Rightarrow> gdp_world \<Rightarrow> unit result \<times> gdp_world" where
  "compress_gdp now gid inbounds w =
     (case get_gdp w gid of
        None \<Rightarrow> (Inl NotFound, w)
      | Some g \<Rightarrow>
          if gd_status g \<noteq> Published then (Inl Conflict, w)
          else case bind_result (fresh_assignments g inbounds now) (\<lambda>(ws, we, as).
                 replace_slots gid (List.map_filter (compressed gid (list_slots w gid)) as) w) of
            Inl e \<Rightarrow> (Inl e, w)
          | Inr w' \<Rightarrow> (Inr (), w'))"

section \<open>Cleanup\<close>

definition hour_ms :: int where "hour_ms = 60 * minute_ms"

definition past_end :: "(int \<Rightarrow> ustr \<Rightarrow> ustr \<Rightarrow> int option) \<Rightarrow> int \<Rightarrow> gdp \<Rightarrow> bool" where
  "past_end gdp_end_ts t g =
     (case gdp_end_ts (coalesce (gd_published_at g) (gd_created_at g)) (gd_start_time g) (gd_end_time g) of
        None \<Rightarrow> False | Some e \<Rightarrow> e < t)"

definition expire_row :: "int \<Rightarrow> gdp \<Rightarrow> gdp" where
  "expire_row now g = g\<lparr>gd_status := Expired, gd_updated_at := now\<rparr>"

definition cleanup_gdps :: "(int \<Rightarrow> ustr \<Rightarrow> ustr \<Rightarrow> int option) \<Rightarrow> int \<Rightarrow> gdp_world \<Rightarrow> gdp_world" where
  "cleanup_gdps gdp_end_ts now w =
     (let w1 = snd (update_program (\<lambda>g. active g \<and> past_end gdp_end_ts now g) (expire_row now) w);
          w2 = drop_programs (\<lambda>g. gd_published_at g = None \<and>
                 (past_end gdp_end_ts (now - hour_ms) g \<or> \<not> active g \<and> gd_updated_at g < now - hour_ms)) w1
      in w2\<lparr>gw_advisories := map (\<lambda>(gid, live).
            (gid, live \<and> \<not> list_ex (\<lambda>g. gd_id g = gid \<and> \<not> active g) (gw_programs w2))) (gw_advisories w2)\<rparr>)"

end
