(* ===== verification/GdpLife.thy ===== *)
theory GdpLife
  imports GdpProgram
begin

text \<open>
  What holds of the ground delay programs whatever sequence of requests and cleanup passes ran:
  the steps of \<open>GdpProgram\<close> as one relation, the invariant of its tables, and the histories
  of programs, control times and advisories.
\<close>

lemma find_unique:
  "x \<in> set xs \<Longrightarrow> P x \<Longrightarrow> (\<And>y. y \<in> set xs \<Longrightarrow> P y \<Longrightarrow> y = x) \<Longrightarrow> find P xs = Some x"
  by (cases "find P xs") (metis find_None_iff option.distinct(1), metis find_Some_iff nth_mem)

section \<open>The steps\<close>

inductive gdp_step :: "(int \<Rightarrow> ustr \<Rightarrow> ustr \<Rightarrow> int option) \<Rightarrow> gdp_world \<Rightarrow> gdp_world \<Rightarrow> bool"
  for gdp_end_ts where
  created: "create_gdp_handler now gid airport p w = (r, w') \<Longrightarrow> gdp_step gdp_end_ts w w'"
| revised: "revise_gdp_handler now gid p inbounds w = (r, w') \<Longrightarrow> gdp_step gdp_end_ts w w'"
| published: "publish_gdp_handler now gid inbounds w = (r, w') \<Longrightarrow> gdp_step gdp_end_ts w w'"
| cancelled: "cancel_gdp_handler now gid w = (r, w') \<Longrightarrow> gdp_step gdp_end_ts w w'"
| deleted: "delete_gdp_handler now gid w = (r, w') \<Longrightarrow> gdp_step gdp_end_ts w w'"
| locked: "lock_slot now gid callsign inbounds w = (r, w') \<Longrightarrow> gdp_step gdp_end_ts w w'"
| unlocked: "unlock_slot gid callsign w = (r, w') \<Longrightarrow> gdp_step gdp_end_ts w w'"
| compressed: "compress_gdp now gid inbounds w = (r, w') \<Longrightarrow> gdp_step gdp_end_ts w w'"
| cleaned: "cleanup_gdps gdp_end_ts now w = w' \<Longrightarrow> gdp_step gdp_end_ts w w'"

definition no_gdps :: gdp_world where
  "no_gdps = \<lparr>gw_programs = [], gw_slots = [], gw_advisories = []\<rparr>"

definition sound_program :: "gdp \<Rightarrow> bool" where
  "sound_program g \<longleftrightarrow> 1 \<le> gd_aar g \<and> gd_aar g \<le> 200 \<and>
     (gd_status g = Draft \<longrightarrow> gd_published_at g = None) \<and>
     (gd_status g = Published \<longrightarrow> gd_published_at g \<noteq> None)"

definition was_published :: "gdp_world \<Rightarrow> ustr \<Rightarrow> bool" where
  "was_published w gid \<longleftrightarrow> list_ex (\<lambda>g. gd_id g = gid \<and> gd_published_at g \<noteq> None) (gw_programs w)"

definition slot_key :: "gdp_slot_row \<Rightarrow> ustr \<times> ustr" where
  "slot_key s = (sl_gdp_id s, sl_callsign s)"

definition live_advisories :: "gdp_world \<Rightarrow> ustr list" where
  "live_advisories w = map fst (filter snd (gw_advisories w))"

definition gdp_inv :: "gdp_world \<Rightarrow> bool" where
  "gdp_inv w \<longleftrightarrow>
     distinct (map gd_id (gw_programs w)) \<and>
     list_all sound_program (gw_programs w) \<and>
     distinct (map slot_key (gw_slots w)) \<and>
     list_all (\<lambda>s. was_published w (sl_gdp_id s)) (gw_slots w) \<and>
     distinct (live_advisories w) \<and>
     list_all (\<lambda>a. was_published w (fst a)) (gw_advisories w)"

section \<open>The building blocks keep the invariant\<close>

lemma was_published_alt: "was_published w gid \<longleftrightarrow> gid \<in> gd_id ` {g \<in> set (gw_programs w). gd_published_at g \<noteq> None}"
  by (auto simp: was_published_def list_ex_iff)

lemma get_gdp_Some: "get_gdp w gid = Some g \<Longrightarrow> g \<in> set (gw_programs w) \<and> gd_id g = gid"
  by (auto simp: get_gdp_def find_Some_iff)

lemma get_gdp_None: "get_gdp w gid = None \<longleftrightarrow> gid \<notin> gd_id ` set (gw_programs w)"
  by (auto simp: get_gdp_def find_None_iff)

lemma insert_slots_Inr:
  "insert_slots stored rows = Inr out \<longleftrightarrow> out = stored @ rows \<and>
     distinct (map slot_key rows) \<and> set (map slot_key stored) \<inter> set (map slot_key rows) = {}"
proof (induction stored rows rule: insert_slots.induct)
  case (2 stored s ss)
  show ?case
  proof (cases "list_ex (\<lambda>x. sl_gdp_id x = sl_gdp_id s \<and> sl_callsign x = sl_callsign s) stored")
    case True
    then obtain x where "x \<in> set stored" "slot_key x = slot_key s" by (auto simp: list_ex_iff slot_key_def)
    then have "slot_key s \<in> set (map slot_key stored)" by (metis imageI set_map)
    then show ?thesis using True by auto
  next
    case False
    then have "slot_key s \<notin> set (map slot_key stored)" by (auto simp: list_ex_iff slot_key_def)
    then show ?thesis using False 2 by auto
  qed
qed auto

lemma replace_slots_Inr:
  "replace_slots gid rows w = Inr w' \<Longrightarrow>
     w' = w\<lparr>gw_slots := filter (\<lambda>s. sl_gdp_id s \<noteq> gid) (gw_slots w) @ rows\<rparr> \<and> distinct (map slot_key rows)"
  by (auto simp: replace_slots_def bind_result_Inr_iff insert_slots_Inr)

text \<open>What a program keeps from one step to the next: its identity and airport, the instant of its
  publication, and its status once it is over; a published one never becomes a draft again.\<close>

definition follows :: "gdp \<Rightarrow> gdp \<Rightarrow> bool" where
  "follows g g' \<longleftrightarrow> gd_id g' = gd_id g \<and> gd_airport g' = gd_airport g \<and>
     (gd_published_at g \<noteq> None \<longrightarrow> gd_published_at g' = gd_published_at g \<and> gd_status g' \<noteq> Draft) \<and>
     (\<not> active g \<longrightarrow> gd_status g' = gd_status g)"

definition keeps :: "(gdp \<Rightarrow> bool) \<Rightarrow> (gdp \<Rightarrow> gdp) \<Rightarrow> bool" where
  "keeps P f \<longleftrightarrow> (\<forall>g. P g \<and> sound_program g \<longrightarrow> follows g (f g) \<and> sound_program (f g))"

lemma follows_refl: "sound_program g \<Longrightarrow> follows g g"
  by (auto simp: follows_def sound_program_def)

lemma follows_trans: "follows g g' \<Longrightarrow> follows g' g'' \<Longrightarrow> follows g g''"
  by (auto simp: follows_def active_def)

lemmas row_defs = keeps_def follows_def sound_program_def active_def

lemma rows_keep:
  "keeps (\<lambda>g. gd_id g = gid \<and> gd_status g = Draft) (publish_row now)"
  "keeps (\<lambda>g. gd_id g = gid \<and> active g) (cancel_row now)"
  "keeps (\<lambda>g. gd_id g = gid) (retain_row now)"
  "keeps (\<lambda>g. active g \<and> Q g) (expire_row now)"
  "1 \<le> gp_aar p \<Longrightarrow> gp_aar p \<le> 200 \<Longrightarrow> keeps (\<lambda>g. gd_id g = gid \<and> active g) (update_row now p)"
  by (auto simp: row_defs publish_row_def cancel_row_def retain_row_def expire_row_def update_row_def)

lemma update_program_snd:
  "snd (update_program P f w) = w\<lparr>gw_programs := map (\<lambda>g. if P g then f g else g) (gw_programs w)\<rparr>"
  by (simp add: update_program_def)

text \<open>Every step leaves each program followed by one of the new state, or drops one never published.\<close>

definition history_kept :: "gdp_world \<Rightarrow> gdp_world \<Rightarrow> bool" where
  "history_kept w w' \<longleftrightarrow> list_all (\<lambda>g. list_ex (follows g) (gw_programs w') \<or> gd_published_at g = None) (gw_programs w)"

lemma update_program_keeps:
  assumes k: "keeps P f" and inv: "gdp_inv w"
  shows "gdp_inv (snd (update_program P f w))" and "history_kept w (snd (update_program P f w))"
proof -
  let ?f = "\<lambda>g. if P g then f g else g"
  have fol: "follows g (?f g)" "sound_program (?f g)" if "g \<in> set (gw_programs w)" for g
    using that assms follows_refl by (auto simp: gdp_inv_def list_all_iff keeps_def)
  have "list_ex (follows g) (gw_programs (snd (update_program P f w)))" if g: "g \<in> set (gw_programs w)" for g
    unfolding update_program_snd list_ex_iff using fol(1) [OF g] g by (intro bexI [of _ "?f g"]) auto
  then show "history_kept w (snd (update_program P f w))"
    by (simp add: history_kept_def list_all_iff)
  have "map gd_id (map ?f (gw_programs w)) = map gd_id (gw_programs w)"
    using fol by (auto simp: follows_def)
  moreover have "\<forall>g\<in>set (map ?f (gw_programs w)). sound_program g"
    unfolding set_map by (rule ballI, erule imageE) (simp only: fol(2))
  moreover have "was_published (snd (update_program P f w)) gid" if wp: "was_published w gid" for gid
  proof -
    from wp obtain g where g: "g \<in> set (gw_programs w)" "gd_id g = gid" "gd_published_at g \<noteq> None"
      by (auto simp: was_published_def list_ex_iff)
    with fol show ?thesis
      unfolding update_program_snd was_published_def list_ex_iff follows_def
      by (intro bexI [of _ "?f g"]) auto
  qed
  ultimately show "gdp_inv (snd (update_program P f w))"
    using inv by (simp add: gdp_inv_def list_all_iff live_advisories_def update_program_snd del: map_map set_map)
qed

lemma replace_slots_inv:
  assumes "replace_slots gid rows w = Inr w'" and "gdp_inv w"
    and "was_published w gid" and "\<forall>s\<in>set rows. sl_gdp_id s = gid"
  shows "gdp_inv w'"
proof -
  have w': "w' = w\<lparr>gw_slots := filter (\<lambda>s. sl_gdp_id s \<noteq> gid) (gw_slots w) @ rows\<rparr>" "distinct (map slot_key rows)"
    using replace_slots_Inr [OF assms(1)] by auto
  have "distinct (map slot_key (filter (\<lambda>s. sl_gdp_id s \<noteq> gid) (gw_slots w) @ rows))"
    using assms(2,4) w'(2) by (auto simp: gdp_inv_def distinct_map_filter slot_key_def)
  then show ?thesis
    using assms(2-4) by (auto simp: w'(1) gdp_inv_def list_all_iff live_advisories_def was_published_def)
qed

lemma distinct_live_filter:
  "distinct (map fst (filter snd xs)) \<Longrightarrow> distinct (map fst (filter snd (filter P xs)))"
  by (induction xs) (auto simp: image_iff)

lemma drop_programs_inv:
  assumes "gdp_inv w" and unpublished: "\<And>g. P g \<Longrightarrow> gd_published_at g = None"
  shows "gdp_inv (drop_programs P w)" and "was_published (drop_programs P w) gid \<longleftrightarrow> was_published w gid"
    and "history_kept w (drop_programs P w)"
proof -
  have "follows g g" if "g \<in> set (gw_programs w)" for g
    using that assms(1) follows_refl by (auto simp: gdp_inv_def list_all_iff)
  then show "history_kept w (drop_programs P w)"
    using unpublished unfolding history_kept_def list_all_iff list_ex_iff
    by (force simp: drop_programs_def)
  show wp: "was_published (drop_programs P w) gid \<longleftrightarrow> was_published w gid" for gid
    using unpublished by (auto simp: was_published_def drop_programs_def list_ex_iff)
  show "gdp_inv (drop_programs P w)"
    using assms(1) wp distinct_live_filter [of "gw_advisories w"]
    by (auto simp: gdp_inv_def list_all_iff live_advisories_def drop_programs_def distinct_map_filter)
qed

section \<open>Every endpoint keeps it\<close>

definition sound_step :: "gdp_world \<Rightarrow> gdp_world \<Rightarrow> bool" where
  "sound_step w w' \<longleftrightarrow> gdp_inv w' \<and> history_kept w w'"

lemma history_kept_same: "gdp_inv w \<Longrightarrow> gw_programs w' = gw_programs w \<Longrightarrow> history_kept w w'"
  using follows_refl by (auto simp: history_kept_def list_all_iff list_ex_iff gdp_inv_def)

lemma history_kept_trans:
  assumes "history_kept w w'" and "history_kept w' w''"
  shows "history_kept w w''"
  unfolding history_kept_def list_all_iff list_ex_iff
proof
  fix g assume g: "g \<in> set (gw_programs w)"
  show "(\<exists>x\<in>set (gw_programs w''). follows g x) \<or> gd_published_at g = None"
  proof (cases "gd_published_at g = None")
    case False
    then obtain g' where g': "g' \<in> set (gw_programs w')" "follows g g'"
      using assms(1) g by (auto simp: history_kept_def list_all_iff list_ex_iff)
    with False have "gd_published_at g' \<noteq> None" by (auto simp: follows_def)
    with assms(2) g' obtain g'' where "g'' \<in> set (gw_programs w'')" "follows g' g''"
      by (auto simp: history_kept_def list_all_iff list_ex_iff)
    with g' show ?thesis using follows_trans by blast
  qed simp
qed

lemma sound_step_refl: "gdp_inv w \<Longrightarrow> sound_step w w"
  by (simp add: sound_step_def history_kept_same)

lemma sound_step_trans: "sound_step w w' \<Longrightarrow> sound_step w' w'' \<Longrightarrow> sound_step w w''"
  using history_kept_trans by (auto simp: sound_step_def)

lemma update_program_step: "keeps P f \<Longrightarrow> gdp_inv w \<Longrightarrow> update_program P f w = (b, w') \<Longrightarrow> sound_step w w'"
  using update_program_keeps [of P f w] by (simp add: sound_step_def)

lemma drop_programs_step: "gdp_inv w \<Longrightarrow> (\<And>g. P g \<Longrightarrow> gd_published_at g = None) \<Longrightarrow> sound_step w (drop_programs P w)"
  using drop_programs_inv [of w P] by (simp add: sound_step_def)

lemma replace_slots_step:
  "replace_slots gid rows w = Inr w' \<Longrightarrow> gdp_inv w \<Longrightarrow> was_published w gid \<Longrightarrow>
    \<forall>s\<in>set rows. sl_gdp_id s = gid \<Longrightarrow> sound_step w w'"
  using replace_slots_inv [of gid rows w w'] replace_slots_Inr [of gid rows w w']
  by (simp add: sound_step_def history_kept_same)

lemma validated_aar: "validate_payload now p = Inr q \<Longrightarrow> 1 \<le> gp_aar q \<and> gp_aar q \<le> 200"
  by (auto simp: validate_payload_def bind_result_Inr_iff split: if_splits)

lemma create_step:
  assumes "create_gdp_handler now gid airport p w = (r, w')" and inv: "gdp_inv w"
  shows "sound_step w w'"
proof (cases "w' = w")
  case False
  then obtain q where q: "validate_payload now p = Inr q" "get_gdp w gid = None"
    "w' = w\<lparr>gw_programs := gw_programs w @ [new_gdp now gid (clean_airport airport) q]\<rparr>"
    using assms(1) by (auto simp: create_gdp_handler_def Let_def split: if_splits sum.splits)
  have "follows g g" if "g \<in> set (gw_programs w)" for g
    using that inv follows_refl by (auto simp: gdp_inv_def list_all_iff)
  then have "history_kept w w'" by (auto simp: history_kept_def list_all_iff list_ex_iff q(3))
  then show ?thesis
    using inv q(2) validated_aar [OF q(1)]
    by (auto simp: sound_step_def q(3) gdp_inv_def list_all_iff live_advisories_def was_published_def
        sound_program_def new_gdp_def get_gdp_None)
qed (simp add: sound_step_refl inv)

lemma generate_step:
  "gdp_inv w \<Longrightarrow> was_published w gid \<Longrightarrow> gid \<notin> set (live_advisories w) \<Longrightarrow> sound_step w (generate_gdp_advisory gid w)"
  by (simp add: sound_step_def history_kept_same generate_gdp_advisory_def)
    (simp add: gdp_inv_def generate_gdp_advisory_def list_all_iff live_advisories_def was_published_def)

lemma live_retired:
  "map fst (filter snd (map (\<lambda>(g, live). (g, live \<and> P g)) as)) = filter P (map fst (filter snd as))"
  by (induction as) auto

lemma live_after_cancel:
  "live_advisories (cancel_program_advisory gid w) = filter (\<lambda>g. g \<noteq> gid) (live_advisories w)"
  by (simp add: live_advisories_def cancel_program_advisory_def live_retired)

lemma advisory_programs [simp]:
  "gw_programs (cancel_program_advisory gid w) = gw_programs w"
  "gw_programs (generate_gdp_advisory gid w) = gw_programs w"
  "gw_slots (cancel_program_advisory gid w) = gw_slots w"
  "gw_slots (generate_gdp_advisory gid w) = gw_slots w"
  by (simp_all add: cancel_program_advisory_def generate_gdp_advisory_def)

lemma was_published_programs: "gw_programs w' = gw_programs w \<Longrightarrow> was_published w' = was_published w"
  by (simp add: was_published_def fun_eq_iff)

lemma cancel_advisory_step: "gdp_inv w \<Longrightarrow> sound_step w (cancel_program_advisory gid w)"
proof -
  assume inv: "gdp_inv w"
  then have "gdp_inv (cancel_program_advisory gid w)"
    using was_published_programs [of "cancel_program_advisory gid w" w]
    by (simp add: gdp_inv_def live_after_cancel) (auto simp: cancel_program_advisory_def list_all_iff)
  with inv show ?thesis by (simp add: sound_step_def history_kept_same)
qed

lemma live_not_draft:
  assumes "gdp_inv w" and "g \<in> set (gw_programs w)" and "gd_published_at g = None"
  shows "gd_id g \<notin> set (live_advisories w)"
proof
  assume "gd_id g \<in> set (live_advisories w)"
  then have "was_published w (gd_id g)"
    using assms(1) by (auto simp: live_advisories_def gdp_inv_def list_all_iff)
  then obtain g' where "g' \<in> set (gw_programs w)" "gd_id g' = gd_id g" "gd_published_at g' \<noteq> None"
    by (auto simp: was_published_def list_ex_iff)
  then show False using assms by (auto simp: gdp_inv_def distinct_map dest: inj_onD)
qed

lemma publish_step:
  assumes "publish_gdp_handler now gid inbounds w = (r, w')" and inv: "gdp_inv w"
  shows "sound_step w w'" and "r = Inr () \<Longrightarrow> live_advisories w' = live_advisories w @ [gid] \<and> gid \<notin> set (live_advisories w)"
proof -
  have "w' = w \<and> r \<noteq> Inr () \<or> sound_step w w' \<and> live_advisories w' = live_advisories w @ [gid] \<and> gid \<notin> set (live_advisories w)"
  proof (cases r)
    case (Inl e)
    then show ?thesis using assms(1) by (auto simp: publish_gdp_handler_def split: option.splits if_splits sum.splits)
  next
    case (Inr u)
    obtain ok wp where "publish_gdp now gid w = (ok, wp)" by fastforce
    with Inr obtain g rows stats w1 w2 where g: "get_gdp w gid = Some g" "gd_status g = Draft"
      and rows: "frozen_slots_for g inbounds now = Inr (rows, stats)" and w1: "publish_gdp now gid w = (True, w1)"
      and w2: "replace_slots gid rows w1 = Inr w2" and w': "w' = generate_gdp_advisory gid w2"
      using assms(1)
      by (cases ok) (auto simp: publish_gdp_handler_def bind_result_Inr_iff split: option.splits if_splits sum.splits)
    note mem = get_gdp_Some [OF g(1)]
    have pub_none: "gd_published_at g = None"
      using mem g(2) inv by (auto simp: gdp_inv_def list_all_iff sound_program_def)
    with inv mem have fresh: "gid \<notin> set (live_advisories w)" using live_not_draft by blast
    have s1: "sound_step w w1"
      using update_program_step [OF rows_keep(1) inv] w1 by (simp add: publish_gdp_def)
    have "publish_row now g \<in> set (gw_programs w1)"
      using mem g(2) w1 by (auto simp: publish_gdp_def update_program_def image_iff)
    then have pub: "was_published w1 gid"
      using mem unfolding was_published_def list_ex_iff
      by (intro bexI [of _ "publish_row now g"]) (auto simp: publish_row_def)
    have "\<forall>s\<in>set rows. sl_gdp_id s = gid"
      using rows mem by (auto simp: frozen_slots_for_def bind_result_Inr_iff slot_of_def)
    with s1 w2 pub have s2: "sound_step w1 w2" by (intro replace_slots_step) (auto simp: sound_step_def)
    have same: "gw_programs w2 = gw_programs w1" "live_advisories w2 = live_advisories w"
      using replace_slots_Inr [OF w2] w1 by (auto simp: live_advisories_def publish_gdp_def update_program_def)
    have "sound_step w2 w'"
      unfolding w' using s2 pub fresh same was_published_programs [OF same(1)]
      by (intro generate_step) (simp_all add: sound_step_def)
    moreover have "live_advisories w' = live_advisories w2 @ [gid]"
      by (simp add: w' generate_gdp_advisory_def live_advisories_def)
    ultimately show ?thesis using sound_step_trans [OF sound_step_trans [OF s1 s2]] fresh same(2) by simp
  qed
  then show "sound_step w w'" and "r = Inr () \<Longrightarrow> live_advisories w' = live_advisories w @ [gid] \<and> gid \<notin> set (live_advisories w)"
    using sound_step_refl [OF inv] by auto
qed

lemma get_gdp_was_published:
  "get_gdp w gid = Some g \<Longrightarrow> gd_status g = Published \<Longrightarrow> gdp_inv w \<Longrightarrow> was_published w gid"
  using get_gdp_Some [of w gid g] by (auto simp: gdp_inv_def list_all_iff sound_program_def was_published_def list_ex_iff)

lemma revise_step:
  assumes "revise_gdp_handler now gid p inbounds w = (r, w')" and inv: "gdp_inv w"
  shows "sound_step w w'"
proof (cases "w' = w")
  case False
  then obtain q w1 where q: "validate_payload now p = Inr q" and w1: "update_gdp now gid q w = (True, w1)"
    using assms(1) by (auto simp: revise_gdp_handler_def split: option.splits if_splits sum.splits prod.splits bool.splits)
  with False assms(1) have out: "w' = w1 \<or> (\<exists>g rows stats w2. get_gdp w1 gid = Some g \<and> gd_status g = Published \<and>
      frozen_slots_for g inbounds now = Inr (rows, stats) \<and> replace_slots gid rows w1 = Inr w2 \<and>
      w' = generate_gdp_advisory gid (cancel_program_advisory gid w2))"
    by (auto simp: revise_gdp_handler_def bind_result_Inr_iff split: option.splits if_splits sum.splits)
  have s1: "sound_step w w1"
    using update_program_step [OF rows_keep(5) inv, of q] validated_aar [OF q] w1 unfolding update_gdp_def by blast
  show ?thesis
  proof (cases "w' = w1")
    case False
    with out obtain g rows stats w2 where g: "get_gdp w1 gid = Some g" "gd_status g = Published"
      and rows: "frozen_slots_for g inbounds now = Inr (rows, stats)" and w2: "replace_slots gid rows w1 = Inr w2"
      and w': "w' = generate_gdp_advisory gid (cancel_program_advisory gid w2)" by auto
    have pub: "was_published w1 gid" using get_gdp_was_published g s1 by (auto simp: sound_step_def)
    have "\<forall>s\<in>set rows. sl_gdp_id s = gid"
      using rows get_gdp_Some [OF g(1)] by (auto simp: frozen_slots_for_def bind_result_Inr_iff slot_of_def)
    with s1 w2 pub have s2: "sound_step w1 w2" by (intro replace_slots_step) (auto simp: sound_step_def)
    then have s3: "sound_step w2 (cancel_program_advisory gid w2)" by (intro cancel_advisory_step) (simp add: sound_step_def)
    moreover have "was_published (cancel_program_advisory gid w2) gid"
      using pub replace_slots_Inr [OF w2] by (auto simp: was_published_def)
    ultimately have "sound_step (cancel_program_advisory gid w2) w'"
      unfolding w' by (intro generate_step) (simp_all add: sound_step_def live_after_cancel)
    with s1 s2 s3 show ?thesis using sound_step_trans by blast
  qed (simp add: s1)
qed (simp add: sound_step_refl inv)

lemma answer_step: "answer e (update_program P f w) = (r, w') \<Longrightarrow> keeps P f \<Longrightarrow> gdp_inv w \<Longrightarrow> sound_step w w'"
  using update_program_step [of P f w] by (cases "update_program P f w") (auto simp: answer_def)

lemma cancel_step: "cancel_gdp_handler now gid w = (r, w') \<Longrightarrow> gdp_inv w \<Longrightarrow> sound_step w w'"
  using answer_step rows_keep(2) by (simp add: cancel_gdp_handler_def cancel_gdp_def)

lemma delete_step: "delete_gdp_handler now gid w = (r, w') \<Longrightarrow> gdp_inv w \<Longrightarrow> sound_step w w'"
  using answer_step [OF _ rows_keep(3)] drop_programs_step [of w "\<lambda>g. gd_id g = gid \<and> gd_published_at g = None"]
  by (auto simp: delete_gdp_handler_def delete_gdp_def Let_def split: if_splits) (simp add: answer_def)

lemma slots_step:
  "gdp_inv w \<Longrightarrow> distinct (map slot_key ss) \<Longrightarrow> \<forall>s\<in>set ss. was_published w (sl_gdp_id s) \<Longrightarrow>
    sound_step w (w\<lparr>gw_slots := ss\<rparr>)"
  using was_published_programs [of "w\<lparr>gw_slots := ss\<rparr>" w]
  by (simp add: sound_step_def history_kept_same gdp_inv_def live_advisories_def list_all_iff)

lemma upsert_step:
  assumes "gdp_inv w" and "was_published w (sl_gdp_id s)"
  shows "sound_step w (upsert_slot s w)"
proof -
  let ?same = "\<lambda>x. sl_gdp_id x = sl_gdp_id s \<and> sl_callsign x = sl_callsign s"
  have "map slot_key (map (\<lambda>x. if ?same x then s else x) (gw_slots w)) = map slot_key (gw_slots w)"
    by (auto simp: slot_key_def)
  moreover have "slot_key s \<notin> set (map slot_key (gw_slots w))" if "\<not> list_ex ?same (gw_slots w)"
    using that by (auto simp: slot_key_def list_ex_iff)
  ultimately show ?thesis
    using assms unfolding upsert_slot_def Let_def
    by (intro slots_step) (auto simp: gdp_inv_def list_all_iff simp del: map_map)
qed

lemma lock_step: "lock_slot now gid callsign inbounds w = (r, w') \<Longrightarrow> gdp_inv w \<Longrightarrow> sound_step w w'"
  using sound_step_refl upsert_step get_gdp_was_published
  by (auto simp: lock_slot_def slot_of_def split: option.splits if_splits sum.splits)

lemma unlock_step: "unlock_slot gid callsign w = (r, w') \<Longrightarrow> gdp_inv w \<Longrightarrow> sound_step w w'"
  using sound_step_refl
  by (auto simp: unlock_slot_def answer_def delete_slot_def Let_def gdp_inv_def list_all_iff distinct_map_filter
      intro!: slots_step split: if_splits)

lemma compressed_slot:
  "compressed gid frozen a = Some s \<Longrightarrow> sl_gdp_id s = gid \<and> sl_callsign s = as_cs a \<and>
    (\<exists>f\<in>set frozen. sl_callsign f = as_cs a \<and> sl_cta s \<le> sl_cta f)"
  using find_Some_iff [of "\<lambda>s. sl_callsign s = as_cs a" frozen]
  by (auto simp: compressed_def compress_slot_def Let_def slot_of_def split: if_splits)

lemma compress_outcome:
  assumes "compress_gdp now gid inbounds w = (r, w')"
  shows "(w' = w \<and> r \<noteq> Inr ()) \<or> (\<exists>g as. get_gdp w gid = Some g \<and> gd_status g = Published \<and>
     replace_slots gid (List.map_filter (compressed gid (list_slots w gid)) as) w = Inr w')"
  using assms by (auto simp: compress_gdp_def bind_result_Inr_iff split: option.splits if_splits sum.splits)

lemma compress_step:
  assumes "compress_gdp now gid inbounds w = (r, w')" and inv: "gdp_inv w"
  shows "sound_step w w'"
  using compress_outcome [OF assms(1)]
proof
  assume "\<exists>g as. get_gdp w gid = Some g \<and> gd_status g = Published \<and>
     replace_slots gid (List.map_filter (compressed gid (list_slots w gid)) as) w = Inr w'"
  then show ?thesis
    using replace_slots_step inv get_gdp_was_published compressed_slot by (fastforce simp: set_map_filter)
qed (simp add: sound_step_refl inv)

lemma cleanup_step:
  assumes inv: "gdp_inv w"
  shows "sound_step w (cleanup_gdps gdp_end_ts now w)"
proof -
  define w1 where "w1 = snd (update_program (\<lambda>g. active g \<and> past_end gdp_end_ts now g) (expire_row now) w)"
  define w2 where "w2 = drop_programs (\<lambda>g. gd_published_at g = None \<and>
    (past_end gdp_end_ts (now - hour_ms) g \<or> \<not> active g \<and> gd_updated_at g < now - hour_ms)) w1"
  have s1: "sound_step w w1"
    unfolding w1_def sound_step_def using update_program_keeps [OF rows_keep(4) inv] by blast
  then have s2: "sound_step w1 w2" unfolding w2_def by (intro drop_programs_step) (auto simp: sound_step_def)
  let ?adv = "map (\<lambda>(gid, live). (gid, live \<and> \<not> list_ex (\<lambda>g. gd_id g = gid \<and> \<not> active g) (gw_programs w2)))
    (gw_advisories w2)"
  have "gdp_inv (w2\<lparr>gw_advisories := ?adv\<rparr>)"
    using s2 was_published_programs [of "w2\<lparr>gw_advisories := ?adv\<rparr>" w2]
    by (auto simp: sound_step_def gdp_inv_def live_advisories_def list_all_iff live_retired)
  then have "sound_step w2 (w2\<lparr>gw_advisories := ?adv\<rparr>)"
    using s2 by (simp add: sound_step_def history_kept_same)
  with s1 s2 show ?thesis
    unfolding cleanup_gdps_def Let_def w1_def [symmetric] w2_def [symmetric] by (blast intro: sound_step_trans)
qed

lemma gdp_step_sound: "gdp_step gdp_end_ts w w' \<Longrightarrow> gdp_inv w \<Longrightarrow> sound_step w w'"
  by (induction rule: gdp_step.induct)
    (blast intro: create_step revise_step publish_step cancel_step delete_step lock_step unlock_step
      compress_step cleanup_step)+

section \<open>What follows for any run\<close>

lemma runs_sound: "(gdp_step gdp_end_ts)\<^sup>*\<^sup>* w w' \<Longrightarrow> gdp_inv w \<Longrightarrow> sound_step w w'"
proof (induction rule: rtranclp_induct)
  case (step w' w'')
  then show ?case using gdp_step_sound [of gdp_end_ts w' w''] sound_step_trans by (auto simp: sound_step_def)
qed (simp add: sound_step_refl)

lemma no_gdps_inv: "gdp_inv no_gdps"
  by (simp add: gdp_inv_def no_gdps_def live_advisories_def)

text \<open>C29. Whatever requests and cleanup passes ran, the tables are sound: programs have distinct ids and
  a rate of 1 to 200, no draft carries a publication instant and no published program lacks one, a
  flight has at most one frozen slot in a program, slots and advisories belong to programs that were
  published, and a program has at most one live advisory.\<close>

theorem gdp_tables_sound:
  assumes "(gdp_step gdp_end_ts)\<^sup>*\<^sup>* no_gdps w"
  shows "gdp_inv w"
  using runs_sound [OF assms no_gdps_inv] by (simp add: sound_step_def)

definition sample_payload :: gdp_payload where
  "sample_payload = \<lparr>gp_aar = 30, gp_start_time = lit ''0100'', gp_end_time = lit ''0300'', gp_scope = None,
     gp_max_enroute_min = None, gp_exempt_airborne = True, gp_aar_steps = []\<rparr>"

definition sample_world :: gdp_world where
  "sample_world = snd (create_gdp_handler 0 [65] (lit ''KATL'') sample_payload no_gdps)"

definition sample_inbound :: inbound where
  "sample_inbound = \<lparr>in_cs = lit ''DAL1'', in_dep = lit ''KJFK'', in_dep_artcc = None, in_status = lit ''ground'',
     in_eta_ms = 4000000, in_etd_ms = Some 1000000\<rparr>"

definition sample_published :: gdp_world where
  "sample_published = snd (publish_gdp_handler 0 [65] [sample_inbound, sample_inbound\<lparr>in_cs := lit ''DAL2''\<rparr>] sample_world)"

lemma sample_run: "(gdp_step gdp_end_ts)\<^sup>*\<^sup>* no_gdps sample_world" "gdp_step gdp_end_ts sample_world sample_published"
  unfolding sample_world_def sample_published_def by (auto intro: created published prod.collapse [symmetric])

theorem gdp_tables_sound_witness: "gdp_inv sample_published"
  by (rule gdp_tables_sound [of "\<lambda>_ _ _. None"]) (rule rtranclp.rtrancl_into_rtrancl [OF sample_run])

text \<open>A program that was ever published is kept by every later request and cleanup pass: same id,
  same airport and same publication instant; it is never a draft again, and once expired or cancelled
  it stays so.\<close>

theorem published_programs_are_history:
  assumes "(gdp_step gdp_end_ts)\<^sup>*\<^sup>* no_gdps w" and "(gdp_step gdp_end_ts)\<^sup>*\<^sup>* w w'"
    and "g \<in> set (gw_programs w)" and "gd_published_at g \<noteq> None"
  shows "\<exists>g'\<in>set (gw_programs w'). gd_id g' = gd_id g \<and> gd_airport g' = gd_airport g \<and>
    gd_published_at g' = gd_published_at g \<and> gd_status g' \<noteq> Draft \<and> (active g \<or> gd_status g' = gd_status g)"
proof -
  have "gdp_inv w" using runs_sound [OF assms(1) no_gdps_inv] by (simp add: sound_step_def)
  then have "history_kept w w'" using runs_sound [OF assms(2)] by (simp add: sound_step_def)
  then show ?thesis
    using assms(3,4) by (force simp: history_kept_def list_all_iff list_ex_iff follows_def)
qed

theorem published_programs_are_history_witness:
  "\<exists>g'\<in>set (gw_programs (snd (cancel_gdp_handler 60 [65] sample_published))). gd_published_at g' = Some 0"
proof -
  define g where "g = hd (gw_programs sample_published)"
  have g: "g \<in> set (gw_programs sample_published)" "gd_published_at g = Some 0"
    unfolding g_def by code_simp+
  have "gdp_step (\<lambda>_ _ _. None) sample_published (snd (cancel_gdp_handler 60 [65] sample_published))"
    by (auto intro: cancelled prod.collapse [symmetric])
  then have "(gdp_step (\<lambda>_ _ _. None))\<^sup>*\<^sup>* sample_published (snd (cancel_gdp_handler 60 [65] sample_published))" ..
  from published_programs_are_history [OF rtranclp.rtrancl_into_rtrancl [OF sample_run] this g(1)] g(2)
  show ?thesis by auto
qed

section \<open>Control times\<close>

text \<open>C30. A control time issued at publication holds whatever the feed says later: while the program is
  published, the live board shows every frozen flight with exactly its frozen times, under control.\<close>

theorem frozen_times_hold:
  assumes "gdp_inv w" and "gd_status g = Published" and "assign_live w g inbounds now = Inr (ws, we, as)"
    and "s \<in> set (list_slots w (gd_id g))" and "a \<in> set as" and "as_cs a = sl_callsign s"
  shows "as_cta_ms a = sl_cta s \<and> as_edct_ms a = sl_edct s \<and> as_delay_min a = sl_delay_min s \<and>
    as_controlled a \<and> as_frozen a \<and> as_exempt_reason a = None"
proof -
  let ?frozen = "list_slots w (gd_id g)"
  obtain b where b: "a = hold_frozen ?frozen b"
    using assms(2,3,5) by (auto simp: assign_live_def bind_result_Inr_iff)
  then have cs: "as_cs b = sl_callsign s"
    using assms(6) by (auto simp: hold_frozen_def split: option.splits)
  have "x = s" if "x \<in> set ?frozen" "sl_callsign x = sl_callsign s" for x
    using that assms(1,4) by (auto simp: list_slots_def gdp_inv_def distinct_map inj_on_def slot_key_def)
  then have "find (\<lambda>x. sl_callsign x = as_cs b) ?frozen = Some s"
    using assms(4) cs by (intro find_unique) auto
  then show ?thesis by (simp add: b hold_frozen_def)
qed

theorem frozen_times_hold_witness:
  "map as_cta_ms (snd (snd (projr (assign_live sample_published (hd (gw_programs sample_published))
     [sample_inbound\<lparr>in_eta_ms := 9000000\<rparr>] 60)))) = [4000000]"
proof -
  let ?g = "hd (gw_programs sample_published)" and ?feed = "[sample_inbound\<lparr>in_eta_ms := 9000000\<rparr>]"
  obtain ws we a where live: "assign_live sample_published ?g ?feed 60 = Inr (ws, we, [a])"
    and cs: "as_cs a = lit ''DAL1''"
    by (rule that [of 3600000 10800000 "hd (snd (snd (projr (assign_live sample_published ?g ?feed 60))))"]) code_simp+
  have slot: "hd (gw_slots sample_published) \<in> set (list_slots sample_published (gd_id ?g))"
    "sl_callsign (hd (gw_slots sample_published)) = lit ''DAL1''" "sl_cta (hd (gw_slots sample_published)) = 4000000"
    "gd_status ?g = Published"
    by code_simp+
  have "gdp_inv sample_published" using runs_sound [OF rtranclp.rtrancl_into_rtrancl [OF sample_run] no_gdps_inv]
    by (simp add: sound_step_def)
  from frozen_times_hold [OF this slot(4) live slot(1), of a] cs slot(2,3) live show ?thesis by simp
qed



section \<open>Advisories and the cleanup pass\<close>

text \<open>C32. Publishing succeeds only on a draft and issues exactly one live advisory for the program, all or
  nothing: a refused publication leaves every table as it was.\<close>

theorem publish_all_or_nothing:
  assumes "gdp_inv w" and "publish_gdp_handler now gid inbounds w = (r, w')"
  shows "case r of
      Inl e \<Rightarrow> w' = w
    | Inr u \<Rightarrow> map_option gd_status (get_gdp w gid) = Some Draft \<and>
        map_option gd_status (get_gdp w' gid) = Some Published \<and> count_list (live_advisories w') gid = 1"
proof (cases r)
  case (Inr u)
  then have r: "r = Inr ()" by simp
  have "count_list (live_advisories w') gid = 1"
    using publish_step(2) [OF assms(2,1) r] by simp
  moreover obtain g where g: "get_gdp w gid = Some g" "gd_status g = Draft"
    using assms(2) r by (auto simp: publish_gdp_handler_def split: option.splits if_splits)
  moreover have "\<exists>g'. get_gdp w' gid = Some g' \<and> gd_status g' = Published"
  proof -
    obtain ok w1 where w1: "publish_gdp now gid w = (ok, w1)" by fastforce
    with assms(2) r g have progs: "gw_programs w' = gw_programs w1"
      by (cases ok) (auto simp: publish_gdp_handler_def bind_result_Inr_iff dest: replace_slots_Inr split: sum.splits)
    have w1p: "gw_programs w1 = map (\<lambda>h. if gd_id h = gid \<and> gd_status h = Draft then publish_row now h else h) (gw_programs w)"
      using w1 by (auto simp: publish_gdp_def update_program_def)
    note mem = get_gdp_Some [OF g(1)]
    have "h = g" if "h \<in> set (gw_programs w)" "gd_id h = gid" for h
      using that mem assms(1) by (auto simp: gdp_inv_def distinct_map dest: inj_onD)
    then have "find (\<lambda>h. gd_id h = gid) (gw_programs w') = Some (publish_row now g)"
      unfolding progs w1p using mem g(2)
      by (intro find_unique) (auto simp: publish_row_def image_iff split: if_splits)
    then show ?thesis by (simp add: get_gdp_def publish_row_def)
  qed
  ultimately show ?thesis using r by auto
next
  case (Inl e)
  then show ?thesis using assms(2) by (auto simp: publish_gdp_handler_def split: option.splits if_splits sum.splits)
qed

theorem publish_all_or_nothing_witness:
  "map_option gd_status (get_gdp sample_published [65]) = Some Published \<and>
   count_list (live_advisories sample_published) [65] = 1"
proof -
  let ?feed = "[sample_inbound, sample_inbound\<lparr>in_cs := lit ''DAL2''\<rparr>]"
  have "fst (publish_gdp_handler 0 [65] ?feed sample_world) = Inr ()" by code_simp
  then have r: "publish_gdp_handler 0 [65] ?feed sample_world = (Inr (), sample_published)"
    unfolding sample_published_def by (metis prod.collapse)
  have "gdp_inv sample_world" using runs_sound [OF sample_run(1) no_gdps_inv] by (simp add: sound_step_def)
  from publish_all_or_nothing [OF this r] show ?thesis by simp
qed

text \<open>One cleanup pass settles the tables: afterwards no program still in force is past its end, and
  no advisory is live for a program that is over.\<close>

theorem cleanup_settles:
  "list_all (\<lambda>g. \<not> (active g \<and> past_end gdp_end_ts now g)) (gw_programs (cleanup_gdps gdp_end_ts now w)) \<and>
   list_all (\<lambda>gid. list_all (\<lambda>g. \<not> (gd_id g = gid \<and> \<not> active g)) (gw_programs (cleanup_gdps gdp_end_ts now w)))
     (live_advisories (cleanup_gdps gdp_end_ts now w))"
proof
  show "list_all (\<lambda>g. \<not> (active g \<and> past_end gdp_end_ts now g)) (gw_programs (cleanup_gdps gdp_end_ts now w))"
    by (auto simp: cleanup_gdps_def Let_def drop_programs_def update_program_def list_all_iff expire_row_def active_def)
  show "list_all (\<lambda>gid. list_all (\<lambda>g. \<not> (gd_id g = gid \<and> \<not> active g)) (gw_programs (cleanup_gdps gdp_end_ts now w)))
     (live_advisories (cleanup_gdps gdp_end_ts now w))"
    unfolding live_advisories_def cleanup_gdps_def Let_def gdp_world.select_convs gdp_world.update_convs live_retired
    by (auto simp: list_all_iff list_ex_iff)
qed

text \<open>Cancelling a program leaves its advisory live until the next cleanup pass: the handler does not
  withdraw it.\<close>

lemma cancel_leaves_advisory:
  "gw_advisories (snd (cancel_gdp_handler now gid w)) = gw_advisories w"
  by (simp add: cancel_gdp_handler_def cancel_gdp_def update_program_def answer_def)

end
