(* ===== verification/DocText.thy ===== *)
theory DocText
  imports Prelude
begin

text \<open>
  \<open>backend/src/text.rs\<close>: collapsing every run of whitespace to one space, the hygiene the one-line
  renderers rest on. A string is tidy when collapsing leaves it alone; tidiness is a local
  property of neighbouring characters, which is what makes it compose.
\<close>

definition collapse :: "ustr \<Rightarrow> ustr" where
  "collapse s = join [32] (split_whitespace s)"

definition tidy :: "ustr \<Rightarrow> bool" where
  "tidy s \<longleftrightarrow> list_all (\<lambda>c. is_whitespace c \<longrightarrow> c = 32) s \<and>
     (s \<noteq> [] \<longrightarrow> \<not> is_whitespace (hd s) \<and> \<not> is_whitespace (last s)) \<and>
     successively (\<lambda>c d. \<not> (is_whitespace c \<and> is_whitespace d)) s"

lemma tidy_Nil [simp]: "tidy []"
  by (simp add: tidy_def)

lemma space_is_whitespace [simp]: "is_whitespace 32"
  by (simp add: is_whitespace_def)

lemma successively_trivial: "list_all P xs \<Longrightarrow> (\<And>x y. P x \<Longrightarrow> Q x y) \<Longrightarrow> successively Q xs"
  by (induction xs rule: induct_list012) auto

lemma tidy_word: "list_all (\<lambda>c. \<not> is_whitespace c) s \<Longrightarrow> tidy s"
  unfolding tidy_def
  by (auto simp: list_all_iff intro: successively_trivial [where P = "\<lambda>c. \<not> is_whitespace c"] dest: hd_in_set last_in_set)

lemma tidy_append:
  "tidy a \<Longrightarrow> tidy b \<Longrightarrow> tidy (a @ b)"
  by (cases "a = []"; cases "b = []") (auto simp: tidy_def successively_append_iff hd_append)

lemma tidy_space_append: "tidy a \<Longrightarrow> a \<noteq> [] \<Longrightarrow> tidy b \<Longrightarrow> b \<noteq> [] \<Longrightarrow> tidy (a @ 32 # b)"
  by (auto simp: tidy_def successively_append_iff successively_Cons hd_append)

lemma tidy_join: "\<forall>x\<in>set xs. tidy x \<and> x \<noteq> [] \<Longrightarrow> tidy (join [32] xs)"
proof (induction "[32 :: int]" xs rule: join.induct)
  case (3 x y xs)
  moreover have "join [32] (y # xs) \<noteq> []" using "3.prems" by (cases xs) auto
  ultimately show ?case using tidy_space_append by simp
qed simp_all

lemma split_whitespace_words:
  "\<forall>p\<in>set (split_whitespace s). p \<noteq> [] \<and> list_all (\<lambda>c. \<not> is_whitespace c) p"
  using words_acc_nonempty [of _ "[]" s] words_acc_no_ws [of "[]" _ s] by (auto simp: split_whitespace_def)

lemma tidy_collapse [simp]: "tidy (collapse s)"
  unfolding collapse_def using split_whitespace_words by (blast intro: tidy_join tidy_word)

lemma join_Cons: "xs \<noteq> [] \<Longrightarrow> join sep (x # xs) = x @ sep @ join sep xs"
  by (cases xs) auto

lemma words_acc_tidy:
  "list_all (\<lambda>c. is_whitespace c \<longrightarrow> c = 32) s \<Longrightarrow>
   successively (\<lambda>c d. \<not> (is_whitespace c \<and> is_whitespace d)) s \<Longrightarrow>
   s = [] \<or> \<not> is_whitespace (last s) \<Longrightarrow> w \<noteq> [] \<or> s = [] \<or> \<not> is_whitespace (hd s) \<Longrightarrow>
   join [32] (words_acc w s) = w @ s \<and> (w @ s \<noteq> [] \<longrightarrow> words_acc w s \<noteq> [])"
proof (induction w s rule: words_acc.induct)
  case (2 w c s)
  show ?case
  proof (cases "is_whitespace c")
    case False
    then show ?thesis using "2.IH"(3) "2.prems" by (auto simp: successively_Cons split: if_splits)
  next
    case True
    then have s: "c = 32" "s \<noteq> []" "\<not> is_whitespace (hd s)" "w \<noteq> []" "\<not> is_whitespace (last s)"
      using "2.prems" by (auto simp: successively_Cons split: if_splits)
    then have "join [32] (words_acc [] s) = s \<and> words_acc [] s \<noteq> []"
      using "2.IH"(2) True "2.prems" by (auto simp: successively_Cons)
    then show ?thesis using s True by (simp add: join_Cons)
  qed
qed simp

theorem collapse_tidy: "tidy s \<longleftrightarrow> collapse s = s"
proof
  assume "tidy s"
  then show "collapse s = s"
    unfolding collapse_def split_whitespace_def using words_acc_tidy [of s "[]"] by (auto simp: tidy_def)
qed (metis tidy_collapse)

lemma collapse_idem [simp]: "collapse (collapse s) = collapse s"
  using collapse_tidy tidy_collapse by blast

lemma tidy_ascii_upper [simp]: "tidy (ascii_upper s) \<longleftrightarrow> tidy s"
proof -
  define f where "f = (\<lambda>c. if is_ascii_lowercase c then c - 32 else c :: int)"
  have ws: "is_whitespace (f c) \<longleftrightarrow> is_whitespace c" and eq: "f c = 32 \<longleftrightarrow> c = 32" for c
    by (auto simp: f_def is_whitespace_def is_ascii_lowercase_def)
  have "ascii_upper s = map f s" for s by (simp add: ascii_upper_def f_def)
  then show ?thesis
    by (cases "s = []") (simp_all add: tidy_def list_all_iff hd_map last_map successively_map ws eq)
qed

end
