(* ===== verification/Ntml.thy ===== *)
theory Ntml
  imports DocText
begin

text \<open>
  The NTML codec, \<open>backend/src/tmi.rs\<close>: a structured restriction becomes the raw line stored on the
  initiative and the English sentence pilots read, and a row becomes the line of the NTML channel. An
  instant is the calendar fields \<open>format\<close> prints; \<open>str::to_lowercase\<close> of arbitrary Unicode
  text is an argument.
\<close>

section \<open>The data\<close>

record bound =
  bd_op :: ustr
  bd_value :: int

record ntml_restriction =
  nr_element :: ustr
  nr_direction :: ustr
  nr_via :: "ustr option"
  nr_kind :: ustr
  nr_value :: "int option"
  nr_text :: "ustr option"
  nr_qualifier :: "ustr option"
  nr_aircraft :: "ustr option"
  nr_speed :: "bound option"
  nr_altitude :: "bound option"
  nr_condition :: "ustr option"
  nr_condition_detail :: "ustr option"
  nr_exclude :: "ustr list"

record civil =
  cv_year :: int
  cv_month :: int
  cv_day :: int
  cv_hour :: int
  cv_minute :: int

section \<open>Encoding\<close>

definition clean_upper :: "ustr \<Rightarrow> ustr" where
  "clean_upper s = ascii_upper (collapse s)"

definition opt_text :: "ustr option \<Rightarrow> ustr option" where
  "opt_text v = (case v of None \<Rightarrow> None | Some s \<Rightarrow> if collapse s = [] then None else Some (collapse s))"

definition option_part :: "('a \<Rightarrow> ustr) \<Rightarrow> 'a option \<Rightarrow> ustr list" where
  "option_part f v = (case v of None \<Rightarrow> [] | Some x \<Rightarrow> [f x])"

definition direction_part :: "ustr \<Rightarrow> ustr list" where
  "direction_part d =
     (let w = ascii_lower (collapse d) in
      if w = lit ''arrivals'' then [lit ''arrivals'']
      else if w = lit ''departures'' then [lit ''departures''] else [])"

definition kind_part :: "ntml_restriction \<Rightarrow> ustr list" where
  "kind_part r =
     (let kind = clean_upper (nr_kind r) in
      if kind = lit ''MIT'' \<or> kind = lit ''MINIT''
      then [show_int (case nr_value r of None \<Rightarrow> 0 | Some v \<Rightarrow> v) @ kind]
      else if kind = lit ''TXT'' then option_part (\<lambda>t. t) (opt_text (nr_text r))
      else [kind])"

definition condition_part :: "ntml_restriction \<Rightarrow> ustr list" where
  "condition_part r =
     (case opt_text (nr_condition r) of
        None \<Rightarrow> []
      | Some c \<Rightarrow> (case opt_text (nr_condition_detail r) of
            Some d \<Rightarrow> [clean_upper c @ lit '':'' @ clean_upper d]
          | None \<Rightarrow> [clean_upper c]))"

definition excluded :: "ntml_restriction \<Rightarrow> ustr list" where
  "excluded r = filter (\<lambda>e. e \<noteq> []) (map clean_upper (nr_exclude r))"

definition encode_parts :: "ntml_restriction \<Rightarrow> ustr list" where
  "encode_parts r =
     [clean_upper (nr_element r)] @
     direction_part (nr_direction r) @
     option_part (\<lambda>v. lit ''via '' @ clean_upper v) (opt_text (nr_via r)) @
     kind_part r @
     option_part clean_upper (opt_text (nr_qualifier r)) @
     option_part (\<lambda>a. lit ''TYPE:'' @ clean_upper a) (opt_text (nr_aircraft r)) @
     option_part (\<lambda>s. lit ''SPD:'' @ collapse (bd_op s) @ show_int (bd_value s)) (nr_speed r) @
     option_part (\<lambda>a. lit ''ALT:'' @ clean_upper (bd_op a) @ show_zero_padded 3 (bd_value a)) (nr_altitude r) @
     condition_part r @
     (if excluded r = [] then [] else [lit ''EXCL:'' @ join (lit '','') (excluded r)])"

definition encode :: "ntml_restriction \<Rightarrow> ustr" where
  "encode r = join (lit '' '') (encode_parts r)"

section \<open>English\<close>

definition speed_english :: "bound \<Rightarrow> ustr" where
  "speed_english b =
     (let op = collapse (bd_op b);
          lead = (if op = [8804] \<or> op = lit ''<='' then lit ''at or below ''
                  else if op = [8805] \<or> op = lit ''>='' then lit ''at or above '' else lit ''at '')
      in lead @ show_int (bd_value b) @ lit ''kt'')"

definition altitude_english :: "bound \<Rightarrow> ustr" where
  "altitude_english b =
     (let op = clean_upper (bd_op b);
          lead = (if op = lit ''AOB'' then lit ''at or below ''
                  else if op = lit ''AOA'' then lit ''at or above '' else lit ''at '')
      in lead @ lit ''FL'' @ show_zero_padded 3 (bd_value b))"

definition condition_english :: "ustr \<Rightarrow> ustr option \<Rightarrow> ustr" where
  "condition_english cat detail =
     (let base = ascii_lower (collapse cat) in
      case detail of
        Some d \<Rightarrow> if ascii_lower d = ascii_lower cat then base
                  else base @ lit '' ('' @ ascii_lower (collapse d) @ lit '')''
      | None \<Rightarrow> base)"

definition kind_english :: "(ustr \<Rightarrow> ustr) \<Rightarrow> ntml_restriction \<Rightarrow> ustr" where
  "kind_english to_lowercase r =
     (let kind = clean_upper (nr_kind r); value = show_int (case nr_value r of None \<Rightarrow> 0 | Some v \<Rightarrow> v) in
      if kind = lit ''MIT'' then value @ lit '' miles-in-trail''
      else if kind = lit ''MINIT'' then value @ lit '' minutes-in-trail''
      else if kind = lit ''STOP'' then lit ''stop''
      else if kind = lit ''APREQ'' then lit ''approval request (APREQ)''
      else if kind = lit ''CFR'' then lit ''call-for-release (CFR)''
      else if kind = lit ''DSP'' then lit ''departure spacing program (DSP)''
      else if kind = lit ''TBM'' then lit ''time-based metering (TBM)''
      else if kind = lit ''TXT'' then
        (case opt_text (nr_text r) of None \<Rightarrow> lit ''free-text restriction'' | Some t \<Rightarrow> t)
      else to_lowercase kind)"

definition aircraft_english :: "(ustr \<Rightarrow> ustr) \<Rightarrow> ustr \<Rightarrow> ustr" where
  "aircraft_english to_lowercase a =
     (let kind = clean_upper a in
      if kind = lit ''ALL'' then lit ''all aircraft''
      else if kind = lit ''JET'' then lit ''jets only''
      else if kind = lit ''PROP'' then lit ''props only''
      else if kind = lit ''TURBOPROP'' then lit ''turboprops only''
      else to_lowercase kind)"

definition render_english :: "(ustr \<Rightarrow> ustr) \<Rightarrow> ntml_restriction \<Rightarrow> ustr" where
  "render_english to_lowercase r =
     (let mods = option_part to_lowercase (opt_text (nr_qualifier r)) @
            option_part (aircraft_english to_lowercase) (opt_text (nr_aircraft r)) @
            option_part speed_english (nr_speed r) @ option_part altitude_english (nr_altitude r)
      in clean_upper (nr_element r) @
         concat (map (\<lambda>w. lit '' '' @ w) (direction_part (nr_direction r))) @
         concat (option_part (\<lambda>v. lit '' via '' @ clean_upper v) (opt_text (nr_via r))) @
         lit '': '' @ kind_english to_lowercase r @
         (if mods = [] then [] else lit '' ('' @ join (lit '', '') mods @ lit '')'') @
         concat (option_part (\<lambda>c. 32 # 8212 # lit '' due to '' @
             condition_english c (opt_text (nr_condition_detail r))) (opt_text (nr_condition r))) @
         (if excluded r = [] then [] else lit ''; excluding '' @ join (lit '', '') (excluded r)))"

section \<open>The line of the channel\<close>

definition facilities :: "ustr option \<Rightarrow> ustr option \<Rightarrow> ustr option" where
  "facilities requesting providing =
     (case (opt_text requesting, opt_text providing) of
        (Some req, Some prov) \<Rightarrow> Some (clean_upper req @ lit '':'' @ clean_upper prov)
      | (Some req, None) \<Rightarrow> Some (clean_upper req)
      | (None, Some prov) \<Rightarrow> Some (clean_upper prov)
      | (None, None) \<Rightarrow> None)"

definition show_hhmm :: "civil \<Rightarrow> ustr" where
  "show_hhmm t = show_zero_padded 2 (cv_hour t) @ show_zero_padded 2 (cv_minute t)"

definition log_stamp :: "civil \<Rightarrow> ustr" where
  "log_stamp t = show_zero_padded 2 (cv_day t) @ lit ''/'' @ show_hhmm t"

definition window :: "civil option \<Rightarrow> civil option \<Rightarrow> ustr option" where
  "window start stop =
     (case (start, stop) of (Some a, Some b) \<Rightarrow> Some (show_hhmm a @ lit ''-'' @ show_hhmm b) | _ \<Rightarrow> None)"

definition ntml_line ::
    "civil \<Rightarrow> ustr \<Rightarrow> civil option \<Rightarrow> civil option \<Rightarrow> ustr option \<Rightarrow> ustr option \<Rightarrow> ustr" where
  "ntml_line logged_at restriction start stop requesting providing =
     join (lit '' '') ([log_stamp logged_at, collapse restriction] @
       option_part (\<lambda>w. w) (window start stop) @ option_part (\<lambda>f. f) (facilities requesting providing))"

definition ntml_cancel_line :: "civil \<Rightarrow> ustr \<Rightarrow> ustr option \<Rightarrow> ustr option \<Rightarrow> ustr" where
  "ntml_cancel_line logged_at restriction requesting providing =
     join (lit '' '') ([log_stamp logged_at, collapse restriction, lit ''CANCEL TMI''] @
       option_part (\<lambda>f. f) (facilities requesting providing))"

section \<open>One tidy line\<close>

lemma tidy_clean_upper [simp]: "tidy (clean_upper s)"
  by (simp add: clean_upper_def)

lemma opt_text_Some: "opt_text v = Some t \<Longrightarrow> t \<noteq> [] \<and> tidy t"
  by (auto simp: opt_text_def split: option.splits if_splits)

lemma clean_upper_Nil: "tidy s \<Longrightarrow> clean_upper s = [] \<longleftrightarrow> s = []"
  by (simp add: clean_upper_def collapse_tidy)

lemma tidy_show_nat: "tidy (show_nat n)"
  by (rule tidy_word) (auto simp: list_all_iff is_whitespace_def is_ascii_digit_def dest: show_nat_digits)

lemma tidy_show_int [simp]: "tidy (show_int i)" and show_int_not_Nil [simp]: "show_int i \<noteq> []"
  using tidy_append [of "[45]" "show_nat (nat (- i))"]
  by (auto simp: show_int_def tidy_show_nat tidy_word is_whitespace_def)

lemma tidy_zeros: "tidy (replicate n (48 :: int))"
  by (rule tidy_word) (auto simp: list_all_iff is_whitespace_def)

lemma tidy_show_zero_padded [simp]: "tidy (show_zero_padded w i)" and show_zero_padded_not_Nil [simp]: "show_zero_padded w i \<noteq> []"
  using tidy_append [of "[45]" "pad_left 48 (w - 1) (show_nat (nat (- i)))"]
  by (auto simp: show_zero_padded_def pad_left_def tidy_append tidy_zeros tidy_show_nat tidy_word is_whitespace_def)

text \<open>A literal without whitespace is tidy; \<open>part\<close> says a piece may stand between single spaces.\<close>

definition part :: "ustr \<Rightarrow> bool" where
  "part s \<longleftrightarrow> tidy s \<and> s \<noteq> []"

lemma part_append: "part a \<Longrightarrow> tidy b \<Longrightarrow> part (a @ b)" "tidy a \<Longrightarrow> part b \<Longrightarrow> part (a @ b)"
  by (auto simp: part_def tidy_append)

lemma part_clean_upper: "part s \<Longrightarrow> part (clean_upper s)"
  by (simp add: part_def clean_upper_Nil)

lemma part_opt_text: "opt_text v = Some t \<Longrightarrow> part t"
  using opt_text_Some by (simp add: part_def)

lemma part_option_part:
  "(\<And>x. v = Some x \<Longrightarrow> part (f x)) \<Longrightarrow> list_all part (option_part f v)"
  by (auto simp: option_part_def split: option.splits)

lemma literal_parts:
  "part (lit ''arrivals'')" "part (lit ''departures'')" "part (lit ''TYPE:'')" "part (lit ''SPD:'')"
  "part (lit ''ALT:'')" "part (lit ''EXCL:'')" "part (lit '':'')" "part (lit '','')" "part (lit ''via'')"
  "part (lit ''/'')" "part (lit ''-'')" "part (lit ''CANCEL'')" "part (lit ''TMI'')"
  by (auto simp: part_def lit_def is_whitespace_def intro!: tidy_word)

lemma part_join_comma: "xs \<noteq> [] \<Longrightarrow> \<forall>x\<in>set xs. part x \<Longrightarrow> part (join (lit '','') xs)"
  by (induction "lit '',''" xs rule: join.induct) (auto intro: part_append literal_parts simp: part_def tidy_append literal_parts [unfolded part_def])

lemma part_tidy: "part s \<Longrightarrow> tidy s"
  by (simp add: part_def)

lemma part_numbers [simp]: "part (show_int i)" "part (show_zero_padded w i)"
  by (simp_all add: part_def)

lemma encode_parts_tidy:
  assumes "collapse (nr_element r) \<noteq> []" and "collapse (nr_kind r) \<noteq> []"
  shows "list_all part (encode_parts r)"
proof -
  have e: "part (clean_upper (nr_element r))" and k: "part (clean_upper (nr_kind r))"
    using assms(1,2) by (simp_all add: part_def clean_upper_def)
  have via: "part (lit ''via '' @ clean_upper v)" if "part v" for v
    using tidy_space_append [of "lit ''via''" "clean_upper v"] part_clean_upper [OF that] literal_parts(9)
    by (simp add: part_def lit_def)
  have excl: "list_all part (if excluded r = [] then [] else [lit ''EXCL:'' @ join (lit '','') (excluded r)])"
  proof -
    have "\<forall>x\<in>set (excluded r). part x" by (auto simp: excluded_def part_def)
    then show ?thesis by (simp add: part_append(1) literal_parts part_tidy part_join_comma)
  qed
  have kind: "list_all part (kind_part r)"
    using k part_append(1) [OF part_numbers(1) part_tidy [OF k]]
    by (auto simp: kind_part_def Let_def intro!: part_option_part part_opt_text)
  have condition: "list_all part (condition_part r)"
    by (auto simp: condition_part_def part_clean_upper literal_parts split: option.splits
        intro!: part_append(1) dest!: part_opt_text intro: part_tidy)
  show ?thesis
    unfolding encode_parts_def list_all_append
    using e kind condition excl
    by (auto simp: direction_part_def Let_def literal_parts
        intro!: part_option_part part_clean_upper via part_append(1) [OF literal_parts(3)]
          part_append(1) [OF literal_parts(4)] part_append(1) [OF literal_parts(5)] tidy_append
        dest!: part_opt_text)
qed

text \<open>The raw line a structured restriction is stored under is already in canonical form: with an
  element and a kind present it is not empty and collapsing whitespace leaves it alone, so the
  channel's line shows exactly what the row holds; this is so whatever the author typed into the fields.\<close>

theorem encode_is_canonical:
  assumes "collapse (nr_element r) \<noteq> []" and "collapse (nr_kind r) \<noteq> []"
  shows "encode r \<noteq> [] \<and> collapse (encode r) = encode r \<and>
    ntml_line at (encode r) start stop req prov =
      join (lit '' '') ([log_stamp at] @ encode_parts r @ option_part (\<lambda>w. w) (window start stop) @
        option_part (\<lambda>f. f) (facilities req prov))"
proof -
  have parts: "\<forall>p\<in>set (encode_parts r). tidy p \<and> p \<noteq> []" and ne: "encode_parts r \<noteq> []"
    using encode_parts_tidy [OF assms] by (auto simp: list_all_iff part_def encode_parts_def)
  have sp: "lit '' '' = [32]" by (simp add: lit_def)
  have "encode r \<noteq> []" using parts ne by (cases "encode_parts r" rule: remdups_adj.cases) (auto simp: encode_def)
  moreover have c: "collapse (encode r) = encode r"
    unfolding encode_def sp by (simp add: collapse_tidy [symmetric] tidy_join parts)
  moreover have "join sep (a # join sep xs # ys) = join sep (a # xs @ ys)" if "xs \<noteq> []" for sep a ys and xs :: "ustr list"
    using that by (induction sep xs rule: join.induct) (auto, (cases ys; simp)+)
  ultimately show ?thesis using ne unfolding ntml_line_def c by (simp add: encode_def)
qed

definition sample_restriction :: ntml_restriction where
  "sample_restriction = \<lparr>nr_element = lit ''jfk'', nr_direction = lit ''arrivals'', nr_via = Some (lit '' camrn ''),
     nr_kind = lit ''mit'', nr_value = Some 20, nr_text = None, nr_qualifier = Some (lit ''no   stacks''),
     nr_aircraft = Some (lit ''ALL''), nr_speed = Some \<lparr>bd_op = [8804], bd_value = 210\<rparr>,
     nr_altitude = Some \<lparr>bd_op = lit ''AOB'', bd_value = 90\<rparr>, nr_condition = Some (lit ''VOLUME''),
     nr_condition_detail = Some (lit ''VOLUME''), nr_exclude = [lit ''PHL'']\<rparr>"

lemma sample_restriction_encoded:
  "encode sample_restriction =
     lit ''JFK arrivals via CAMRN 20MIT NO STACKS TYPE:ALL SPD:'' @ [8804] @ lit ''210 ALT:AOB090 VOLUME:VOLUME EXCL:PHL''"
  by code_simp

theorem encode_is_canonical_witness:
  "collapse (encode sample_restriction) = encode sample_restriction"
proof -
  have "collapse (nr_element sample_restriction) \<noteq> []" "collapse (nr_kind sample_restriction) \<noteq> []" by code_simp+
  from encode_is_canonical [OF this] show ?thesis by blast
qed

text \<open>C2. Whatever the row holds, its line and its cancellation line are one line: their only whitespace
  is the space, and they begin with the log stamp.\<close>

definition one_line :: "ustr \<Rightarrow> bool" where
  "one_line s \<longleftrightarrow> list_all (\<lambda>c. is_whitespace c \<longrightarrow> c = 32) s"

lemma one_line_simps [simp]:
  "one_line []" "one_line (a @ b) \<longleftrightarrow> one_line a \<and> one_line b"
  "one_line (c # s) \<longleftrightarrow> (is_whitespace c \<longrightarrow> c = 32) \<and> one_line s"
  by (auto simp: one_line_def)

lemma one_line_tidy: "tidy s \<Longrightarrow> one_line s"
  by (simp add: one_line_def tidy_def)

lemma one_line_join: "one_line sep \<Longrightarrow> list_all one_line xs \<Longrightarrow> one_line (join sep xs)"
  by (induction sep xs rule: join.induct) auto

lemma log_stamp_tidy: "tidy (log_stamp t)" "tidy (show_hhmm t)"
  by (auto simp: log_stamp_def show_hhmm_def part_tidy [OF literal_parts(10)] intro!: tidy_append)

lemma facilities_tidy: "facilities req prov = Some f \<Longrightarrow> tidy f"
  by (auto simp: facilities_def part_tidy [OF literal_parts(7)] split: option.splits intro!: tidy_append)

lemma window_tidy: "window start stop = Some s \<Longrightarrow> tidy s"
  by (auto simp: window_def log_stamp_tidy part_tidy [OF literal_parts(11)] split: option.splits intro!: tidy_append)

theorem ntml_lines_are_one_line:
  "one_line (ntml_line at restriction start stop req prov) \<and>
   one_line (ntml_cancel_line at restriction req prov) \<and>
   starts_with (log_stamp at) (ntml_line at restriction start stop req prov) \<and>
   starts_with (log_stamp at @ lit '' '' @ collapse restriction @ lit '' CANCEL TMI'') (ntml_cancel_line at restriction req prov)"
proof -
  have w: "list_all one_line (option_part (\<lambda>w. w) (window start stop))"
    by (auto simp: option_part_def one_line_tidy window_tidy split: option.splits)
  have f: "list_all one_line (option_part (\<lambda>w. w) (facilities req prov))"
    by (auto simp: option_part_def one_line_tidy facilities_tidy split: option.splits)
  have l: "one_line (lit '' '')" "one_line (lit ''CANCEL TMI'')" by (simp_all add: lit_def one_line_def is_whitespace_def)
  have "one_line (ntml_line at restriction start stop req prov)" "one_line (ntml_cancel_line at restriction req prov)"
    unfolding ntml_line_def ntml_cancel_line_def
    using w f l by (auto intro!: one_line_join simp: one_line_tidy log_stamp_tidy)
  moreover have "starts_with (log_stamp at) (ntml_line at restriction start stop req prov)"
    by (auto simp: starts_with_iff ntml_line_def)
  moreover have "starts_with (log_stamp at @ lit '' '' @ collapse restriction @ lit '' CANCEL TMI'') (ntml_cancel_line at restriction req prov)"
    unfolding starts_with_iff ntml_cancel_line_def
    by (cases "facilities req prov") (auto simp: option_part_def lit_def)
  ultimately show ?thesis by blast
qed

end
