(* ===== verification/AdvisoryDoc.thy ===== *)
theory AdvisoryDoc
  imports Ntml GdpLife
begin

text \<open>
  The advisory documents, \<open>backend/src/advisory.rs\<close>: the three renderers, the cancellation notice,
  and the fields a published program's document is derived from. The IATA index is the list of its
  entries in iteration order; instants are the calendar fields \<open>format\<close> prints.
\<close>

section \<open>The structured fields\<close>

record reroute_row =
  rr_orig :: ustr
  rr_dest :: ustr
  rr_route :: ustr

record reroute_segment =
  rs_orig :: ustr
  rs_route :: ustr

datatype reroute_routes =
    Single "reroute_row list"
  | Segmented "reroute_segment list" "reroute_segment list"

datatype reroute_valid_basis = FcaEntryTime | Etd

record reroute_valid =
  rv_basis :: reroute_valid_basis
  rv_from :: ustr
  rv_to :: ustr

record reroute_advisory =
  ra_header :: ustr
  ra_name :: ustr
  ra_impacted_area :: ustr
  ra_reason :: "ustr option"
  ra_include_traffic :: "ustr option"
  ra_valid :: reroute_valid
  ra_facilities_included :: "ustr option"
  ra_probability_of_extension :: "ustr option"
  ra_remarks :: "ustr option"
  ra_associated_restrictions :: "ustr option"
  ra_modifications :: "ustr option"
  ra_routes :: reroute_routes

record gdp_advisory =
  ga_header :: ustr
  ga_element :: ustr
  ga_control_element :: ustr
  ga_element_type :: ustr
  ga_adl_time :: ustr
  ga_delay_assignment_mode :: ustr
  ga_arrivals_estimated_for :: ustr
  ga_cumulative_program_period :: ustr
  ga_program_rate :: ustr
  ga_pop_up_factor :: "ustr option"
  ga_flights_included :: "ustr list"
  ga_departure_scope :: "ustr option"
  ga_additional_dep_facilities_included :: "ustr option"
  ga_exempt_dep_facilities :: "ustr option"
  ga_canadian_arpts_included :: "ustr option"
  ga_delay_assignment_table_applies_to :: "ustr option"
  ga_delay_limit :: "ustr option"
  ga_maximum_delay :: "ustr option"
  ga_average_delay :: "ustr option"
  ga_impacting_condition :: "ustr option"
  ga_comments :: "ustr option"
  ga_period :: ustr

record ground_stop_advisory =
  sa_header :: ustr
  sa_element :: ustr
  sa_control_element :: ustr
  sa_element_type :: ustr
  sa_adl_time :: ustr
  sa_ground_stop_period :: ustr
  sa_cumulative_program_period :: ustr
  sa_flights_included :: "ustr list"
  sa_additional_dep_facilities_included :: "ustr option"
  sa_current_delays :: "ustr option"
  sa_previous_delays :: "ustr option"
  sa_new_delays :: "ustr option"
  sa_probability_of_extension :: "ustr option"
  sa_impacting_condition :: "ustr option"
  sa_comments :: "ustr option"
  sa_period :: ustr

record advisory_ident =
  ai_facility :: ustr
  ai_number :: int
  ai_issued_day :: civil
  ai_signed_at :: civil

section \<open>The renderers\<close>

definition label :: "string \<Rightarrow> ustr option \<Rightarrow> ustr" where
  "label name value = (case value of Some v \<Rightarrow> lit name @ lit '': '' @ v | None \<Rightarrow> lit name @ lit '':'')"

fun table_line :: "nat list \<Rightarrow> ustr list \<Rightarrow> ustr" where
  "table_line widths [] = []"
| "table_line widths [cell] = collapse cell"
| "table_line widths (cell # c # cells) = pad_right 32 (hd widths) (collapse cell) @ table_line (tl widths) (c # cells)"

definition table :: "string list \<Rightarrow> nat list \<Rightarrow> ustr list list \<Rightarrow> ustr list" where
  "table headings widths rows =
     [table_line widths (map lit headings), table_line widths (map (\<lambda>h. replicate (length h) 45) headings)] @
     map (table_line widths) rows"

definition segment_cells :: "reroute_segment list \<Rightarrow> ustr list list" where
  "segment_cells = map (\<lambda>r. [clean_upper (rs_orig r), collapse (rs_route r)])"

fun route_section :: "reroute_routes \<Rightarrow> ustr list" where
  "route_section (Single rows) = lit ''ROUTE:'' #
     table [''ORIG'', ''DEST'', ''ROUTE''] [9, 10]
       (map (\<lambda>r. [clean_upper (rr_orig r), clean_upper (rr_dest r), collapse (rr_route r)]) rows)"
| "route_section (Segmented origin destination) = lit ''ROUTE:'' #
     table [''ORIG'', ''ROUTE - ORIGIN SEGMENTS''] [12] (segment_cells origin) @ [[]] @
     table [''ORIG'', ''ROUTE - DESTINATION SEGMENTS''] [12] (segment_cells destination)"

definition show_day :: "civil \<Rightarrow> ustr" where
  "show_day d = show_zero_padded 2 (cv_month d) @ lit ''/'' @ show_zero_padded 2 (cv_day d) @ lit ''/'' @
     show_zero_padded 4 (cv_year d)"

definition signature :: "civil \<Rightarrow> ustr" where
  "signature t = show_zero_padded 2 (cv_year t mod 100) @ lit ''/'' @ show_zero_padded 2 (cv_month t) @ lit ''/'' @
     show_zero_padded 2 (cv_day t) @ lit '' '' @ show_zero_padded 2 (cv_hour t) @ lit '':'' @ show_zero_padded 2 (cv_minute t)"

definition header_line :: "advisory_ident \<Rightarrow> ustr \<Rightarrow> ustr \<Rightarrow> ustr" where
  "header_line ident element header = lit ''vATCSCC ADVZY '' @ show_zero_padded 3 (ai_number ident) @ lit '' '' @
     element @ lit '' '' @ show_day (ai_issued_day ident) @ lit '' '' @ header"

definition tmi_id_line :: "advisory_ident \<Rightarrow> ustr" where
  "tmi_id_line ident = lit ''TMI ID: RR'' @ clean_upper (ai_facility ident) @ show_zero_padded 3 (ai_number ident)"

definition valid_text :: "reroute_valid \<Rightarrow> ustr" where
  "valid_text v = (case rv_basis v of
       FcaEntryTime \<Rightarrow> lit ''FCA ENTRY TIME FROM '' @ collapse (rv_from v) @ lit '' TO '' @ collapse (rv_to v)
     | Etd \<Rightarrow> lit ''ETD '' @ collapse (rv_from v) @ lit '' TO '' @ collapse (rv_to v))"

definition reroute_lines :: "reroute_advisory \<Rightarrow> advisory_ident \<Rightarrow> ustr list" where
  "reroute_lines a ident =
     [header_line ident (clean_upper (ai_facility ident)) (clean_upper (ra_header a)),
      label ''NAME'' (Some (clean_upper (ra_name a))),
      label ''IMPACTED AREA'' (Some (clean_upper (ra_impacted_area a))),
      label ''REASON'' (opt_text (ra_reason a)),
      label ''INCLUDE TRAFFIC'' (opt_text (ra_include_traffic a)),
      label ''VALID'' (Some (valid_text (ra_valid a))),
      label ''FACILITIES INCLUDED'' (opt_text (ra_facilities_included a)),
      label ''PROBABILITY OF EXTENSION'' (opt_text (ra_probability_of_extension a)),
      label ''REMARKS'' (opt_text (ra_remarks a)),
      label ''ASSOCIATED RESTRICTIONS'' (opt_text (ra_associated_restrictions a)),
      label ''MODIFICATIONS'' (opt_text (ra_modifications a))] @
     route_section (ra_routes a) @
     [[], tmi_id_line ident,
      collapse (rv_from (ra_valid a)) @ lit ''-'' @ collapse (rv_to (ra_valid a)),
      signature (ai_signed_at ident)]"

definition render_reroute :: "reroute_advisory \<Rightarrow> advisory_ident \<Rightarrow> ustr" where
  "render_reroute a ident = join [10] (reroute_lines a ident)"

definition flt_incl :: "ustr list \<Rightarrow> ustr list" where
  "flt_incl entries =
     (let printed = map (\<lambda>e. lit ''FLT INCL: '' @ e) (filter (\<lambda>e. e \<noteq> []) (map collapse entries))
      in if printed = [] then [label ''FLT INCL'' None] else printed)"

definition gdp_lines :: "gdp_advisory \<Rightarrow> advisory_ident \<Rightarrow> ustr list" where
  "gdp_lines a ident =
     [header_line ident (clean_upper (ga_element a)) (clean_upper (ga_header a)),
      label ''CTL ELEMENT'' (Some (clean_upper (ga_control_element a))),
      label ''ELEMENT TYPE'' (Some (clean_upper (ga_element_type a))),
      label ''ADL TIME'' (Some (clean_upper (ga_adl_time a))),
      label ''DELAY ASSIGNMENT MODE'' (Some (clean_upper (ga_delay_assignment_mode a))),
      label ''ARRIVALS ESTIMATED FOR'' (Some (clean_upper (ga_arrivals_estimated_for a))),
      label ''CUMULATIVE PROGRAM PERIOD'' (Some (clean_upper (ga_cumulative_program_period a))),
      label ''PROGRAM RATE'' (Some (clean_upper (ga_program_rate a))),
      label ''POP-UP FACTOR'' (opt_text (ga_pop_up_factor a))] @
     flt_incl (ga_flights_included a) @
     [label ''DEPARTURE SCOPE'' (opt_text (ga_departure_scope a)),
      label ''ADDITIONAL DEP FACILITIES INCLUDED'' (opt_text (ga_additional_dep_facilities_included a)),
      label ''EXEMPT DEP FACILITIES'' (opt_text (ga_exempt_dep_facilities a)),
      label ''CANADIAN ARPTS INCLUDED'' (opt_text (ga_canadian_arpts_included a)),
      label ''DELAY ASSIGNMENT TABLE APPLIES TO'' (opt_text (ga_delay_assignment_table_applies_to a)),
      label ''DELAY LIMIT'' (opt_text (ga_delay_limit a)),
      label ''MAXIMUM DELAY'' (opt_text (ga_maximum_delay a)),
      label ''AVERAGE DELAY'' (opt_text (ga_average_delay a)),
      label ''IMPACTING CONDITION'' (opt_text (ga_impacting_condition a)),
      label ''COMMENTS'' (opt_text (ga_comments a)),
      [], collapse (ga_period a), signature (ai_signed_at ident)]"

definition render_gdp :: "gdp_advisory \<Rightarrow> advisory_ident \<Rightarrow> ustr" where
  "render_gdp a ident = join [10] (gdp_lines a ident)"

definition ground_stop_lines :: "ground_stop_advisory \<Rightarrow> advisory_ident \<Rightarrow> ustr list" where
  "ground_stop_lines a ident =
     [header_line ident (clean_upper (sa_element a)) (clean_upper (sa_header a)),
      label ''CTL ELEMENT'' (Some (clean_upper (sa_control_element a))),
      label ''ELEMENT TYPE'' (Some (clean_upper (sa_element_type a))),
      label ''ADL TIME'' (Some (clean_upper (sa_adl_time a))),
      label ''GROUND STOP PERIOD'' (Some (clean_upper (sa_ground_stop_period a))),
      label ''CUMULATIVE PROGRAM PERIOD'' (Some (clean_upper (sa_cumulative_program_period a)))] @
     flt_incl (sa_flights_included a) @
     [label ''ADDITIONAL DEP FACILITIES INCLUDED'' (opt_text (sa_additional_dep_facilities_included a)),
      label ''CURRENT TOTAL, MAXIMUM, AVERAGE DELAYS'' (opt_text (sa_current_delays a)),
      label ''PREVIOUS TOTAL, MAXIMUM, AVERAGE DELAYS'' (opt_text (sa_previous_delays a)),
      label ''NEW TOTAL, MAXIMUM, AVERAGE DELAYS'' (opt_text (sa_new_delays a)),
      label ''PROBABILITY OF EXTENSION'' (opt_text (sa_probability_of_extension a)),
      label ''IMPACTING CONDITION'' (opt_text (sa_impacting_condition a)),
      label ''COMMENTS'' (opt_text (sa_comments a)),
      [], collapse (sa_period a), signature (ai_signed_at ident)]"

definition render_ground_stop :: "ground_stop_advisory \<Rightarrow> advisory_ident \<Rightarrow> ustr" where
  "render_ground_stop a ident = join [10] (ground_stop_lines a ident)"

definition render_cancellation :: "advisory_ident \<Rightarrow> ustr" where
  "render_cancellation ident = join [10]
     [header_line ident (clean_upper (ai_facility ident)) (lit ''CANCELLED''), tmi_id_line ident,
      signature (ai_signed_at ident)]"

section \<open>Deriving the fields of a program's document\<close>

definition element_airport :: "(ustr \<times> ustr) list \<Rightarrow> ustr \<Rightarrow> ustr" where
  "element_airport iata icao =
     (let t = clean_upper icao in
      case find (\<lambda>(code, mapped). mapped = t) iata of
        Some (code, mapped) \<Rightarrow> code
      | None \<Rightarrow> (case strip_prefix (lit ''K'') t of
            Some rest \<Rightarrow> if utf8_len t = 4 then rest else t
          | None \<Rightarrow> t))"

definition element_of :: "(ustr \<times> ustr) list \<Rightarrow> ustr \<Rightarrow> ustr option \<Rightarrow> ustr" where
  "element_of iata airport artcc =
     (case clean artcc of
        Some a \<Rightarrow> element_airport iata airport @ lit ''/'' @ ascii_upper a
      | None \<Rightarrow> element_airport iata airport)"

definition day_stamp :: "civil \<Rightarrow> ustr" where
  "day_stamp t = log_stamp t @ lit ''Z''"

definition compact_stamp :: "civil \<Rightarrow> ustr" where
  "compact_stamp t = show_zero_padded 2 (cv_day t) @ show_hhmm t"

definition day_window :: "civil \<Rightarrow> civil \<Rightarrow> ustr" where
  "day_window from to = day_stamp from @ lit '' - '' @ day_stamp to"

definition compact_window :: "civil \<Rightarrow> civil \<Rightarrow> ustr" where
  "compact_window from to = compact_stamp from @ lit ''-'' @ compact_stamp to"

definition program_rate :: "int \<Rightarrow> aar_step list \<Rightarrow> ustr" where
  "program_rate aar steps =
     (if steps = [] then show_int aar else join (lit ''/'') (map (\<lambda>s. show_int (step_aar s)) steps))"

record publish_gdp_request =
  pg_delay_assignment_mode :: "ustr option"
  pg_delay_limit :: "ustr option"
  pg_departure_scope :: "ustr option"
  pg_pop_up_factor :: "ustr option"
  pg_flights_included :: "ustr list option"
  pg_additional_dep_facilities_included :: "ustr option"
  pg_exempt_dep_facilities :: "ustr option"
  pg_canadian_arpts_included :: "ustr option"
  pg_delay_assignment_table_applies_to :: "ustr option"
  pg_impacting_condition :: "ustr option"
  pg_comments :: "ustr option"

definition gdp_advisory_from ::
    "(ustr \<times> ustr) list \<Rightarrow> gdp \<Rightarrow> ustr option \<Rightarrow> gdp_stats \<Rightarrow> civil \<times> civil \<Rightarrow> publish_gdp_request \<Rightarrow> civil \<Rightarrow> gdp_advisory" where
  "gdp_advisory_from iata g artcc stats win ed now = (case win of (from, to) \<Rightarrow>
     \<lparr>ga_header = lit ''CDM GROUND DELAY PROGRAM'',
      ga_element = element_of iata (gd_airport g) artcc,
      ga_control_element = element_airport iata (gd_airport g),
      ga_element_type = lit ''APT'',
      ga_adl_time = show_hhmm now @ lit ''Z'',
      ga_delay_assignment_mode = coalesce (pg_delay_assignment_mode ed) (lit ''DAS''),
      ga_arrivals_estimated_for = day_window from to,
      ga_cumulative_program_period = day_window from to,
      ga_program_rate = program_rate (gd_aar g) (gd_aar_steps g),
      ga_pop_up_factor = pg_pop_up_factor ed,
      ga_flights_included = coalesce (pg_flights_included ed) [],
      ga_departure_scope = pg_departure_scope ed,
      ga_additional_dep_facilities_included = pg_additional_dep_facilities_included ed,
      ga_exempt_dep_facilities = pg_exempt_dep_facilities ed,
      ga_canadian_arpts_included = pg_canadian_arpts_included ed,
      ga_delay_assignment_table_applies_to = pg_delay_assignment_table_applies_to ed,
      ga_delay_limit = pg_delay_limit ed,
      ga_maximum_delay = Some (show_int (gs_max_delay_min stats)),
      ga_average_delay = Some (show_int (gs_avg_delay_min stats)),
      ga_impacting_condition = pg_impacting_condition ed,
      ga_comments = pg_comments ed,
      ga_period = compact_window from to\<rparr>)"

record publish_ground_stop_request =
  ps_flights_included :: "ustr list option"
  ps_additional_dep_facilities_included :: "ustr option"
  ps_current_delays :: "ustr option"
  ps_previous_delays :: "ustr option"
  ps_new_delays :: "ustr option"
  ps_probability_of_extension :: "ustr option"
  ps_impacting_condition :: "ustr option"
  ps_comments :: "ustr option"

definition day_window_open :: "civil \<Rightarrow> civil option \<Rightarrow> ustr" where
  "day_window_open from to = (case to of Some t \<Rightarrow> day_window from t | None \<Rightarrow> day_stamp from @ lit '' - UFN'')"

definition compact_window_open :: "civil \<Rightarrow> civil option \<Rightarrow> ustr" where
  "compact_window_open from to = (case to of Some t \<Rightarrow> compact_window from t | None \<Rightarrow> compact_stamp from @ lit ''-UFN'')"

definition ground_stop_advisory_from ::
    "(ustr \<times> ustr) list \<Rightarrow> ustr \<Rightarrow> ustr option \<Rightarrow> civil \<times> civil option \<Rightarrow> publish_ground_stop_request \<Rightarrow> civil \<Rightarrow> ground_stop_advisory" where
  "ground_stop_advisory_from iata airport artcc win ed now = (case win of (from, to) \<Rightarrow>
     \<lparr>sa_header = lit ''CDM GROUND STOP'',
      sa_element = element_of iata airport artcc,
      sa_control_element = element_airport iata airport,
      sa_element_type = lit ''APT'',
      sa_adl_time = show_hhmm now @ lit ''Z'',
      sa_ground_stop_period = day_window_open from to,
      sa_cumulative_program_period = day_window_open from to,
      sa_flights_included = coalesce (ps_flights_included ed) [],
      sa_additional_dep_facilities_included = ps_additional_dep_facilities_included ed,
      sa_current_delays = ps_current_delays ed,
      sa_previous_delays = ps_previous_delays ed,
      sa_new_delays = ps_new_delays ed,
      sa_probability_of_extension = ps_probability_of_extension ed,
      sa_impacting_condition = ps_impacting_condition ed,
      sa_comments = ps_comments ed,
      sa_period = compact_window_open from to\<rparr>)"

section \<open>The shape of a document\<close>

definition doc_literals :: "string list" where
  "doc_literals = [''NAME'', ''IMPACTED AREA'', ''REASON'', ''INCLUDE TRAFFIC'', ''VALID'', ''FACILITIES INCLUDED'',
     ''PROBABILITY OF EXTENSION'', ''REMARKS'', ''ASSOCIATED RESTRICTIONS'', ''MODIFICATIONS'', ''ROUTE:'', ''ORIG'',
     ''DEST'', ''ROUTE'', ''ROUTE - ORIGIN SEGMENTS'', ''ROUTE - DESTINATION SEGMENTS'', ''vATCSCC ADVZY '', '' '', ''/'',
     '':'', ''TMI ID: RR'', ''FCA ENTRY TIME FROM '', '' TO '', ''ETD '', ''-'', ''FLT INCL: '', ''FLT INCL'', ''CTL ELEMENT'',
     ''ELEMENT TYPE'', ''ADL TIME'', ''DELAY ASSIGNMENT MODE'', ''ARRIVALS ESTIMATED FOR'', ''CUMULATIVE PROGRAM PERIOD'',
     ''PROGRAM RATE'', ''POP-UP FACTOR'', ''DEPARTURE SCOPE'', ''ADDITIONAL DEP FACILITIES INCLUDED'',
     ''EXEMPT DEP FACILITIES'', ''CANADIAN ARPTS INCLUDED'', ''DELAY ASSIGNMENT TABLE APPLIES TO'', ''DELAY LIMIT'',
     ''MAXIMUM DELAY'', ''AVERAGE DELAY'', ''IMPACTING CONDITION'', ''COMMENTS'', ''GROUND STOP PERIOD'',
     ''CURRENT TOTAL, MAXIMUM, AVERAGE DELAYS'', ''PREVIOUS TOTAL, MAXIMUM, AVERAGE DELAYS'',
     ''NEW TOTAL, MAXIMUM, AVERAGE DELAYS'', '': '', ''CANCELLED'']"

lemma doc_literals_one_line: "list_all (\<lambda>n. one_line (lit n)) doc_literals"
  by code_simp

lemmas literal_lines [simp] = doc_literals_one_line [unfolded doc_literals_def, simplified]

lemma one_line_values [simp]:
  "one_line (collapse s)" "one_line (clean_upper s)" "one_line (show_int i)" "one_line (show_zero_padded w i)"
  by (simp_all add: one_line_tidy)

lemma one_line_label: "one_line (lit n) \<Longrightarrow> (\<And>v. value = Some v \<Longrightarrow> one_line v) \<Longrightarrow> one_line (label n value)"
  by (auto simp: label_def split: option.splits)

lemma one_line_label_Some [simp]: "one_line (lit n) \<Longrightarrow> one_line v \<Longrightarrow> one_line (label n (Some v))"
  by (rule one_line_label) auto

lemma one_line_label_opt [simp]: "one_line (lit n) \<Longrightarrow> one_line (label n (opt_text v))"
  by (rule one_line_label) (auto dest: opt_text_Some one_line_tidy)

lemma one_line_stamps [simp]:
  "one_line (signature t)" "one_line (show_day t)"
  "one_line (header_line ident e h) \<longleftrightarrow> one_line e \<and> one_line h" "one_line (tmi_id_line ident)" "one_line (valid_text v)"
  by (auto simp: signature_def show_day_def header_line_def tmi_id_line_def valid_text_def split: reroute_valid_basis.split)

lemma one_line_pad_right [simp]: "one_line (pad_right 32 w s) \<longleftrightarrow> one_line s"
  by (auto simp: pad_right_def one_line_def list_all_iff)

lemma one_line_table_line [simp]: "one_line (table_line widths cells)"
  by (induction widths cells rule: table_line.induct) auto

lemma one_line_route_section: "list_all one_line (route_section routes)"
  by (cases routes) (auto simp: table_def list_all_iff)

lemma one_line_flt_incl: "list_all one_line (flt_incl entries)"
  by (auto simp: flt_incl_def Let_def list_all_iff label_def)

lemma one_line_no_break: "one_line s \<Longrightarrow> 10 \<notin> set s"
proof
  assume "one_line s" "10 \<in> set s"
  then have "is_whitespace 10 \<longrightarrow> (10 :: int) = 32" unfolding one_line_def list_all_iff by blast
  then show False by (simp add: is_whitespace_def)
qed

lemma document_lines: "list_all one_line xs \<Longrightarrow> xs \<noteq> [] \<Longrightarrow> split_on 10 (join [10] xs) = xs"
  by (rule split_on_join) (auto simp: list_all_iff one_line_no_break)

lemma flt_incl_length: "length (flt_incl entries) = max 1 (length (filter (\<lambda>e. collapse e \<noteq> []) entries))"
proof -
  have "filter (\<lambda>e. e \<noteq> []) (map collapse entries) = map collapse (filter (\<lambda>e. collapse e \<noteq> []) entries)"
    by (simp add: filter_map comp_def)
  then show ?thesis
    by (cases "filter (\<lambda>e. collapse e \<noteq> []) entries") (simp_all add: flt_incl_def Let_def)
qed

fun route_rows :: "reroute_routes \<Rightarrow> nat" where
  "route_rows (Single rows) = 3 + length rows"
| "route_rows (Segmented origin destination) = 6 + length origin + length destination"

lemma route_section_length: "length (route_section routes) = route_rows routes"
  by (cases routes) (auto simp: table_def segment_cells_def)

lemma lines_one_line:
  "list_all one_line (gdp_lines g ident)" "list_all one_line (ground_stop_lines s ident)"
  "list_all one_line (reroute_lines r ident)"
  using one_line_flt_incl one_line_route_section
  by (simp_all add: gdp_lines_def ground_stop_lines_def reroute_lines_def)

lemma rendered_lines:
  "split_on 10 (render_gdp g ident) = gdp_lines g ident"
  "split_on 10 (render_ground_stop s ident) = ground_stop_lines s ident"
  "split_on 10 (render_reroute r ident) = reroute_lines r ident"
  unfolding render_gdp_def render_ground_stop_def render_reroute_def
proof -
  have "gdp_lines g ident \<noteq> []" "ground_stop_lines s ident \<noteq> []" "reroute_lines r ident \<noteq> []"
    by (simp_all add: gdp_lines_def ground_stop_lines_def reroute_lines_def)
  then show "split_on 10 (join [10] (gdp_lines g ident)) = gdp_lines g ident"
    "split_on 10 (join [10] (ground_stop_lines s ident)) = ground_stop_lines s ident"
    "split_on 10 (join [10] (reroute_lines r ident)) = reroute_lines r ident"
    using lines_one_line by (simp_all add: document_lines)
qed

text \<open>No value an author supplies can add a line to a document or take one away: cut at its line
  breaks, a document is its renderer's list of lines, whose number depends only on how many flight
  entries or route rows there are, and within a line the only whitespace is the space.\<close>

theorem documents_have_fixed_shape:
  "split_on 10 (render_gdp g ident) = gdp_lines g ident \<and>
   split_on 10 (render_ground_stop s ident) = ground_stop_lines s ident \<and>
   split_on 10 (render_reroute r ident) = reroute_lines r ident \<and>
   length (gdp_lines g ident) = 22 + max 1 (length (filter (\<lambda>e. collapse e \<noteq> []) (ga_flights_included g))) \<and>
   length (ground_stop_lines s ident) = 16 + max 1 (length (filter (\<lambda>e. collapse e \<noteq> []) (sa_flights_included s))) \<and>
   length (reroute_lines r ident) = 15 + route_rows (ra_routes r) \<and>
   list_all one_line (gdp_lines g ident @ ground_stop_lines s ident @ reroute_lines r ident)"
  by (intro conjI rendered_lines)
    (simp_all add: lines_one_line, simp_all add: gdp_lines_def ground_stop_lines_def reroute_lines_def
      flt_incl_length route_section_length)

section \<open>A generated document describes its program\<close>

lemma tidy_opt_text: "tidy v \<Longrightarrow> v \<noteq> [] \<Longrightarrow> opt_text (Some v) = Some v"
  using collapse_tidy [of v] by (simp add: opt_text_def)

lemma fold_max_Max: "fold max ds d = Max (set (d # ds))" for d :: int
  using Max.set_eq_fold [of d ds] by simp

lemma ration_delay_nonneg: "a \<in> set (ration rates reason cursor fs) \<Longrightarrow> 0 \<le> as_delay_min a"
  by (induction rates reason cursor fs rule: ration.induct) (auto simp: Let_def assign_slot_def)

lemma frozen_slots_stats:
  assumes "frozen_slots_for g inbounds now = Inr (rows, stats)"
  shows "gs_max_delay_min stats = Max (set (0 # map sl_delay_min rows)) \<and>
    gs_avg_delay_min stats = sum_list (map sl_delay_min rows) div int (length rows)"
proof -
  obtain ws we as where f: "fresh_assignments g inbounds now = Inr (ws, we, as)"
    and rows: "rows = map (slot_of (gd_id g)) (filter as_controlled as)" and stats: "stats = program_stats as"
    using assms by (auto simp: frozen_slots_for_def bind_result_Inr_iff)
  let ?ds = "map sl_delay_min rows"
  have ds: "?ds = map as_delay_min (filter as_controlled as)" by (simp add: rows slot_of_def comp_def)
  have "\<forall>a\<in>set as. 0 \<le> as_delay_min a"
    using f by (auto simp: fresh_assignments_def bind_result_Inr_iff ration_by_schedule_def ration_delay_nonneg)
  then have nonneg: "\<forall>d\<in>set ?ds. 0 \<le> d" by (auto simp: ds)
  have "gs_max_delay_min stats = Max (set (0 # ?ds))"
  proof (cases ?ds)
    case (Cons d rest)
    then have "gs_max_delay_min stats = Max (set ?ds)" by (simp add: stats program_stats_def Let_def ds [symmetric] fold_max_Max)
    also have "\<dots> = Max (insert 0 (set ?ds))" using nonneg Cons Max_insert [of "set ?ds" 0] Max_ge_iff [of "set ?ds" 0] by (auto simp: max_def)
    finally show ?thesis by simp
  qed (simp add: stats program_stats_def Let_def ds [symmetric])
  moreover have "gs_avg_delay_min stats = sum_list ?ds div int (length rows)"
  proof -
    have "0 \<le> sum_list ?ds" using nonneg by (intro sum_list_nonneg) blast
    moreover have "length ?ds = length rows" by simp
    ultimately show ?thesis
      by (cases "?ds = []") (simp_all add: stats program_stats_def Let_def ds [symmetric] signed_divide_int_def sgn_if)
  qed
  ultimately show ?thesis ..
qed

text \<open>The document a publication generates describes exactly the control times it froze: its maximum
  delay line shows the largest delay of the frozen slots, zero when there is none, and its average
  delay line their mean in whole minutes, whatever editorial fields come with it.\<close>

theorem document_states_frozen_delays:
  assumes "frozen_slots_for g inbounds now = Inr (rows, stats)"
  shows "let lines = split_on 10 (render_gdp (gdp_advisory_from iata g artcc stats win ed at) ident) in
    label ''MAXIMUM DELAY'' (Some (show_int (Max (set (0 # map sl_delay_min rows))))) \<in> set lines \<and>
    label ''AVERAGE DELAY'' (Some (show_int (sum_list (map sl_delay_min rows) div int (length rows)))) \<in> set lines"
proof -
  have "opt_text (Some (show_int i)) = Some (show_int i)" for i by (simp add: tidy_opt_text)
  then show ?thesis
    using frozen_slots_stats [OF assms] rendered_lines(1)
    by (simp add: Let_def gdp_lines_def gdp_advisory_from_def split: prod.split)
qed

definition sample_editorial :: publish_gdp_request where
  "sample_editorial = \<lparr>pg_delay_assignment_mode = None, pg_delay_limit = None, pg_departure_scope = None,
     pg_pop_up_factor = None, pg_flights_included = None, pg_additional_dep_facilities_included = None,
     pg_exempt_dep_facilities = None, pg_canadian_arpts_included = None, pg_delay_assignment_table_applies_to = None,
     pg_impacting_condition = None, pg_comments = Some (lit ''NONE'' @ 10 # lit ''TMI ID: RRDCC001'')\<rparr>"

definition sample_day :: civil where
  "sample_day = \<lparr>cv_year = 2020, cv_month = 4, cv_day = 14, cv_hour = 14, cv_minute = 36\<rparr>"

definition sample_ident :: advisory_ident where
  "sample_ident = \<lparr>ai_facility = lit ''DCC'', ai_number = 4, ai_issued_day = sample_day, ai_signed_at = sample_day\<rparr>"

definition sample_doc :: "gdp_stats \<Rightarrow> gdp_advisory" where
  "sample_doc stats = gdp_advisory_from [] (hd (gw_programs sample_world)) None stats (sample_day, sample_day) sample_editorial sample_day"

theorem document_states_frozen_delays_witness:
  "case frozen_slots_for (hd (gw_programs sample_world)) [sample_inbound, sample_inbound\<lparr>in_cs := lit ''DAL2''\<rparr>] 0 of
     Inl e \<Rightarrow> False
   | Inr (rows, stats) \<Rightarrow> label ''MAXIMUM DELAY'' (Some (lit ''2'')) \<in> set (split_on 10 (render_gdp (sample_doc stats) sample_ident))"
proof -
  let ?r = "frozen_slots_for (hd (gw_programs sample_world)) [sample_inbound, sample_inbound\<lparr>in_cs := lit ''DAL2''\<rparr>] 0"
  obtain rows stats where r: "?r = Inr (rows, stats)" and m: "map sl_delay_min rows = [0, 2]"
    by (rule that [of "fst (projr ?r)" "snd (projr ?r)"]) code_simp+
  have "show_int (Max (set (0 # [0, 2]))) = lit ''2''" by code_simp
  with document_states_frozen_delays [OF r] show ?thesis
    unfolding r sum.case prod.case sample_doc_def Let_def m by metis
qed

lemma cancellation_names_absent_tmi_id:
  "tmi_id_line sample_ident \<in> set (split_on 10 (render_cancellation sample_ident)) \<and>
   tmi_id_line sample_ident \<notin> set (split_on 10 (render_gdp
     (sample_doc \<lparr>gs_controlled = 0, gs_exempt = 0, gs_avg_delay_min = 0, gs_max_delay_min = 0, gs_total_delay_min = 0\<rparr>) sample_ident))"
  by code_simp

text \<open>What the notices get wrong: the cancellation of a ground delay program names a TMI ID its
  document never carried, a stepped program's rate line leaves out the rate in force before the
  first step, and a cell as wide as its column runs into the next.\<close>

lemma program_rate_omits_base: "steps \<noteq> [] \<Longrightarrow> program_rate aar steps = program_rate aar' steps"
  by (simp add: program_rate_def)

lemma wide_cells_run_together:
  "9 \<le> length (collapse orig) \<Longrightarrow> table_line [9, 10] [orig, dest, route] = collapse orig @ table_line [10] [dest, route]"
  by (simp add: pad_right_def)

end
