(* ===== verification/Advisories.thy ===== *)
theory Advisories
  imports AdvisoryDoc DiscordConfig AccessScope JobQueue
begin

text \<open>
  The advisory table of \<open>backend/src/repos/tmu.rs\<close> and its endpoints in \<open>handlers/tmu.rs\<close>: numbering,
  drafting, publishing, cancelling, and the Discord job each transition enqueues in its own transaction.
  Calendar arithmetic and the decoding of the stored JSON are arguments, gathered in one record; who
  did it is not kept. Instants are milliseconds, the job queue's are microseconds.
\<close>

section \<open>The table\<close>

datatype advisory_status = AdvDraft | AdvPublished | AdvCancelled

datatype advisory_program = FromGdp ustr | FromGroundStop ustr

record advisory =
  av_id :: ustr
  av_facility :: ustr
  av_issued_day :: int
  av_number :: int
  av_kind :: ustr
  av_body :: ustr
  av_structured :: "json option"
  av_decoded :: "ustr option"
  av_status :: advisory_status
  av_valid_from :: "int option"
  av_valid_to :: "int option"
  av_published_at :: "int option"
  av_created_at :: int
  av_program :: "advisory_program option"

record doc_env =
  de_civil :: "int \<Rightarrow> civil"
  de_reroute :: "json \<Rightarrow> reroute_advisory option"
  de_gdp :: "json \<Rightarrow> gdp_advisory option"
  de_ground_stop :: "json \<Rightarrow> ground_stop_advisory option"

record create_advisory_request =
  cr_facility :: ustr
  cr_kind :: ustr
  cr_body :: ustr
  cr_structured :: "json option"
  cr_decoded :: "ustr option"
  cr_valid_from :: "int option"
  cr_valid_to :: "int option"

record update_advisory_request =
  up_kind :: "ustr option"
  up_body :: "ustr option"
  up_structured :: "json option"
  up_decoded :: "ustr option"

definition ADVISORY_KIND_REROUTE :: ustr where "ADVISORY_KIND_REROUTE = lit ''reroute''"
definition ADVISORY_KIND_GDP :: ustr where "ADVISORY_KIND_GDP = lit ''gdp''"
definition ADVISORY_KIND_GROUND_STOP :: ustr where "ADVISORY_KIND_GROUND_STOP = lit ''ground_stop''"

section \<open>Numbers and documents\<close>

definition numbers_of :: "advisory list \<Rightarrow> ustr \<Rightarrow> int \<Rightarrow> int list" where
  "numbers_of as facility zday =
     map av_number (filter (\<lambda>a. av_facility a = facility \<and> av_issued_day a = zday) as)"

definition allocate_advisory_number :: "advisory list \<Rightarrow> ustr \<Rightarrow> int \<Rightarrow> int" where
  "allocate_advisory_number as facility zday =
     (case numbers_of as facility zday of [] \<Rightarrow> 0 | n # ns \<Rightarrow> fold max ns n) + 1"

definition renders_body :: "ustr \<Rightarrow> bool" where
  "renders_body kind \<longleftrightarrow>
     kind = ADVISORY_KIND_REROUTE \<or> kind = ADVISORY_KIND_GDP \<or> kind = ADVISORY_KIND_GROUND_STOP"

definition derives_body :: "ustr \<Rightarrow> json option \<Rightarrow> bool" where
  "derives_body kind structured \<longleftrightarrow> structured \<noteq> None \<and> renders_body kind"

definition advisory_body :: "doc_env \<Rightarrow> ustr \<Rightarrow> json option \<Rightarrow> advisory_ident \<Rightarrow> ustr option result" where
  "advisory_body env kind structured ident =
     (if \<not> derives_body kind structured then Inr None else
      case structured of None \<Rightarrow> Inr None
      | Some v \<Rightarrow>
          if kind = ADVISORY_KIND_REROUTE
          then bind_result (ok_or BadRequest (de_reroute env v)) (\<lambda>d. Inr (Some (render_reroute d ident)))
          else if kind = ADVISORY_KIND_GDP
          then bind_result (ok_or BadRequest (de_gdp env v)) (\<lambda>d. Inr (Some (render_gdp d ident)))
          else if kind = ADVISORY_KIND_GROUND_STOP
          then bind_result (ok_or BadRequest (de_ground_stop env v)) (\<lambda>d. Inr (Some (render_ground_stop d ident)))
          else Inr None)"

definition ident_of :: "doc_env \<Rightarrow> int \<Rightarrow> ustr \<Rightarrow> int \<Rightarrow> int \<Rightarrow> advisory_ident" where
  "ident_of env now facility number zday = \<lparr>ai_facility = facility, ai_number = number,
     ai_issued_day = de_civil env (zday * day_ms), ai_signed_at = de_civil env now\<rparr>"

section \<open>\<open>repos/tmu.rs\<close>\<close>

definition get_advisory :: "advisory list \<Rightarrow> ustr \<Rightarrow> advisory option" where
  "get_advisory as aid = find (\<lambda>a. av_id a = aid) as"

text \<open>The insert can violate the primary key or the unique number of a facility and day.\<close>

definition insert_advisory :: "advisory \<Rightarrow> advisory list \<Rightarrow> advisory list result" where
  "insert_advisory a as =
     (if list_ex (\<lambda>b. av_id b = av_id a \<or> (av_facility b, av_issued_day b, av_number b) =
           (av_facility a, av_issued_day a, av_number a)) as
      then Inl Internal else Inr (as @ [a]))"

definition create_advisory_tx ::
    "doc_env \<Rightarrow> int \<Rightarrow> ustr \<Rightarrow> create_advisory_request \<Rightarrow> advisory_program option \<Rightarrow> advisory list \<Rightarrow> advisory list result" where
  "create_advisory_tx env now aid req program as =
     (let facility = ascii_upper (trim (cr_facility req)); zday = now div day_ms;
          number = allocate_advisory_number as facility zday
      in bind_result (advisory_body env (trim (cr_kind req)) (cr_structured req) (ident_of env now facility number zday))
           (\<lambda>rendered. insert_advisory
              \<lparr>av_id = aid, av_facility = facility, av_issued_day = zday, av_number = number,
               av_kind = trim (cr_kind req), av_body = coalesce rendered (trim (cr_body req)),
               av_structured = cr_structured req, av_decoded = cr_decoded req, av_status = AdvDraft,
               av_valid_from = cr_valid_from req, av_valid_to = cr_valid_to req, av_published_at = None,
               av_created_at = now, av_program = program\<rparr> as))"

definition update_rows :: "(advisory \<Rightarrow> bool) \<Rightarrow> (advisory \<Rightarrow> advisory) \<Rightarrow> advisory list \<Rightarrow> bool \<times> advisory list" where
  "update_rows P f as = (list_ex P as, map (\<lambda>a. if P a then f a else a) as)"

definition draft_with :: "ustr \<Rightarrow> advisory \<Rightarrow> bool" where
  "draft_with aid a \<longleftrightarrow> av_id a = aid \<and> av_status a = AdvDraft"

definition live_advisory :: "advisory \<Rightarrow> bool" where
  "live_advisory a \<longleftrightarrow> av_status a \<noteq> AdvCancelled"

definition edited :: "update_advisory_request \<Rightarrow> ustr option \<Rightarrow> advisory \<Rightarrow> advisory" where
  "edited req body a =
     (let clear_breakdown = (up_structured req = None \<and> up_body req \<noteq> None);
          stale_decoding = (up_structured req \<noteq> None \<and> up_decoded req = None)
      in a\<lparr>av_kind := coalesce (up_kind req) (av_kind a), av_body := coalesce body (av_body a),
           av_structured := (if clear_breakdown then None
             else case up_structured req of None \<Rightarrow> av_structured a | Some v \<Rightarrow> Some v),
           av_decoded := (if clear_breakdown then up_decoded req else if stale_decoding then None
             else case up_decoded req of None \<Rightarrow> av_decoded a | Some d \<Rightarrow> Some d)\<rparr>)"

definition update_advisory ::
    "doc_env \<Rightarrow> int \<Rightarrow> ustr \<Rightarrow> update_advisory_request \<Rightarrow> advisory list \<Rightarrow> (bool \<times> advisory list) result" where
  "update_advisory env now aid req as =
     (case up_structured req of
        None \<Rightarrow> Inr (update_rows (draft_with aid) (edited req (up_body req)) as)
      | Some structured \<Rightarrow> (case find (draft_with aid) as of
            None \<Rightarrow> Inr (False, as)
          | Some row \<Rightarrow> bind_result (advisory_body env (trim (coalesce (up_kind req) (av_kind row))) (Some structured)
                (ident_of env now (av_facility row) (av_number row) (av_issued_day row)))
              (\<lambda>rendered. Inr (update_rows (draft_with aid)
                 (edited req (case rendered of Some b \<Rightarrow> Some b | None \<Rightarrow> up_body req)) as))))"

definition publish_advisory :: "int \<Rightarrow> ustr \<Rightarrow> advisory list \<Rightarrow> bool \<times> advisory list" where
  "publish_advisory now aid = update_rows (draft_with aid) (\<lambda>a. a\<lparr>av_status := AdvPublished, av_published_at := Some now\<rparr>)"

definition cancelled_row :: "advisory \<Rightarrow> advisory" where
  "cancelled_row a = a\<lparr>av_status := AdvCancelled\<rparr>"

definition cancel_advisory :: "ustr \<Rightarrow> advisory list \<Rightarrow> bool \<times> advisory list" where
  "cancel_advisory aid = update_rows (\<lambda>a. av_id a = aid \<and> live_advisory a) cancelled_row"

definition cancel_program_advisory_tx :: "advisory_program \<Rightarrow> advisory list \<Rightarrow> advisory list" where
  "cancel_program_advisory_tx program as =
     snd (update_rows (\<lambda>a. av_program a = Some program \<and> live_advisory a) cancelled_row as)"

definition delete_advisory :: "ustr \<Rightarrow> advisory list \<Rightarrow> bool \<times> advisory list" where
  "delete_advisory aid as = (list_ex (draft_with aid) as, filter (\<lambda>a. \<not> draft_with aid a) as)"

section \<open>The Discord posts\<close>

definition ADV_CHANNEL :: ustr where "ADV_CHANNEL = lit ''tmu-advisories''"

definition publish_job_payload :: "ustr \<Rightarrow> advisory \<Rightarrow> json" where
  "publish_job_payload channel a = JObject [(lit ''channel_id'', JString channel),
     (lit ''advisory_id'', JString (av_id a)), (lit ''document'', JString (av_body a))]"

definition cancel_job_payload :: "doc_env \<Rightarrow> int \<Rightarrow> ustr \<Rightarrow> advisory \<Rightarrow> json" where
  "cancel_job_payload env now channel a = JObject [(lit ''channel_id'', JString channel),
     (lit ''advisory_id'', JString (av_id a)), (lit ''document'', JString (render_cancellation
       (ident_of env now (av_facility a) (av_number a) (av_issued_day a))))]"

definition posted_channel :: "job list \<Rightarrow> ustr \<Rightarrow> ustr option" where
  "posted_channel = published_channel_for_advisory (\<lambda>p. json_str_field p (lit ''channel_id''))"

record adv_world =
  vw_rows :: "advisory list"
  vw_jobs :: "job list"
  vw_guilds :: "guild_config list"

definition post_advisory :: "int \<Rightarrow> ustr \<Rightarrow> ustr \<Rightarrow> json \<Rightarrow> ustr \<Rightarrow> adv_world \<Rightarrow> adv_world result" where
  "post_advisory now jid job_type payload aid w =
     bind_result (enqueue_job (1000 * now) jid job_type payload (Some (lit ''advisory'')) (Some aid) (vw_jobs w))
       (\<lambda>(_, q). Inr (w\<lparr>vw_jobs := q\<rparr>))"

section \<open>The endpoints\<close>

definition require_advisory_scope :: "permission_scope \<Rightarrow> ustr \<Rightarrow> unit result" where
  "require_advisory_scope scope facility = (if allows scope (Some facility) then Inr () else Inl Forbidden)"

definition advisory_facility :: "adv_world \<Rightarrow> ustr \<Rightarrow> ustr result" where
  "advisory_facility w aid = ok_or NotFound (map_option av_facility (get_advisory (vw_rows w) aid))"

definition create_advisory_handler ::
    "doc_env \<Rightarrow> int \<Rightarrow> ustr \<Rightarrow> permission_scope \<Rightarrow> create_advisory_request \<Rightarrow> adv_world \<Rightarrow> adv_world result" where
  "create_advisory_handler env now aid scope req w =
     (if trim (cr_facility req) = [] \<or> trim (cr_kind req) = [] \<or>
         \<not> derives_body (trim (cr_kind req)) (cr_structured req) \<and> trim (cr_body req) = []
      then Inl BadRequest
      else bind_result (require_advisory_scope scope (ascii_upper (trim (cr_facility req)))) (\<lambda>_.
        bind_result (create_advisory_tx env now aid req None (vw_rows w)) (\<lambda>as. Inr (w\<lparr>vw_rows := as\<rparr>))))"

definition update_advisory_handler ::
    "doc_env \<Rightarrow> int \<Rightarrow> permission_scope \<Rightarrow> ustr \<Rightarrow> update_advisory_request \<Rightarrow> adv_world \<Rightarrow> adv_world result" where
  "update_advisory_handler env now scope aid req w =
     bind_result (advisory_facility w aid) (\<lambda>facility.
     bind_result (require_advisory_scope scope facility) (\<lambda>_.
     bind_result (update_advisory env now aid req (vw_rows w)) (\<lambda>(ok, as).
       if ok then Inr (w\<lparr>vw_rows := as\<rparr>) else Inl NotFound)))"

definition publish_advisory_handler ::
    "int \<Rightarrow> ustr \<Rightarrow> permission_scope \<Rightarrow> ustr \<Rightarrow> adv_world \<Rightarrow> adv_world result" where
  "publish_advisory_handler now jid scope aid w =
     bind_result (advisory_facility w aid) (\<lambda>facility.
     bind_result (require_advisory_scope scope facility) (\<lambda>_.
       case publish_advisory now aid (vw_rows w) of
         (False, as) \<Rightarrow> Inl Conflict
       | (True, as) \<Rightarrow> bind_result (ok_or NotFound (get_advisory as aid)) (\<lambda>a.
           case channel_id (vw_guilds w) ADV_CHANNEL (Some facility) of
             None \<Rightarrow> Inr (w\<lparr>vw_rows := as\<rparr>)
           | Some channel \<Rightarrow> post_advisory now jid (lit ''adv_publish'') (publish_job_payload channel a) aid
               (w\<lparr>vw_rows := as\<rparr>))))"

definition cancel_advisory_handler ::
    "doc_env \<Rightarrow> int \<Rightarrow> ustr \<Rightarrow> permission_scope \<Rightarrow> ustr \<Rightarrow> adv_world \<Rightarrow> adv_world result" where
  "cancel_advisory_handler env now jid scope aid w =
     bind_result (advisory_facility w aid) (\<lambda>facility.
     bind_result (require_advisory_scope scope facility) (\<lambda>_.
       case cancel_advisory aid (vw_rows w) of
         (False, as) \<Rightarrow> Inl Conflict
       | (True, as) \<Rightarrow> bind_result (ok_or NotFound (get_advisory as aid)) (\<lambda>a.
           case (case posted_channel (vw_jobs w) aid of Some c \<Rightarrow> Some c
                 | None \<Rightarrow> channel_id (vw_guilds w) ADV_CHANNEL (Some facility)) of
             None \<Rightarrow> Inr (w\<lparr>vw_rows := as\<rparr>)
           | Some channel \<Rightarrow> post_advisory now jid (lit ''adv_cancel'') (cancel_job_payload env now channel a) aid
               (w\<lparr>vw_rows := as\<rparr>))))"

definition delete_advisory_handler :: "permission_scope \<Rightarrow> ustr \<Rightarrow> adv_world \<Rightarrow> adv_world result" where
  "delete_advisory_handler scope aid w =
     bind_result (advisory_facility w aid) (\<lambda>facility.
     bind_result (require_advisory_scope scope facility) (\<lambda>_.
       case delete_advisory aid (vw_rows w) of
         (True, as) \<Rightarrow> Inr (w\<lparr>vw_rows := as\<rparr>) | (False, as) \<Rightarrow> Inl Conflict))"

section \<open>What lapses\<close>

text \<open>The cleanup pass cancels by two conditions in turn and withdraws, in the same transaction, the
  posts of those that were posted.\<close>

definition cancel_where :: "(advisory \<Rightarrow> bool) \<Rightarrow> advisory list \<Rightarrow> ustr list \<times> advisory list" where
  "cancel_where P as = (map av_id (filter (\<lambda>a. live_advisory a \<and> P a) as),
     snd (update_rows (\<lambda>a. live_advisory a \<and> P a) cancelled_row as))"

fun withdraw_posts :: "doc_env \<Rightarrow> int \<Rightarrow> (ustr \<Rightarrow> ustr) \<Rightarrow> ustr list \<Rightarrow> adv_world \<Rightarrow> adv_world result" where
  "withdraw_posts env now jid_for [] w = Inr w"
| "withdraw_posts env now jid_for (aid # aids) w =
     (case (posted_channel (vw_jobs w) aid, get_advisory (vw_rows w) aid) of
        (Some channel, Some a) \<Rightarrow> bind_result (post_advisory now (jid_for aid) (lit ''adv_cancel'')
            (cancel_job_payload env now channel a) aid w) (withdraw_posts env now jid_for aids)
      | _ \<Rightarrow> withdraw_posts env now jid_for aids w)"

definition lapse_advisories ::
    "doc_env \<Rightarrow> int \<Rightarrow> (ustr \<Rightarrow> ustr) \<Rightarrow> (advisory \<Rightarrow> bool) \<Rightarrow> (advisory \<Rightarrow> bool) \<Rightarrow> adv_world \<Rightarrow> adv_world result" where
  "lapse_advisories env now jid_for window_over program_over w =
     (case cancel_where window_over (vw_rows w) of (ids1, rows1) \<Rightarrow>
      case cancel_where program_over rows1 of (ids2, rows2) \<Rightarrow>
        withdraw_posts env now jid_for (ids1 @ ids2) (w\<lparr>vw_rows := rows2\<rparr>))"

end
