(* ===== verification/TmuTables.thy ===== *)
theory TmuTables
  imports Advisories
begin

text \<open>
  Ground stops and rate programs: the tables \<open>tmu.ground_stops\<close> and \<open>tmu.programs\<close> of
  \<open>backend/src/repos/tmu.rs\<close> with their endpoints in \<open>handlers/tmu.rs\<close>. Who did it is not kept. Instants
  are milliseconds.
\<close>

section \<open>Ground stops\<close>

record ground_stop =
  stop_id :: ustr
  stop_airport :: ustr
  stop_scope :: ustr
  stop_until :: "ustr option"
  stop_status :: gdp_status
  stop_published_at :: "int option"
  stop_created_at :: int
  stop_updated_at :: int
  stop_ended_at :: "int option"
  stop_dismissed_at :: "int option"

text \<open>\<open>normalize_until\<close>: blank is until further notice.\<close>

definition normalize_until :: "ustr option \<Rightarrow> ustr option result" where
  "normalize_until raw =
     (let digits = filter is_ascii_digit (coalesce raw []) in
      if digits = [] then Inr None
      else let padded = (if length digits = 3 then 48 # digits else digits) in
        if length padded \<noteq> 4 then Inl BadRequest
        else if 24 \<le> digits_value (take 2 padded) \<or> 60 \<le> digits_value (take 2 (drop 2 padded)) then Inl BadRequest
        else Inr (Some padded))"

text \<open>\<open>tmu.ground_stop_until_ts\<close> of migration 0014: the first such clock time not before creation.\<close>

definition ground_stop_until_ts :: "int \<Rightarrow> ustr option \<Rightarrow> int option" where
  "ground_stop_until_ts created until =
     (case until of
        None \<Rightarrow> None
      | Some u \<Rightarrow>
          if length u \<noteq> 4 \<or> \<not> list_all is_ascii_digit u then None
          else let at = midnight_ms created + (digits_value (take 2 u) * 60 + digits_value (drop 2 u)) * minute_ms
            in Some (if at < created then at + day_ms else at))"

definition get_ground_stop :: "ground_stop list \<Rightarrow> ustr \<Rightarrow> ground_stop option" where
  "get_ground_stop ss sid = find (\<lambda>s. stop_id s = sid) ss"

definition until_instant :: "ground_stop \<Rightarrow> int option" where
  "until_instant s = ground_stop_until_ts (stop_created_at s) (stop_until s)"

definition stop_live_at :: "int \<Rightarrow> ground_stop \<Rightarrow> bool" where
  "stop_live_at at s \<longleftrightarrow> (case stop_published_at s of None \<Rightarrow> False | Some p \<Rightarrow> p \<le> at) \<and>
     (case until_instant s of None \<Rightarrow> True | Some u \<Rightarrow> at < u) \<and>
     (case stop_ended_at s of None \<Rightarrow> True | Some e \<Rightarrow> at < e)"

definition list_ground_stops_at :: "int \<Rightarrow> ground_stop list \<Rightarrow> ground_stop list" where
  "list_ground_stops_at at ss = sort_key (\<lambda>s. - stop_updated_at s) (filter (stop_live_at at) ss)"

definition list_ground_stops :: "ground_stop list \<Rightarrow> ground_stop list" where
  "list_ground_stops ss = sort_key (\<lambda>s. - stop_updated_at s) (filter (\<lambda>s. stop_dismissed_at s = None) ss)"

definition set_stops :: "(ground_stop \<Rightarrow> bool) \<Rightarrow> (ground_stop \<Rightarrow> ground_stop) \<Rightarrow> ground_stop list \<Rightarrow> bool \<times> ground_stop list" where
  "set_stops P f ss = (list_ex P ss, map (\<lambda>s. if P s then f s else s) ss)"

definition stop_active :: "ground_stop \<Rightarrow> bool" where
  "stop_active s \<longleftrightarrow> stop_status s = Draft \<or> stop_status s = Published"

definition create_ground_stop_handler ::
    "int \<Rightarrow> ustr \<Rightarrow> ustr \<Rightarrow> ustr option \<Rightarrow> ustr option \<Rightarrow> ground_stop list \<Rightarrow> ground_stop list result" where
  "create_ground_stop_handler now sid airport scope until ss =
     (let icao = clean_airport airport in
      if length icao < 3 \<or> 4 < length icao then Inl BadRequest
      else bind_result (normalize_until until) (\<lambda>u.
        if list_ex (\<lambda>s. stop_id s = sid) ss then Inl Internal
        else Inr (ss @ [\<lparr>stop_id = sid, stop_airport = icao, stop_scope = normalize_scope scope, stop_until = u,
          stop_status = Draft, stop_published_at = None, stop_created_at = now, stop_updated_at = now,
          stop_ended_at = None, stop_dismissed_at = None\<rparr>])))"

definition publish_ground_stop :: "int \<Rightarrow> ustr \<Rightarrow> ground_stop list \<Rightarrow> bool \<times> ground_stop list" where
  "publish_ground_stop now sid = set_stops (\<lambda>s. stop_id s = sid \<and> stop_status s = Draft)
     (\<lambda>s. s\<lparr>stop_status := Published, stop_published_at := Some now, stop_updated_at := now\<rparr>)"

definition cancel_ground_stop :: "int \<Rightarrow> ustr \<Rightarrow> ground_stop list \<Rightarrow> bool \<times> ground_stop list" where
  "cancel_ground_stop now sid = set_stops (\<lambda>s. stop_id s = sid \<and> stop_active s)
     (\<lambda>s. s\<lparr>stop_status := Cancelled, stop_ended_at := Some (coalesce (stop_ended_at s) now), stop_updated_at := now\<rparr>)"

definition retained_stop :: "int \<Rightarrow> ground_stop \<Rightarrow> ground_stop" where
  "retained_stop now s = s\<lparr>stop_status := (if stop_active s then Cancelled else stop_status s),
     stop_ended_at := (if stop_active s then Some (coalesce (stop_ended_at s) now) else stop_ended_at s),
     stop_dismissed_at := Some (coalesce (stop_dismissed_at s) now), stop_updated_at := now\<rparr>"

definition stop_past :: "int \<Rightarrow> ground_stop \<Rightarrow> bool" where
  "stop_past t s \<longleftrightarrow> (case until_instant s of None \<Rightarrow> False | Some u \<Rightarrow> u < t)"

definition expire_stops :: "int \<Rightarrow> ground_stop list \<Rightarrow> ground_stop list" where
  "expire_stops now = map (\<lambda>s. if stop_active s \<and> stop_past now s then s\<lparr>stop_status := Expired, stop_updated_at := now\<rparr> else s)"

definition stale_stop :: "int \<Rightarrow> ground_stop \<Rightarrow> bool" where
  "stale_stop now s \<longleftrightarrow> stop_published_at s = None \<and>
     (stop_past (now - hour_ms) s \<or> \<not> stop_active s \<and> stop_updated_at s < now - hour_ms)"

definition pruned_stop :: "int \<Rightarrow> ground_stop \<Rightarrow> bool" where
  "pruned_stop before s \<longleftrightarrow> stop_published_at s \<noteq> None \<and> \<not> stop_active s \<and>
     coalesce (stop_ended_at s) (stop_updated_at s) < before"

section \<open>The advisory a publish generates\<close>

definition stop_advisory_request :: "json \<Rightarrow> create_advisory_request" where
  "stop_advisory_request doc = \<lparr>cr_facility = lit ''DCC'', cr_kind = ADVISORY_KIND_GROUND_STOP, cr_body = [],
     cr_structured = Some doc, cr_decoded = None, cr_valid_from = None, cr_valid_to = None\<rparr>"

text \<open>One transaction; the row the document is derived from carries no ARTCC.\<close>

definition publish_ground_stop_handler ::
    "doc_env \<Rightarrow> (ground_stop_advisory \<Rightarrow> json) \<Rightarrow> (ustr \<times> ustr) list \<Rightarrow> int \<Rightarrow> ustr \<Rightarrow> ustr \<Rightarrow> publish_ground_stop_request \<Rightarrow>
     ground_stop list \<times> advisory list \<Rightarrow> (ground_stop list \<times> advisory list) result" where
  "publish_ground_stop_handler env to_value iata now aid sid ed w =
     (case publish_ground_stop now sid (fst w) of
        (False, _) \<Rightarrow> Inl Conflict
      | (True, ss) \<Rightarrow> bind_result (ok_or NotFound (get_ground_stop ss sid)) (\<lambda>s.
          let doc = ground_stop_advisory_from iata (stop_airport s) None
                (de_civil env now, map_option (de_civil env) (until_instant s)) ed (de_civil env now)
          in bind_result (create_advisory_tx env now aid (stop_advisory_request (to_value doc)) (Some (FromGroundStop sid)) (snd w))
               (\<lambda>as. Inr (ss, as))))"

definition cancel_ground_stop_handler :: "int \<Rightarrow> ustr \<Rightarrow> ground_stop list \<Rightarrow> ground_stop list result" where
  "cancel_ground_stop_handler now sid ss =
     (case cancel_ground_stop now sid ss of (False, _) \<Rightarrow> Inl Conflict | (True, ss') \<Rightarrow> Inr ss')"

text \<open>Deleting a stop that was never published unlinks its advisories (\<open>on delete set null\<close>).\<close>

definition unlink :: "advisory_program list \<Rightarrow> advisory list \<Rightarrow> advisory list" where
  "unlink gone = map (\<lambda>a. case av_program a of None \<Rightarrow> a
     | Some p \<Rightarrow> if p \<in> set gone then a\<lparr>av_program := None\<rparr> else a)"

definition drop_stops :: "(ground_stop \<Rightarrow> bool) \<Rightarrow> ground_stop list \<times> advisory list \<Rightarrow> ground_stop list \<times> advisory list" where
  "drop_stops P w = (filter (\<lambda>s. \<not> P s) (fst w), unlink (map (\<lambda>s. FromGroundStop (stop_id s)) (filter P (fst w))) (snd w))"

definition delete_ground_stop_handler ::
    "int \<Rightarrow> ustr \<Rightarrow> ground_stop list \<times> advisory list \<Rightarrow> (ground_stop list \<times> advisory list) result" where
  "delete_ground_stop_handler now sid w =
     (let P = (\<lambda>s. stop_id s = sid \<and> stop_published_at s = None) in
      if list_ex P (fst w) then Inr (drop_stops P w)
      else case set_stops (\<lambda>s. stop_id s = sid) (retained_stop now) (fst w) of
        (False, _) \<Rightarrow> Inl NotFound | (True, ss) \<Rightarrow> Inr (ss, snd w))"

section \<open>Rate programs\<close>

record gate_rule =
  gr_name :: ustr
  gr_trail :: int
  gr_mit :: int

record upsert_program_request =
  rp_aar :: int
  rp_trail :: int
  rp_mit :: int
  rp_gates :: "gate_rule list"
  rp_exclude_wake :: "ustr list"
  rp_exclude_types :: "ustr list"
  rp_jets_only :: bool
  rp_active_until :: "int option"

record rate_program =
  pr_icao :: ustr
  pr_request :: upsert_program_request
  pr_updated_at :: int

definition clean_alnum :: "nat \<Rightarrow> nat \<Rightarrow> ustr \<Rightarrow> ustr option" where
  "clean_alnum lo hi raw = (let s = ascii_upper (filter is_ascii_alphanumeric raw) in
     if lo \<le> length s \<and> length s \<le> hi then Some s else None)"

definition clean_gate :: "gate_rule \<Rightarrow> gate_rule option" where
  "clean_gate g = map_option (\<lambda>name. let mit = clamp 0 300 (gr_mit g) in
     \<lparr>gr_name = name, gr_trail = (if 0 < mit then 0 else clamp 0 60 (gr_trail g)), gr_mit = mit\<rparr>) (clean_alnum 1 8 (gr_name g))"

definition wake_class :: "ustr \<Rightarrow> bool" where
  "wake_class w \<longleftrightarrow> w \<in> {lit ''L'', lit ''M'', lit ''H'', lit ''J''}"

text \<open>The normalised payload, its gate list included.\<close>

definition normalize_program :: "upsert_program_request \<Rightarrow> upsert_program_request result" where
  "normalize_program p =
     (if rp_aar p < 1 \<or> 200 < rp_aar p then Inl BadRequest
      else let mit = clamp 0 300 (rp_mit p) in
        Inr (p\<lparr>rp_trail := (if 0 < mit then 0 else clamp 0 60 (rp_trail p)), rp_mit := mit,
          rp_gates := take 10 (List.map_filter clean_gate (rp_gates p)),
          rp_exclude_wake := filter wake_class (map (\<lambda>w. ascii_upper (trim w)) (rp_exclude_wake p)),
          rp_exclude_types := List.map_filter (clean_alnum 2 4) (rp_exclude_types p)\<rparr>))"

definition upsert_program_handler ::
    "int \<Rightarrow> ustr \<Rightarrow> upsert_program_request \<Rightarrow> rate_program list \<Rightarrow> rate_program list result" where
  "upsert_program_handler now icao payload ps =
     bind_result (ok_or BadRequest (clean_alnum 3 4 icao)) (\<lambda>code.
     bind_result (normalize_program payload) (\<lambda>req.
       let row = \<lparr>pr_icao = code, pr_request = req, pr_updated_at = now\<rparr> in
       Inr (if list_ex (\<lambda>p. pr_icao p = code) ps then map (\<lambda>p. if pr_icao p = code then row else p) ps else ps @ [row])))"

definition delete_program_handler :: "ustr \<Rightarrow> rate_program list \<Rightarrow> rate_program list result" where
  "delete_program_handler icao ps =
     bind_result (ok_or BadRequest (clean_alnum 3 4 icao)) (\<lambda>code.
       if list_ex (\<lambda>p. pr_icao p = code) ps then Inr (filter (\<lambda>p. pr_icao p \<noteq> code) ps) else Inl NotFound)"

definition lapsed_program :: "int \<Rightarrow> rate_program \<Rightarrow> bool" where
  "lapsed_program now p \<longleftrightarrow> (case rp_active_until (pr_request p) of None \<Rightarrow> False | Some u \<Rightarrow> u < now - hour_ms)"

section \<open>Normal forms\<close>

lemma clean_alnum_Some:
  "clean_alnum lo hi raw = Some s \<Longrightarrow> lo \<le> length s \<and> length s \<le> hi \<and> list_all is_ascii_alphanumeric s \<and> ascii_upper s = s"
  by (auto simp: clean_alnum_def Let_def list_all_iff ascii_upper_def is_ascii_alphanumeric_def is_ascii_digit_def
      is_ascii_uppercase_def is_ascii_lowercase_def split: if_splits)

lemma clean_alnum_fixed: "clean_alnum lo hi raw = Some s \<Longrightarrow> clean_alnum lo hi s = Some s"
  using clean_alnum_Some [of lo hi raw s] by (simp add: clean_alnum_def Let_def list_all_iff)

lemma clamp_bounds: "lo \<le> hi \<Longrightarrow> lo \<le> clamp lo hi x \<and> clamp lo hi x \<le> hi"
  by (simp add: clamp_def)

lemma clamp_fixed: "lo \<le> x \<Longrightarrow> x \<le> hi \<Longrightarrow> clamp lo hi x = x"
  by (simp add: clamp_def)

lemma map_filter_fixed: "(\<And>x. x \<in> set xs \<Longrightarrow> f x = Some x) \<Longrightarrow> List.map_filter f xs = xs"
  by (induction xs) (simp_all add: List.map_filter_def)

definition gate_normal :: "gate_rule \<Rightarrow> bool" where
  "gate_normal g \<longleftrightarrow> clean_alnum 1 8 (gr_name g) = Some (gr_name g) \<and> 0 \<le> gr_mit g \<and> gr_mit g \<le> 300 \<and>
     0 \<le> gr_trail g \<and> gr_trail g \<le> 60 \<and> (0 < gr_mit g \<longrightarrow> gr_trail g = 0)"

lemma clean_gate_normal: "clean_gate g = Some h \<Longrightarrow> gate_normal h"
  using clamp_bounds [of 0 300 "gr_mit g"] clamp_bounds [of 0 60 "gr_trail g"]
  by (auto simp: clean_gate_def gate_normal_def Let_def dest: clean_alnum_fixed)

lemma gate_normal_fixed: "gate_normal g \<Longrightarrow> clean_gate g = Some g"
  by (cases g) (auto simp: clean_gate_def gate_normal_def Let_def clamp_fixed)

lemma wake_class_fixed: "wake_class w \<Longrightarrow> ascii_upper (trim w) = w"
  unfolding wake_class_def by (elim insertE emptyE) (hypsubst, code_simp)+

text \<open>C40. A rate program that is accepted meets the table's constraints: arrival rate 1 to 200, at most ten
  gates with clean names, spacing in range, miles-in-trail overriding minutes-in-trail at the airport
  and at each gate; and saving the stored program again changes nothing.\<close>

theorem normalized_programs_are_normal:
  "case normalize_program p of
     Inl e \<Rightarrow> e = BadRequest \<and> (rp_aar p < 1 \<or> 200 < rp_aar p)
   | Inr q \<Rightarrow> 1 \<le> rp_aar q \<and> rp_aar q \<le> 200 \<and> 0 \<le> rp_mit q \<and> rp_mit q \<le> 300 \<and> 0 \<le> rp_trail q \<and> rp_trail q \<le> 60 \<and>
       (rp_mit q = 0 \<or> rp_trail q = 0) \<and> length (rp_gates q) \<le> 10 \<and> list_all gate_normal (rp_gates q) \<and>
       list_all wake_class (rp_exclude_wake q) \<and> normalize_program q = Inr q"
proof (cases "normalize_program p")
  case (Inl e)
  then show ?thesis by (simp add: normalize_program_def Let_def split: if_splits)
next
  case (Inr q)
  then have aar: "1 \<le> rp_aar p" "rp_aar p \<le> 200"
    and q: "q = p\<lparr>rp_trail := (if 0 < clamp 0 300 (rp_mit p) then 0 else clamp 0 60 (rp_trail p)), rp_mit := clamp 0 300 (rp_mit p),
          rp_gates := take 10 (List.map_filter clean_gate (rp_gates p)),
          rp_exclude_wake := filter wake_class (map (\<lambda>w. ascii_upper (trim w)) (rp_exclude_wake p)),
          rp_exclude_types := List.map_filter (clean_alnum 2 4) (rp_exclude_types p)\<rparr>"
    by (auto simp: normalize_program_def Let_def split: if_splits)
  have mit: "0 \<le> rp_mit q" "rp_mit q \<le> 300" and trail: "0 \<le> rp_trail q" "rp_trail q \<le> 60" "rp_mit q = 0 \<or> rp_trail q = 0"
    using clamp_bounds [of 0 300 "rp_mit p"] clamp_bounds [of 0 60 "rp_trail p"] by (auto simp: q)
  have gates: "list_all gate_normal (rp_gates q)" "length (rp_gates q) \<le> 10"
    using clean_gate_normal by (auto simp: q list_all_iff set_map_filter dest!: in_set_takeD)
  have wake: "list_all wake_class (rp_exclude_wake q)" by (auto simp: q list_all_iff)
  have types: "t \<in> set (rp_exclude_types q) \<Longrightarrow> clean_alnum 2 4 t = Some t" for t
    using clean_alnum_fixed by (auto simp: q set_map_filter)
  have "List.map_filter clean_gate (rp_gates q) = rp_gates q"
    using gates(1) gate_normal_fixed by (intro map_filter_fixed) (auto simp: list_all_iff)
  moreover have "List.map_filter (clean_alnum 2 4) (rp_exclude_types q) = rp_exclude_types q"
    using types by (rule map_filter_fixed)
  moreover have "map (\<lambda>w. ascii_upper (trim w)) (rp_exclude_wake q) = rp_exclude_wake q"
    using wake wake_class_fixed by (auto simp: list_all_iff intro: map_idI)
  moreover have "filter wake_class (rp_exclude_wake q) = rp_exclude_wake q" using wake by (simp add: list_all_iff)
  moreover have "rp_aar q = rp_aar p" by (simp add: q)
  ultimately have "normalize_program q = Inr q"
    using aar mit trail gates(2) by (cases q) (auto simp: normalize_program_def Let_def clamp_fixed)
  then show ?thesis using aar mit trail gates wake \<open>rp_aar q = rp_aar p\<close> by (simp add: Inr)
qed

section \<open>When a ground stop ends\<close>

lemma normalize_until_Some:
  assumes "normalize_until raw = Inr (Some u)"
  shows "length u = 4" "list_all is_ascii_digit u" "digits_value (take 2 u) < 24" "digits_value (drop 2 u) < 60"
    "0 \<le> digits_value (take 2 u)" "0 \<le> digits_value (drop 2 u)"
proof -
  show l: "length u = 4" and d: "list_all is_ascii_digit u" and h: "digits_value (take 2 u) < 24"
    using assms by (auto simp: normalize_until_def Let_def list_all_iff is_ascii_digit_def split: if_splits)
  have "digits_value (take 2 (drop 2 u)) < 60"
    using assms by (auto simp: normalize_until_def Let_def split: if_splits)
  then show "digits_value (drop 2 u) < 60" using l by simp
  have "list_all is_ascii_digit (take 2 u)" "list_all is_ascii_digit (drop 2 u)"
    using d unfolding list_all_iff by (meson in_set_takeD in_set_dropD)+
  then show "0 \<le> digits_value (take 2 u)" "0 \<le> digits_value (drop 2 u)" using l digits_value_two by auto
qed

text \<open>A stop accepted with a clock time ends at that time of day, at or after the moment it was
  drafted and less than a day later; until further notice has no end; and the stored time is its own
  normal form.\<close>

theorem ground_stop_ends_within_a_day:
  assumes "normalize_until raw = Inr until"
  shows "normalize_until until = Inr until \<and>
    (case ground_stop_until_ts created until of
       None \<Rightarrow> until = None
     | Some t \<Rightarrow> created \<le> t \<and> t < created + day_ms \<and>
         (case until of None \<Rightarrow> False
          | Some u \<Rightarrow> t mod day_ms = (digits_value (take 2 u) * 60 + digits_value (drop 2 u)) * minute_ms))"
proof (cases until)
  case None
  then show ?thesis by (simp add: normalize_until_def coalesce_def ground_stop_until_ts_def)
next
  case (Some u)
  with assms have n: "normalize_until raw = Inr (Some u)" by simp
  note u = normalize_until_Some [OF n]
  define m where "m = (digits_value (take 2 u) * 60 + digits_value (drop 2 u)) * minute_ms"
  have m: "0 \<le> m" "m < day_ms" using u(3-6) by (simp_all add: m_def minute_ms_def day_ms_def)
  have "filter is_ascii_digit u = u" using u(2) by (simp add: list_all_iff)
  moreover have "take 2 (drop 2 u) = drop 2 u" "u \<noteq> []" using u(1) by auto
  ultimately have nf: "normalize_until (Some u) = Inr (Some u)"
    using u by (simp add: normalize_until_def coalesce_def)
  let ?at = "midnight_ms created + m"
  have t: "ground_stop_until_ts created (Some u) = Some (if ?at < created then ?at + day_ms else ?at)"
    using u(1,2) by (simp add: ground_stop_until_ts_def Let_def m_def)
  have mid: "midnight_ms created \<le> created" "created < midnight_ms created + day_ms" "midnight_ms created mod day_ms = 0"
  proof -
    have "0 < day_ms" by (simp add: day_ms_def minute_ms_def)
    show "midnight_ms created mod day_ms = 0" by (simp add: midnight_ms_def)
    from \<open>0 < day_ms\<close> show "midnight_ms created \<le> created" "created < midnight_ms created + day_ms"
      using pos_mod_sign [of day_ms created] pos_mod_bound [of day_ms created] div_mult_mod_eq [of created day_ms]
      unfolding midnight_ms_def by linarith+
  qed
  have "?at mod day_ms = m" using mid(3) m by (metis add_0 mod_add_left_eq mod_pos_pos_trivial)
  moreover from this have "(?at + day_ms) mod day_ms = m" by simp
  moreover note t
  ultimately have ends: "\<exists>e. ground_stop_until_ts created (Some u) = Some e \<and> e mod day_ms = m \<and> created \<le> e \<and> e < created + day_ms"
    using mid m by auto
  then show ?thesis using nf by (auto simp: Some m_def)
qed

theorem ground_stop_ends_within_a_day_witness:
  "ground_stop_until_ts 54000000 (Some (lit ''0930'')) = Some (day_ms + 34200000) \<and> day_ms + 34200000 < 54000000 + day_ms"
proof -
  have n: "normalize_until (Some (lit ''930'')) = Inr (Some (lit ''0930''))" by code_simp
  have t: "ground_stop_until_ts 54000000 (Some (lit ''0930'')) = Some (day_ms + 34200000)" by code_simp
  from ground_stop_ends_within_a_day [OF n, of 54000000] show ?thesis unfolding t by simp
qed

end
