(* ===== verification/Initiatives.thy ===== *)
theory Initiatives
  imports Ntml GdpProgram JobQueue DiscordConfig
begin

text \<open>
  Traffic management initiatives: the \<open>tmu.tmis\<close> table of \<open>backend/src/repos/tmu.rs\<close>, its endpoints in
  \<open>handlers/tmu.rs\<close> and the NTML rows they post to Discord in their own transactions. Calendar
  arithmetic and Unicode lower-casing are arguments; who did it is not kept. Instants are
  milliseconds, the job queue's are microseconds. The columns \<open>structured\<close> and \<open>decoded\<close> are kept as the
  values they were written from.
\<close>

section \<open>The table\<close>

record tmi =
  ti_id :: ustr
  ti_requesting :: ustr
  ti_providing :: ustr
  ti_restriction :: ustr
  ti_structured :: "ntml_restriction option"
  ti_decoded :: "ustr option"
  ti_start_time :: int
  ti_stop_time :: "int option"
  ti_status :: gdp_status
  ti_published_at :: "int option"
  ti_created_at :: int
  ti_updated_at :: int
  ti_ended_at :: "int option"
  ti_dismissed_at :: "int option"

record create_tmi_request =
  ct_requesting :: ustr
  ct_providing :: ustr
  ct_restriction :: ustr
  ct_structured :: "ntml_restriction option"
  ct_start_time :: "int option"
  ct_stop_time :: "int option"

record update_tmi_request =
  ut_requesting :: "ustr option"
  ut_providing :: "ustr option"
  ut_restriction :: "ustr option"
  ut_structured :: "ntml_restriction option"
  ut_start_time :: "int option"
  ut_stop_time :: "int option"

record tmi_filters =
  tf_status :: "ustr option"
  tf_kind :: "ustr option"
  tf_facility :: "ustr option"
  tf_from :: "int option"
  tf_to :: "int option"

record tmi_env =
  te_civil :: "int \<Rightarrow> civil"
  te_lower :: "ustr \<Rightarrow> ustr"

section \<open>\<open>repos/tmu.rs\<close>\<close>

definition get_tmi :: "tmi list \<Rightarrow> ustr \<Rightarrow> tmi option" where
  "get_tmi ts tid = find (\<lambda>t. ti_id t = tid) ts"

fun status_text :: "gdp_status \<Rightarrow> ustr" where
  "status_text Draft = lit ''draft''"
| "status_text Published = lit ''published''"
| "status_text Expired = lit ''expired''"
| "status_text Cancelled = lit ''cancelled''"

text \<open>The case-insensitive comparisons use \<open>upper\<close>, whose letters outside ASCII depend on the
  database's collation: an argument.\<close>

definition matches_filters :: "(ustr \<Rightarrow> ustr) \<Rightarrow> tmi_filters \<Rightarrow> tmi \<Rightarrow> bool" where
  "matches_filters upper f t \<longleftrightarrow> ti_dismissed_at t = None \<and>
     (case tf_status f of None \<Rightarrow> True | Some s \<Rightarrow> status_text (ti_status t) = s) \<and>
     (case tf_kind f of None \<Rightarrow> True | Some k \<Rightarrow>
        (case ti_structured t of None \<Rightarrow> False | Some r \<Rightarrow> upper (nr_kind r) = upper k)) \<and>
     (case tf_facility f of None \<Rightarrow> True | Some x \<Rightarrow> upper (ti_requesting t) = upper x \<or> upper (ti_providing t) = upper x) \<and>
     (case tf_to f of None \<Rightarrow> True | Some to \<Rightarrow> ti_start_time t \<le> to) \<and>
     (case (tf_from f, ti_stop_time t) of (Some from, Some stop) \<Rightarrow> from \<le> stop | _ \<Rightarrow> True)"

definition list_tmis :: "(ustr \<Rightarrow> ustr) \<Rightarrow> tmi_filters \<Rightarrow> tmi list \<Rightarrow> tmi list" where
  "list_tmis upper f ts = sort_key (\<lambda>t. - ti_created_at t) (filter (matches_filters upper f) ts)"

definition live_at :: "int \<Rightarrow> tmi \<Rightarrow> bool" where
  "live_at at t \<longleftrightarrow> (case ti_published_at t of None \<Rightarrow> False | Some p \<Rightarrow> p \<le> at) \<and>
     (case ti_stop_time t of None \<Rightarrow> True | Some s \<Rightarrow> at < s) \<and>
     (case ti_ended_at t of None \<Rightarrow> True | Some e \<Rightarrow> at < e)"

definition list_tmis_at :: "int \<Rightarrow> tmi list \<Rightarrow> tmi list" where
  "list_tmis_at at ts = sort_key (\<lambda>t. - ti_created_at t) (filter (live_at at) ts)"

definition create_tmi :: "tmi_env \<Rightarrow> int \<Rightarrow> ustr \<Rightarrow> create_tmi_request \<Rightarrow> tmi list \<Rightarrow> tmi list result" where
  "create_tmi env now tid req ts =
     (if list_ex (\<lambda>t. ti_id t = tid) ts then Inl Internal
      else Inr (ts @ [\<lparr>ti_id = tid, ti_requesting = ct_requesting req, ti_providing = ct_providing req,
        ti_restriction = ct_restriction req, ti_structured = ct_structured req,
        ti_decoded = map_option (render_english (te_lower env)) (ct_structured req),
        ti_start_time = coalesce (ct_start_time req) now, ti_stop_time = ct_stop_time req, ti_status = Draft,
        ti_published_at = None, ti_created_at = now, ti_updated_at = now, ti_ended_at = None,
        ti_dismissed_at = None\<rparr>]))"

definition line_fields_differ :: "tmi \<Rightarrow> tmi \<Rightarrow> bool" where
  "line_fields_differ before after \<longleftrightarrow> ti_restriction before \<noteq> ti_restriction after \<or>
     ti_requesting before \<noteq> ti_requesting after \<or> ti_providing before \<noteq> ti_providing after \<or>
     ti_start_time before \<noteq> ti_start_time after \<or> ti_stop_time before \<noteq> ti_stop_time after"

definition set_rows :: "(tmi \<Rightarrow> bool) \<Rightarrow> (tmi \<Rightarrow> tmi) \<Rightarrow> tmi list \<Rightarrow> bool \<times> tmi list" where
  "set_rows P f ts = (list_ex P ts, map (\<lambda>t. if P t then f t else t) ts)"

text \<open>\<open>coalesce($n, column)\<close> for a column that may itself be null.\<close>

definition keep_or :: "'a option \<Rightarrow> 'a option \<Rightarrow> 'a option" where
  "keep_or given stored = (case given of None \<Rightarrow> stored | Some v \<Rightarrow> Some v)"

definition edited_tmi :: "tmi_env \<Rightarrow> int \<Rightarrow> update_tmi_request \<Rightarrow> tmi \<Rightarrow> tmi" where
  "edited_tmi env now req t =
     (let clear_breakdown = (ut_structured req = None \<and> ut_restriction req \<noteq> None);
          decoded = map_option (render_english (te_lower env)) (ut_structured req)
      in t\<lparr>ti_requesting := coalesce (ut_requesting req) (ti_requesting t),
           ti_providing := coalesce (ut_providing req) (ti_providing t),
           ti_restriction := coalesce (ut_restriction req) (ti_restriction t),
           ti_start_time := coalesce (ut_start_time req) (ti_start_time t),
           ti_stop_time := keep_or (ut_stop_time req) (ti_stop_time t),
           ti_structured := (if clear_breakdown then None else keep_or (ut_structured req) (ti_structured t)),
           ti_decoded := (if clear_breakdown then None else keep_or decoded (ti_decoded t)),
           ti_updated_at := now\<rparr>)"

definition update_tmi :: "tmi_env \<Rightarrow> int \<Rightarrow> ustr \<Rightarrow> update_tmi_request \<Rightarrow> tmi list \<Rightarrow> (tmi \<times> bool \<times> tmi list) option" where
  "update_tmi env now tid req ts =
     (case get_tmi ts tid of
        None \<Rightarrow> None
      | Some before \<Rightarrow>
          let ts' = snd (set_rows (\<lambda>t. ti_id t = tid) (edited_tmi env now req) ts)
          in map_option (\<lambda>t. (t, line_fields_differ before t, ts')) (get_tmi ts' tid))"

definition publish_tmi :: "int \<Rightarrow> ustr \<Rightarrow> tmi list \<Rightarrow> (tmi \<times> tmi list) option" where
  "publish_tmi now tid ts =
     (case set_rows (\<lambda>t. ti_id t = tid \<and> ti_status t = Draft)
             (\<lambda>t. t\<lparr>ti_status := Published, ti_published_at := Some now, ti_updated_at := now\<rparr>) ts of
        (False, _) \<Rightarrow> None
      | (True, ts') \<Rightarrow> map_option (\<lambda>t. (t, ts')) (get_tmi ts' tid))"

definition tmi_active :: "tmi \<Rightarrow> bool" where
  "tmi_active t \<longleftrightarrow> ti_status t = Draft \<or> ti_status t = Published"

definition end_tmi :: "int \<Rightarrow> tmi \<Rightarrow> tmi" where
  "end_tmi now t = t\<lparr>ti_status := Cancelled, ti_ended_at := Some (coalesce (ti_ended_at t) now), ti_updated_at := now\<rparr>"

definition cancel_tmi :: "int \<Rightarrow> ustr \<Rightarrow> tmi list \<Rightarrow> bool \<times> tmi list" where
  "cancel_tmi now tid = set_rows (\<lambda>t. ti_id t = tid \<and> tmi_active t) (end_tmi now)"

definition retained_tmi :: "int \<Rightarrow> tmi \<Rightarrow> tmi" where
  "retained_tmi now t = t\<lparr>ti_status := (if tmi_active t then Cancelled else ti_status t),
     ti_ended_at := (if tmi_active t then Some (coalesce (ti_ended_at t) now) else ti_ended_at t),
     ti_dismissed_at := Some (coalesce (ti_dismissed_at t) now), ti_updated_at := now\<rparr>"

definition delete_tmi :: "int \<Rightarrow> ustr \<Rightarrow> tmi list \<Rightarrow> bool \<times> tmi list" where
  "delete_tmi now tid ts =
     (let P = (\<lambda>t. ti_id t = tid \<and> ti_published_at t = None) in
      if list_ex P ts then (True, filter (\<lambda>t. \<not> P t) ts)
      else set_rows (\<lambda>t. ti_id t = tid) (retained_tmi now) ts)"

text \<open>The cleanup pass and the retention horizon of the history.\<close>

definition stopped_before :: "int \<Rightarrow> tmi \<Rightarrow> bool" where
  "stopped_before at t \<longleftrightarrow> (case ti_stop_time t of None \<Rightarrow> False | Some s \<Rightarrow> s < at)"

definition cleanup_tmis :: "int \<Rightarrow> tmi list \<Rightarrow> tmi list" where
  "cleanup_tmis now ts =
     filter (\<lambda>t. \<not> (ti_published_at t = None \<and>
         (stopped_before (now - hour_ms) t \<or> \<not> tmi_active t \<and> ti_updated_at t < now - hour_ms)))
       (map (\<lambda>t. if tmi_active t \<and> stopped_before now t then t\<lparr>ti_status := Expired, ti_updated_at := now\<rparr> else t) ts)"

definition prune_tmis :: "int \<Rightarrow> tmi list \<Rightarrow> tmi list" where
  "prune_tmis before = filter (\<lambda>t. \<not> (ti_published_at t \<noteq> None \<and> \<not> tmi_active t \<and>
     coalesce (ti_ended_at t) (ti_updated_at t) < before))"

section \<open>The list filters\<close>

definition clean_filter :: "ustr option \<Rightarrow> ustr option" where
  "clean_filter v = (case v of None \<Rightarrow> None | Some s \<Rightarrow> if trim s = [] then None else Some (trim s))"

definition into_filters :: "tmi_filters \<Rightarrow> tmi_filters" where
  "into_filters q = q\<lparr>tf_status := clean_filter (tf_status q), tf_kind := clean_filter (tf_kind q),
     tf_facility := clean_filter (tf_facility q)\<rparr>"

section \<open>The NTML rows\<close>

definition NTML_CHANNEL :: ustr where "NTML_CHANNEL = lit ''tmu-ntml''"

definition tmi_publish_job :: "tmi_env \<Rightarrow> int \<Rightarrow> ustr \<Rightarrow> tmi \<Rightarrow> json" where
  "tmi_publish_job env now channel t = JObject [(lit ''channel_id'', JString channel), (lit ''tmi_id'', JString (ti_id t)),
     (lit ''ntml'', JString (ntml_line (te_civil env now) (ti_restriction t) (Some (te_civil env (ti_start_time t)))
        (map_option (te_civil env) (ti_stop_time t)) (Some (ti_requesting t)) (Some (ti_providing t))))]"

definition tmi_cancel_job :: "tmi_env \<Rightarrow> int \<Rightarrow> ustr \<Rightarrow> tmi \<Rightarrow> json" where
  "tmi_cancel_job env now channel t = JObject [(lit ''channel_id'', JString channel), (lit ''tmi_id'', JString (ti_id t)),
     (lit ''ntml'', JString (ntml_cancel_line (te_civil env now) (ti_restriction t)
        (Some (ti_requesting t)) (Some (ti_providing t))))]"

definition line_channel :: "job list \<Rightarrow> ustr \<Rightarrow> ustr option" where
  "line_channel = published_channel_for_tmi (\<lambda>p. json_str_field p (lit ''channel_id''))"

record tmi_world =
  tw_tmis :: "tmi list"
  tw_jobs :: "job list"
  tw_guilds :: "guild_config list"

definition post_line :: "int \<Rightarrow> ustr \<Rightarrow> ustr \<Rightarrow> json \<Rightarrow> ustr \<Rightarrow> tmi_world \<Rightarrow> tmi_world result" where
  "post_line now jid job_type payload tid w =
     bind_result (enqueue_job (1000 * now) jid job_type payload (Some (lit ''tmi'')) (Some tid) (tw_jobs w))
       (\<lambda>(_, q). Inr (w\<lparr>tw_jobs := q\<rparr>))"

section \<open>The endpoints\<close>

definition incomplete_breakdown :: "ntml_restriction \<Rightarrow> bool" where
  "incomplete_breakdown r \<longleftrightarrow> trim (nr_element r) = [] \<or> trim (nr_kind r) = []"

definition create_tmi_handler ::
    "tmi_env \<Rightarrow> int \<Rightarrow> ustr \<Rightarrow> create_tmi_request \<Rightarrow> tmi_world \<Rightarrow> (tmi \<times> tmi_world) result" where
  "create_tmi_handler env now tid req w =
     (let requesting = ascii_upper (trim (ct_requesting req)); providing = ascii_upper (trim (ct_providing req)) in
      if (case ct_structured req of None \<Rightarrow> False | Some s \<Rightarrow> incomplete_breakdown s) then Inl BadRequest else
      let line = trim (case ct_structured req of None \<Rightarrow> ct_restriction req | Some s \<Rightarrow> encode s) in
      if requesting = [] \<or> providing = [] \<or> line = [] then Inl BadRequest
      else bind_result (create_tmi env now tid
             (req\<lparr>ct_requesting := requesting, ct_providing := providing, ct_restriction := line\<rparr>) (tw_tmis w)) (\<lambda>ts.
           bind_result (ok_or Internal (get_tmi ts tid)) (\<lambda>t. Inr (t, w\<lparr>tw_tmis := ts\<rparr>))))"

definition normalized_edit :: "update_tmi_request \<Rightarrow> update_tmi_request" where
  "normalized_edit req = req\<lparr>ut_requesting := map_option (\<lambda>s. ascii_upper (trim s)) (ut_requesting req),
     ut_providing := map_option (\<lambda>s. ascii_upper (trim s)) (ut_providing req),
     ut_restriction := (case ut_structured req of None \<Rightarrow> ut_restriction req | Some s \<Rightarrow> Some (encode s))\<rparr>"

definition update_tmi_handler ::
    "tmi_env \<Rightarrow> int \<Rightarrow> ustr \<Rightarrow> ustr \<Rightarrow> update_tmi_request \<Rightarrow> tmi_world \<Rightarrow> (tmi \<times> tmi_world) result" where
  "update_tmi_handler env now jid tid req w =
     (if (case ut_structured req of None \<Rightarrow> False | Some s \<Rightarrow> incomplete_breakdown s) then Inl BadRequest else
      bind_result (ok_or NotFound (update_tmi env now tid (normalized_edit req) (tw_tmis w))) (\<lambda>(t, line_changed, ts).
        let w' = w\<lparr>tw_tmis := ts\<rparr> in
        case channel_id (tw_guilds w) NTML_CHANNEL None of
          Some channel \<Rightarrow>
            if ti_status t = Published \<and> line_changed
            then bind_result (post_line now jid (lit ''tmi_publish'') (tmi_publish_job env now channel t) (ti_id t) w')
                   (\<lambda>w''. Inr (t, w''))
            else Inr (t, w')
        | None \<Rightarrow> Inr (t, w')))"

definition publish_tmi_handler :: "tmi_env \<Rightarrow> int \<Rightarrow> ustr \<Rightarrow> ustr \<Rightarrow> tmi_world \<Rightarrow> (tmi \<times> tmi_world) result" where
  "publish_tmi_handler env now jid tid w =
     bind_result (ok_or Conflict (publish_tmi now tid (tw_tmis w))) (\<lambda>(t, ts).
       let w' = w\<lparr>tw_tmis := ts\<rparr> in
       case channel_id (tw_guilds w) NTML_CHANNEL None of
         None \<Rightarrow> Inr (t, w')
       | Some channel \<Rightarrow> bind_result (post_line now jid (lit ''tmi_publish'') (tmi_publish_job env now channel t) (ti_id t) w')
           (\<lambda>w''. Inr (t, w'')))"

text \<open>The answer is read through the pool while the transaction is still open, so it is the row as it
  was before the cancellation.\<close>

definition cancel_tmi_handler :: "tmi_env \<Rightarrow> int \<Rightarrow> ustr \<Rightarrow> ustr \<Rightarrow> tmi_world \<Rightarrow> (tmi \<times> tmi_world) result" where
  "cancel_tmi_handler env now jid tid w =
     (let channel = (case line_channel (tw_jobs w) tid of Some c \<Rightarrow> Some c
                     | None \<Rightarrow> channel_id (tw_guilds w) NTML_CHANNEL None) in
      case cancel_tmi now tid (tw_tmis w) of
        (False, _) \<Rightarrow> Inl Conflict
      | (True, ts) \<Rightarrow> bind_result (ok_or NotFound (get_tmi (tw_tmis w) tid)) (\<lambda>t.
          let w' = w\<lparr>tw_tmis := ts\<rparr> in
          case channel of
            None \<Rightarrow> Inr (t, w')
          | Some c \<Rightarrow> bind_result (post_line now jid (lit ''tmi_cancel'') (tmi_cancel_job env now c t) (ti_id t) w')
              (\<lambda>w''. Inr (t, w''))))"

definition delete_tmi_handler :: "int \<Rightarrow> ustr \<Rightarrow> tmi_world \<Rightarrow> tmi_world result" where
  "delete_tmi_handler now tid w =
     (case delete_tmi now tid (tw_tmis w) of
        (False, _) \<Rightarrow> Inl NotFound | (True, ts) \<Rightarrow> Inr (w\<lparr>tw_tmis := ts\<rparr>))"

end
