(* ===== verification/RowTable.thy ===== *)
theory RowTable
  imports Prelude
begin

text \<open>
  The contract the traffic-management tables share: rows have an identity, a row may only be
  followed by rows of later states in certain ways, and only some rows may disappear. Stated once as a
  locale; the tables of advisories, initiatives and ground stops interpret it.
\<close>

definition rows_kept :: "('r \<Rightarrow> 'r \<Rightarrow> bool) \<Rightarrow> ('r \<Rightarrow> bool) \<Rightarrow> 'r list \<Rightarrow> 'r list \<Rightarrow> bool" where
  "rows_kept follow droppable rows rows' \<longleftrightarrow>
     list_all (\<lambda>r. list_ex (follow r) rows' \<or> droppable r) rows"

definition rows_sound :: "('r \<Rightarrow> 'k) \<Rightarrow> ('r \<Rightarrow> bool) \<Rightarrow> 'r list \<Rightarrow> bool" where
  "rows_sound ident sound rows \<longleftrightarrow> distinct (map ident rows) \<and> list_all sound rows"

definition rows_step :: "('r \<Rightarrow> 'k) \<Rightarrow> ('r \<Rightarrow> bool) \<Rightarrow> ('r \<Rightarrow> 'r \<Rightarrow> bool) \<Rightarrow> ('r \<Rightarrow> bool) \<Rightarrow> 'r list \<Rightarrow> 'r list \<Rightarrow> bool" where
  "rows_step ident sound follow droppable rows rows' \<longleftrightarrow> rows_sound ident sound rows' \<and> rows_kept follow droppable rows rows'"

locale row_table =
  fixes ident :: "'r \<Rightarrow> 'k"
    and sound :: "'r \<Rightarrow> bool"
    and follow :: "'r \<Rightarrow> 'r \<Rightarrow> bool"
    and droppable :: "'r \<Rightarrow> bool"
  assumes follow_refl: "sound r \<Longrightarrow> follow r r"
    and follow_trans: "follow r r' \<Longrightarrow> follow r' r'' \<Longrightarrow> follow r r''"
    and follow_ident: "follow r r' \<Longrightarrow> ident r' = ident r"
    and droppable_back: "follow r r' \<Longrightarrow> droppable r' \<Longrightarrow> droppable r"
begin

lemma kept_refl: "list_all sound rows \<Longrightarrow> rows_kept follow droppable rows rows"
  by (auto simp: rows_kept_def list_all_iff list_ex_iff intro: follow_refl)

lemma kept_trans:
  assumes "rows_kept follow droppable a b" and "rows_kept follow droppable b c"
  shows "rows_kept follow droppable a c"
  unfolding rows_kept_def list_all_iff list_ex_iff
proof
  fix r assume r: "r \<in> set a"
  show "(\<exists>x\<in>set c. follow r x) \<or> droppable r"
  proof (cases "droppable r")
    case False
    then obtain r' where r': "r' \<in> set b" "follow r r'"
      using assms(1) r by (auto simp: rows_kept_def list_all_iff list_ex_iff)
    with False have "\<not> droppable r'" using droppable_back by blast
    with assms(2) r' obtain r'' where "r'' \<in> set c" "follow r' r''"
      by (auto simp: rows_kept_def list_all_iff list_ex_iff)
    with r' show ?thesis using follow_trans by blast
  qed simp
qed

lemma map_rows:
  assumes "rows_sound ident sound rows"
    and f: "\<And>r. r \<in> set rows \<Longrightarrow> sound r \<Longrightarrow> follow r (f r) \<and> sound (f r)"
  shows "rows_sound ident sound (map f rows) \<and> rows_kept follow droppable rows (map f rows)"
proof -
  have fr: "follow r (f r)" "sound (f r)" if "r \<in> set rows" for r
    using f that assms(1) by (auto simp: rows_sound_def list_all_iff)
  then have "map ident (map f rows) = map ident rows" using follow_ident by (auto intro: map_cong)
  moreover have "list_all sound (map f rows)" using fr(2) by (simp add: list_all_iff)
  moreover have "rows_kept follow droppable rows (map f rows)"
    using fr(1) by (auto simp: rows_kept_def list_all_iff list_ex_iff)
  ultimately show ?thesis using assms(1) by (simp add: rows_sound_def del: map_map)
qed

lemma map_some_rows:
  assumes "rows_sound ident sound rows" and "\<And>r. P r \<Longrightarrow> sound r \<Longrightarrow> follow r (f r) \<and> sound (f r)"
  shows "rows_sound ident sound (map (\<lambda>r. if P r then f r else r) rows) \<and>
    rows_kept follow droppable rows (map (\<lambda>r. if P r then f r else r) rows)"
  using map_rows [OF assms(1), of "\<lambda>r. if P r then f r else r"] assms(2) follow_refl by auto

lemma filter_rows:
  assumes "rows_sound ident sound rows" and "\<And>r. r \<in> set rows \<Longrightarrow> \<not> P r \<Longrightarrow> droppable r"
  shows "rows_sound ident sound (filter P rows) \<and> rows_kept follow droppable rows (filter P rows)"
  using assms follow_refl
  by (auto simp: rows_sound_def rows_kept_def list_all_iff list_ex_iff distinct_map_filter)

lemma append_row:
  assumes "rows_sound ident sound rows" and "sound r" and "ident r \<notin> ident ` set rows"
  shows "rows_sound ident sound (rows @ [r]) \<and> rows_kept follow droppable rows (rows @ [r])"
  using assms follow_refl by (auto simp: rows_sound_def rows_kept_def list_all_iff list_ex_iff)

abbreviation step :: "'r list \<Rightarrow> 'r list \<Rightarrow> bool" where
  "step \<equiv> rows_step ident sound follow droppable"

lemma step_sound: "step a b \<Longrightarrow> rows_sound ident sound b"
  by (simp add: rows_step_def)

lemma step_refl: "rows_sound ident sound rows \<Longrightarrow> step rows rows"
  using kept_refl by (simp add: rows_step_def rows_sound_def)

lemma step_trans: "step a b \<Longrightarrow> step b c \<Longrightarrow> step a c"
  using kept_trans by (auto simp: rows_step_def)

lemma step_map_some:
  "rows_sound ident sound rows \<Longrightarrow> (\<And>r. P r \<Longrightarrow> sound r \<Longrightarrow> follow r (f r) \<and> sound (f r)) \<Longrightarrow>
     step rows (map (\<lambda>r. if P r then f r else r) rows)"
  using map_some_rows by (simp add: rows_step_def)

lemma step_filter:
  "rows_sound ident sound rows \<Longrightarrow> (\<And>r. r \<in> set rows \<Longrightarrow> \<not> P r \<Longrightarrow> droppable r) \<Longrightarrow> step rows (filter P rows)"
  using filter_rows by (simp add: rows_step_def)

lemma step_append:
  "rows_sound ident sound rows \<Longrightarrow> sound r \<Longrightarrow> ident r \<notin> ident ` set rows \<Longrightarrow> step rows (rows @ [r])"
  using append_row by (simp add: rows_step_def)

lemma step_keeps:
  "step a b \<Longrightarrow> r \<in> set a \<Longrightarrow> \<not> droppable r \<Longrightarrow> \<exists>r'\<in>set b. follow r r'"
  by (auto simp: rows_step_def rows_kept_def list_all_iff list_ex_iff)

end

end
