(* ===== verification/JobWorkers.thy ===== *)
theory JobWorkers
  imports JobQueue
begin

text \<open>
  The queue workers seen from the tables whose transitions post to Discord: of a job, they never change
  what it is about.
\<close>

inductive worker_step :: "job list \<Rightarrow> job list \<Rightarrow> bool" where
  "lease_jobs now consumer limit locked q = (bodies, q') \<Longrightarrow> worker_step q q'"
| "ack_job now jid consumer success res err attempt q = (ok, q') \<Longrightarrow> worker_step q q'"
| "reap_stranded_jobs now stranded_before q = (n, q') \<Longrightarrow> worker_step q q'"

text \<open>Of a job, what workers never change.\<close>

definition job_what :: "job \<Rightarrow> ustr \<times> ustr option \<times> ustr option \<times> json \<times> int" where
  "job_what j = (jb_type j, jb_subject_type j, jb_subject_id j, jb_payload j, jb_created_at j)"

lemma map_insort_key: "map f (insort_key (\<lambda>x. k (f x)) x xs) = insort_key k (f x) (map f xs)"
  by (induction xs) auto

lemma map_sort_key: "map f (sort_key (\<lambda>x. k (f x)) xs) = sort_key k (map f xs)"
  by (induction xs) (simp_all add: map_insort_key)

lemma new_job_id [simp]: "jb_id (new_job now jid ty payload st si) = jid"
  by (simp add: new_job_def)

lemma worker_step_what:
  assumes "worker_step q q'" and "distinct (map jb_id q)"
  shows "map job_what q' = map job_what q \<and> map jb_id q' = map jb_id q"
  using assms(1)
proof cases
  case (1 now consumer limit locked bodies)
  then have "q' = map (\<lambda>j. if j \<in> set (picked now consumer limit locked q) then lease_row now j else j) q"
    using lease_rows [OF assms(2), of now consumer limit locked] by simp
  then show ?thesis by (auto simp: job_what_def lease_row_def)
next
  case (2 now jid consumer success res err attempt ok)
  then have "q' = map (\<lambda>j. if ack_matches jid consumer attempt j then ack_row now success res err j else j) q"
    by (simp add: ack_job_def)
  then show ?thesis by (auto simp: job_what_def ack_row_def retry_or_fail_def)
next
  case (3 now stranded_before n)
  then have "q' = map (\<lambda>j. if stranded stranded_before j then reap_row now j else j) q"
    by (simp add: reap_stranded_jobs_def)
  then show ?thesis by (auto simp: job_what_def reap_row_def retry_or_fail_def)
qed

lemma enqueue_appends:
  "enqueue_job now jid ty payload st si q = Inr (jid', q') \<Longrightarrow>
     q' = q @ [new_job now jid ty payload st si] \<and> jid \<notin> jb_id ` set q"
  by (auto simp: enqueue_job_def list_ex_iff split: if_splits)

text \<open>A post that depends on whether a channel is known.\<close>

lemma option_branchE:
  "(case x of None \<Rightarrow> P | Some c \<Rightarrow> Q c) \<Longrightarrow> (P \<Longrightarrow> R) \<Longrightarrow> (\<And>c. Q c \<Longrightarrow> R) \<Longrightarrow> R"
  by (cases x) auto

end
