(* ===== verification/InitiativeLife.thy ===== *)
theory InitiativeLife
  imports Initiatives RowTable JobWorkers
begin

text \<open>
  What holds of the traffic management initiatives over any sequence of requests, cleanup passes and
  queue workers: published ones are kept, an ended one is never posted again, and what the replay shows
  of the past does not change.
\<close>

section \<open>The steps\<close>

text \<open>Everything that runs on the table except the retention pass, which deletes ended history. A new
  initiative's id is random: no job mentions it yet.\<close>

definition unmentioned :: "ustr \<Rightarrow> job list \<Rightarrow> bool" where
  "unmentioned tid q \<longleftrightarrow> list_all (\<lambda>j. jb_subject_id j \<noteq> Some tid) q"

inductive tmi_step :: "tmi_env \<Rightarrow> int \<Rightarrow> tmi_world \<Rightarrow> tmi_world \<Rightarrow> bool" for env now where
  created: "create_tmi_handler env now tid req w = Inr (t, w') \<Longrightarrow> unmentioned tid (tw_jobs w) \<Longrightarrow> tmi_step env now w w'"
| edited: "update_tmi_handler env now jid tid upd w = Inr (t, w') \<Longrightarrow> tmi_step env now w w'"
| published: "publish_tmi_handler env now jid tid w = Inr (t, w') \<Longrightarrow> tmi_step env now w w'"
| cancelled: "cancel_tmi_handler env now jid tid w = Inr (t, w') \<Longrightarrow> tmi_step env now w w'"
| deleted: "delete_tmi_handler now tid w = Inr w' \<Longrightarrow> tmi_step env now w w'"
| cleaned: "tmi_step env now w (w\<lparr>tw_tmis := cleanup_tmis now (tw_tmis w)\<rparr>)"
| worked: "worker_step (tw_jobs w) q \<Longrightarrow> tmi_step env now w (w\<lparr>tw_jobs := q\<rparr>)"
| posted: "st \<noteq> Some (lit ''tmi'') \<Longrightarrow> enqueue_job t jid ty payload st si (tw_jobs w) = Inr (jid', q) \<Longrightarrow>
     tmi_step env now w (w\<lparr>tw_jobs := q\<rparr>)"
| mapped: "tmi_step env now w (w\<lparr>tw_guilds := guilds\<rparr>)"

text \<open>Runs all of whose steps come after an instant.\<close>

abbreviation tmi_run :: "tmi_env \<Rightarrow> int \<Rightarrow> tmi_world \<Rightarrow> tmi_world \<Rightarrow> bool" where
  "tmi_run env at \<equiv> (\<lambda>w w'. \<exists>now>at. tmi_step env now w w')\<^sup>*\<^sup>*"

section \<open>Rows\<close>

definition sound_tmi :: "tmi \<Rightarrow> bool" where
  "sound_tmi t \<longleftrightarrow> (ti_status t = Draft \<longrightarrow> ti_published_at t = None) \<and> (ti_status t = Published \<longrightarrow> ti_published_at t \<noteq> None)"

definition by_then :: "int \<Rightarrow> int option \<Rightarrow> bool" where
  "by_then at x \<longleftrightarrow> (case x of None \<Rightarrow> False | Some t \<Rightarrow> t \<le> at)"

definition tmi_follows :: "int \<Rightarrow> tmi \<Rightarrow> tmi \<Rightarrow> bool" where
  "tmi_follows at t u \<longleftrightarrow> ti_id u = ti_id t \<and> ti_created_at u = ti_created_at t \<and>
     (ti_published_at t \<noteq> None \<longrightarrow> ti_published_at u = ti_published_at t) \<and>
     (\<not> tmi_active t \<longrightarrow> ti_status u = ti_status t) \<and>
     by_then at (ti_published_at u) = by_then at (ti_published_at t) \<and> by_then at (ti_ended_at u) = by_then at (ti_ended_at t)"

definition unpublished :: "tmi \<Rightarrow> bool" where
  "unpublished t \<longleftrightarrow> ti_published_at t = None"

lemmas tmi_row_defs = sound_tmi_def tmi_follows_def unpublished_def tmi_active_def

interpretation tmirow: row_table ti_id sound_tmi "tmi_follows at" unpublished for at
  by unfold_locales (auto simp: tmi_row_defs)

lemma live_at_by_then: "live_at at t \<longleftrightarrow> by_then at (ti_published_at t) \<and> \<not> by_then at (ti_stop_time t) \<and> \<not> by_then at (ti_ended_at t)"
  by (auto simp: live_at_def by_then_def split: option.splits)

lemma by_then_coalesce: "at < now \<Longrightarrow> by_then at (Some (coalesce x now)) = by_then at x"
  by (cases x) (auto simp: by_then_def coalesce_def)

lemma tmi_set_rows:
  assumes "rows_sound ti_id sound_tmi ts" and "\<And>t. P t \<Longrightarrow> sound_tmi t \<Longrightarrow> tmi_follows at t (f t) \<and> sound_tmi (f t)"
  shows "tmirow.step at ts (snd (set_rows P f ts))"
  using tmirow.step_map_some [OF assms] by (simp add: set_rows_def)

section \<open>Every step\<close>

lemma find_append: "find P (xs @ ys) = (case find P xs of None \<Rightarrow> find P ys | Some x \<Rightarrow> Some x)"
  by (induction xs) auto

definition about_tmi :: "ustr \<Rightarrow> job \<Rightarrow> bool" where
  "about_tmi tid j \<longleftrightarrow> jb_subject_type j = Some (lit ''tmi'') \<and> jb_subject_id j = Some tid"

definition posts_about :: "ustr \<Rightarrow> job list \<Rightarrow> (ustr \<times> ustr option \<times> ustr option \<times> json \<times> int) list" where
  "posts_about tid q = map job_what (filter (about_tmi tid) q)"

definition over :: "tmi list \<Rightarrow> ustr \<Rightarrow> bool" where
  "over ts tid \<longleftrightarrow> list_ex (\<lambda>t. ti_id t = tid \<and> \<not> tmi_active t) ts"

definition tmi_inv :: "tmi_world \<Rightarrow> bool" where
  "tmi_inv w \<longleftrightarrow> rows_sound ti_id sound_tmi (tw_tmis w) \<and> distinct (map jb_id (tw_jobs w))"

definition tmi_next :: "int \<Rightarrow> tmi_world \<Rightarrow> tmi_world \<Rightarrow> bool" where
  "tmi_next at w w' \<longleftrightarrow> tmi_inv w' \<and> tmirow.step at (tw_tmis w) (tw_tmis w') \<and>
     (\<forall>tid. over (tw_tmis w) tid \<longrightarrow> posts_about tid (tw_jobs w') = posts_about tid (tw_jobs w))"

lemma posts_about_append [simp]: "posts_about tid (p @ q) = posts_about tid p @ posts_about tid q"
  by (simp add: posts_about_def)

lemma posts_about_new_job [simp]: "posts_about tid [new_job now jid ty payload st si] =
    (if st = Some (lit ''tmi'') \<and> si = Some tid then [(ty, st, si, payload, now)] else [])"
  by (simp add: posts_about_def about_tmi_def new_job_def job_what_def)

lemma worker_step_posts:
  assumes "worker_step q q'" and "distinct (map jb_id q)"
  shows "posts_about tid q' = posts_about tid q"
proof -
  have "posts_about tid q = filter (\<lambda>(ty, st, si, pl, t). st = Some (lit ''tmi'') \<and> si = Some tid) (map job_what q)" for q
    by (induction q) (auto simp: posts_about_def about_tmi_def job_what_def)
  then show ?thesis using worker_step_what [OF assms] by simp
qed

lemma tmi_next_rows:
  "tmi_inv w \<Longrightarrow> tmirow.step at (tw_tmis w) ts \<Longrightarrow> tmi_next at w (w\<lparr>tw_tmis := ts\<rparr>)"
  using tmirow.step_sound by (simp add: tmi_next_def tmi_inv_def)

lemma tmi_next_jobs:
  "tmi_inv w \<Longrightarrow> distinct (map jb_id q) \<Longrightarrow> (\<And>tid. posts_about tid q = posts_about tid (tw_jobs w)) \<Longrightarrow>
     tmi_next at w (w\<lparr>tw_jobs := q\<rparr>)"
  by (simp add: tmi_next_def tmi_inv_def tmirow.step_refl)

lemma post_line_Inr:
  assumes "post_line now jid ty payload tid w = Inr w'"
  shows "w' = w\<lparr>tw_jobs := tw_jobs w @ [new_job (1000 * now) jid ty payload (Some (lit ''tmi'')) (Some tid)]\<rparr> \<and>
    jid \<notin> jb_id ` set (tw_jobs w)"
  using assms enqueue_appends by (fastforce simp: post_line_def bind_result_Inr_iff)

text \<open>Rows first, then at most one row of the channel about an initiative that is not over.\<close>

definition posted_or_not :: "int \<Rightarrow> ustr \<Rightarrow> ustr \<Rightarrow> tmi_world \<Rightarrow> tmi_world \<Rightarrow> bool" where
  "posted_or_not now jid tid w w' \<longleftrightarrow> w' = w \<or> (\<exists>ty p. post_line now jid ty p tid w = Inr w')"

lemma tmi_next_post:
  assumes inv: "tmi_inv w" and rows: "tmirow.step at (tw_tmis w) ts"
    and post: "posted_or_not now jid tid (w\<lparr>tw_tmis := ts\<rparr>) w'" and live: "w' \<noteq> w\<lparr>tw_tmis := ts\<rparr> \<Longrightarrow> \<not> over (tw_tmis w) tid"
  shows "tmi_next at w w'"
proof (cases "w' = w\<lparr>tw_tmis := ts\<rparr>")
  case True
  then show ?thesis using tmi_next_rows [OF inv rows] by simp
next
  case False
  then obtain ty p where "post_line now jid ty p tid (w\<lparr>tw_tmis := ts\<rparr>) = Inr w'"
    using post by (auto simp: posted_or_not_def)
  note w' = post_line_Inr [OF this]
  have silent: "over (tw_tmis w) tid' \<Longrightarrow> posts_about tid' (tw_jobs w') = posts_about tid' (tw_jobs w)" for tid'
    using w' live [OF False] by auto
  have "tmi_inv w'" using w' inv tmirow.step_sound [OF rows] by (simp add: tmi_inv_def)
  with silent rows w' show ?thesis by (simp add: tmi_next_def)
qed

lemma unique_row:
  "rows_sound ti_id sound_tmi ts \<Longrightarrow> t \<in> set ts \<Longrightarrow> u \<in> set ts \<Longrightarrow> ti_id t = ti_id u \<Longrightarrow> t = u"
  by (auto simp: rows_sound_def distinct_map dest: inj_onD)

lemma get_tmi_Some: "get_tmi ts tid = Some t \<Longrightarrow> t \<in> set ts \<and> ti_id t = tid"
  by (auto simp: get_tmi_def find_Some_iff)

lemma get_tmi_sound: "rows_sound ti_id sound_tmi ts \<Longrightarrow> t \<in> set ts \<Longrightarrow> get_tmi ts (ti_id t) = Some t"
  using unique_row [of ts] by (cases "get_tmi ts (ti_id t)") (auto simp: get_tmi_def find_Some_iff find_None_iff)

lemma over_active: "rows_sound ti_id sound_tmi ts \<Longrightarrow> t \<in> set ts \<Longrightarrow> tmi_active t \<Longrightarrow> \<not> over ts (ti_id t)"
  using unique_row by (auto simp: over_def list_ex_iff)

lemma get_set_rows:
  assumes "\<And>t. ti_id (f t) = ti_id t"
  shows "get_tmi (snd (set_rows P f ts)) tid = map_option (\<lambda>t. if P t then f t else t) (get_tmi ts tid)"
  using assms by (induction ts) (auto simp: set_rows_def get_tmi_def)

lemma edited_tmi_id [simp]: "ti_id (edited_tmi env now req t) = ti_id t"
  by (simp add: edited_tmi_def Let_def)

lemma edited_tmi_status [simp]: "ti_status (edited_tmi env now req t) = ti_status t"
  by (simp add: edited_tmi_def Let_def)

lemma update_tmi_Some:
  assumes "update_tmi env now tid req ts = Some (t, changed, ts')"
  obtains before where "get_tmi ts tid = Some before" and "t = edited_tmi env now req before"
    and "changed = line_fields_differ before t" and "ts' = snd (set_rows (\<lambda>t. ti_id t = tid) (edited_tmi env now req) ts)"
    and "get_tmi ts' tid = Some t"
proof -
  let ?ts = "snd (set_rows (\<lambda>t. ti_id t = tid) (edited_tmi env now req) ts)"
  obtain before where b: "get_tmi ts tid = Some before" using assms by (auto simp: update_tmi_def split: option.splits)
  have g: "get_tmi ?ts tid = Some (edited_tmi env now req before)"
    using get_set_rows [of "edited_tmi env now req" "\<lambda>t. ti_id t = tid" ts tid] get_tmi_Some [OF b] b by simp
  have r: "(edited_tmi env now req before, line_fields_differ before (edited_tmi env now req before), ?ts) = (t, changed, ts')"
  proof -
    from g have "update_tmi env now tid req ts =
        Some (edited_tmi env now req before, line_fields_differ before (edited_tmi env now req before), ?ts)"
      using b by (simp add: update_tmi_def Let_def)
    then show ?thesis unfolding assms by (rule option.inject [THEN iffD1, OF sym])
  qed
  note e = r [unfolded prod.inject]
  have t: "t = edited_tmi env now req before" by (rule e [THEN conjunct1, symmetric])
  have ts: "ts' = ?ts" by (rule e [THEN conjunct2, THEN conjunct2, symmetric])
  have "changed = line_fields_differ before t" unfolding t by (rule e [THEN conjunct2, THEN conjunct1, symmetric])
  moreover have "get_tmi ts' tid = Some t" unfolding ts t by (rule g)
  ultimately show ?thesis using that [OF b t _ ts] by blast
qed

lemma update_tmi_handlerE:
  assumes "update_tmi_handler env now jid tid req w = Inr (t, w')"
  obtains changed ts where "update_tmi env now tid (normalized_edit req) (tw_tmis w) = Some (t, changed, ts)"
    and "case channel_id (tw_guilds w) NTML_CHANNEL None of None \<Rightarrow> w' = w\<lparr>tw_tmis := ts\<rparr>
         | Some c \<Rightarrow> if ti_status t = Published \<and> changed
             then post_line now jid (lit ''tmi_publish'') (tmi_publish_job env now c t) (ti_id t) (w\<lparr>tw_tmis := ts\<rparr>) = Inr w'
             else w' = w\<lparr>tw_tmis := ts\<rparr>"
  using assms
  by (auto simp: update_tmi_handler_def Let_def ok_or_def bind_result_Inr_iff split: option.splits if_splits)

lemma publish_tmi_handlerE:
  assumes "publish_tmi_handler env now jid tid w = Inr (t, w')"
  obtains ts where "publish_tmi now tid (tw_tmis w) = Some (t, ts)"
    and "case channel_id (tw_guilds w) NTML_CHANNEL None of None \<Rightarrow> w' = w\<lparr>tw_tmis := ts\<rparr>
         | Some c \<Rightarrow> post_line now jid (lit ''tmi_publish'') (tmi_publish_job env now c t) (ti_id t) (w\<lparr>tw_tmis := ts\<rparr>) = Inr w'"
  using assms
  by (auto simp: publish_tmi_handler_def Let_def ok_or_def bind_result_Inr_iff split: option.splits)

lemma cancel_tmi_handlerE:
  assumes "cancel_tmi_handler env now jid tid w = Inr (t, w')"
  obtains ts where "cancel_tmi now tid (tw_tmis w) = (True, ts)" and "get_tmi (tw_tmis w) tid = Some t"
    and "case (case line_channel (tw_jobs w) tid of Some c \<Rightarrow> Some c | None \<Rightarrow> channel_id (tw_guilds w) NTML_CHANNEL None) of
           None \<Rightarrow> w' = w\<lparr>tw_tmis := ts\<rparr>
         | Some c \<Rightarrow> post_line now jid (lit ''tmi_cancel'') (tmi_cancel_job env now c t) (ti_id t) (w\<lparr>tw_tmis := ts\<rparr>) = Inr w'"
proof -
  obtain ok ts where "cancel_tmi now tid (tw_tmis w) = (ok, ts)" by fastforce
  then show ?thesis
    using assms that
    by (cases ok; cases "case line_channel (tw_jobs w) tid of Some c \<Rightarrow> Some c | None \<Rightarrow> channel_id (tw_guilds w) NTML_CHANNEL None")
      (auto simp: cancel_tmi_handler_def Let_def ok_or_def bind_result_Inr_iff split: option.splits)
qed

lemma create_tmi_rows:
  assumes "create_tmi_handler env now tid req w = Inr (t, w')" and "tmi_inv w"
  shows "w' = w\<lparr>tw_tmis := tw_tmis w @ [t]\<rparr> \<and> ti_id t = tid \<and> ti_status t = Draft \<and> ti_published_at t = None \<and>
    ti_ended_at t = None \<and> tid \<notin> ti_id ` set (tw_tmis w)"
proof -
  obtain req' ts where c: "create_tmi env now tid req' (tw_tmis w) = Inr ts" "get_tmi ts tid = Some t" "w' = w\<lparr>tw_tmis := ts\<rparr>"
    using assms(1) by (auto simp: create_tmi_handler_def Let_def ok_or_def bind_result_Inr_iff split: option.splits if_splits)
  have fresh: "tid \<notin> ti_id ` set (tw_tmis w)" using c(1) by (auto simp: create_tmi_def list_ex_iff split: if_splits)
  have "\<exists>u. ts = tw_tmis w @ [u] \<and> ti_id u = tid \<and> ti_status u = Draft \<and> ti_published_at u = None \<and> ti_ended_at u = None"
    using c(1) by (auto simp: create_tmi_def split: if_splits)
  then obtain u where u: "ts = tw_tmis w @ [u]" "ti_id u = tid" "ti_status u = Draft" "ti_published_at u = None" "ti_ended_at u = None"
    by blast
  have "get_tmi (tw_tmis w) tid = None" using fresh by (auto simp: get_tmi_def find_None_iff)
  then have "get_tmi (tw_tmis w @ [u]) tid = Some u" using u(2)
    by (simp add: get_tmi_def find_append)
  then have "get_tmi ts tid = Some u" using u(1) by simp
  with c u fresh show ?thesis by simp
qed

lemma edited_tmi_follows: "tmi_follows at t (edited_tmi env now req t) \<and> (sound_tmi t \<longrightarrow> sound_tmi (edited_tmi env now req t))"
  by (simp add: edited_tmi_def Let_def tmi_row_defs)

lemma end_tmi_follows:
  assumes "at < now" and "tmi_active t"
  shows "tmi_follows at t (end_tmi now t) \<and> sound_tmi (end_tmi now t)"
  using by_then_coalesce [OF assms(1)] assms(2) by (auto simp: end_tmi_def tmi_row_defs)

lemma retained_tmi_follows:
  assumes "at < now" and "sound_tmi t"
  shows "tmi_follows at t (retained_tmi now t) \<and> sound_tmi (retained_tmi now t)"
  using by_then_coalesce [OF assms(1)] assms(2) by (auto simp: retained_tmi_def tmi_row_defs)

lemma publish_rows_tmi:
  assumes "publish_tmi now tid ts = Some (t, ts')" and "rows_sound ti_id sound_tmi ts" and "at < now"
  shows "tmirow.step at ts ts'" and "get_tmi ts' tid = Some t" and "\<not> over ts tid" and "ti_id t = tid"
    and "\<exists>b\<in>set ts. ti_id b = tid \<and> ti_status b = Draft"
proof -
  let ?P = "\<lambda>t. ti_id t = tid \<and> ti_status t = Draft"
  let ?f = "\<lambda>t. t\<lparr>ti_status := Published, ti_published_at := Some now, ti_updated_at := now\<rparr>"
  have ts': "ts' = snd (set_rows ?P ?f ts)" and ex: "list_ex ?P ts" and g: "get_tmi ts' tid = Some t"
    using assms(1) by (auto simp: publish_tmi_def set_rows_def split: if_splits bool.splits)
  show "tmirow.step at ts ts'"
    unfolding ts' by (rule tmi_set_rows [OF assms(2)]) (use assms(3) in \<open>auto simp: tmi_row_defs by_then_def\<close>)
  show "get_tmi ts' tid = Some t" by (rule g)
  then show "ti_id t = tid" using get_tmi_Some by blast
  show "\<exists>b\<in>set ts. ti_id b = tid \<and> ti_status b = Draft" using ex by (auto simp: list_ex_iff)
  then show "\<not> over ts tid" using over_active [OF assms(2)] by (auto simp: tmi_active_def)
qed

lemma delete_rows_tmi:
  assumes "delete_tmi now tid ts = (ok, ts')" and "rows_sound ti_id sound_tmi ts" and "at < now"
  shows "tmirow.step at ts ts'"
proof (cases "list_ex (\<lambda>t. ti_id t = tid \<and> ti_published_at t = None) ts")
  case True
  then have "ts' = filter (\<lambda>t. \<not> (ti_id t = tid \<and> ti_published_at t = None)) ts"
    using assms(1) by (simp add: delete_tmi_def Let_def)
  then show ?thesis by (simp only:) (rule tmirow.step_filter [OF assms(2)], simp add: unpublished_def)
next
  case False
  then have "ts' = snd (set_rows (\<lambda>t. ti_id t = tid) (retained_tmi now) ts)"
    using assms(1) by (simp add: delete_tmi_def)
  then show ?thesis using tmi_set_rows [OF assms(2)] retained_tmi_follows [OF assms(3)] by simp
qed

lemma cleanup_rows_tmi:
  assumes "rows_sound ti_id sound_tmi ts" and "at < now"
  shows "tmirow.step at ts (cleanup_tmis now ts)"
proof -
  let ?ts = "map (\<lambda>t. if tmi_active t \<and> stopped_before now t then t\<lparr>ti_status := Expired, ti_updated_at := now\<rparr> else t) ts"
  have one: "tmirow.step at ts ?ts"
    by (rule tmirow.step_map_some [OF assms(1)]) (use assms(2) in \<open>auto simp: tmi_row_defs\<close>)
  have "tmirow.step at ?ts (cleanup_tmis now ts)"
    unfolding cleanup_tmis_def
    by (rule tmirow.step_filter [OF tmirow.step_sound [OF one]]) (auto simp: unpublished_def)
  with one show ?thesis by (rule tmirow.step_trans)
qed

lemma tmi_step_next:
  assumes "tmi_step env now w w'" and at: "at < now" and inv: "tmi_inv w"
  shows "tmi_next at w w'"
  using assms(1)
proof cases
  case (created tid req t)
  note c = create_tmi_rows [OF created(1) inv]
  have "tmirow.step at (tw_tmis w) (tw_tmis w @ [t])"
    by (rule tmirow.step_append) (use c inv in \<open>auto simp: tmi_inv_def sound_tmi_def\<close>)
  then show ?thesis using tmi_next_rows [OF inv] c by simp
next
  case (edited jid tid upd t)
  then show ?thesis
  proof (rule update_tmi_handlerE)
    fix changed ts
    assume u: "update_tmi env now tid (normalized_edit upd) (tw_tmis w) = Some (t, changed, ts)"
      and p: "case channel_id (tw_guilds w) NTML_CHANNEL None of None \<Rightarrow> w' = w\<lparr>tw_tmis := ts\<rparr>
         | Some c \<Rightarrow> if ti_status t = Published \<and> changed
             then post_line now jid (lit ''tmi_publish'') (tmi_publish_job env now c t) (ti_id t) (w\<lparr>tw_tmis := ts\<rparr>) = Inr w'
             else w' = w\<lparr>tw_tmis := ts\<rparr>"
    obtain before where b: "get_tmi (tw_tmis w) tid = Some before" and t: "t = edited_tmi env now (normalized_edit upd) before"
      and ts: "ts = snd (set_rows (\<lambda>t. ti_id t = tid) (edited_tmi env now (normalized_edit upd)) (tw_tmis w))"
      using u by (rule update_tmi_Some)
    have rows: "tmirow.step at (tw_tmis w) ts"
      unfolding ts using tmi_set_rows edited_tmi_follows inv by (simp add: tmi_inv_def)
    have post: "posted_or_not now jid (ti_id t) (w\<lparr>tw_tmis := ts\<rparr>) w'"
      and pub: "w' \<noteq> w\<lparr>tw_tmis := ts\<rparr> \<Longrightarrow> ti_status t = Published"
      using p by (auto simp: posted_or_not_def split: option.splits if_splits)
    show ?thesis
    proof (rule tmi_next_post [OF inv rows post])
      assume "w' \<noteq> w\<lparr>tw_tmis := ts\<rparr>"
      then have "tmi_active before" using pub t by (simp add: tmi_active_def)
      then show "\<not> over (tw_tmis w) (ti_id t)"
        using over_active [of "tw_tmis w" before] get_tmi_Some [OF b] inv t by (simp add: tmi_inv_def)
    qed
  qed
next
  case (published jid tid t)
  then show ?thesis
  proof (rule publish_tmi_handlerE)
    fix ts
    assume u: "publish_tmi now tid (tw_tmis w) = Some (t, ts)"
      and p: "case channel_id (tw_guilds w) NTML_CHANNEL None of None \<Rightarrow> w' = w\<lparr>tw_tmis := ts\<rparr>
         | Some c \<Rightarrow> post_line now jid (lit ''tmi_publish'') (tmi_publish_job env now c t) (ti_id t) (w\<lparr>tw_tmis := ts\<rparr>) = Inr w'"
    have sound: "rows_sound ti_id sound_tmi (tw_tmis w)" using inv by (simp add: tmi_inv_def)
    note r = publish_rows_tmi [OF u sound at]
    have "posted_or_not now jid (ti_id t) (w\<lparr>tw_tmis := ts\<rparr>) w'"
      using p by (auto simp: posted_or_not_def split: option.splits)
    from tmi_next_post [OF inv r(1) this] r(3,4) show ?thesis by simp
  qed
next
  case (cancelled jid tid t)
  then show ?thesis
  proof (rule cancel_tmi_handlerE)
    fix ts
    assume u: "cancel_tmi now tid (tw_tmis w) = (True, ts)" and g: "get_tmi (tw_tmis w) tid = Some t"
      and p: "case (case line_channel (tw_jobs w) tid of Some c \<Rightarrow> Some c | None \<Rightarrow> channel_id (tw_guilds w) NTML_CHANNEL None) of
           None \<Rightarrow> w' = w\<lparr>tw_tmis := ts\<rparr>
         | Some c \<Rightarrow> post_line now jid (lit ''tmi_cancel'') (tmi_cancel_job env now c t) (ti_id t) (w\<lparr>tw_tmis := ts\<rparr>) = Inr w'"
    have sound: "rows_sound ti_id sound_tmi (tw_tmis w)" using inv by (simp add: tmi_inv_def)
    have ts: "ts = snd (set_rows (\<lambda>t. ti_id t = tid \<and> tmi_active t) (end_tmi now) (tw_tmis w))"
      and ex: "list_ex (\<lambda>t. ti_id t = tid \<and> tmi_active t) (tw_tmis w)"
      using u by (auto simp: cancel_tmi_def set_rows_def)
    have rows: "tmirow.step at (tw_tmis w) ts"
      unfolding ts by (rule tmi_set_rows [OF sound]) (use end_tmi_follows [OF at] in blast)
    have post: "posted_or_not now jid (ti_id t) (w\<lparr>tw_tmis := ts\<rparr>) w'"
      unfolding posted_or_not_def using p by (rule option_branchE) blast+
    have "\<not> over (tw_tmis w) tid" using ex over_active [OF sound] by (auto simp: list_ex_iff)
    with tmi_next_post [OF inv rows post] get_tmi_Some [OF g] show ?thesis by simp
  qed
next
  case (deleted tid)
  then obtain ts where "delete_tmi now tid (tw_tmis w) = (True, ts)" "w' = w\<lparr>tw_tmis := ts\<rparr>"
    by (auto simp: delete_tmi_handler_def split: prod.splits bool.splits)
  then show ?thesis using tmi_next_rows [OF inv] delete_rows_tmi at inv by (simp add: tmi_inv_def)
next
  case cleaned
  then show ?thesis using tmi_next_rows [OF inv] cleanup_rows_tmi at inv by (simp add: tmi_inv_def)
next
  case (worked q)
  then show ?thesis
    using tmi_next_jobs [OF inv] worker_step_posts [OF worked(2)] worker_step_what [OF worked(2)] inv by (simp add: tmi_inv_def)
next
  case (posted st t jid ty payload si jid' q)
  then show ?thesis
    using tmi_next_jobs [OF inv] enqueue_appends [OF posted(3)] inv by (simp add: tmi_inv_def)
next
  case (mapped guilds)
  then show ?thesis using inv by (simp add: tmi_next_def tmi_inv_def tmirow.step_refl)
qed

lemma tmi_run_rows:
  assumes "tmi_run env at w w'" and "tmi_inv w"
  shows "tmi_inv w' \<and> tmirow.step at (tw_tmis w) (tw_tmis w')"
  using assms(1)
proof (induction rule: rtranclp_induct)
  case base
  then show ?case using assms(2) by (simp add: tmi_inv_def tmirow.step_refl)
next
  case (step v v')
  then obtain now where "at < now" "tmi_step env now v v'" by blast
  then have "tmi_next at v v'" using tmi_step_next step.IH by blast
  then show ?case using step.IH tmirow.step_trans by (auto simp: tmi_next_def)
qed

lemma follows_ended:
  "tmi_follows at t u \<Longrightarrow> ti_published_at t \<noteq> None \<Longrightarrow> \<not> tmi_active t \<Longrightarrow>
     ti_id u = ti_id t \<and> \<not> tmi_active u \<and> ti_published_at u \<noteq> None \<and> ti_status u = ti_status t"
  by (auto simp: tmi_follows_def tmi_active_def)

lemma tmi_run_ended:
  assumes "tmi_run env at w w'" and "tmi_inv w" and "t \<in> set (tw_tmis w)" and "ti_published_at t \<noteq> None" and "\<not> tmi_active t"
  shows "posts_about (ti_id t) (tw_jobs w') = posts_about (ti_id t) (tw_jobs w)"
  using assms(1)
proof (induction rule: rtranclp_induct)
  case (step v v')
  then obtain now where "at < now" "tmi_step env now v v'" by blast
  then have n: "tmi_next at v v'" using tmi_step_next tmi_run_rows [OF step.hyps(1) assms(2)] by blast
  obtain u where "u \<in> set (tw_tmis v)" "tmi_follows at t u"
    using tmirow.step_keeps tmi_run_rows [OF step.hyps(1) assms(2)] assms(3,4) by (metis unpublished_def)
  then have "over (tw_tmis v) (ti_id t)"
    using follows_ended [OF _ assms(4,5)] by (auto simp: over_def list_ex_iff)
  with n step.IH show ?case by (simp add: tmi_next_def)
qed simp

section \<open>Properties\<close>

definition no_tmis :: "guild_config list \<Rightarrow> tmi_world" where
  "no_tmis guilds = \<lparr>tw_tmis = [], tw_jobs = [], tw_guilds = guilds\<rparr>"

lemma tmis_reached: "tmi_run env at (no_tmis guilds) w \<Longrightarrow> tmi_inv w"
  using tmi_run_rows [where w = "no_tmis guilds"] by (simp add: tmi_inv_def no_tmis_def rows_sound_def)

definition sample_tmi_env :: tmi_env where
  "sample_tmi_env = \<lparr>te_civil = (\<lambda>_. \<lparr>cv_year = 2020, cv_month = 4, cv_day = 14, cv_hour = 14, cv_minute = 36\<rparr>), te_lower = ascii_lower\<rparr>"

definition ntml_guild :: guild_config where
  "ntml_guild = \<lparr>gc_id = [], gc_name = [], gc_guild_id = [], gc_sort_order = 0,
     gc_channels = [(NTML_CHANNEL, lit ''N1'')], gc_roles = [], gc_facilities = []\<rparr>"

definition sample_tmi :: create_tmi_request where
  "sample_tmi = \<lparr>ct_requesting = lit '' zdc'', ct_providing = lit ''zny'', ct_restriction = lit ''ORD 10MIT'', ct_structured = None,
     ct_start_time = None, ct_stop_time = Some 7200000\<rparr>"

definition sample_revision :: update_tmi_request where
  "sample_revision = \<lparr>ut_requesting = Some (lit ''  ''), ut_providing = None, ut_restriction = Some (lit ''ORD 20MIT''),
     ut_structured = None, ut_start_time = None, ut_stop_time = None\<rparr>"

definition tmi_drafted :: tmi_world where
  "tmi_drafted = snd (projr (create_tmi_handler sample_tmi_env 60000 [65] sample_tmi (no_tmis [ntml_guild])))"

definition tmi_live :: tmi_world where
  "tmi_live = snd (projr (publish_tmi_handler sample_tmi_env 120000 [1] [65] tmi_drafted))"

definition tmi_revised :: tmi_world where
  "tmi_revised = snd (projr (update_tmi_handler sample_tmi_env 180000 [2] [65] sample_revision tmi_live))"

definition tmi_withdrawn :: tmi_world where
  "tmi_withdrawn = snd (projr (cancel_tmi_handler sample_tmi_env 240000 [3] [65] tmi_live))"

lemma Inr_projr: "\<not> isl x \<Longrightarrow> x = Inr (fst (projr x), snd (projr x))"
  by (cases x) auto

lemma sample_tmi_handlers:
  "create_tmi_handler sample_tmi_env 60000 [65] sample_tmi (no_tmis [ntml_guild]) =
     Inr (fst (projr (create_tmi_handler sample_tmi_env 60000 [65] sample_tmi (no_tmis [ntml_guild]))), tmi_drafted)"
  "publish_tmi_handler sample_tmi_env 120000 [1] [65] tmi_drafted =
     Inr (fst (projr (publish_tmi_handler sample_tmi_env 120000 [1] [65] tmi_drafted)), tmi_live)"
  "update_tmi_handler sample_tmi_env 180000 [2] [65] sample_revision tmi_live =
     Inr (fst (projr (update_tmi_handler sample_tmi_env 180000 [2] [65] sample_revision tmi_live)), tmi_revised)"
  "cancel_tmi_handler sample_tmi_env 240000 [3] [65] tmi_live =
     Inr (fst (projr (cancel_tmi_handler sample_tmi_env 240000 [3] [65] tmi_live)), tmi_withdrawn)"
proof -
  have "\<not> isl (create_tmi_handler sample_tmi_env 60000 [65] sample_tmi (no_tmis [ntml_guild]))" by code_simp
  then show "create_tmi_handler sample_tmi_env 60000 [65] sample_tmi (no_tmis [ntml_guild]) =
     Inr (fst (projr (create_tmi_handler sample_tmi_env 60000 [65] sample_tmi (no_tmis [ntml_guild]))), tmi_drafted)"
    unfolding tmi_drafted_def by (rule Inr_projr)
  have "\<not> isl (publish_tmi_handler sample_tmi_env 120000 [1] [65] tmi_drafted)" by code_simp
  then show "publish_tmi_handler sample_tmi_env 120000 [1] [65] tmi_drafted =
     Inr (fst (projr (publish_tmi_handler sample_tmi_env 120000 [1] [65] tmi_drafted)), tmi_live)"
    unfolding tmi_live_def by (rule Inr_projr)
  have "\<not> isl (update_tmi_handler sample_tmi_env 180000 [2] [65] sample_revision tmi_live)" by code_simp
  then show "update_tmi_handler sample_tmi_env 180000 [2] [65] sample_revision tmi_live =
     Inr (fst (projr (update_tmi_handler sample_tmi_env 180000 [2] [65] sample_revision tmi_live)), tmi_revised)"
    unfolding tmi_revised_def by (rule Inr_projr)
  have "\<not> isl (cancel_tmi_handler sample_tmi_env 240000 [3] [65] tmi_live)" by code_simp
  then show "cancel_tmi_handler sample_tmi_env 240000 [3] [65] tmi_live =
     Inr (fst (projr (cancel_tmi_handler sample_tmi_env 240000 [3] [65] tmi_live)), tmi_withdrawn)"
    unfolding tmi_withdrawn_def by (rule Inr_projr)
qed

lemma sample_tmi_run:
  "tmi_run sample_tmi_env 0 (no_tmis [ntml_guild]) tmi_live" "tmi_run sample_tmi_env 200000 tmi_live tmi_withdrawn"
  "tmi_run sample_tmi_env 0 (no_tmis [ntml_guild]) tmi_withdrawn"
  "tmi_run sample_tmi_env 200000 tmi_withdrawn (tmi_withdrawn\<lparr>tw_tmis := cleanup_tmis 9000000 (tw_tmis tmi_withdrawn)\<rparr>)"
proof -
  have "unmentioned [65] (tw_jobs (no_tmis [ntml_guild]))" by (simp add: unmentioned_def no_tmis_def)
  then have c: "tmi_run sample_tmi_env 0 (no_tmis [ntml_guild]) tmi_drafted"
    using tmi_step.created [OF sample_tmi_handlers(1)] by (intro r_into_rtranclp exI [of _ 60000]) simp
  have "\<exists>now>0. tmi_step sample_tmi_env now tmi_drafted tmi_live"
    using tmi_step.published [OF sample_tmi_handlers(2)] by (intro exI [of _ 120000]) simp
  with c show l: "tmi_run sample_tmi_env 0 (no_tmis [ntml_guild]) tmi_live" by (rule rtranclp.rtrancl_into_rtrancl)
  have s: "tmi_step sample_tmi_env 240000 tmi_live tmi_withdrawn" by (rule tmi_step.cancelled [OF sample_tmi_handlers(4)])
  then show "tmi_run sample_tmi_env 200000 tmi_live tmi_withdrawn" by (intro r_into_rtranclp exI [of _ 240000]) simp
  have "\<exists>now>0. tmi_step sample_tmi_env now tmi_live tmi_withdrawn" using s by (intro exI [of _ 240000]) simp
  with l show "tmi_run sample_tmi_env 0 (no_tmis [ntml_guild]) tmi_withdrawn" by (rule rtranclp.rtrancl_into_rtrancl)
  show "tmi_run sample_tmi_env 200000 tmi_withdrawn (tmi_withdrawn\<lparr>tw_tmis := cleanup_tmis 9000000 (tw_tmis tmi_withdrawn)\<rparr>)"
    using tmi_step.cleaned [where env = sample_tmi_env and now = 9000000 and w = tmi_withdrawn] by (intro r_into_rtranclp exI [of _ 9000000]) simp
qed

text \<open>Whatever happens after an instant, an initiative published by then stays in the table with its
  publication instant, and unless its stop time is edited the historical replay still shows it, or
  still does not show it, at that instant.\<close>

theorem replay_of_the_past_is_stable:
  assumes "tmi_run env at0 (no_tmis guilds) w" and "tmi_run env at w w'" and "t \<in> set (tw_tmis w)" and "ti_published_at t \<noteq> None"
  shows "\<exists>u\<in>set (tw_tmis w'). ti_id u = ti_id t \<and> ti_published_at u = ti_published_at t \<and>
    (ti_stop_time u = ti_stop_time t \<longrightarrow> live_at at u = live_at at t)"
proof -
  have "tmirow.step at (tw_tmis w) (tw_tmis w')" using tmi_run_rows [OF assms(2) tmis_reached [OF assms(1)]] by simp
  then obtain u where "u \<in> set (tw_tmis w')" "tmi_follows at t u"
    using tmirow.step_keeps assms(3,4) by (metis unpublished_def)
  with assms(4) show ?thesis by (intro bexI [of _ u]) (auto simp: tmi_follows_def live_at_by_then)
qed

theorem replay_of_the_past_is_stable_witness:
  "\<exists>u\<in>set (tw_tmis tmi_withdrawn). ti_id u = [65] \<and> ti_status u = Cancelled \<and> live_at 200000 u"
proof -
  define t where "t = hd (tw_tmis tmi_live)"
  have t: "t \<in> set (tw_tmis tmi_live)" "ti_published_at t \<noteq> None" "ti_id t = [65]" "live_at 200000 t" "ti_stop_time t = Some 7200000"
    unfolding t_def by code_simp+
  have all: "list_all (\<lambda>u. ti_status u = Cancelled \<and> ti_stop_time u = Some 7200000) (tw_tmis tmi_withdrawn)" by code_simp
  from replay_of_the_past_is_stable [OF sample_tmi_run(1,2) t(1,2)] obtain u where "u \<in> set (tw_tmis tmi_withdrawn)"
    "ti_id u = [65]" "ti_stop_time u = ti_stop_time t \<longrightarrow> live_at 200000 u" using t(3,4) by auto
  with all t(5) show ?thesis by (auto simp: list_all_iff)
qed

text \<open>C39. An initiative that was published and has ended is never posted to the NTML channel again:
  no request, cleanup pass or worker adds a row about it, and it stays ended.\<close>

theorem ended_initiatives_stay_silent:
  assumes "tmi_run env at0 (no_tmis guilds) w" and "tmi_run env at w w'"
    and "t \<in> set (tw_tmis w)" and "ti_published_at t \<noteq> None" and "ti_status t = Expired \<or> ti_status t = Cancelled"
  shows "posts_about (ti_id t) (tw_jobs w') = posts_about (ti_id t) (tw_jobs w) \<and>
    (\<exists>u\<in>set (tw_tmis w'). ti_id u = ti_id t \<and> ti_status u = ti_status t)"
proof -
  have inv: "tmi_inv w" using assms(1) by (rule tmis_reached)
  have a: "\<not> tmi_active t" using assms(5) by (auto simp: tmi_active_def)
  have "tmirow.step at (tw_tmis w) (tw_tmis w')" using tmi_run_rows [OF assms(2) inv] by simp
  then obtain u where "u \<in> set (tw_tmis w')" "tmi_follows at t u"
    using tmirow.step_keeps assms(3,4) by (metis unpublished_def)
  then show ?thesis
    using follows_ended [OF _ assms(4) a] tmi_run_ended [OF assms(2) inv assms(3,4) a] by blast
qed

theorem ended_initiatives_stay_silent_witness:
  "posts_about [65] (tw_jobs tmi_withdrawn) =
     posts_about [65] (tw_jobs (tmi_withdrawn\<lparr>tw_tmis := cleanup_tmis 9000000 (tw_tmis tmi_withdrawn)\<rparr>)) \<and>
   length (posts_about [65] (tw_jobs tmi_withdrawn)) = 2"
proof -
  define t where "t = hd (tw_tmis tmi_withdrawn)"
  have t: "t \<in> set (tw_tmis tmi_withdrawn)" "ti_published_at t \<noteq> None" "ti_status t = Expired \<or> ti_status t = Cancelled" "ti_id t = [65]"
    unfolding t_def by code_simp+
  have "length (posts_about [65] (tw_jobs tmi_withdrawn)) = 2" by code_simp
  with ended_initiatives_stay_silent [OF sample_tmi_run(3,4) t(1-3)] t(4) show ?thesis by simp
qed

text \<open>A successful edit leaves line, breakdown and decoding in agreement (with a breakdown the line is
  its encoding and the decoding its English; a typed line clears both; otherwise all are kept), and it
  posts the revised row, to the mapped channel, exactly when the initiative is published and a field
  of the row changed.\<close>

theorem edit_posts_exactly_the_revised_line:
  assumes "update_tmi_handler env now jid tid req w = Inr (t, w')"
  shows "\<exists>b. get_tmi (tw_tmis w) tid = Some b \<and> get_tmi (tw_tmis w') tid = Some t \<and> ti_status t = ti_status b \<and>
    (case ut_structured req of
       Some s \<Rightarrow> ti_structured t = Some s \<and> ti_restriction t = encode s \<and> ti_decoded t = Some (render_english (te_lower env) s)
     | None \<Rightarrow> (case ut_restriction req of
           Some line \<Rightarrow> ti_structured t = None \<and> ti_restriction t = line \<and> ti_decoded t = None
         | None \<Rightarrow> ti_structured t = ti_structured b \<and> ti_restriction t = ti_restriction b \<and> ti_decoded t = ti_decoded b)) \<and>
    tw_jobs w' = tw_jobs w @ (case channel_id (tw_guilds w) NTML_CHANNEL None of
       None \<Rightarrow> []
     | Some c \<Rightarrow> if ti_status b = Published \<and> line_fields_differ b t
         then [new_job (1000 * now) jid (lit ''tmi_publish'') (tmi_publish_job env now c t) (Some (lit ''tmi'')) (Some tid)]
         else [])"
proof -
  obtain changed ts where u: "update_tmi env now tid (normalized_edit req) (tw_tmis w) = Some (t, changed, ts)"
    and p: "case channel_id (tw_guilds w) NTML_CHANNEL None of None \<Rightarrow> w' = w\<lparr>tw_tmis := ts\<rparr>
         | Some c \<Rightarrow> if ti_status t = Published \<and> changed
             then post_line now jid (lit ''tmi_publish'') (tmi_publish_job env now c t) (ti_id t) (w\<lparr>tw_tmis := ts\<rparr>) = Inr w'
             else w' = w\<lparr>tw_tmis := ts\<rparr>"
    using assms by (rule update_tmi_handlerE)
  obtain b where b: "get_tmi (tw_tmis w) tid = Some b" and t: "t = edited_tmi env now (normalized_edit req) b"
    and c: "changed = line_fields_differ b t" and g: "get_tmi ts tid = Some t"
    using u by (rule update_tmi_Some)
  have tid: "ti_id t = tid" using get_tmi_Some [OF g] by simp
  have st: "ti_status t = ti_status b" by (simp add: t)
  have "tw_tmis w' = ts \<and> tw_jobs w' = tw_jobs w @ (case channel_id (tw_guilds w) NTML_CHANNEL None of
       None \<Rightarrow> []
     | Some c \<Rightarrow> if ti_status b = Published \<and> line_fields_differ b t
         then [new_job (1000 * now) jid (lit ''tmi_publish'') (tmi_publish_job env now c t) (Some (lit ''tmi'')) (Some tid)]
         else [])"
    using p tid unfolding st c by (auto split: option.splits if_splits dest: post_line_Inr)
  moreover have "case ut_structured req of
       Some s \<Rightarrow> ti_structured t = Some s \<and> ti_restriction t = encode s \<and> ti_decoded t = Some (render_english (te_lower env) s)
     | None \<Rightarrow> (case ut_restriction req of
           Some line \<Rightarrow> ti_structured t = None \<and> ti_restriction t = line \<and> ti_decoded t = None
         | None \<Rightarrow> ti_structured t = ti_structured b \<and> ti_restriction t = ti_restriction b \<and> ti_decoded t = ti_decoded b)"
    by (auto simp: t edited_tmi_def normalized_edit_def keep_or_def coalesce_def Let_def split: option.split)
  ultimately show ?thesis using b g st by (intro exI [of _ b]) (simp only: simp_thms)
qed

theorem edit_posts_exactly_the_revised_line_witness:
  "case get_tmi (tw_tmis tmi_revised) [65] of None \<Rightarrow> False
   | Some t \<Rightarrow> ti_restriction t = lit ''ORD 20MIT'' \<and> length (tw_jobs tmi_revised) = length (tw_jobs tmi_live) + 1"
proof -
  have l: "length (tw_jobs tmi_revised) = 2" "length (tw_jobs tmi_live) = 1" by code_simp+
  from edit_posts_exactly_the_revised_line [OF sample_tmi_handlers(3)] l show ?thesis
    by (auto simp: sample_revision_def)
qed

text \<open>Two things the endpoints let through: the answer to a cancellation is the row as it was before,
  and an edit may blank a facility that creation requires.\<close>

lemma cancel_answers_stale_row:
  assumes "cancel_tmi_handler env now jid tid w = Inr (t, w')" and "tmi_inv w"
  shows "ti_status t \<noteq> Cancelled"
proof -
  obtain ts where c: "cancel_tmi now tid (tw_tmis w) = (True, ts)" and g: "get_tmi (tw_tmis w) tid = Some t"
    using assms(1) by (rule cancel_tmi_handlerE)
  then obtain u where u: "u \<in> set (tw_tmis w)" "ti_id u = tid" "tmi_active u"
    by (auto simp: cancel_tmi_def set_rows_def list_ex_iff)
  have "t = u" using unique_row [of "tw_tmis w" t u] get_tmi_Some [OF g] u assms(2) by (simp add: tmi_inv_def)
  with u(3) show ?thesis by (auto simp: tmi_active_def)
qed

lemma edit_blanks_a_facility: "map ti_requesting (tw_tmis tmi_revised) = [[]]"
  by code_simp

end
