(* ===== verification/AdvisoryLife.thy ===== *)
theory AdvisoryLife
  imports Advisories RowTable JobWorkers
begin

text \<open>
  What holds of the advisories whatever sequence of requests, generated documents, cleanup passes and
  queue workers ran: numbers, final documents, and where the Discord posts go.
\<close>

section \<open>The steps\<close>

inductive adv_step :: "doc_env \<Rightarrow> adv_world \<Rightarrow> adv_world \<Rightarrow> bool" for env where
  created: "create_advisory_handler env now aid scope req w = Inr w' \<Longrightarrow> adv_step env w w'"
| generated: "create_advisory_tx env now aid req program (vw_rows w) = Inr as \<Longrightarrow> adv_step env w (w\<lparr>vw_rows := as\<rparr>)"
| updated: "update_advisory_handler env now scope aid upd w = Inr w' \<Longrightarrow> adv_step env w w'"
| published: "publish_advisory_handler now jid scope aid w = Inr w' \<Longrightarrow> adv_step env w w'"
| cancelled: "cancel_advisory_handler env now jid scope aid w = Inr w' \<Longrightarrow> adv_step env w w'"
| retired: "cancel_program_advisory_tx prog (vw_rows w) = as \<Longrightarrow> adv_step env w (w\<lparr>vw_rows := as\<rparr>)"
| deleted: "delete_advisory_handler scope aid w = Inr w' \<Longrightarrow> adv_step env w w'"
| lapsed: "lapse_advisories env now jid_for P Q w = Inr w' \<Longrightarrow> adv_step env w w'"
| worked: "worker_step (vw_jobs w) q \<Longrightarrow> adv_step env w (w\<lparr>vw_jobs := q\<rparr>)"
| posted: "ty \<noteq> lit ''adv_publish'' \<Longrightarrow> enqueue_job now jid ty payload st si (vw_jobs w) = Inr (jid', q) \<Longrightarrow>
     adv_step env w (w\<lparr>vw_jobs := q\<rparr>)"
| mapped: "adv_step env w (w\<lparr>vw_guilds := guilds\<rparr>)"

section \<open>Rows\<close>

definition sound_advisory :: "advisory \<Rightarrow> bool" where
  "sound_advisory a \<longleftrightarrow> 1 \<le> av_number a \<and> (av_status a = AdvDraft \<longrightarrow> av_published_at a = None) \<and>
     (av_status a = AdvPublished \<longrightarrow> av_published_at a \<noteq> None)"

definition number_key :: "advisory \<Rightarrow> ustr \<times> int \<times> int" where
  "number_key a = (av_facility a, av_issued_day a, av_number a)"

definition document_of :: "advisory \<Rightarrow> ustr \<times> ustr \<times> json option \<times> ustr option \<times> int option" where
  "document_of a = (av_kind a, av_body a, av_structured a, av_decoded a, av_published_at a)"

definition adv_follows :: "advisory \<Rightarrow> advisory \<Rightarrow> bool" where
  "adv_follows a b \<longleftrightarrow> av_id b = av_id a \<and> number_key b = number_key a \<and> av_program b = av_program a \<and>
     (av_status a \<noteq> AdvDraft \<longrightarrow> document_of b = document_of a \<and> av_status b \<noteq> AdvDraft) \<and>
     (av_status a = AdvCancelled \<longrightarrow> av_status b = AdvCancelled)"

definition is_draft :: "advisory \<Rightarrow> bool" where
  "is_draft a \<longleftrightarrow> av_status a = AdvDraft"

lemmas adv_row_defs = sound_advisory_def number_key_def document_of_def adv_follows_def is_draft_def

interpretation advrow: row_table av_id sound_advisory adv_follows is_draft
  by unfold_locales (auto simp: adv_row_defs)

interpretation advnum: row_table number_key sound_advisory adv_follows is_draft
  by unfold_locales (auto simp: adv_row_defs)

definition rows_inv :: "advisory list \<Rightarrow> bool" where
  "rows_inv as \<longleftrightarrow> rows_sound av_id sound_advisory as \<and> rows_sound number_key sound_advisory as"

definition adv_rows_step :: "advisory list \<Rightarrow> advisory list \<Rightarrow> bool" where
  "adv_rows_step as bs \<longleftrightarrow> rows_inv bs \<and> rows_kept adv_follows is_draft as bs"

lemma adv_rows_step_refl: "rows_inv as \<Longrightarrow> adv_rows_step as as"
  using advrow.kept_refl by (simp add: adv_rows_step_def rows_inv_def rows_sound_def)

lemma adv_rows_step_trans: "adv_rows_step a b \<Longrightarrow> adv_rows_step b c \<Longrightarrow> adv_rows_step a c"
  using advrow.kept_trans by (auto simp: adv_rows_step_def)

lemma adv_rows_step_update:
  assumes "rows_inv as" and "\<And>a. P a \<Longrightarrow> sound_advisory a \<Longrightarrow> adv_follows a (f a) \<and> sound_advisory (f a)"
  shows "adv_rows_step as (snd (update_rows P f as))"
  using assms advrow.map_some_rows [of as P f] advnum.map_some_rows [of as P f]
  by (simp add: adv_rows_step_def rows_inv_def update_rows_def)

lemma adv_rows_step_cancel: "rows_inv as \<Longrightarrow> adv_rows_step as (snd (update_rows (\<lambda>a. P a \<and> live_advisory a) cancelled_row as))"
  by (rule adv_rows_step_update) (auto simp: adv_row_defs cancelled_row_def)

lemma adv_rows_step_delete: "rows_inv as \<Longrightarrow> adv_rows_step as (snd (delete_advisory aid as))"
  using advrow.filter_rows [of as "\<lambda>a. \<not> draft_with aid a"] advnum.filter_rows [of as "\<lambda>a. \<not> draft_with aid a"]
  by (simp add: adv_rows_step_def rows_inv_def delete_advisory_def draft_with_def is_draft_def)

lemma allocated_number_bounds:
  "(\<forall>a\<in>set as. 1 \<le> av_number a) \<Longrightarrow> 1 \<le> allocate_advisory_number as facility zday \<and>
    (\<forall>n\<in>set (numbers_of as facility zday). n < allocate_advisory_number as facility zday)"
proof -
  assume pos: "\<forall>a\<in>set as. 1 \<le> av_number a"
  show ?thesis
  proof (cases "numbers_of as facility zday")
    case Nil
    then show ?thesis by (simp add: allocate_advisory_number_def)
  next
    case (Cons n ns)
    have "n \<in> set (numbers_of as facility zday)" using Cons by simp
    then have "1 \<le> n" using pos by (auto simp: numbers_of_def)
    have eq: "fold max ns n = Max (set (n # ns))" by (rule fold_max_Max)
    have top: "m < Max (set (n # ns)) + 1" if "m \<in> set (n # ns)" for m
      using Max_ge [OF finite_set that] by linarith
    have "1 \<le> Max (set (n # ns)) + 1" using top [OF list.set_intros(1)] \<open>1 \<le> n\<close> by linarith
    with top show ?thesis unfolding allocate_advisory_number_def Cons list.case eq by blast
  qed
qed

lemma create_tx_rows:
  assumes "create_advisory_tx env now aid req program as = Inr bs" and inv: "rows_inv as"
  shows "adv_rows_step as bs \<and> (\<exists>a. bs = as @ [a] \<and> av_id a = aid \<and> av_status a = AdvDraft)"
proof -
  obtain a where ins: "insert_advisory a as = Inr bs" and a: "av_id a = aid" "av_status a = AdvDraft"
      "av_published_at a = None" "av_number a = allocate_advisory_number as (av_facility a) (av_issued_day a)"
    using assms(1) by (fastforce simp: create_advisory_tx_def Let_def bind_result_Inr_iff)
  have bs: "bs = as @ [a]" and fresh: "av_id a \<notin> av_id ` set as" "number_key a \<notin> number_key ` set as"
    using ins by (auto simp: insert_advisory_def list_ex_iff number_key_def split: if_splits)
  have "\<forall>a\<in>set as. 1 \<le> av_number a" using inv by (auto simp: rows_inv_def rows_sound_def list_all_iff sound_advisory_def)
  with a have "sound_advisory a" using allocated_number_bounds by (simp add: sound_advisory_def)
  then show ?thesis
    using inv fresh a(1,2) advrow.append_row [of as a] advnum.append_row [of as a] by (simp add: adv_rows_step_def rows_inv_def bs)
qed

section \<open>Announcements\<close>

text \<open>The jobs that announce an advisory.\<close>

definition is_announcement :: "job \<Rightarrow> bool" where
  "is_announcement j \<longleftrightarrow> jb_type j = lit ''adv_publish'' \<and> jb_subject_type j = Some (lit ''advisory'')"

definition announcements :: "job list \<Rightarrow> (ustr \<times> ustr option \<times> ustr option \<times> json \<times> int) list" where
  "announcements q = map job_what (filter is_announcement q)"

definition announced :: "job list \<Rightarrow> ustr option list" where
  "announced q = map (\<lambda>x. fst (snd (snd x))) (announcements q)"

lemma announcements_append [simp]: "announcements (p @ q) = announcements p @ announcements q"
  by (simp add: announcements_def)

definition announcements_of :: "ustr \<Rightarrow> job list \<Rightarrow> (ustr \<times> ustr option \<times> ustr option \<times> json \<times> int) list" where
  "announcements_of aid q = filter (\<lambda>x. fst (snd (snd x)) = Some aid) (announcements q)"

lemma posted_channel_announcements:
  assumes "announcements_of aid q = announcements_of aid q'"
  shows "posted_channel q aid = posted_channel q' aid"
proof -
  let ?f = "\<lambda>q. filter (about_subject (lit ''advisory'') aid (lit ''adv_publish'')) q"
  let ?t = "\<lambda>x :: ustr \<times> ustr option \<times> ustr option \<times> json \<times> int. - snd (snd (snd (snd x)))"
  have "map job_what (?f q) = announcements_of aid q" for q
    by (induction q) (auto simp: announcements_of_def announcements_def is_announcement_def about_subject_def job_what_def)
  then have "map job_what (?f q) = map job_what (?f q')" using assms by simp
  then have "map job_what (sort_key (\<lambda>j. - jb_created_at j) (?f q)) = map job_what (sort_key (\<lambda>j. - jb_created_at j) (?f q'))"
    using map_sort_key [of job_what ?t] by (simp add: job_what_def)
  then have "map_option jb_payload (latest (?f q)) = map_option jb_payload (latest (?f q'))"
    unfolding latest_def
    by (cases "sort_key (\<lambda>j. - jb_created_at j) (?f q)"; cases "sort_key (\<lambda>j. - jb_created_at j) (?f q')")
      (auto simp: job_what_def)
  then show ?thesis
    unfolding posted_channel_def published_channel_for_advisory_def
    by (cases "latest (?f q)"; cases "latest (?f q')") auto
qed

lemma worker_step_announcements:
  assumes "worker_step q q'" and "distinct (map jb_id q)"
  shows "announcements q' = announcements q"
proof -
  have "announcements q = filter (\<lambda>(ty, st, sid, pl, t). ty = lit ''adv_publish'' \<and> st = Some (lit ''advisory'')) (map job_what q)" for q
    by (induction q) (auto simp: announcements_def is_announcement_def job_what_def)
  then show ?thesis using worker_step_what [OF assms] by simp
qed

lemma announcements_new_job [simp]: "announcements [new_job now jid ty payload st si] =
    (if ty = lit ''adv_publish'' \<and> st = Some (lit ''advisory'') then [(ty, st, si, payload, now)] else [])"
  by (simp add: announcements_def is_announcement_def new_job_def job_what_def)

lemma enqueue_announcements:
  assumes "enqueue_job now jid ty payload st si q = Inr (jid', q')"
  shows "q' = q @ [new_job now jid ty payload st si]" and "jid \<notin> jb_id ` set q"
    and "announcements q' = announcements q @
      (if ty = lit ''adv_publish'' \<and> st = Some (lit ''advisory'') then [(ty, st, si, payload, now)] else [])"
proof -
  show q': "q' = q @ [new_job now jid ty payload st si]" and "jid \<notin> jb_id ` set q"
    using enqueue_appends [OF assms] by auto
  show "announcements q' = announcements q @
      (if ty = lit ''adv_publish'' \<and> st = Some (lit ''advisory'') then [(ty, st, si, payload, now)] else [])"
    unfolding q' by simp
qed

section \<open>Every step\<close>

definition adv_inv :: "adv_world \<Rightarrow> bool" where
  "adv_inv w \<longleftrightarrow> rows_inv (vw_rows w) \<and> distinct (map jb_id (vw_jobs w)) \<and> distinct (announced (vw_jobs w)) \<and>
     (\<forall>s\<in>set (announced (vw_jobs w)). list_ex (\<lambda>a. s = Some (av_id a) \<and> \<not> is_draft a) (vw_rows w))"

text \<open>What a step does to the announcements: nothing, or it announces an advisory that was a draft.\<close>

definition adv_next :: "adv_world \<Rightarrow> adv_world \<Rightarrow> bool" where
  "adv_next w w' \<longleftrightarrow> adv_inv w' \<and> adv_rows_step (vw_rows w) (vw_rows w') \<and>
     (announcements (vw_jobs w') = announcements (vw_jobs w) \<or>
      (\<exists>aid x. announcements (vw_jobs w') = announcements (vw_jobs w) @ [x] \<and> fst (snd (snd x)) = Some aid \<and>
         list_ex (draft_with aid) (vw_rows w)))"

lemma kept_non_draft:
  "adv_rows_step as bs \<Longrightarrow> list_ex (\<lambda>a. av_id a = aid \<and> \<not> is_draft a) as \<Longrightarrow> list_ex (\<lambda>a. av_id a = aid \<and> \<not> is_draft a) bs"
  by (fastforce simp: adv_rows_step_def rows_kept_def list_all_iff list_ex_iff adv_follows_def is_draft_def)

lemma draft_not_announced:
  assumes "adv_inv w" and "list_ex (draft_with aid) (vw_rows w)"
  shows "Some aid \<notin> set (announced (vw_jobs w))"
proof
  assume "Some aid \<in> set (announced (vw_jobs w))"
  then obtain a where a: "a \<in> set (vw_rows w)" "av_id a = aid" "\<not> is_draft a"
    using assms(1) by (fastforce simp: adv_inv_def list_ex_iff)
  moreover obtain b where "b \<in> set (vw_rows w)" "av_id b = aid" "is_draft b"
    using assms(2) by (auto simp: list_ex_iff draft_with_def is_draft_def)
  ultimately show False
    using assms(1) by (auto simp: adv_inv_def rows_inv_def rows_sound_def distinct_map dest: inj_onD)
qed

lemma adv_nextI:
  assumes inv: "adv_inv w" and rows: "adv_rows_step (vw_rows w) (vw_rows w')" and ids: "distinct (map jb_id (vw_jobs w'))"
    and ann: "announcements (vw_jobs w') = announcements (vw_jobs w) \<or>
      (announcements (vw_jobs w') = announcements (vw_jobs w) @ [x] \<and> fst (snd (snd x)) = Some aid \<and>
       list_ex (draft_with aid) (vw_rows w) \<and> list_ex (\<lambda>a. av_id a = aid \<and> \<not> is_draft a) (vw_rows w'))"
  shows "adv_next w w'"
proof -
  have old: "list_ex (\<lambda>a. s = Some (av_id a) \<and> \<not> is_draft a) (vw_rows w')" if "s \<in> set (announced (vw_jobs w))" for s
  proof -
    have "list_ex (\<lambda>a. s = Some (av_id a) \<and> \<not> is_draft a) (vw_rows w)"
      using inv that by (simp add: adv_inv_def)
    then obtain a where a: "a \<in> set (vw_rows w)" "s = Some (av_id a)" "\<not> is_draft a"
      by (auto simp: list_ex_iff)
    then have "list_ex (\<lambda>b. av_id b = av_id a \<and> \<not> is_draft b) (vw_rows w')"
      by (intro kept_non_draft [OF rows]) (auto simp: list_ex_iff)
    then show ?thesis using a(2) by (simp add: list_ex_iff) metis
  qed
  from ann show ?thesis
  proof
    assume same: "announcements (vw_jobs w') = announcements (vw_jobs w)"
    then have "announced (vw_jobs w') = announced (vw_jobs w)" by (simp add: announced_def)
    then show ?thesis using inv rows ids old same by (simp add: adv_next_def adv_inv_def adv_rows_step_def)
  next
    assume new: "announcements (vw_jobs w') = announcements (vw_jobs w) @ [x] \<and> fst (snd (snd x)) = Some aid \<and>
       list_ex (draft_with aid) (vw_rows w) \<and> list_ex (\<lambda>a. av_id a = aid \<and> \<not> is_draft a) (vw_rows w')"
    then have "announced (vw_jobs w') = announced (vw_jobs w) @ [Some aid]"
      by (cases x) (simp add: announced_def)
    moreover have "list_ex (\<lambda>a. Some aid = Some (av_id a) \<and> \<not> is_draft a) (vw_rows w')"
      using new by (auto simp: list_ex_iff)
    moreover have "Some aid \<notin> set (announced (vw_jobs w))"
      using draft_not_announced [OF inv, of aid] new by blast
    moreover have "distinct (announced (vw_jobs w))" using inv by (simp add: adv_inv_def)
    ultimately have "adv_inv w'" using rows ids old by (auto simp: adv_inv_def adv_rows_step_def)
    moreover have "\<exists>aid x. announcements (vw_jobs w') = announcements (vw_jobs w) @ [x] \<and>
        fst (snd (snd x)) = Some aid \<and> list_ex (draft_with aid) (vw_rows w)"
      using new by blast
    ultimately show ?thesis using rows unfolding adv_next_def by blast
  qed
qed

lemma adv_next_rows:
  "adv_inv w \<Longrightarrow> adv_rows_step (vw_rows w) as \<Longrightarrow> adv_next w (w\<lparr>vw_rows := as\<rparr>)"
  by (rule adv_nextI) (simp_all add: adv_inv_def)

lemma adv_next_refl: "adv_inv w \<Longrightarrow> adv_next w w"
  by (rule adv_nextI) (simp_all add: adv_inv_def adv_rows_step_refl)

lemma post_advisory_Inr:
  assumes "post_advisory now jid ty payload aid w = Inr w'"
  shows "w' = w\<lparr>vw_jobs := vw_jobs w @ [new_job (1000 * now) jid ty payload (Some (lit ''advisory'')) (Some aid)]\<rparr> \<and>
     jid \<notin> jb_id ` set (vw_jobs w) \<and>
     announcements (vw_jobs w') = announcements (vw_jobs w) @
       (if ty = lit ''adv_publish'' then [(ty, Some (lit ''advisory''), Some aid, payload, 1000 * now)] else [])"
proof -
  obtain jid' q where q: "enqueue_job (1000 * now) jid ty payload (Some (lit ''advisory'')) (Some aid) (vw_jobs w) = Inr (jid', q)"
    and w': "w' = w\<lparr>vw_jobs := q\<rparr>"
    using assms by (auto simp: post_advisory_def bind_result_Inr_iff)
  show ?thesis using enqueue_announcements [OF q] by (simp add: w')
qed

text \<open>Rows first, then a post that announces nothing.\<close>

lemma adv_next_quiet_post:
  assumes "adv_inv w" and "adv_rows_step (vw_rows w) as"
    and "post_advisory now jid ty payload aid (w\<lparr>vw_rows := as\<rparr>) = Inr w'" and "ty \<noteq> lit ''adv_publish''"
  shows "adv_next w w' \<and> vw_rows w' = as"
  using post_advisory_Inr [OF assms(3)] assms(1,2,4)
  by (auto intro!: adv_nextI simp: adv_inv_def)

lemma withdraw_posts_next:
  "withdraw_posts env now jid_for aids w = Inr w' \<Longrightarrow>
     vw_rows w' = vw_rows w \<and> announcements (vw_jobs w') = announcements (vw_jobs w) \<and>
     (distinct (map jb_id (vw_jobs w)) \<longrightarrow> distinct (map jb_id (vw_jobs w')))"
proof (induction aids arbitrary: w)
  case (Cons aid aids)
  show ?case
  proof (cases "posted_channel (vw_jobs w) aid = None \<or> get_advisory (vw_rows w) aid = None")
    case True
    then have "withdraw_posts env now jid_for aids w = Inr w'" using Cons.prems by (auto split: option.splits)
    then show ?thesis by (rule Cons.IH)
  next
    case False
    then obtain c a w1 where "posted_channel (vw_jobs w) aid = Some c" "get_advisory (vw_rows w) aid = Some a"
      and p: "post_advisory now (jid_for aid) (lit ''adv_cancel'') (cancel_job_payload env now c a) aid w = Inr w1"
      and r: "withdraw_posts env now jid_for aids w1 = Inr w'"
      using Cons.prems by (auto simp: bind_result_Inr_iff)
    show ?thesis using Cons.IH [OF r] post_advisory_Inr [OF p] by auto
  qed
qed simp

lemma update_advisory_rows:
  assumes "update_advisory env now aid req as = Inr (ok, bs)" and "rows_inv as"
  shows "adv_rows_step as bs"
proof -
  have "adv_rows_step as (snd (update_rows (draft_with aid) (edited req body) as))" for body
    by (rule adv_rows_step_update [OF assms(2)])
      (auto simp: adv_row_defs draft_with_def edited_def Let_def)
  moreover have "bs = as \<or> (\<exists>body. bs = snd (update_rows (draft_with aid) (edited req body) as))"
    using assms(1) by (auto simp: update_advisory_def update_rows_def bind_result_Inr_iff split: option.splits)
  ultimately show ?thesis using adv_rows_step_refl [OF assms(2)] by auto
qed

lemma publish_rows:
  assumes "publish_advisory now aid as = (True, bs)" and "rows_inv as"
  shows "adv_rows_step as bs" and "list_ex (draft_with aid) as" and "list_ex (\<lambda>a. av_id a = aid \<and> \<not> is_draft a) bs"
proof -
  have bs: "bs = snd (update_rows (draft_with aid) (\<lambda>a. a\<lparr>av_status := AdvPublished, av_published_at := Some now\<rparr>) as)"
    using assms(1) by (simp add: publish_advisory_def update_rows_def)
  show "adv_rows_step as bs"
    unfolding bs by (rule adv_rows_step_update [OF assms(2)]) (auto simp: adv_row_defs draft_with_def)
  show ex: "list_ex (draft_with aid) as" using assms(1) by (simp add: publish_advisory_def update_rows_def)
  then obtain a where "a \<in> set as" "draft_with aid a" by (auto simp: list_ex_iff)
  then have "a\<lparr>av_status := AdvPublished, av_published_at := Some now\<rparr> \<in> set bs"
    unfolding bs update_rows_def by force
  then show "list_ex (\<lambda>a. av_id a = aid \<and> \<not> is_draft a) bs"
    using \<open>draft_with aid a\<close> unfolding list_ex_iff by (rule_tac bexI) (auto simp: draft_with_def is_draft_def)
qed

lemma publish_advisory_handlerE:
  assumes "publish_advisory_handler now jid scope aid w = Inr w'"
  obtains facility as a where "advisory_facility w aid = Inr facility" and "allows scope (Some facility)"
    and "publish_advisory now aid (vw_rows w) = (True, as)" and "get_advisory as aid = Some a"
    and "case channel_id (vw_guilds w) ADV_CHANNEL (Some facility) of None \<Rightarrow> w' = w\<lparr>vw_rows := as\<rparr>
         | Some channel \<Rightarrow> post_advisory now jid (lit ''adv_publish'') (publish_job_payload channel a) aid
             (w\<lparr>vw_rows := as\<rparr>) = Inr w'"
proof -
  obtain ok as where "publish_advisory now aid (vw_rows w) = (ok, as)" by fastforce
  with assms show ?thesis
    by (cases ok) (auto simp: publish_advisory_handler_def require_advisory_scope_def ok_or_def bind_result_Inr_iff
        split: option.splits if_splits intro: that)
qed

lemma cancel_advisory_handlerE:
  assumes "cancel_advisory_handler env now jid scope aid w = Inr w'"
  obtains facility as a where "advisory_facility w aid = Inr facility" and "allows scope (Some facility)"
    and "cancel_advisory aid (vw_rows w) = (True, as)" and "get_advisory as aid = Some a"
    and "case (case posted_channel (vw_jobs w) aid of Some c \<Rightarrow> Some c
               | None \<Rightarrow> channel_id (vw_guilds w) ADV_CHANNEL (Some facility)) of
           None \<Rightarrow> w' = w\<lparr>vw_rows := as\<rparr>
         | Some channel \<Rightarrow> post_advisory now jid (lit ''adv_cancel'') (cancel_job_payload env now channel a) aid
             (w\<lparr>vw_rows := as\<rparr>) = Inr w'"
proof -
  obtain ok as where "cancel_advisory aid (vw_rows w) = (ok, as)" by fastforce
  with assms show ?thesis
    by (cases ok) (auto simp: cancel_advisory_handler_def require_advisory_scope_def ok_or_def bind_result_Inr_iff
        split: option.splits if_splits intro: that)
qed

lemma publish_next:
  assumes "publish_advisory_handler now jid scope aid w = Inr w'" and inv: "adv_inv w"
  shows "adv_next w w'"
proof -
  obtain as where pub: "publish_advisory now aid (vw_rows w) = (True, as)"
    and w': "w' = w\<lparr>vw_rows := as\<rparr> \<or>
      (\<exists>p. post_advisory now jid (lit ''adv_publish'') p aid (w\<lparr>vw_rows := as\<rparr>) = Inr w')"
    using assms(1) by (elim publish_advisory_handlerE) (auto split: option.splits)
  have "rows_inv (vw_rows w)" using inv by (simp add: adv_inv_def)
  note rows = publish_rows [OF pub this]
  from w' show ?thesis
  proof
    assume "w' = w\<lparr>vw_rows := as\<rparr>"
    then show ?thesis using adv_next_rows [OF inv rows(1)] by simp
  next
    assume "\<exists>p. post_advisory now jid (lit ''adv_publish'') p aid (w\<lparr>vw_rows := as\<rparr>) = Inr w'"
    then obtain p where "post_advisory now jid (lit ''adv_publish'') p aid (w\<lparr>vw_rows := as\<rparr>) = Inr w'" ..
    note post = post_advisory_Inr [OF this]
    show ?thesis
      by (rule adv_nextI [OF inv, where aid = aid
            and x = "(lit ''adv_publish'', Some (lit ''advisory''), Some aid, p, 1000 * now)"])
        (use post rows inv in \<open>simp_all add: adv_inv_def\<close>)
  qed
qed

lemma cancel_next:
  assumes "cancel_advisory_handler env now jid scope aid w = Inr w'" and inv: "adv_inv w"
  shows "adv_next w w'"
proof -
  let ?as = "snd (cancel_advisory aid (vw_rows w))"
  obtain facility as a where as: "cancel_advisory aid (vw_rows w) = (True, as)"
    and out: "case (case posted_channel (vw_jobs w) aid of Some c \<Rightarrow> Some c
               | None \<Rightarrow> channel_id (vw_guilds w) ADV_CHANNEL (Some facility)) of
           None \<Rightarrow> w' = w\<lparr>vw_rows := as\<rparr>
         | Some channel \<Rightarrow> post_advisory now jid (lit ''adv_cancel'') (cancel_job_payload env now channel a) aid
             (w\<lparr>vw_rows := as\<rparr>) = Inr w'"
    by (rule cancel_advisory_handlerE [OF assms(1)])
  have "w' = w\<lparr>vw_rows := ?as\<rparr> \<or>
      (\<exists>p. post_advisory now jid (lit ''adv_cancel'') p aid (w\<lparr>vw_rows := ?as\<rparr>) = Inr w')"
    using out unfolding as snd_conv
    by (rule option_branchE) blast+
  moreover have "adv_rows_step (vw_rows w) ?as"
    unfolding cancel_advisory_def by (rule adv_rows_step_cancel) (use inv in \<open>simp add: adv_inv_def\<close>)
  moreover have "lit ''adv_cancel'' \<noteq> lit ''adv_publish''" by simp
  ultimately show ?thesis using adv_next_rows [OF inv] adv_next_quiet_post [OF inv] by metis
qed

lemma cancel_where_rows: "cancel_where P as = (ids, bs) \<Longrightarrow> rows_inv as \<Longrightarrow> adv_rows_step as bs"
  using adv_rows_step_cancel [of as P] by (auto simp: cancel_where_def conj_commute)

lemma lapse_next:
  assumes "lapse_advisories env now jid_for P Q w = Inr w'" and inv: "adv_inv w"
  shows "adv_next w w'"
proof -
  obtain ids1 rows1 ids2 rows2 where one: "cancel_where P (vw_rows w) = (ids1, rows1)"
    and two: "cancel_where Q rows1 = (ids2, rows2)"
    and posts: "withdraw_posts env now jid_for (ids1 @ ids2) (w\<lparr>vw_rows := rows2\<rparr>) = Inr w'"
    using assms(1) by (auto simp: lapse_advisories_def split: prod.splits)
  have s1: "adv_rows_step (vw_rows w) rows1" using cancel_where_rows [OF one] inv by (simp add: adv_inv_def)
  then have "adv_rows_step rows1 rows2" using cancel_where_rows [OF two] by (simp add: adv_rows_step_def)
  with s1 have "adv_rows_step (vw_rows w) rows2" by (rule adv_rows_step_trans)
  with withdraw_posts_next [OF posts] inv show ?thesis by (intro adv_nextI) (simp_all add: adv_inv_def)
qed

lemma adv_step_next: "adv_step env w w' \<Longrightarrow> adv_inv w \<Longrightarrow> adv_next w w'"
proof (induction rule: adv_step.induct)
  case (created now aid scope req w w')
  then obtain as where "create_advisory_tx env now aid req None (vw_rows w) = Inr as" "w' = w\<lparr>vw_rows := as\<rparr>"
    by (auto simp: create_advisory_handler_def bind_result_Inr_iff split: if_splits)
  with created.prems show ?case using create_tx_rows adv_next_rows by (simp add: adv_inv_def)
next
  case (generated now aid req program w as)
  then show ?case using create_tx_rows adv_next_rows by (simp add: adv_inv_def)
next
  case (updated now scope aid upd w w')
  then obtain ok as where "update_advisory env now aid upd (vw_rows w) = Inr (ok, as)" "w' = w\<lparr>vw_rows := as\<rparr>"
    by (auto simp: update_advisory_handler_def bind_result_Inr_iff split: if_splits)
  with updated.prems show ?case using update_advisory_rows adv_next_rows by (simp add: adv_inv_def)
next
  case (published now jid scope aid w w')
  then show ?case by (rule publish_next)
next
  case (cancelled now jid scope aid w w')
  then show ?case by (rule cancel_next)
next
  case (retired prog w as)
  then have "as = snd (update_rows (\<lambda>a. av_program a = Some prog \<and> live_advisory a) cancelled_row (vw_rows w))"
    by (simp add: cancel_program_advisory_tx_def)
  with retired.prems show ?case using adv_rows_step_cancel adv_next_rows by (simp add: adv_inv_def)
next
  case (deleted scope aid w w')
  then have "w' = w\<lparr>vw_rows := snd (delete_advisory aid (vw_rows w))\<rparr>"
    by (auto simp: delete_advisory_handler_def bind_result_Inr_iff split: prod.splits bool.splits)
  with deleted.prems show ?case using adv_rows_step_delete adv_next_rows by (simp add: adv_inv_def)
next
  case (lapsed now jid_for P Q w w')
  then show ?case by (rule lapse_next)
next
  case (worked w q)
  then show ?case
    using worker_step_what [of "vw_jobs w" q] worker_step_announcements [of "vw_jobs w" q]
    by (intro adv_nextI) (simp_all add: adv_inv_def adv_rows_step_refl)
next
  case (posted ty now jid payload st si w jid' q)
  then show ?case using enqueue_announcements [OF posted(2)]
    by (intro adv_nextI) (simp_all add: adv_inv_def adv_rows_step_refl)
next
  case (mapped w guilds)
  then show ?case by (intro adv_nextI) (simp_all add: adv_inv_def adv_rows_step_refl)
qed

lemma adv_run:
  assumes "(adv_step env)\<^sup>*\<^sup>* w w'" and "adv_inv w"
  shows "adv_inv w' \<and> adv_rows_step (vw_rows w) (vw_rows w')"
  using assms(1)
proof (induction rule: rtranclp_induct)
  case base
  then show ?case using assms(2) by (simp add: adv_inv_def adv_rows_step_refl)
next
  case (step w' w'')
  then have "adv_next w' w''" using adv_step_next by blast
  then show ?case using step.IH adv_rows_step_trans by (auto simp: adv_next_def)
qed

lemma adv_run_posted_channel:
  assumes "(adv_step env)\<^sup>*\<^sup>* w w'" and "adv_inv w" and "Some aid \<in> set (announced (vw_jobs w))"
  shows "adv_inv w' \<and> Some aid \<in> set (announced (vw_jobs w')) \<and> announcements_of aid (vw_jobs w') = announcements_of aid (vw_jobs w)"
  using assms(1)
proof (induction rule: rtranclp_induct)
  case base
  then show ?case using assms(2,3) by simp
next
  case (step w' w'')
  then have "adv_next w' w''" using adv_step_next by blast
  then consider "adv_inv w''" "announcements (vw_jobs w'') = announcements (vw_jobs w')"
    | aid' x where "adv_inv w''" "announcements (vw_jobs w'') = announcements (vw_jobs w') @ [x]" "fst (snd (snd x)) = Some aid'"
        "list_ex (draft_with aid') (vw_rows w')"
    unfolding adv_next_def by blast
  then show ?case
  proof cases
    case 1
    then show ?thesis using step.IH by (simp add: announced_def announcements_of_def)
  next
    case 2
    then have "aid' \<noteq> aid" using draft_not_announced step.IH by blast
    then show ?thesis using 2 step.IH by (simp add: announced_def announcements_of_def)
  qed
qed

section \<open>Properties\<close>

definition no_advisories :: "guild_config list \<Rightarrow> adv_world" where
  "no_advisories guilds = \<lparr>vw_rows = [], vw_jobs = [], vw_guilds = guilds\<rparr>"

lemma no_advisories_inv: "adv_inv (no_advisories guilds)"
  by (simp add: no_advisories_def adv_inv_def rows_inv_def rows_sound_def announced_def announcements_def)

lemma reached_inv: "(adv_step env)\<^sup>*\<^sup>* (no_advisories guilds) w \<Longrightarrow> adv_inv w"
  using adv_run no_advisories_inv by blast

definition sample_env :: doc_env where
  "sample_env = \<lparr>de_civil = (\<lambda>_. sample_day), de_reroute = (\<lambda>_. None), de_gdp = (\<lambda>_. None),
     de_ground_stop = (\<lambda>_. Some \<lparr>sa_header = [], sa_element = [], sa_control_element = [], sa_element_type = [], sa_adl_time = [], sa_ground_stop_period = [], sa_cumulative_program_period = [], sa_flights_included = [], sa_additional_dep_facilities_included = None, sa_current_delays = None, sa_previous_delays = None, sa_new_delays = None, sa_probability_of_extension = None, sa_impacting_condition = None, sa_comments = None, sa_period = []\<rparr>)\<rparr>"

definition sample_guild :: "ustr \<Rightarrow> guild_config" where
  "sample_guild channel = \<lparr>gc_id = [], gc_name = [], gc_guild_id = [], gc_sort_order = 0,
     gc_channels = [(ADV_CHANNEL, channel)], gc_roles = [], gc_facilities = []\<rparr>"

definition sample_request :: create_advisory_request where
  "sample_request = \<lparr>cr_facility = lit ''zdc '', cr_kind = lit ''general'', cr_body = lit ''TEXT'', cr_structured = None,
     cr_decoded = None, cr_valid_from = None, cr_valid_to = None\<rparr>"

definition sample_created :: adv_world where
  "sample_created = projr (create_advisory_handler sample_env 60000 [65] national sample_request
     (no_advisories [sample_guild (lit ''C1'')]))"

definition sample_posted :: adv_world where
  "sample_posted = projr (publish_advisory_handler 120000 [1] national [65] sample_created)"

definition sample_remapped :: adv_world where
  "sample_remapped = sample_posted\<lparr>vw_guilds := [sample_guild (lit ''C2'')]\<rparr>"

definition sample_withdrawn :: adv_world where
  "sample_withdrawn = projr (cancel_advisory_handler sample_env 180000 [2] national [65] sample_remapped)"

lemma sample_handlers:
  "create_advisory_handler sample_env 60000 [65] national sample_request (no_advisories [sample_guild (lit ''C1'')]) = Inr sample_created"
  "publish_advisory_handler 120000 [1] national [65] sample_created = Inr sample_posted"
  "cancel_advisory_handler sample_env 180000 [2] national [65] sample_remapped = Inr sample_withdrawn"
  by code_simp+

lemma sample_run_advisories:
  "(adv_step sample_env)\<^sup>*\<^sup>* (no_advisories [sample_guild (lit ''C1'')]) sample_created"
  "(adv_step sample_env)\<^sup>*\<^sup>* sample_posted sample_remapped"
  "(adv_step sample_env)\<^sup>*\<^sup>* (no_advisories [sample_guild (lit ''C1'')]) sample_posted"
proof -
  show c: "(adv_step sample_env)\<^sup>*\<^sup>* (no_advisories [sample_guild (lit ''C1'')]) sample_created"
    using created [OF sample_handlers(1)] by blast
  show "(adv_step sample_env)\<^sup>*\<^sup>* sample_posted sample_remapped"
    unfolding sample_remapped_def using mapped by blast
  show "(adv_step sample_env)\<^sup>*\<^sup>* (no_advisories [sample_guild (lit ''C1'')]) sample_posted"
    using rtranclp.rtrancl_into_rtrancl [OF c adv_step.published [OF sample_handlers(2)]] .
qed

text \<open>C38. Whatever was requested, generated, lapsed and delivered since the table was empty: no two
  advisories share facility, day and number, numbers count from one, a draft carries no publication
  instant and a published row does, and no advisory is announced on Discord twice.\<close>

theorem advisories_numbered_uniquely:
  assumes "(adv_step env)\<^sup>*\<^sup>* (no_advisories guilds) w"
  shows "distinct (map number_key (vw_rows w)) \<and> distinct (map av_id (vw_rows w)) \<and>
    list_all sound_advisory (vw_rows w) \<and> distinct (announced (vw_jobs w))"
  using reached_inv [OF assms] by (simp add: adv_inv_def rows_inv_def rows_sound_def)

theorem advisories_numbered_uniquely_witness:
  "distinct (map number_key (vw_rows sample_posted)) \<and> announced (vw_jobs sample_posted) = [Some [65]]"
proof -
  have "announced (vw_jobs sample_posted) = [Some [65]]" by code_simp
  with advisories_numbered_uniquely [OF sample_run_advisories(3)] show ?thesis by simp
qed

text \<open>C36. Once an advisory has been published its document is final: every later request, cleanup pass
  and worker leaves it in the table with the same number, kind, body and publication instant, never
  a draft again; once cancelled it stays cancelled.\<close>

theorem published_documents_are_final:
  assumes "(adv_step env)\<^sup>*\<^sup>* (no_advisories guilds) w" and "(adv_step env)\<^sup>*\<^sup>* w w'"
    and "a \<in> set (vw_rows w)" and "av_status a \<noteq> AdvDraft"
  shows "\<exists>b\<in>set (vw_rows w'). av_id b = av_id a \<and> number_key b = number_key a \<and> document_of b = document_of a \<and>
    (av_status b = AdvCancelled \<or> av_status a = AdvPublished \<and> av_status b = AdvPublished)"
proof -
  have "adv_rows_step (vw_rows w) (vw_rows w')" using adv_run [OF assms(2) reached_inv [OF assms(1)]] by simp
  then obtain b where b: "b \<in> set (vw_rows w')" "adv_follows a b"
    using assms(3,4) by (fastforce simp: adv_rows_step_def rows_kept_def list_all_iff list_ex_iff is_draft_def)
  with assms(4) show ?thesis
    by (intro bexI [of _ b]) (cases "av_status a"; cases "av_status b"; auto simp: adv_follows_def)+
qed

theorem published_documents_are_final_witness:
  "\<exists>b\<in>set (vw_rows sample_remapped). av_id b = [65] \<and> av_body b = lit ''TEXT'' \<and> av_status b \<noteq> AdvDraft"
proof -
  define a where "a = hd (vw_rows sample_posted)"
  have a: "a \<in> set (vw_rows sample_posted)" "av_status a \<noteq> AdvDraft" "av_id a = [65]" "av_body a = lit ''TEXT''"
    unfolding a_def by code_simp+
  from published_documents_are_final [OF sample_run_advisories(3,2) a(1,2)] a(3,4) show ?thesis
    by (auto simp: document_of_def)
qed

text \<open>C37. The notice that an advisory is withdrawn goes to the Discord channel the advisory was posted in,
  whatever happened in between: the guilds may have been mapped anew, other advisories posted, workers
  may have leased and acknowledged either job.\<close>

theorem cancellation_lands_where_published:
  assumes "(adv_step env)\<^sup>*\<^sup>* (no_advisories guilds) w"
    and "publish_advisory_handler now jid scope aid w = Inr w1"
    and "advisory_facility w aid = Inr facility" and "channel_id (vw_guilds w) ADV_CHANNEL (Some facility) = Some channel"
    and "(adv_step env)\<^sup>*\<^sup>* w1 w2"
    and "cancel_advisory_handler env now' jid' scope' aid w2 = Inr w3"
  shows "\<exists>j. vw_jobs w3 = vw_jobs w2 @ [j] \<and> jb_id j = jid' \<and> jb_type j = lit ''adv_cancel'' \<and>
    json_str_field (jb_payload j) (lit ''channel_id'') = Some channel"
proof -
  have inv: "adv_inv w" using assms(1) by (rule reached_inv)
  have inv1: "adv_inv w1" using publish_next [OF assms(2) inv] by (simp add: adv_next_def)
  obtain as a where drafts: "publish_advisory now aid (vw_rows w) = (True, as)"
    and post: "post_advisory now jid (lit ''adv_publish'') (publish_job_payload channel a) aid (w\<lparr>vw_rows := as\<rparr>) = Inr w1"
    using assms(2,3,4) by (elim publish_advisory_handlerE) (auto split: option.splits)
  let ?x = "(lit ''adv_publish'', Some (lit ''advisory''), Some aid, publish_job_payload channel a, 1000 * now)"
  have "list_ex (draft_with aid) (vw_rows w)" using drafts by (simp add: publish_advisory_def update_rows_def)
  then have "Some aid \<notin> set (announced (vw_jobs w))" by (rule draft_not_announced [OF inv])
  then have none: "announcements_of aid (vw_jobs w) = []"
    by (force simp: announced_def announcements_of_def filter_empty_conv)
  have w1: "announcements (vw_jobs w1) = announcements (vw_jobs w) @ [?x]" using post_advisory_Inr [OF post] by simp
  have "Some aid \<in> set (announced (vw_jobs w1))" unfolding announced_def w1 by simp
  note kept = adv_run_posted_channel [OF assms(5) inv1 this]
  have one: "announcements_of aid (vw_jobs w1) = [?x]" using none by (simp add: announcements_of_def w1)
  let ?j = "new_job (1000 * now) jid (lit ''adv_publish'') (publish_job_payload channel a) (Some (lit ''advisory'')) (Some aid)"
  have "announcements_of aid (vw_jobs w2) = announcements_of aid [?j]"
    using kept one by (simp add: announcements_of_def)
  then have "posted_channel (vw_jobs w2) aid = posted_channel [?j] aid" by (rule posted_channel_announcements)
  also have "\<dots> = Some channel"
    by (simp add: posted_channel_def published_channel_for_advisory_def about_subject_def latest_def new_job_def
        publish_job_payload_def)
  finally have there: "posted_channel (vw_jobs w2) aid = Some channel" .
  show ?thesis
  proof (rule cancel_advisory_handlerE [OF assms(6)], goal_cases)
    case (1 facility bs b)
    then have p: "post_advisory now' jid' (lit ''adv_cancel'') (cancel_job_payload env now' channel b) aid
        (w2\<lparr>vw_rows := bs\<rparr>) = Inr w3" by (simp add: there)
    show ?thesis using post_advisory_Inr [OF p] by (simp add: cancel_job_payload_def new_job_def)
  qed
qed

theorem cancellation_lands_where_published_witness:
  "\<exists>j. vw_jobs sample_withdrawn = vw_jobs sample_remapped @ [j] \<and> jb_type j = lit ''adv_cancel'' \<and>
     json_str_field (jb_payload j) (lit ''channel_id'') = Some (lit ''C1'')"
proof -
  have f: "advisory_facility sample_created [65] = Inr (lit ''ZDC'')"
    and c: "channel_id (vw_guilds sample_created) ADV_CHANNEL (Some (lit ''ZDC'')) = Some (lit ''C1'')"
    by code_simp+
  from cancellation_lands_where_published [OF sample_run_advisories(1) sample_handlers(2) f c
      sample_run_advisories(2) sample_handlers(3)]
  show ?thesis by blast
qed

lemma find_update_rows:
  assumes "distinct (map av_id as)" and "find (\<lambda>a. av_id a = aid) as = Some a" and "list_ex (draft_with aid) as"
    and same: "\<And>a. av_id (f a) = av_id a"
  shows "av_status a = AdvDraft" and "find (draft_with aid) as = Some a"
    and "find (\<lambda>a. av_id a = aid) (map (\<lambda>a. if draft_with aid a then f a else a) as) = Some (f a)"
  using assms(1-3)
proof -
  obtain b where b: "b \<in> set as" "draft_with aid b" using assms(3) by (auto simp: list_ex_iff)
  have a: "a \<in> set as" "av_id a = aid" using assms(2) by (auto simp: find_Some_iff)
  have uniq: "x = a" if "x \<in> set as" "av_id x = aid" for x
    using assms(1) that a by (auto simp: distinct_map dest: inj_onD)
  then have da: "draft_with aid a" using b by (auto simp: draft_with_def)
  then show "av_status a = AdvDraft" by (simp add: draft_with_def)
  have eq: "draft_with aid x \<longleftrightarrow> av_id x = aid" if "x \<in> set as" for x
    using uniq [OF that] da by (auto simp: draft_with_def)
  then have "find (draft_with aid) as = find (\<lambda>a. av_id a = aid) as" by (intro find_cong) auto
  then show "find (draft_with aid) as = Some a" using assms(2) by simp
  have all: "map (\<lambda>a. if draft_with aid a then f a else a) as = map (\<lambda>a. if av_id a = aid then f a else a) as"
    using eq by simp
  have "find (\<lambda>a. av_id a = aid) (map (\<lambda>a. if av_id a = aid then f a else a) as) = Some (f a)"
    using assms(2) by (induction as) (auto simp: same)
  then show "find (\<lambda>a. av_id a = aid) (map (\<lambda>a. if draft_with aid a then f a else a) as) = Some (f a)"
    unfolding all .
qed

text \<open>A successful edit of a draft leaves body, breakdown and decoding consistent: with a breakdown
  the body is what the breakdown renders to under the advisory's own number and day (kinds that do not
  render keep the text), and a stale decoding is dropped; a body typed by hand removes breakdown and
  decoding; an edit of the kind alone keeps all three.\<close>

theorem edit_keeps_document_consistent:
  assumes "update_advisory_handler env now scope aid req w = Inr w'"
    and "distinct (map av_id (vw_rows w))" and "get_advisory (vw_rows w) aid = Some a"
  shows "\<exists>b. get_advisory (vw_rows w') aid = Some b \<and> av_status a = AdvDraft \<and> number_key b = number_key a \<and>
    (case (up_structured req, up_body req) of
       (Some v, text) \<Rightarrow> av_structured b = Some v \<and> av_decoded b = up_decoded req \<and>
         (if renders_body (trim (av_kind b))
          then advisory_body env (trim (av_kind b)) (Some v)
                 (ident_of env now (av_facility b) (av_number b) (av_issued_day b)) = Inr (Some (av_body b))
          else av_body b = coalesce text (av_body a))
     | (None, Some text) \<Rightarrow> av_body b = text \<and> av_structured b = None \<and> av_decoded b = up_decoded req
     | (None, None) \<Rightarrow> av_body b = av_body a \<and> av_structured b = av_structured a \<and>
         av_decoded b = coalesce (map_option Some (up_decoded req)) (av_decoded a))"
proof -
  let ?rows = "vw_rows w"
  obtain as where upd: "update_advisory env now aid req ?rows = Inr (True, as)" and w': "w' = w\<lparr>vw_rows := as\<rparr>"
    using assms(1) by (auto simp: update_advisory_handler_def bind_result_Inr_iff split: if_splits)
  have fa: "find (\<lambda>a. av_id a = aid) ?rows = Some a" using assms(3) by (simp add: get_advisory_def)
  have ids: "av_id (edited req body r) = av_id r" for body r by (simp add: edited_def Let_def)
  show ?thesis
  proof (cases "up_structured req")
    case None
    then have as: "as = map (\<lambda>a. if draft_with aid a then edited req (up_body req) a else a) ?rows"
      and ex: "list_ex (draft_with aid) ?rows"
      using upd by (simp_all add: update_advisory_def update_rows_def)
    note found = find_update_rows [OF assms(2) fa ex, of "edited req (up_body req)", OF ids]
    show ?thesis
      using found(1,3) None
      by (intro exI [of _ "edited req (up_body req) a"])
        (auto simp: w' as get_advisory_def edited_def Let_def number_key_def coalesce_def split: option.split)
  next
    case (Some v)
    then obtain r where r: "find (draft_with aid) ?rows = Some r" using upd by (auto simp: update_advisory_def split: option.splits)
    then have ex: "list_ex (draft_with aid) ?rows" by (auto simp: list_ex_iff find_Some_iff)
    have "r = a" using find_update_rows(2) [OF assms(2) fa ex ids] r by simp
    then obtain rendered where
        body: "advisory_body env (trim (coalesce (up_kind req) (av_kind a))) (Some v)
          (ident_of env now (av_facility a) (av_number a) (av_issued_day a)) = Inr rendered"
      and as: "as = map (\<lambda>x. if draft_with aid x then edited req (case rendered of Some b \<Rightarrow> Some b | None \<Rightarrow> up_body req) x
          else x) ?rows"
      using upd Some r by (auto simp: update_advisory_def update_rows_def bind_result_Inr_iff)
    let ?body = "case rendered of Some b \<Rightarrow> Some b | None \<Rightarrow> up_body req"
    note found = find_update_rows [OF assms(2) fa ex, of "edited req ?body", OF ids]
    have "renders_body (trim (coalesce (up_kind req) (av_kind a))) \<longleftrightarrow> rendered \<noteq> None"
      using body by (auto simp: advisory_body_def derives_body_def renders_body_def bind_result_Inr_iff split: if_splits)
    then show ?thesis
      using found(1,3) Some body
      by (intro exI [of _ "edited req ?body a"])
        (auto simp: w' as get_advisory_def edited_def Let_def number_key_def coalesce_def split: option.splits)
  qed
qed

definition sample_edit :: update_advisory_request where
  "sample_edit = \<lparr>up_kind = Some (lit ''ground_stop''), up_body = Some (lit ''IGNORED''), up_structured = Some JNull,
     up_decoded = None\<rparr>"

theorem edit_keeps_document_consistent_witness:
  "case update_advisory_handler sample_env 120000 national [65] sample_edit sample_created of
     Inl e \<Rightarrow> False
   | Inr w' \<Rightarrow> (case get_advisory (vw_rows w') [65] of None \<Rightarrow> False
       | Some b \<Rightarrow> advisory_body sample_env (trim (av_kind b)) (Some JNull)
           (ident_of sample_env 120000 (av_facility b) (av_number b) (av_issued_day b)) = Inr (Some (av_body b)))"
proof -
  let ?r = "update_advisory_handler sample_env 120000 national [65] sample_edit sample_created"
  obtain w' where r: "?r = Inr w'" and k: "map (\<lambda>b. renders_body (trim (av_kind b))) (vw_rows w') = [True]"
    by (rule that [of "projr ?r"]) code_simp+
  have d: "distinct (map av_id (vw_rows sample_created))"
    and g: "get_advisory (vw_rows sample_created) [65] = Some (hd (vw_rows sample_created))"
    by code_simp+
  from edit_keeps_document_consistent [OF r d g] obtain b where b: "get_advisory (vw_rows w') [65] = Some b"
    and e: "renders_body (trim (av_kind b)) \<longrightarrow> advisory_body sample_env (trim (av_kind b)) (Some JNull)
           (ident_of sample_env 120000 (av_facility b) (av_number b) (av_issued_day b)) = Inr (Some (av_body b))"
    by (auto simp: sample_edit_def)
  have "b \<in> set (vw_rows w')" using b by (auto simp: get_advisory_def find_Some_iff)
  then have "renders_body (trim (av_kind b))"
    using k by (cases "vw_rows w'") auto
  with e show ?thesis by (simp add: r b)
qed

end
