(* ===== verification/TmuWorld.thy ===== *)
theory TmuWorld
  imports TmuTables InitiativeLife AdvisoryLife GdpLife
begin

text \<open>
  The traffic-management tables together: the ground delay program endpoints of \<open>handlers/gdp.rs\<close>
  with the advisory documents they generate, and the passes of \<open>repos/tmu.rs\<close> that run over every
  table, \<open>run_cleanup\<close> and \<open>prune_history\<close>. The abstraction to the program tables of \<open>GdpProgram\<close>
  keeps of an advisory only its program and whether it is live; the endpoints refine the ones
  modelled there.
\<close>

section \<open>The tables\<close>

record tmu_world =
  mw_tmis :: "tmi list"
  mw_stops :: "ground_stop list"
  mw_rates :: "rate_program list"
  mw_gdps :: "gdp list"
  mw_slots :: "gdp_slot_row list"
  mw_adv :: adv_world

definition linked :: "advisory list \<Rightarrow> (ustr \<times> bool) list" where
  "linked = List.map_filter (\<lambda>a. case av_program a of
     Some (FromGdp gid) \<Rightarrow> Some (gid, live_advisory a) | _ \<Rightarrow> None)"

definition gdp_view :: "tmu_world \<Rightarrow> gdp_world" where
  "gdp_view w = \<lparr>gw_programs = mw_gdps w, gw_slots = mw_slots w, gw_advisories = linked (vw_rows (mw_adv w))\<rparr>"

definition set_advisories :: "advisory list \<Rightarrow> tmu_world \<Rightarrow> tmu_world" where
  "set_advisories as w = w\<lparr>mw_adv := (mw_adv w)\<lparr>vw_rows := as\<rparr>\<rparr>"

definition set_gdps :: "gdp_world \<Rightarrow> tmu_world \<Rightarrow> tmu_world" where
  "set_gdps g w = w\<lparr>mw_gdps := gw_programs g, mw_slots := gw_slots g\<rparr>"

section \<open>Programs and their advisories\<close>

text \<open>What generating a document needs besides the tables: the environment, the encoding of the
  document as JSON, the IATA index and the id of the new row.\<close>

record gdp_doc_env =
  gi_env :: doc_env
  gi_value :: "gdp_advisory \<Rightarrow> json"
  gi_iata :: "(ustr \<times> ustr) list"
  gi_aid :: ustr

definition gdp_advisory_request :: "json \<Rightarrow> create_advisory_request" where
  "gdp_advisory_request doc = \<lparr>cr_facility = lit ''DCC'', cr_kind = ADVISORY_KIND_GDP, cr_body = [],
     cr_structured = Some doc, cr_decoded = None, cr_valid_from = None, cr_valid_to = None\<rparr>"

definition generate_gdp_advisory_tx ::
    "gdp_doc_env \<Rightarrow> int \<Rightarrow> gdp \<Rightarrow> gdp_stats \<Rightarrow> int \<times> int \<Rightarrow> publish_gdp_request \<Rightarrow> advisory list \<Rightarrow> advisory list result" where
  "generate_gdp_advisory_tx d now g stats win ed as =
     (let civ = de_civil (gi_env d);
          doc = gdp_advisory_from (gi_iata d) g None stats (civ (fst win), civ (snd win)) ed (civ now)
      in create_advisory_tx (gi_env d) now (gi_aid d) (gdp_advisory_request (gi_value d doc)) (Some (FromGdp (gd_id g))) as)"

text \<open>\<open>frozen_slots_for\<close> with the window it resolved.\<close>

definition frozen_for :: "gdp \<Rightarrow> inbound list \<Rightarrow> int \<Rightarrow> ((int \<times> int) \<times> gdp_slot_row list \<times> gdp_stats) result" where
  "frozen_for g inbounds now =
     bind_result (fresh_assignments g inbounds now) (\<lambda>(ws, we, as).
       Inr ((ws, we), map (slot_of (gd_id g)) (filter as_controlled as), program_stats as))"

definition publish_gdp_full ::
    "gdp_doc_env \<Rightarrow> int \<Rightarrow> ustr \<Rightarrow> inbound list \<Rightarrow> publish_gdp_request \<Rightarrow> tmu_world \<Rightarrow> unit result \<times> tmu_world" where
  "publish_gdp_full d now gid inbounds ed w =
     (case get_gdp (gdp_view w) gid of
        None \<Rightarrow> (Inl NotFound, w)
      | Some draft \<Rightarrow>
          if gd_status draft \<noteq> Draft then (Inl Conflict, w)
          else case bind_result (frozen_for draft inbounds now) (\<lambda>(win, rows, stats).
                 case publish_gdp now gid (gdp_view w) of
                   (False, _) \<Rightarrow> Inl Conflict
                 | (True, g1) \<Rightarrow> bind_result (ok_or NotFound (get_gdp g1 gid)) (\<lambda>g.
                     bind_result (replace_slots gid rows g1) (\<lambda>g2.
                     bind_result (generate_gdp_advisory_tx d now g stats win ed (vw_rows (mw_adv w))) (\<lambda>as.
                       Inr (set_advisories as (set_gdps g2 w)))))) of
            Inl e \<Rightarrow> (Inl e, w)
          | Inr w' \<Rightarrow> (Inr (), w'))"

definition revise_gdp_full ::
    "gdp_doc_env \<Rightarrow> int \<Rightarrow> ustr \<Rightarrow> gdp_payload \<Rightarrow> inbound list \<Rightarrow> publish_gdp_request \<Rightarrow> tmu_world \<Rightarrow> unit result \<times> tmu_world" where
  "revise_gdp_full d now gid p inbounds ed w =
     (case validate_payload now p of
        Inl e \<Rightarrow> (Inl e, w)
      | Inr q \<Rightarrow>
          if get_gdp (gdp_view w) gid = None then (Inl NotFound, w)
          else case update_gdp now gid q (gdp_view w) of
            (False, _) \<Rightarrow> (Inl Conflict, w)
          | (True, g1) \<Rightarrow> (case get_gdp g1 gid of
                None \<Rightarrow> (Inl NotFound, set_gdps g1 w)
              | Some g \<Rightarrow>
                  if gd_status g \<noteq> Published then (Inr (), set_gdps g1 w)
                  else case bind_result (frozen_for g inbounds now) (\<lambda>(win, rows, stats).
                         bind_result (replace_slots gid rows g1) (\<lambda>g2.
                         bind_result (generate_gdp_advisory_tx d now g stats win ed
                             (cancel_program_advisory_tx (FromGdp gid) (vw_rows (mw_adv w)))) (\<lambda>as.
                           Inr (set_advisories as (set_gdps g2 w))))) of
                    Inl e \<Rightarrow> (Inl e, set_gdps g1 w)
                  | Inr w' \<Rightarrow> (Inr (), w')))"

text \<open>Deleting programs also unlinks their advisories.\<close>

definition drop_gdps :: "(gdp \<Rightarrow> bool) \<Rightarrow> tmu_world \<Rightarrow> tmu_world" where
  "drop_gdps P w = set_advisories (unlink (map (\<lambda>g. FromGdp (gd_id g)) (filter P (mw_gdps w))) (vw_rows (mw_adv w)))
     (set_gdps (drop_programs P (gdp_view w)) w)"

definition delete_gdp_full :: "int \<Rightarrow> ustr \<Rightarrow> tmu_world \<Rightarrow> unit result \<times> tmu_world" where
  "delete_gdp_full now gid w =
     (let P = (\<lambda>g. gd_id g = gid \<and> gd_published_at g = None) in
      if list_ex P (mw_gdps w) then (Inr (), drop_gdps P w)
      else case update_program (\<lambda>g. gd_id g = gid) (retain_row now) (gdp_view w) of
        (ok, g1) \<Rightarrow> (if ok then Inr () else Inl NotFound, set_gdps g1 w))"

text \<open>The endpoints that leave the advisories alone.\<close>

definition on_gdps :: "(gdp_world \<Rightarrow> unit result \<times> gdp_world) \<Rightarrow> tmu_world \<Rightarrow> unit result \<times> tmu_world" where
  "on_gdps f w = (case f (gdp_view w) of (r, g) \<Rightarrow> (r, set_gdps g w))"

section \<open>The passes over every table\<close>

definition set_stops_and_rows :: "ground_stop list \<times> advisory list \<Rightarrow> tmu_world \<Rightarrow> tmu_world" where
  "set_stops_and_rows r w = set_advisories (snd r) (w\<lparr>mw_stops := fst r\<rparr>)"

definition stale_gdp :: "(int \<Rightarrow> ustr \<Rightarrow> ustr \<Rightarrow> int option) \<Rightarrow> int \<Rightarrow> gdp \<Rightarrow> bool" where
  "stale_gdp gdp_end_ts now g \<longleftrightarrow> gd_published_at g = None \<and>
     (past_end gdp_end_ts (now - hour_ms) g \<or> \<not> active g \<and> gd_updated_at g < now - hour_ms)"

definition window_over :: "int \<Rightarrow> advisory \<Rightarrow> bool" where
  "window_over now a \<longleftrightarrow> (case av_valid_to a of None \<Rightarrow> False | Some t \<Rightarrow> t < now - 30 * minute_ms)"

definition program_over :: "gdp list \<Rightarrow> ground_stop list \<Rightarrow> advisory \<Rightarrow> bool" where
  "program_over gs ss a \<longleftrightarrow> (case av_program a of
     None \<Rightarrow> False
   | Some (FromGdp gid) \<Rightarrow> list_ex (\<lambda>g. gd_id g = gid \<and> \<not> active g) gs
   | Some (FromGroundStop sid) \<Rightarrow> list_ex (\<lambda>s. stop_id s = sid \<and> \<not> stop_active s) ss)"

definition cleanup_tables :: "(int \<Rightarrow> ustr \<Rightarrow> ustr \<Rightarrow> int option) \<Rightarrow> int \<Rightarrow> tmu_world \<Rightarrow> tmu_world" where
  "cleanup_tables gdp_end_ts now w =
     (let w1 = w\<lparr>mw_tmis := cleanup_tmis now (mw_tmis w), mw_stops := expire_stops now (mw_stops w)\<rparr>;
          w2 = set_stops_and_rows (drop_stops (stale_stop now) (mw_stops w1, vw_rows (mw_adv w1))) w1;
          w3 = w2\<lparr>mw_rates := filter (\<lambda>p. \<not> lapsed_program now p) (mw_rates w2)\<rparr>;
          w4 = set_gdps (snd (update_program (\<lambda>g. active g \<and> past_end gdp_end_ts now g) (expire_row now) (gdp_view w3))) w3
      in drop_gdps (stale_gdp gdp_end_ts now) w4)"

text \<open>The statements up to here commit one by one; cancelling what lapsed is one transaction.\<close>

definition run_cleanup ::
    "doc_env \<Rightarrow> (int \<Rightarrow> ustr \<Rightarrow> ustr \<Rightarrow> int option) \<Rightarrow> int \<Rightarrow> (ustr \<Rightarrow> ustr) \<Rightarrow> tmu_world \<Rightarrow> unit result \<times> tmu_world" where
  "run_cleanup env gdp_end_ts now jid_for w =
     (let w1 = cleanup_tables gdp_end_ts now w in
      case lapse_advisories env now jid_for (window_over now) (program_over (mw_gdps w1) (mw_stops w1)) (mw_adv w1) of
        Inl e \<Rightarrow> (Inl e, w1)
      | Inr v \<Rightarrow> (Inr (), w1\<lparr>mw_adv := v\<rparr>))"

definition pruned_gdp :: "int \<Rightarrow> gdp \<Rightarrow> bool" where
  "pruned_gdp before g \<longleftrightarrow> gd_published_at g \<noteq> None \<and> \<not> active g \<and> coalesce (gd_ended_at g) (gd_updated_at g) < before"

definition prune_history :: "int \<Rightarrow> tmu_world \<Rightarrow> tmu_world" where
  "prune_history before w =
     (let w1 = w\<lparr>mw_tmis := prune_tmis before (mw_tmis w)\<rparr>;
          w2 = set_stops_and_rows (drop_stops (pruned_stop before) (mw_stops w1, vw_rows (mw_adv w1))) w1
      in drop_gdps (pruned_gdp before) w2)"

section \<open>The view of each building block\<close>

lemma gdp_view_sel [simp]: "gw_programs (gdp_view w) = mw_gdps w" "gw_slots (gdp_view w) = mw_slots w"
    "gw_advisories (gdp_view w) = linked (vw_rows (mw_adv w))"
  by (simp_all add: gdp_view_def)

lemma gdp_view_set [simp]:
  "gdp_view (set_gdps g w) = g\<lparr>gw_advisories := linked (vw_rows (mw_adv w))\<rparr>"
  "gdp_view (set_advisories as w) = (gdp_view w)\<lparr>gw_advisories := linked as\<rparr>"
  "vw_rows (mw_adv (set_advisories as w)) = as" "vw_rows (mw_adv (set_gdps g w)) = vw_rows (mw_adv w)"
  "mw_gdps (set_gdps g w) = gw_programs g" "mw_slots (set_gdps g w) = gw_slots g"
  "mw_gdps (set_advisories as w) = mw_gdps w" "mw_slots (set_advisories as w) = mw_slots w"
  "mw_stops (set_advisories as w) = mw_stops w" "mw_stops (set_gdps g w) = mw_stops w"
  by (cases g; simp add: gdp_view_def set_gdps_def set_advisories_def)+

lemma linked_simps [simp]:
  "linked [] = []"
  "linked (as @ bs) = linked as @ linked bs"
  "linked (a # as) = (case av_program a of Some (FromGdp gid) \<Rightarrow> [(gid, live_advisory a)] | _ \<Rightarrow> []) @ linked as"
  by (simp_all add: linked_def List.map_filter_def split: option.split advisory_program.split)

lemma linked_unlink_stops: "linked (unlink (map (\<lambda>s. FromGroundStop (f s)) ss) as) = linked as"
  by (induction as) (auto simp: unlink_def live_advisory_def split: option.split advisory_program.split)

lemma linked_unlink_gdps:
  "linked (unlink (map (\<lambda>g. FromGdp (gd_id g)) gs) as) = filter (\<lambda>a. fst a \<notin> set (map gd_id gs)) (linked as)"
  by (induction as) (auto simp: unlink_def live_advisory_def split: option.split advisory_program.split)

lemma linked_cancel_program:
  "linked (cancel_program_advisory_tx (FromGdp gid) as) = map (\<lambda>(g, live). (g, live \<and> g \<noteq> gid)) (linked as)"
  by (induction as)
    (auto simp: cancel_program_advisory_tx_def update_rows_def cancelled_row_def live_advisory_def
      split: option.split advisory_program.split)

lemma gdp_view_drop: "gdp_view (drop_gdps P w) = drop_programs P (gdp_view w)"
  by (simp add: drop_gdps_def linked_unlink_gdps drop_programs_def Let_def gdp_view_def)

section \<open>Generating a document succeeds\<close>

lemma create_tx_body:
  assumes "create_advisory_tx env now aid req program as = Inr bs"
  shows "\<exists>a ident rendered. bs = as @ [a] \<and> av_id a = aid \<and> av_status a = AdvDraft \<and> av_program a = program \<and>
    advisory_body env (trim (cr_kind req)) (cr_structured req) ident = Inr rendered \<and>
    av_body a = coalesce rendered (trim (cr_body req))"
proof -
  let ?f = "ascii_upper (trim (cr_facility req))" and ?d = "now div day_ms"
  let ?ident = "ident_of env now ?f (allocate_advisory_number as ?f ?d) ?d"
  obtain rendered where r: "advisory_body env (trim (cr_kind req)) (cr_structured req) ?ident = Inr rendered"
    using assms by (auto simp: create_advisory_tx_def Let_def bind_result_Inr_iff)
  then have "\<exists>a. insert_advisory a as = Inr bs \<and> av_id a = aid \<and> av_status a = AdvDraft \<and> av_program a = program \<and>
      av_body a = coalesce rendered (trim (cr_body req))"
    using assms by (auto simp: create_advisory_tx_def Let_def)
  then show ?thesis using r by (force simp: insert_advisory_def split: if_splits)
qed

lemma create_tx_succeeds:
  assumes "rows_inv as" and "aid \<notin> av_id ` set as"
    and "\<And>ident. \<exists>b. advisory_body env (trim (cr_kind req)) (cr_structured req) ident = Inr b"
  shows "\<exists>a. create_advisory_tx env now aid req program as = Inr (as @ [a]) \<and> av_program a = program \<and>
    av_status a = AdvDraft \<and> av_valid_to a = cr_valid_to req"
proof -
  let ?f = "ascii_upper (trim (cr_facility req))" and ?d = "now div day_ms"
  let ?n = "allocate_advisory_number as ?f ?d"
  obtain b where b: "advisory_body env (trim (cr_kind req)) (cr_structured req) (ident_of env now ?f ?n ?d) = Inr b"
    using assms(3) by blast
  have "\<forall>a\<in>set as. 1 \<le> av_number a" using assms(1) by (auto simp: rows_inv_def rows_sound_def list_all_iff sound_advisory_def)
  then have "\<forall>n\<in>set (numbers_of as ?f ?d). n < ?n" using allocated_number_bounds by blast
  then have "\<not> list_ex (\<lambda>x. av_id x = aid \<or> (av_facility x, av_issued_day x, av_number x) = (?f, ?d, ?n)) as"
    using assms(2) by (force simp: list_ex_iff numbers_of_def)
  then show ?thesis by (simp add: create_advisory_tx_def Let_def b insert_advisory_def)
qed

lemma generate_succeeds:
  assumes "rows_inv as" and "gi_aid d \<notin> av_id ` set as" and "\<And>doc. de_gdp (gi_env d) (gi_value d doc) = Some doc"
  shows "\<exists>a. generate_gdp_advisory_tx d now g stats win ed as = Inr (as @ [a]) \<and> av_program a = Some (FromGdp (gd_id g)) \<and>
    live_advisory a"
proof -
  have kind: "trim ADVISORY_KIND_GDP = ADVISORY_KIND_GDP" "ADVISORY_KIND_GDP \<noteq> ADVISORY_KIND_REROUTE" "renders_body ADVISORY_KIND_GDP"
    by code_simp+
  then have body: "\<exists>b. advisory_body (gi_env d) (trim (cr_kind (gdp_advisory_request (gi_value d doc))))
      (cr_structured (gdp_advisory_request (gi_value d doc))) ident = Inr b" for doc ident
    using assms(3) [of doc] by (simp add: gdp_advisory_request_def advisory_body_def derives_body_def ok_or_def)
  show ?thesis
    unfolding generate_gdp_advisory_tx_def Let_def
    by (rule exE [OF create_tx_succeeds [OF assms(1,2) body]]) (auto simp: live_advisory_def)
qed

lemma frozen_slots_for_frozen_for:
  "frozen_slots_for g inbounds now = bind_result (frozen_for g inbounds now) (\<lambda>(win, rows, stats). Inr (rows, stats))"
  by (cases "fresh_assignments g inbounds now") (auto simp: frozen_slots_for_def frozen_for_def)

lemma cancel_program_rows_inv:
  "rows_inv as \<Longrightarrow> rows_inv (cancel_program_advisory_tx p as) \<and> av_id ` set (cancel_program_advisory_tx p as) = av_id ` set as"
proof -
  assume inv: "rows_inv as"
  have "rows_inv (cancel_program_advisory_tx p as)"
    using adv_rows_step_cancel [OF inv, of "\<lambda>a. av_program a = Some p"] by (simp add: adv_rows_step_def cancel_program_advisory_tx_def)
  moreover have "map av_id (cancel_program_advisory_tx p as) = map av_id as"
    by (simp add: cancel_program_advisory_tx_def update_rows_def cancelled_row_def)
  ultimately show ?thesis by (metis set_map)
qed
section \<open>The endpoints refine\<close>

text \<open>What the documents rely on: the JSON of a document decodes to it, the numbers in the table are
  sound, and the id of the new row is fresh.\<close>

definition documents_ok :: "gdp_doc_env \<Rightarrow> tmu_world \<Rightarrow> bool" where
  "documents_ok d w \<longleftrightarrow> (\<forall>doc. de_gdp (gi_env d) (gi_value d doc) = Some doc) \<and>
     rows_inv (vw_rows (mw_adv w)) \<and> gi_aid d \<notin> av_id ` set (vw_rows (mw_adv w))"

lemma replace_slots_advisories: "replace_slots gid rows g = Inr g' \<Longrightarrow> gw_advisories g' = gw_advisories g"
  by (auto simp: replace_slots_def bind_result_Inr_iff)

lemma update_program_advisories: "gw_advisories (snd (update_program P f g)) = gw_advisories g"
  by (simp add: update_program_def)

lemma get_gdp_updated:
  assumes "update_program (\<lambda>g. gd_id g = gid \<and> P g) f w = (True, w')" and "\<And>g. gd_id (f g) = gd_id g"
  shows "\<exists>g. get_gdp w' gid = Some g \<and> gd_id g = gid"
proof -
  have "map gd_id (gw_programs w') = map gd_id (gw_programs w)" using assms by (auto simp: update_program_def)
  moreover have "gid \<in> gd_id ` set (gw_programs w)" using assms(1) by (auto simp: update_program_def list_ex_iff)
  ultimately have "gid \<in> gd_id ` set (gw_programs w')" by (metis set_map)
  then have "list_ex (\<lambda>g. gd_id g = gid) (gw_programs w')" by (auto simp: list_ex_iff)
  then obtain g where "get_gdp w' gid = Some g"
    by (cases "get_gdp w' gid") (auto simp: get_gdp_def find_None_iff list_ex_iff)
  then show ?thesis by (auto simp: get_gdp_def find_Some_iff)
qed

lemma publish_refines:
  assumes "documents_ok d w"
  shows "publish_gdp_handler now gid inbounds (gdp_view w) =
    (fst (publish_gdp_full d now gid inbounds ed w), gdp_view (snd (publish_gdp_full d now gid inbounds ed w)))"
proof (cases "get_gdp (gdp_view w) gid")
  case None
  then show ?thesis by (simp add: publish_gdp_handler_def publish_gdp_full_def)
next
  case (Some draft)
  show ?thesis
  proof (cases "gd_status draft = Draft")
    case False
    then show ?thesis using Some by (simp add: publish_gdp_handler_def publish_gdp_full_def)
  next
    case True
    note here = Some True
    show ?thesis
    proof (cases "frozen_for draft inbounds now")
      case (Inl e)
      then show ?thesis using here by (simp add: publish_gdp_handler_def publish_gdp_full_def frozen_slots_for_frozen_for)
    next
      case (Inr r)
      obtain win rows stats where r: "r = (win, rows, stats)" by (cases r) auto
      obtain ok g1 where pub: "publish_gdp now gid (gdp_view w) = (ok, g1)" by fastforce
      have adv1: "gw_advisories g1 = linked (vw_rows (mw_adv w))"
        using update_program_advisories pub by (metis gdp_view_sel(3) publish_gdp_def snd_conv)
      show ?thesis
      proof (cases ok)
        case False
        then show ?thesis
          using here Inr r pub by (simp add: publish_gdp_handler_def publish_gdp_full_def frozen_slots_for_frozen_for)
      next
        case True
        then obtain g where g: "get_gdp g1 gid = Some g" "gd_id g = gid"
          using get_gdp_updated [of gid "\<lambda>g. gd_status g = Draft" "publish_row now" "gdp_view w" g1] pub
          by (auto simp: publish_gdp_def publish_row_def)
        show ?thesis
        proof (cases "replace_slots gid rows g1")
          case (Inl e)
          then show ?thesis
            using here Inr r pub \<open>ok\<close> g by (simp add: publish_gdp_handler_def publish_gdp_full_def frozen_slots_for_frozen_for ok_or_def)
        next
          case (Inr g2)
          obtain a where a: "generate_gdp_advisory_tx d now g stats win ed (vw_rows (mw_adv w)) = Inr (vw_rows (mw_adv w) @ [a])"
              "av_program a = Some (FromGdp gid)" "live_advisory a"
            using generate_succeeds assms g(2) unfolding documents_ok_def by metis
          have "gw_advisories g2 = linked (vw_rows (mw_adv w))" using replace_slots_advisories [OF Inr] adv1 by simp
          then show ?thesis
            using here \<open>frozen_for draft inbounds now = Inr r\<close> r pub \<open>ok\<close> g Inr a
            by (simp add: publish_gdp_handler_def publish_gdp_full_def frozen_slots_for_frozen_for ok_or_def generate_gdp_advisory_def)
        qed
      qed
    qed
  qed
qed

lemma set_gdps_view:
  "gw_advisories g = linked (vw_rows (mw_adv w)) \<Longrightarrow> gdp_view (set_gdps g w) = g"
  by (cases g) simp

lemma revise_refines:
  assumes "documents_ok d w"
  shows "revise_gdp_handler now gid p inbounds (gdp_view w) =
    (fst (revise_gdp_full d now gid p inbounds ed w), gdp_view (snd (revise_gdp_full d now gid p inbounds ed w)))"
proof (cases "validate_payload now p")
  case (Inl e)
  then show ?thesis by (simp add: revise_gdp_handler_def revise_gdp_full_def)
next
  case (Inr q)
  note q = Inr
  obtain ok g1 where upd: "update_gdp now gid q (gdp_view w) = (ok, g1)" by fastforce
  have adv1: "gw_advisories g1 = linked (vw_rows (mw_adv w))"
    using update_program_advisories upd by (metis gdp_view_sel(3) update_gdp_def snd_conv)
  show ?thesis
  proof (cases "get_gdp (gdp_view w) gid = None \<or> \<not> ok")
    case True
    then show ?thesis using q upd by (auto simp: revise_gdp_handler_def revise_gdp_full_def)
  next
    case False
    then have here: "get_gdp (gdp_view w) gid \<noteq> None" "ok" by simp_all
    obtain g where g: "get_gdp g1 gid = Some g" "gd_id g = gid"
      using get_gdp_updated [of gid active "update_row now q" "gdp_view w" g1] upd \<open>ok\<close>
      by (auto simp: update_gdp_def update_row_def)
    note view1 = set_gdps_view [OF adv1]
    show ?thesis
    proof (cases "gd_status g = Published")
      case False
      then show ?thesis using q upd here g view1 by (auto simp: revise_gdp_handler_def revise_gdp_full_def)
    next
      case True
      note pub = True
      show ?thesis
      proof (cases "frozen_for g inbounds now")
        case (Inl e)
        then show ?thesis using q upd here g view1 pub
          by (auto simp: revise_gdp_handler_def revise_gdp_full_def frozen_slots_for_frozen_for)
      next
        case (Inr r)
        note frozen = Inr
        obtain win rows stats where r: "r = (win, rows, stats)" by (cases r) auto
        show ?thesis
        proof (cases "replace_slots gid rows g1")
          case (Inl e)
          then show ?thesis using q upd here g view1 pub frozen r
            by (auto simp: revise_gdp_handler_def revise_gdp_full_def frozen_slots_for_frozen_for)
        next
          case (Inr g2)
          let ?as = "cancel_program_advisory_tx (FromGdp gid) (vw_rows (mw_adv w))"
          have "rows_inv ?as" "gi_aid d \<notin> av_id ` set ?as" "\<And>doc. de_gdp (gi_env d) (gi_value d doc) = Some doc"
            using assms cancel_program_rows_inv by (auto simp: documents_ok_def)
          then obtain a where a: "generate_gdp_advisory_tx d now g stats win ed ?as = Inr (?as @ [a])"
              "av_program a = Some (FromGdp gid)" "live_advisory a"
            using generate_succeeds g(2) by metis
          have "gw_advisories g2 = linked (vw_rows (mw_adv w))" using replace_slots_advisories [OF Inr] adv1 by simp
          then show ?thesis
            using q upd here g pub frozen r Inr a
            by (auto simp: revise_gdp_handler_def revise_gdp_full_def frozen_slots_for_frozen_for generate_gdp_advisory_def
                cancel_program_advisory_def linked_cancel_program)
        qed
      qed
    qed
  qed
qed

lemma delete_refines:
  "delete_gdp_handler now gid (gdp_view w) = (fst (delete_gdp_full now gid w), gdp_view (snd (delete_gdp_full now gid w)))"
proof (cases "list_ex (\<lambda>g. gd_id g = gid \<and> gd_published_at g = None) (mw_gdps w)")
  case True
  then show ?thesis by (simp add: delete_gdp_handler_def delete_gdp_full_def delete_gdp_def answer_def gdp_view_drop)
next
  case False
  obtain ok g1 where upd: "update_program (\<lambda>g. gd_id g = gid) (retain_row now) (gdp_view w) = (ok, g1)" by fastforce
  have "gw_advisories g1 = linked (vw_rows (mw_adv w))" using update_program_advisories upd by (metis gdp_view_sel(3) snd_conv)
  from set_gdps_view [OF this] False upd show ?thesis
    by (simp add: delete_gdp_handler_def delete_gdp_full_def delete_gdp_def answer_def)
qed

lemma on_gdps_refines:
  "gw_advisories (snd (f (gdp_view w))) = gw_advisories (gdp_view w) \<Longrightarrow>
     f (gdp_view w) = (fst (on_gdps f w), gdp_view (snd (on_gdps f w)))"
  by (cases "f (gdp_view w)") (simp add: on_gdps_def set_gdps_view del: gdp_view_set(1))

section \<open>The cleanup pass refines\<close>

lemma linked_cancel_where:
  assumes "cancel_where P as = (ids, bs)"
  shows "linked bs = List.map_filter (\<lambda>a. case av_program a of
     Some (FromGdp gid) \<Rightarrow> Some (gid, live_advisory a \<and> \<not> P a) | _ \<Rightarrow> None) as"
proof -
  have bs: "bs = map (\<lambda>a. if live_advisory a \<and> P a then cancelled_row a else a) as"
    using assms by (auto simp: cancel_where_def update_rows_def)
  show ?thesis
    unfolding bs by (induction as)
      (auto simp: List.map_filter_def cancelled_row_def live_advisory_def split: option.split advisory_program.split)
qed

lemma linked_cancel_windows:
  assumes "cancel_where (window_over now) as = (ids, bs)" and "list_all (\<lambda>a. av_program a = None \<or> av_valid_to a = None) as"
  shows "linked bs = linked as"
  unfolding linked_cancel_where [OF assms(1)] using assms(2)
  by (induction as) (auto simp: List.map_filter_def window_over_def split: option.split advisory_program.split)

lemma linked_cancel_programs:
  assumes "cancel_where (program_over gs ss) as = (ids, bs)"
  shows "linked bs = map (\<lambda>(gid, live). (gid, live \<and> \<not> list_ex (\<lambda>g. gd_id g = gid \<and> \<not> active g) gs)) (linked as)"
  unfolding linked_cancel_where [OF assms]
  by (induction as) (auto simp: List.map_filter_def program_over_def split: option.split advisory_program.split)

lemma unlinked_windows:
  "list_all (\<lambda>a. av_program a = None \<or> av_valid_to a = None) as \<Longrightarrow>
     list_all (\<lambda>a. av_program a = None \<or> av_valid_to a = None) (unlink gone as)"
  by (auto simp: unlink_def list_all_iff split: option.splits)

lemma set_gdps_updated:
  "gdp_view (set_gdps (snd (update_program P f (gdp_view w))) w) = snd (update_program P f (gdp_view w))"
  by (rule set_gdps_view) (simp add: update_program_advisories)

lemma cleanup_tables_view:
  "gdp_view (cleanup_tables gdp_end_ts now w) =
     drop_programs (stale_gdp gdp_end_ts now)
       (snd (update_program (\<lambda>g. active g \<and> past_end gdp_end_ts now g) (expire_row now) (gdp_view w)))"
proof -
  let ?w1 = "w\<lparr>mw_tmis := cleanup_tmis now (mw_tmis w), mw_stops := expire_stops now (mw_stops w)\<rparr>"
  let ?w2 = "set_stops_and_rows (drop_stops (stale_stop now) (mw_stops ?w1, vw_rows (mw_adv ?w1))) ?w1"
  let ?w3 = "?w2\<lparr>mw_rates := filter (\<lambda>p. \<not> lapsed_program now p) (mw_rates ?w2)\<rparr>"
  have w3: "gdp_view ?w3 = gdp_view w"
    by (simp add: gdp_view_def set_stops_and_rows_def drop_stops_def set_advisories_def linked_unlink_stops)
  have "gdp_view (cleanup_tables gdp_end_ts now w) = drop_programs (stale_gdp gdp_end_ts now)
       (snd (update_program (\<lambda>g. active g \<and> past_end gdp_end_ts now g) (expire_row now) (gdp_view ?w3)))"
    unfolding cleanup_tables_def Let_def gdp_view_drop set_gdps_updated ..
  then show ?thesis unfolding w3 .
qed

lemma cleanup_tables_windows:
  "list_all (\<lambda>a. av_program a = None \<or> av_valid_to a = None) (vw_rows (mw_adv w)) \<Longrightarrow>
     list_all (\<lambda>a. av_program a = None \<or> av_valid_to a = None) (vw_rows (mw_adv (cleanup_tables gdp_end_ts now w)))"
  by (simp add: cleanup_tables_def Let_def drop_gdps_def set_stops_and_rows_def set_advisories_def set_gdps_def
      drop_stops_def unlinked_windows)

lemma lapse_rows:
  assumes "lapse_advisories env now jid_for P Q v = Inr v'"
  obtains ids1 rows1 ids2 where "cancel_where P (vw_rows v) = (ids1, rows1)" and "cancel_where Q rows1 = (ids2, vw_rows v')"
proof -
  obtain ids1 rows1 ids2 rows2 where c: "cancel_where P (vw_rows v) = (ids1, rows1)" "cancel_where Q rows1 = (ids2, rows2)"
    and p: "withdraw_posts env now jid_for (ids1 @ ids2) (v\<lparr>vw_rows := rows2\<rparr>) = Inr v'"
    using assms by (auto simp: lapse_advisories_def split: prod.splits)
  have "vw_rows v' = rows2" using withdraw_posts_next [OF p] by simp
  with c that show ?thesis by blast
qed

lemma cleanup_view:
  assumes "run_cleanup env gdp_end_ts now jid_for w = (Inr (), w')"
    and "list_all (\<lambda>a. av_program a = None \<or> av_valid_to a = None) (vw_rows (mw_adv w))"
  shows "gdp_view w' = cleanup_gdps gdp_end_ts now (gdp_view w)"
proof -
  let ?w1 = "cleanup_tables gdp_end_ts now w"
  let ?g = "drop_programs (stale_gdp gdp_end_ts now)
       (snd (update_program (\<lambda>g. active g \<and> past_end gdp_end_ts now g) (expire_row now) (gdp_view w)))"
  obtain v where v: "lapse_advisories env now jid_for (window_over now) (program_over (mw_gdps ?w1) (mw_stops ?w1)) (mw_adv ?w1) = Inr v"
    and w': "w' = ?w1\<lparr>mw_adv := v\<rparr>"
    using assms(1) by (auto simp: run_cleanup_def Let_def split: sum.splits)
  have g: "gdp_view ?w1 = ?g" by (rule cleanup_tables_view)
  from v obtain ids1 rows1 ids2 where one: "cancel_where (window_over now) (vw_rows (mw_adv ?w1)) = (ids1, rows1)"
    and two: "cancel_where (program_over (mw_gdps ?w1) (mw_stops ?w1)) rows1 = (ids2, vw_rows v)"
    by (rule lapse_rows)
  have "linked (vw_rows v) = map (\<lambda>(gid, live). (gid, live \<and> \<not> list_ex (\<lambda>g. gd_id g = gid \<and> \<not> active g) (mw_gdps ?w1)))
      (linked (vw_rows (mw_adv ?w1)))"
    using linked_cancel_programs [OF two] linked_cancel_windows [OF one cleanup_tables_windows [OF assms(2)]] by simp
  moreover have "gdp_view w' = (gdp_view ?w1)\<lparr>gw_advisories := linked (vw_rows v)\<rparr>"
    by (simp add: w' gdp_view_def)
  moreover have "mw_gdps ?w1 = gw_programs ?g" "linked (vw_rows (mw_adv ?w1)) = gw_advisories ?g"
    using g by (simp_all flip: gdp_view_sel)
  ultimately have "gdp_view w' = ?g\<lparr>gw_advisories := map (\<lambda>(gid, live). (gid, live \<and>
      \<not> list_ex (\<lambda>g. gd_id g = gid \<and> \<not> active g) (gw_programs ?g))) (gw_advisories ?g)\<rparr>"
    using g by simp
  then show ?thesis unfolding cleanup_gdps_def Let_def stale_gdp_def [abs_def] .
qed

section \<open>Properties\<close>

definition refines :: "(gdp_world \<Rightarrow> unit result \<times> gdp_world) \<Rightarrow> (tmu_world \<Rightarrow> unit result \<times> tmu_world) \<Rightarrow> tmu_world \<Rightarrow> bool" where
  "refines f F w \<longleftrightarrow> f (gdp_view w) = (fst (F w), gdp_view (snd (F w)))"

lemma quiet_endpoints:
  "gw_advisories (snd (create_gdp_handler now gid airport p g)) = gw_advisories g"
  "gw_advisories (snd (cancel_gdp_handler now gid g)) = gw_advisories g"
  "gw_advisories (snd (lock_slot now gid cs inbounds g)) = gw_advisories g"
  "gw_advisories (snd (unlock_slot gid cs g)) = gw_advisories g"
  "gw_advisories (snd (compress_gdp now gid inbounds g)) = gw_advisories g"
  by (auto simp: create_gdp_handler_def Let_def cancel_gdp_handler_def cancel_gdp_def answer_def update_program_def lock_slot_def
      upsert_slot_def unlock_slot_def delete_slot_def compress_gdp_def bind_result_Inr_iff
      split: sum.split option.split prod.split dest!: replace_slots_advisories)

text \<open>C34. The ground delay program endpoints, with the advisory documents they cancel and generate in the
  advisory table, refine the ones over the program tables alone: read through the abstraction, every
  answer and every committed state is the abstract one. So what holds of those tables over any history
  holds of the full ones.\<close>

theorem gdp_endpoints_refine:
  assumes "documents_ok d w"
  shows "refines (publish_gdp_handler now gid inbounds) (publish_gdp_full d now gid inbounds ed) w \<and>
    refines (revise_gdp_handler now gid p inbounds) (revise_gdp_full d now gid p inbounds ed) w \<and>
    refines (delete_gdp_handler now gid) (delete_gdp_full now gid) w \<and>
    refines (create_gdp_handler now gid airport p) (on_gdps (create_gdp_handler now gid airport p)) w \<and>
    refines (cancel_gdp_handler now gid) (on_gdps (cancel_gdp_handler now gid)) w \<and>
    refines (lock_slot now gid cs inbounds) (on_gdps (lock_slot now gid cs inbounds)) w \<and>
    refines (unlock_slot gid cs) (on_gdps (unlock_slot gid cs)) w \<and>
    refines (compress_gdp now gid inbounds) (on_gdps (compress_gdp now gid inbounds)) w"
  unfolding refines_def
  by (intro conjI publish_refines revise_refines delete_refines on_gdps_refines assms quiet_endpoints)

definition value_option :: "ustr option \<Rightarrow> json" where
  "value_option v = (case v of None \<Rightarrow> JNull | Some s \<Rightarrow> JString s)"

definition text_value :: "json \<Rightarrow> ustr" where
  "text_value j = (case j of JString s \<Rightarrow> s | _ \<Rightarrow> [])"

definition option_value :: "json \<Rightarrow> ustr option" where
  "option_value j = (case j of JString s \<Rightarrow> Some s | _ \<Rightarrow> None)"

definition texts_value :: "json \<Rightarrow> ustr list" where
  "texts_value j = (case j of JArray js \<Rightarrow> map text_value js | _ \<Rightarrow> [])"

lemma values_back [simp]:
  "text_value (JString s) = s" "option_value (value_option v) = v" "texts_value (JArray (map JString ss)) = ss"
  by (simp_all add: text_value_def option_value_def value_option_def texts_value_def comp_def split: option.split)

definition sample_gdp_value :: "gdp_advisory \<Rightarrow> json" where
  "sample_gdp_value d = JArray [
     JString (ga_header d), JString (ga_element d), JString (ga_control_element d),
     JString (ga_element_type d), JString (ga_adl_time d), JString (ga_delay_assignment_mode d),
     JString (ga_arrivals_estimated_for d), JString (ga_cumulative_program_period d),
     JString (ga_program_rate d), value_option (ga_pop_up_factor d),
     JArray (map JString (ga_flights_included d)), value_option (ga_departure_scope d),
     value_option (ga_additional_dep_facilities_included d), value_option (ga_exempt_dep_facilities d),
     value_option (ga_canadian_arpts_included d), value_option (ga_delay_assignment_table_applies_to d),
     value_option (ga_delay_limit d), value_option (ga_maximum_delay d), value_option (ga_average_delay d),
     value_option (ga_impacting_condition d), value_option (ga_comments d), JString (ga_period d)]"

definition sample_gdp_back :: "json \<Rightarrow> gdp_advisory option" where
  "sample_gdp_back j = (case j of JArray xs \<Rightarrow> Some \<lparr>
     ga_header = text_value (xs ! 0), ga_element = text_value (xs ! 1),
     ga_control_element = text_value (xs ! 2), ga_element_type = text_value (xs ! 3),
     ga_adl_time = text_value (xs ! 4), ga_delay_assignment_mode = text_value (xs ! 5),
     ga_arrivals_estimated_for = text_value (xs ! 6), ga_cumulative_program_period = text_value (xs ! 7),
     ga_program_rate = text_value (xs ! 8), ga_pop_up_factor = option_value (xs ! 9),
     ga_flights_included = texts_value (xs ! 10), ga_departure_scope = option_value (xs ! 11),
     ga_additional_dep_facilities_included = option_value (xs ! 12),
     ga_exempt_dep_facilities = option_value (xs ! 13), ga_canadian_arpts_included = option_value (xs ! 14),
     ga_delay_assignment_table_applies_to = option_value (xs ! 15), ga_delay_limit = option_value (xs ! 16),
     ga_maximum_delay = option_value (xs ! 17), ga_average_delay = option_value (xs ! 18),
     ga_impacting_condition = option_value (xs ! 19), ga_comments = option_value (xs ! 20),
     ga_period = text_value (xs ! 21)\<rparr> | _ \<Rightarrow> None)"

lemma sample_gdp_roundtrip: "sample_gdp_back (sample_gdp_value d) = Some d"
  by (cases d) (simp add: sample_gdp_back_def sample_gdp_value_def)

definition sample_doc_env :: gdp_doc_env where
  "sample_doc_env = \<lparr>gi_env = sample_env\<lparr>de_gdp := sample_gdp_back\<rparr>, gi_value = sample_gdp_value, gi_iata = [], gi_aid = [97]\<rparr>"

definition sample_editorials :: publish_gdp_request where
  "sample_editorials = sample_editorial\<lparr>pg_comments := None\<rparr>"

definition sample_tmu :: tmu_world where
  "sample_tmu = \<lparr>mw_tmis = [], mw_stops = [], mw_rates = [], mw_gdps = gw_programs sample_world, mw_slots = [],
     mw_adv = no_advisories []\<rparr>"

definition sample_inbounds :: "inbound list" where
  "sample_inbounds = [sample_inbound, sample_inbound\<lparr>in_cs := lit ''DAL2''\<rparr>]"

definition sample_tmu_published :: tmu_world where
  "sample_tmu_published = snd (publish_gdp_full sample_doc_env 0 [65] sample_inbounds sample_editorials sample_tmu)"

lemma sample_documents_ok: "documents_ok sample_doc_env sample_tmu"
  using sample_gdp_roundtrip
  by (simp add: documents_ok_def sample_doc_env_def sample_tmu_def no_advisories_def rows_inv_def rows_sound_def)

theorem gdp_endpoints_refine_witness:
  "publish_gdp_handler 0 [65] sample_inbounds (gdp_view sample_tmu) =
     (fst (publish_gdp_full sample_doc_env 0 [65] sample_inbounds sample_editorials sample_tmu), gdp_view sample_tmu_published) \<and>
   gw_advisories (gdp_view sample_tmu_published) = [([65], True)]"
proof -
  have "gw_advisories (gdp_view sample_tmu_published) = [([65], True)]" by code_simp
  then show ?thesis
    using gdp_endpoints_refine [OF sample_documents_ok, THEN conjunct1, unfolded refines_def]
    unfolding sample_tmu_published_def by blast
qed

text \<open>C35. The cleanup pass over every table refines the pass over the program tables: expiring, deleting
  and unlinking drafts, and cancelling by window and by program, leaves of the programs, their slots
  and their advisories exactly what the abstract pass leaves.\<close>

theorem cleanup_refines:
  assumes "run_cleanup env gdp_end_ts now jid_for w = (Inr (), w')"
    and "list_all (\<lambda>a. av_program a = None \<or> av_valid_to a = None) (vw_rows (mw_adv w))"
  shows "gdp_view w' = cleanup_gdps gdp_end_ts now (gdp_view w)"
  using assms by (rule cleanup_view)

theorem cleanup_refines_witness:
  "gdp_view (snd (run_cleanup sample_env (\<lambda>_ _ _. Some 10800000) 10800001 (\<lambda>aid. aid) sample_tmu_published)) =
     cleanup_gdps (\<lambda>_ _ _. Some 10800000) 10800001 (gdp_view sample_tmu_published) \<and>
   gw_advisories (gdp_view (snd (run_cleanup sample_env (\<lambda>_ _ _. Some 10800000) 10800001 (\<lambda>aid. aid) sample_tmu_published))) =
     [([65], False)]"
proof -
  let ?r = "run_cleanup sample_env (\<lambda>_ _ _. Some 10800000) 10800001 (\<lambda>aid. aid) sample_tmu_published"
  have ok: "fst ?r = Inr ()" and rows: "list_all (\<lambda>a. av_program a = None \<or> av_valid_to a = None) (vw_rows (mw_adv sample_tmu_published))"
    and gone: "gw_advisories (gdp_view (snd ?r)) = [([65], False)]"
    by code_simp+
  have "?r = (Inr (), snd ?r)" using ok by (metis prod.collapse)
  from cleanup_refines [OF this rows] gone show ?thesis by blast
qed

text \<open>Publishing a ground stop adds exactly one draft advisory, linked to the stop, in the same
  transaction; the ground stop period of its document runs from now to the very instant the cleanup
  pass compares with when it expires the stop.\<close>

theorem ground_stop_document_states_enforced_end:
  assumes "publish_ground_stop_handler env to_value iata now aid sid ed (ss, as) = Inr (ss', as')"
    and "\<And>doc. de_ground_stop env (to_value doc) = Some doc"
  shows "\<exists>s a. get_ground_stop ss' sid = Some s \<and> as' = as @ [a] \<and> av_id a = aid \<and> av_status a = AdvDraft \<and>
    av_program a = Some (FromGroundStop sid) \<and>
    label ''GROUND STOP PERIOD'' (Some (clean_upper (day_window_open (de_civil env now) (map_option (de_civil env) (until_instant s)))))
      \<in> set (split_on 10 (av_body a))"
proof -
  obtain s where s: "get_ground_stop ss' sid = Some s" and tx: "create_advisory_tx env now aid
      (stop_advisory_request (to_value (ground_stop_advisory_from iata (stop_airport s) None
        (de_civil env now, map_option (de_civil env) (until_instant s)) ed (de_civil env now)))) (Some (FromGroundStop sid)) as = Inr as'"
    using assms(1)
    by (auto simp: publish_ground_stop_handler_def Let_def ok_or_def bind_result_Inr_iff split: prod.splits bool.splits option.splits)
  let ?doc = "ground_stop_advisory_from iata (stop_airport s) None
        (de_civil env now, map_option (de_civil env) (until_instant s)) ed (de_civil env now)"
  have kind: "trim ADVISORY_KIND_GROUND_STOP = ADVISORY_KIND_GROUND_STOP" "ADVISORY_KIND_GROUND_STOP \<noteq> ADVISORY_KIND_REROUTE"
      "ADVISORY_KIND_GROUND_STOP \<noteq> ADVISORY_KIND_GDP" "renders_body ADVISORY_KIND_GROUND_STOP"
    by code_simp+
  then have body: "advisory_body env (trim (cr_kind (stop_advisory_request (to_value ?doc))))
      (cr_structured (stop_advisory_request (to_value ?doc))) ident = Inr (Some (render_ground_stop ?doc ident))" for ident
    using assms(2) [of ?doc] by (simp add: stop_advisory_request_def advisory_body_def derives_body_def ok_or_def)
  obtain a ident rendered where a: "as' = as @ [a]" "av_id a = aid" "av_status a = AdvDraft"
      "av_program a = Some (FromGroundStop sid)"
      "advisory_body env (trim (cr_kind (stop_advisory_request (to_value ?doc))))
         (cr_structured (stop_advisory_request (to_value ?doc))) ident = Inr rendered"
      "av_body a = coalesce rendered (trim (cr_body (stop_advisory_request (to_value ?doc))))"
    using create_tx_body [OF tx] by blast
  have "rendered = Some (render_ground_stop ?doc ident)" using a(5) unfolding body by (rule sum.inject(2) [THEN iffD1, symmetric])
  then have doc: "av_body a = render_ground_stop ?doc ident" using a(6) by (simp only: coalesce_def option.case)
  have "label ''GROUND STOP PERIOD'' (Some (clean_upper (day_window_open (de_civil env now)
      (map_option (de_civil env) (until_instant s))))) \<in> set (ground_stop_lines ?doc ident)"
    by (simp add: ground_stop_lines_def ground_stop_advisory_from_def)
  then have "label ''GROUND STOP PERIOD'' (Some (clean_upper (day_window_open (de_civil env now)
      (map_option (de_civil env) (until_instant s))))) \<in> set (split_on 10 (av_body a))"
    unfolding doc rendered_lines(2) by blast
  then show ?thesis using s a(1-4) by blast
qed

lemma bind_result_projr: "\<not> isl x \<Longrightarrow> bind_result x f = f (projr x)"
  by (cases x) auto

definition sample_stop_value :: "ground_stop_advisory \<Rightarrow> json" where
  "sample_stop_value d = JArray [
     JString (sa_header d), JString (sa_element d), JString (sa_control_element d),
     JString (sa_element_type d), JString (sa_adl_time d), JString (sa_ground_stop_period d),
     JString (sa_cumulative_program_period d), JArray (map JString (sa_flights_included d)),
     value_option (sa_additional_dep_facilities_included d), value_option (sa_current_delays d),
     value_option (sa_previous_delays d), value_option (sa_new_delays d),
     value_option (sa_probability_of_extension d), value_option (sa_impacting_condition d),
     value_option (sa_comments d), JString (sa_period d)]"

definition sample_stop_back :: "json \<Rightarrow> ground_stop_advisory option" where
  "sample_stop_back j = (case j of JArray xs \<Rightarrow> Some \<lparr>
     sa_header = text_value (xs ! 0), sa_element = text_value (xs ! 1),
     sa_control_element = text_value (xs ! 2), sa_element_type = text_value (xs ! 3),
     sa_adl_time = text_value (xs ! 4), sa_ground_stop_period = text_value (xs ! 5),
     sa_cumulative_program_period = text_value (xs ! 6), sa_flights_included = texts_value (xs ! 7),
     sa_additional_dep_facilities_included = option_value (xs ! 8),
     sa_current_delays = option_value (xs ! 9), sa_previous_delays = option_value (xs ! 10),
     sa_new_delays = option_value (xs ! 11), sa_probability_of_extension = option_value (xs ! 12),
     sa_impacting_condition = option_value (xs ! 13), sa_comments = option_value (xs ! 14),
     sa_period = text_value (xs ! 15)\<rparr> | _ \<Rightarrow> None)"

lemma sample_stop_roundtrip: "sample_stop_back (sample_stop_value d) = Some d"
  by (cases d) (simp add: sample_stop_back_def sample_stop_value_def)

definition sample_stop_env :: doc_env where
  "sample_stop_env = sample_env\<lparr>de_ground_stop := sample_stop_back\<rparr>"

definition sample_stop_request :: publish_ground_stop_request where
  "sample_stop_request = \<lparr>ps_flights_included = None, ps_additional_dep_facilities_included = None, ps_current_delays = None,
     ps_previous_delays = None, ps_new_delays = None, ps_probability_of_extension = None, ps_impacting_condition = None,
     ps_comments = None\<rparr>"

theorem ground_stop_document_states_enforced_end_witness:
  "case bind_result (create_ground_stop_handler 0 [83] (lit ''katl'') None (Some (lit ''2359'')) [])
       (\<lambda>ss. publish_ground_stop_handler sample_stop_env sample_stop_value [] 60000 [97] [83] sample_stop_request (ss, [])) of
     Inl e \<Rightarrow> False
   | Inr (ss, as) \<Rightarrow> map av_program as = [Some (FromGroundStop [83])] \<and>
       list_all (\<lambda>a. label ''GROUND STOP PERIOD'' (Some (lit ''14/1436Z - 14/1436Z'')) \<in> set (split_on 10 (av_body a))) as"
proof -
  let ?ss = "projr (create_ground_stop_handler 0 [83] (lit ''katl'') None (Some (lit ''2359'')) [])"
  let ?r = "publish_ground_stop_handler sample_stop_env sample_stop_value [] 60000 [97] [83] sample_stop_request (?ss, [])"
  have "\<not> isl ?r" by code_simp
  moreover have "map_option (\<lambda>s. map_option (de_civil sample_stop_env) (until_instant s))
      (get_ground_stop (fst (projr ?r)) [83]) = Some (Some sample_day)"
    by code_simp
  ultimately obtain ss' as' where r: "?r = Inr (ss', as')"
    and day: "map_option (\<lambda>s. map_option (de_civil sample_stop_env) (until_instant s)) (get_ground_stop ss' [83]) = Some (Some sample_day)"
    using that [OF Inr_projr] by blast
  have "\<not> isl (create_ground_stop_handler 0 [83] (lit ''katl'') None (Some (lit ''2359'')) [])" by code_simp
  then have b: "bind_result (create_ground_stop_handler 0 [83] (lit ''katl'') None (Some (lit ''2359'')) [])
       (\<lambda>ss. publish_ground_stop_handler sample_stop_env sample_stop_value [] 60000 [97] [83] sample_stop_request (ss, [])) = Inr (ss', as')"
    using r by (rule trans [OF bind_result_projr])
  have decodes: "\<And>doc. de_ground_stop sample_stop_env (sample_stop_value doc) = Some doc"
    by (simp add: sample_stop_env_def sample_stop_roundtrip)
  have shown: "clean_upper (day_window_open (de_civil sample_stop_env 60000) (Some sample_day)) = lit ''14/1436Z - 14/1436Z''"
    by code_simp
  from ground_stop_document_states_enforced_end [OF r decodes] obtain s a where s: "get_ground_stop ss' [83] = Some s"
    and a: "as' = [a]" "av_program a = Some (FromGroundStop [83])"
    and l: "label ''GROUND STOP PERIOD'' (Some (clean_upper (day_window_open (de_civil sample_stop_env 60000)
      (map_option (de_civil sample_stop_env) (until_instant s))))) \<in> set (split_on 10 (av_body a))"
    by auto
  have u: "map_option (de_civil sample_stop_env) (until_instant s) = Some sample_day" using day s by simp
  show ?thesis using a l [unfolded u shown] by (simp add: b)
qed

end
