(* ===== verification/Fcas.thy ===== *)
theory Fcas
  imports Complex_Main Authorization RowTable "HOL-Library.Product_Lexorder"
begin

text \<open>
  Flow constrained areas: the table \<open>flow.fca\<close> of \<open>backend/src/repos/flow.rs\<close>, the endpoints of
  \<open>handlers/flow.rs\<close> that write it, the event planner's endpoints of \<open>handlers/events.rs\<close>, and the
  lifecycle pass. \<open>sc\<close> is the scope the caller holds for a permission
  (\<open>permission_scope_in\<close>), \<open>contrasts\<close> the WCAG contrast test of a colour against the dark
  ground, computed in \<open>f64\<close>. The events table is a list of id, start and end. Who wrote a row is not
  kept, nor are rows that fall with a deleted event.
\<close>

section \<open>The table\<close>

datatype fca_status = FcaPlanned | FcaPublished | FcaArchived

type_synonym points = "(rat \<times> rat) list"

record upsert_fca =
  uf_name :: ustr
  uf_color :: "ustr option"
  uf_artcc :: ustr
  uf_points :: points
  uf_dests :: "ustr list"
  uf_origins :: "ustr list"
  uf_fixes :: "ustr list"
  uf_scope :: "ustr list"
  uf_min_fl :: "int option"
  uf_max_fl :: "int option"
  uf_dir :: "ustr option"
  uf_mode :: "ustr option"
  uf_rate :: "int option"
  uf_mit :: "int option"
  uf_enabled :: "bool option"

record fca =
  fc_id :: ustr
  fc_name :: ustr
  fc_color :: ustr
  fc_artcc :: ustr
  fc_points :: points
  fc_dests :: "ustr list"
  fc_origins :: "ustr list"
  fc_fixes :: "ustr list"
  fc_scope :: "ustr list"
  fc_min_fl :: "int option"
  fc_max_fl :: "int option"
  fc_dir :: ustr
  fc_mode :: ustr
  fc_rate :: int
  fc_mit :: int
  fc_enabled :: bool
  fc_manual_order :: "ustr list"
  fc_manual_seq :: bool
  fc_created_at :: int
  fc_updated_at :: int
  fc_deleted_at :: "int option"
  fc_event_id :: "int option"
  fc_event_status :: "fca_status option"
  fc_auto_publish :: bool
  fc_published_at :: "int option"
  fc_archived_at :: "int option"

definition unwrap_or :: "'a option \<Rightarrow> 'a \<Rightarrow> 'a" where
  "unwrap_or x d = (case x of Some y \<Rightarrow> y | None \<Rightarrow> d)"

subsection \<open>Colours and ARTCC ids\<close>

definition DEFAULT_FCA_COLOR :: ustr where "DEFAULT_FCA_COLOR = lit ''#efc14d''"

definition normalize_fca_color :: "ustr option \<Rightarrow> ustr" where
  "normalize_fca_color raw = (case map_option trim raw of
     Some c \<Rightarrow> if c \<noteq> [] then ascii_lower c else DEFAULT_FCA_COLOR
   | None \<Rightarrow> DEFAULT_FCA_COLOR)"

definition is_ascii_hexdigit :: "int \<Rightarrow> bool" where
  "is_ascii_hexdigit c \<longleftrightarrow> is_ascii_digit c \<or> 65 \<le> c \<and> c \<le> 70 \<or> 97 \<le> c \<and> c \<le> 102"

text \<open>\<open>srgb\<close> as the test it is used for: the shape \<open>#rrggbb\<close>.\<close>

definition srgb_shape :: "ustr \<Rightarrow> bool" where
  "srgb_shape c \<longleftrightarrow> (case strip_prefix [35] c of
     Some h \<Rightarrow> utf8_len h = 6 \<and> list_all is_ascii_hexdigit h
   | None \<Rightarrow> False)"

definition fca_color :: "(ustr \<Rightarrow> bool) \<Rightarrow> ustr option \<Rightarrow> ustr result" where
  "fca_color contrasts raw = (let c = normalize_fca_color raw in
     if \<not> srgb_shape c then Inl BadRequest
     else if \<not> contrasts c then Inl BadRequest
     else Inr c)"

definition norm_artcc :: "ustr option \<Rightarrow> ustr option" where
  "norm_artcc raw = option_filter (\<lambda>a. a \<noteq> []) (map_option (\<lambda>a. ascii_upper (trim a)) raw)"

subsection \<open>Reads\<close>

text \<open>\<open>NOT_HIDDEN_EVENT\<close>.\<close>

definition not_hidden_event :: "fca \<Rightarrow> bool" where
  "not_hidden_event f \<longleftrightarrow> fc_event_id f = None \<or> fc_event_status f = Some FcaPublished"

definition list_fcas :: "fca list \<Rightarrow> fca list" where
  "list_fcas fs = sort_key fc_name (filter (\<lambda>f. fc_deleted_at f = None \<and> not_hidden_event f) fs)"

definition list_fcas_at :: "int \<Rightarrow> fca list \<Rightarrow> fca list" where
  "list_fcas_at t fs = sort_key fc_name (filter (\<lambda>f. fc_enabled f \<and> fc_created_at f \<le> t \<and>
     (case fc_deleted_at f of None \<Rightarrow> True | Some d \<Rightarrow> t < d) \<and> not_hidden_event f) fs)"

fun status_text :: "fca_status \<Rightarrow> ustr" where
  "status_text FcaPlanned = lit ''planned''"
| "status_text FcaPublished = lit ''published''"
| "status_text FcaArchived = lit ''archived''"

definition list_event_fcas :: "int \<Rightarrow> fca list \<Rightarrow> fca list" where
  "list_event_fcas event fs = sort_key (\<lambda>f. (fc_event_status f = None, map_option status_text (fc_event_status f), fc_name f))
     (filter (\<lambda>f. fc_event_id f = Some event \<and> fc_deleted_at f = None) fs)"

definition get_fca :: "fca list \<Rightarrow> ustr \<Rightarrow> fca option" where
  "get_fca fs i = find (\<lambda>f. fc_id f = i) fs"

definition fca_is_deleted :: "fca list \<Rightarrow> ustr \<Rightarrow> bool" where
  "fca_is_deleted fs i = unwrap_or (map_option (\<lambda>f. fc_deleted_at f \<noteq> None) (get_fca fs i)) False"

subsection \<open>Writes\<close>

definition bind_fca :: "upsert_fca \<Rightarrow> fca \<Rightarrow> fca" where
  "bind_fca req f = f\<lparr>fc_name := trim (uf_name req), fc_color := normalize_fca_color (uf_color req),
     fc_artcc := ascii_upper (trim (uf_artcc req)), fc_points := uf_points req, fc_dests := uf_dests req,
     fc_origins := uf_origins req, fc_fixes := uf_fixes req, fc_scope := uf_scope req,
     fc_min_fl := uf_min_fl req, fc_max_fl := uf_max_fl req,
     fc_dir := unwrap_or (uf_dir req) (lit ''any''), fc_mode := unwrap_or (uf_mode req) (lit ''rate''),
     fc_rate := clamp 0 240 (unwrap_or (uf_rate req) 30), fc_mit := clamp 0 200 (unwrap_or (uf_mit req) 15),
     fc_enabled := unwrap_or (uf_enabled req) True\<rparr>"

text \<open>The column defaults of a new row.\<close>

definition new_fca :: "int \<Rightarrow> ustr \<Rightarrow> int option \<Rightarrow> fca_status option \<Rightarrow> fca" where
  "new_fca now i event status = \<lparr>fc_id = i, fc_name = [], fc_color = DEFAULT_FCA_COLOR, fc_artcc = [], fc_points = [],
     fc_dests = [], fc_origins = [], fc_fixes = [], fc_scope = [], fc_min_fl = None, fc_max_fl = None,
     fc_dir = lit ''any'', fc_mode = lit ''rate'', fc_rate = 30, fc_mit = 15, fc_enabled = True,
     fc_manual_order = [], fc_manual_seq = False, fc_created_at = now, fc_updated_at = now, fc_deleted_at = None,
     fc_event_id = event, fc_event_status = status, fc_auto_publish = False,
     fc_published_at = None, fc_archived_at = None\<rparr>"

definition insert_fca :: "fca \<Rightarrow> fca list \<Rightarrow> fca list result" where
  "insert_fca f fs = (if list_ex (\<lambda>g. fc_id g = fc_id f) fs then Inl Internal else Inr (fs @ [f]))"

definition create_fca :: "int \<Rightarrow> ustr \<Rightarrow> upsert_fca \<Rightarrow> fca list \<Rightarrow> fca list result" where
  "create_fca now i req fs = insert_fca (bind_fca req (new_fca now i None None)) fs"

definition create_event_fca :: "int \<Rightarrow> ustr \<Rightarrow> int \<Rightarrow> upsert_fca \<Rightarrow> fca list \<Rightarrow> fca list result" where
  "create_event_fca now i event req fs = insert_fca (bind_fca req (new_fca now i (Some event) (Some FcaPlanned))) fs"

text \<open>An \<open>update\<close>: whether a row matched, and the table; the trigger stamps \<open>updated_at\<close>.\<close>

definition set_fcas :: "int \<Rightarrow> (fca \<Rightarrow> bool) \<Rightarrow> (fca \<Rightarrow> fca) \<Rightarrow> fca list \<Rightarrow> bool \<times> fca list" where
  "set_fcas now P f fs = (list_ex P fs, map (\<lambda>r. if P r then (f r)\<lparr>fc_updated_at := now\<rparr> else r) fs)"

definition update_fca :: "int \<Rightarrow> ustr \<Rightarrow> upsert_fca \<Rightarrow> fca list \<Rightarrow> bool \<times> fca list" where
  "update_fca now i req = set_fcas now (\<lambda>f. fc_id f = i) (bind_fca req)"

definition published_fca :: "int \<Rightarrow> fca \<Rightarrow> fca" where
  "published_fca now f = f\<lparr>fc_event_status := Some FcaPublished, fc_published_at := Some now\<rparr>"

definition archived_fca :: "int \<Rightarrow> fca \<Rightarrow> fca" where
  "archived_fca now f = f\<lparr>fc_event_status := Some FcaArchived, fc_archived_at := Some now\<rparr>"

definition mark_event_fca_published :: "int \<Rightarrow> int \<Rightarrow> ustr \<Rightarrow> fca list \<Rightarrow> bool \<times> fca list" where
  "mark_event_fca_published now event i = set_fcas now
     (\<lambda>f. fc_id f = i \<and> fc_event_id f = Some event \<and> fc_event_status f = Some FcaPlanned) (published_fca now)"

definition mark_event_fca_archived :: "int \<Rightarrow> int \<Rightarrow> ustr \<Rightarrow> fca list \<Rightarrow> bool \<times> fca list" where
  "mark_event_fca_archived now event i = set_fcas now
     (\<lambda>f. fc_id f = i \<and> fc_event_id f = Some event \<and>
        (fc_event_status f = Some FcaPlanned \<or> fc_event_status f = Some FcaPublished)) (archived_fca now)"

definition set_event_fca_auto :: "int \<Rightarrow> int \<Rightarrow> ustr \<Rightarrow> bool \<Rightarrow> fca list \<Rightarrow> bool \<times> fca list" where
  "set_event_fca_auto now event i auto = set_fcas now
     (\<lambda>f. fc_id f = i \<and> fc_event_id f = Some event) (\<lambda>f. f\<lparr>fc_auto_publish := auto\<rparr>)"

text \<open>\<open>run_event_fca_lifecycle\<close>: two updates joined with the events, the second on what the first left.\<close>

type_synonym event_times = "(int \<times> int \<times> int) list"

definition event_ready :: "event_times \<Rightarrow> int \<Rightarrow> fca \<Rightarrow> bool" where
  "event_ready events now f \<longleftrightarrow> list_ex (\<lambda>(e, start, stop). fc_event_id f = Some e \<and>
     start - 1800000 \<le> now \<and> now < stop) events"

definition event_over :: "event_times \<Rightarrow> int \<Rightarrow> fca \<Rightarrow> bool" where
  "event_over events now f \<longleftrightarrow> list_ex (\<lambda>(e, start, stop). fc_event_id f = Some e \<and> stop \<le> now) events"

definition run_event_fca_lifecycle :: "event_times \<Rightarrow> int \<Rightarrow> fca list \<Rightarrow> fca list" where
  "run_event_fca_lifecycle events now fs =
     (let published = snd (set_fcas now (\<lambda>f. fc_event_status f = Some FcaPlanned \<and> fc_auto_publish f \<and>
            event_ready events now f \<and> fc_deleted_at f = None) (published_fca now) fs)
      in snd (set_fcas now (\<lambda>f. (fc_event_status f = Some FcaPlanned \<or> fc_event_status f = Some FcaPublished) \<and>
            event_over events now f \<and> fc_deleted_at f = None) (archived_fca now) published))"

definition delete_fca :: "int \<Rightarrow> ustr \<Rightarrow> fca list \<Rightarrow> bool \<times> fca list" where
  "delete_fca now i = set_fcas now (\<lambda>f. fc_id f = i \<and> fc_deleted_at f = None) (\<lambda>f. f\<lparr>fc_deleted_at := Some now\<rparr>)"

definition set_manual_order :: "int \<Rightarrow> ustr \<Rightarrow> ustr list \<Rightarrow> bool \<Rightarrow> fca list \<Rightarrow> bool \<times> fca list" where
  "set_manual_order now i order manual = set_fcas now (\<lambda>f. fc_id f = i)
     (\<lambda>f. f\<lparr>fc_manual_order := order, fc_manual_seq := manual\<rparr>)"

section \<open>The endpoints\<close>

definition FCA_UPDATE_PERM :: ustr where "FCA_UPDATE_PERM = lit ''flow.fca.update''"
definition FCA_DELETE_PERM :: ustr where "FCA_DELETE_PERM = lit ''flow.fca.delete''"
definition EVENTS_PLAN_UPDATE :: ustr where "EVENTS_PLAN_UPDATE = lit ''events.plan.update''"

type_synonym scopes = "ustr \<Rightarrow> permission_scope"

definition require_fca_write_scope :: "scopes \<Rightarrow> ustr \<Rightarrow> ustr list \<Rightarrow> unit result" where
  "require_fca_write_scope sc permission artccs =
     (if list_all (\<lambda>a. allows (sc permission) (norm_artcc (Some a))) artccs then Inr () else Inl Forbidden)"

definition is_event_planner :: "scopes \<Rightarrow> bool" where
  "is_event_planner sc \<longleftrightarrow> \<not> scope_is_empty (sc EVENTS_PLAN_UPDATE)"

definition require_event_fca_planner :: "scopes \<Rightarrow> fca \<Rightarrow> unit result" where
  "require_event_fca_planner sc f =
     (if fc_event_id f = None \<or> is_event_planner sc then Inr ()
      else if fc_event_status f = Some FcaPublished then Inl (ConflictReason (lit ''event_fca''))
      else Inl NotFound)"

definition require_visible_event_fca :: "scopes \<Rightarrow> fca \<Rightarrow> unit result" where
  "require_visible_event_fca sc f =
     (if fc_event_id f = None \<or> fc_event_status f = Some FcaPublished \<or> is_event_planner sc then Inr ()
      else Inl NotFound)"

definition require_fca_scope :: "scopes \<Rightarrow> fca \<Rightarrow> unit result" where
  "require_fca_scope sc f =
     (if allows (sc FCA_UPDATE_PERM) (norm_artcc (Some (fc_artcc f))) then Inr () else Inl Forbidden)"

definition validate_fca :: "(ustr \<Rightarrow> bool) \<Rightarrow> upsert_fca \<Rightarrow> unit result" where
  "validate_fca contrasts req =
     (if trim (uf_name req) = [] \<or> length (uf_points req) < 2 then Inl BadRequest
      else bind_result (fca_color contrasts (uf_color req)) (\<lambda>_.
        case uf_mode req of
          Some m \<Rightarrow> if m \<noteq> lit ''rate'' \<and> m \<noteq> lit ''mit'' then Inl BadRequest else Inr ()
        | None \<Rightarrow> Inr ()))"

definition create_fca_handler :: "(ustr \<Rightarrow> bool) \<Rightarrow> int \<Rightarrow> ustr \<Rightarrow> scopes \<Rightarrow> upsert_fca \<Rightarrow> fca list \<Rightarrow> (fca \<times> fca list) result" where
  "create_fca_handler contrasts now i sc req fs =
     bind_result (validate_fca contrasts req) (\<lambda>_.
     bind_result (require_fca_write_scope sc FCA_UPDATE_PERM [uf_artcc req]) (\<lambda>_.
     bind_result (create_fca now i req fs) (\<lambda>fs'.
     bind_result (ok_or Internal (get_fca fs' i)) (\<lambda>f. Inr (f, fs')))))"

definition update_fca_handler :: "(ustr \<Rightarrow> bool) \<Rightarrow> int \<Rightarrow> ustr \<Rightarrow> scopes \<Rightarrow> upsert_fca \<Rightarrow> fca list \<Rightarrow> (fca \<times> fca list) result" where
  "update_fca_handler contrasts now i sc req fs =
     bind_result (validate_fca contrasts req) (\<lambda>_.
     bind_result (ok_or NotFound (get_fca fs i)) (\<lambda>existing.
     bind_result (require_event_fca_planner sc existing) (\<lambda>_.
     bind_result (require_fca_write_scope sc FCA_UPDATE_PERM [fc_artcc existing, uf_artcc req]) (\<lambda>_.
     (case update_fca now i req fs of
        (False, _) \<Rightarrow> Inl NotFound
      | (True, fs') \<Rightarrow> bind_result (ok_or Internal (get_fca fs' i)) (\<lambda>f. Inr (f, fs')))))))"

definition delete_fca_handler :: "int \<Rightarrow> ustr \<Rightarrow> scopes \<Rightarrow> fca list \<Rightarrow> fca list result" where
  "delete_fca_handler now i sc fs =
     bind_result (ok_or NotFound (get_fca fs i)) (\<lambda>existing.
     bind_result (require_event_fca_planner sc existing) (\<lambda>_.
     bind_result (require_fca_write_scope sc FCA_DELETE_PERM [fc_artcc existing]) (\<lambda>_.
     (case delete_fca now i fs of (True, fs') \<Rightarrow> Inr fs' | (False, _) \<Rightarrow> Inl NotFound))))"

definition reorder_fca :: "int \<Rightarrow> ustr \<Rightarrow> scopes \<Rightarrow> ustr list \<Rightarrow> fca list \<Rightarrow> fca list result" where
  "reorder_fca now i sc order fs =
     bind_result (ok_or NotFound (get_fca fs i)) (\<lambda>existing.
     bind_result (require_visible_event_fca sc existing) (\<lambda>_.
     bind_result (require_fca_write_scope sc FCA_UPDATE_PERM [fc_artcc existing]) (\<lambda>_.
     (case set_manual_order now i order (order \<noteq> []) fs of (True, fs') \<Rightarrow> Inr fs' | (False, _) \<Rightarrow> Inl NotFound))))"

subsection \<open>The planner's endpoints\<close>

definition owned_event_fca :: "fca list \<Rightarrow> int \<Rightarrow> ustr \<Rightarrow> fca result" where
  "owned_event_fca fs event i =
     bind_result (ok_or NotFound (get_fca fs i)) (\<lambda>f. if fc_event_id f \<noteq> Some event then Inl NotFound else Inr f)"

definition create_event_fca_handler ::
    "(ustr \<Rightarrow> bool) \<Rightarrow> event_times \<Rightarrow> int \<Rightarrow> ustr \<Rightarrow> int \<Rightarrow> upsert_fca \<Rightarrow> fca list \<Rightarrow> fca list result" where
  "create_event_fca_handler contrasts events now i event req fs =
     bind_result (validate_fca contrasts req) (\<lambda>_.
     if \<not> list_ex (\<lambda>(e, _). e = event) events then Inl NotFound
     else create_event_fca now i event req fs)"

definition update_event_fca :: "(ustr \<Rightarrow> bool) \<Rightarrow> int \<Rightarrow> int \<Rightarrow> ustr \<Rightarrow> upsert_fca \<Rightarrow> fca list \<Rightarrow> fca list result" where
  "update_event_fca contrasts now event i req fs =
     bind_result (validate_fca contrasts req) (\<lambda>_.
     bind_result (owned_event_fca fs event i) (\<lambda>_. Inr (snd (update_fca now i req fs))))"

definition delete_event_fca :: "int \<Rightarrow> int \<Rightarrow> ustr \<Rightarrow> fca list \<Rightarrow> fca list result" where
  "delete_event_fca now event i fs =
     bind_result (owned_event_fca fs event i) (\<lambda>_. Inr (snd (delete_fca now i fs)))"

definition publish_event_fca :: "int \<Rightarrow> int \<Rightarrow> ustr \<Rightarrow> fca list \<Rightarrow> fca list result" where
  "publish_event_fca now event i fs =
     bind_result (owned_event_fca fs event i) (\<lambda>f.
     if fc_event_status f \<noteq> Some FcaPlanned then Inl Conflict
     else Inr (snd (mark_event_fca_published now event i fs)))"

definition archive_event_fca :: "int \<Rightarrow> int \<Rightarrow> ustr \<Rightarrow> fca list \<Rightarrow> fca list result" where
  "archive_event_fca now event i fs =
     bind_result (owned_event_fca fs event i) (\<lambda>f.
     if \<not> (fc_event_status f = Some FcaPlanned \<or> fc_event_status f = Some FcaPublished) then Inl Conflict
     else Inr (snd (mark_event_fca_archived now event i fs)))"

definition set_event_fca_auto_handler :: "int \<Rightarrow> int \<Rightarrow> ustr \<Rightarrow> bool \<Rightarrow> fca list \<Rightarrow> fca list result" where
  "set_event_fca_auto_handler now event i auto fs =
     bind_result (owned_event_fca fs event i) (\<lambda>_. Inr (snd (set_event_fca_auto now event i auto fs)))"

end
