(* ===== verification/FcaLife.thy ===== *)
theory FcaLife
  imports Fcas
begin

text \<open>
  The life of a flow constrained area over any run of the endpoints and passes of \<open>Fcas\<close>: rows keep
  their identity and event, an event area only moves from planned to published to archived, deletion is
  final, and an area hidden from a caller answers as one that does not exist.
\<close>

section \<open>The table over a run\<close>

definition sound_fca :: "fca \<Rightarrow> bool" where
  "sound_fca f \<longleftrightarrow> (fc_event_id f = None \<longleftrightarrow> fc_event_status f = None) \<and>
     (fc_event_status f = Some FcaPlanned \<longrightarrow> fc_published_at f = None) \<and>
     (fc_event_status f = Some FcaPublished \<longrightarrow> fc_published_at f \<noteq> None) \<and>
     (fc_mode f = lit ''rate'' \<or> fc_mode f = lit ''mit'') \<and>
     0 \<le> fc_rate f \<and> fc_rate f \<le> 240 \<and> 0 \<le> fc_mit f \<and> fc_mit f \<le> 200 \<and>
     srgb_shape (fc_color f) \<and> 2 \<le> length (fc_points f) \<and> fc_name f \<noteq> []"

fun status_stage :: "fca_status option \<Rightarrow> nat" where
  "status_stage None = 0"
| "status_stage (Some FcaPlanned) = 0"
| "status_stage (Some FcaPublished) = 1"
| "status_stage (Some FcaArchived) = 2"

definition fca_follows :: "fca \<Rightarrow> fca \<Rightarrow> bool" where
  "fca_follows f g \<longleftrightarrow> fc_id g = fc_id f \<and> fc_event_id g = fc_event_id f \<and> fc_created_at g = fc_created_at f \<and>
     status_stage (fc_event_status f) \<le> status_stage (fc_event_status g) \<and>
     (fc_deleted_at f \<noteq> None \<longrightarrow> fc_deleted_at g = fc_deleted_at f) \<and>
     (fc_published_at f \<noteq> None \<longrightarrow> fc_published_at g = fc_published_at f)"

interpretation fcarow: row_table fc_id sound_fca fca_follows "\<lambda>_. False"
  by unfold_locales (auto simp: fca_follows_def)

abbreviation fca_table_step :: "fca list \<Rightarrow> fca list \<Rightarrow> bool" where
  "fca_table_step \<equiv> rows_step fc_id sound_fca fca_follows (\<lambda>_. False)"

lemma set_fcas_step:
  assumes "rows_sound fc_id sound_fca fs"
    and "\<And>r. P r \<Longrightarrow> sound_fca r \<Longrightarrow> fca_follows r ((f r)\<lparr>fc_updated_at := now\<rparr>) \<and> sound_fca ((f r)\<lparr>fc_updated_at := now\<rparr>)"
  shows "fca_table_step fs (snd (set_fcas now P f fs))"
  unfolding set_fcas_def snd_conv using assms by (rule fcarow.step_map_some)

lemmas fca_change_defs = fca_follows_def sound_fca_def bind_fca_def published_fca_def archived_fca_def

lemma valid_request:
  assumes "validate_fca contrasts req = Inr ()"
  shows "trim (uf_name req) \<noteq> []" "2 \<le> length (uf_points req)" "srgb_shape (normalize_fca_color (uf_color req))"
    "unwrap_or (uf_mode req) (lit ''rate'') = lit ''rate'' \<or> unwrap_or (uf_mode req) (lit ''rate'') = lit ''mit''"
  using assms
  by (auto simp: validate_fca_def fca_color_def bind_result_def unwrap_or_def Let_def split: if_splits option.splits)

lemma bind_fca_sound:
  "validate_fca contrasts req = Inr () \<Longrightarrow> sound_fca f \<Longrightarrow> sound_fca (bind_fca req f)"
  using valid_request [of contrasts req] by (auto simp: sound_fca_def bind_fca_def clamp_def)

lemma new_fca_sound:
  "validate_fca contrasts req = Inr () \<Longrightarrow> (e = None \<longleftrightarrow> s = None) \<Longrightarrow> s \<noteq> Some FcaPublished \<Longrightarrow>
     sound_fca (bind_fca req (new_fca now i e s))"
  using valid_request [of contrasts req] by (auto simp: sound_fca_def bind_fca_def new_fca_def clamp_def)

lemma insert_fca_step:
  "rows_sound fc_id sound_fca fs \<Longrightarrow> sound_fca f \<Longrightarrow> insert_fca f fs = Inr fs' \<Longrightarrow> fca_table_step fs fs'"
  by (auto simp: insert_fca_def list_ex_iff split: if_splits intro!: fcarow.step_append)

lemma update_fca_step:
  assumes "rows_sound fc_id sound_fca fs" and "validate_fca contrasts req = Inr ()"
  shows "fca_table_step fs (snd (update_fca now i req fs))"
  unfolding update_fca_def
proof (rule set_fcas_step [OF assms(1)])
  fix r assume "sound_fca r"
  then have "sound_fca (bind_fca req r)" using bind_fca_sound [OF assms(2)] by blast
  then show "fca_follows r ((bind_fca req r)\<lparr>fc_updated_at := now\<rparr>) \<and> sound_fca ((bind_fca req r)\<lparr>fc_updated_at := now\<rparr>)"
    by (simp add: sound_fca_def) (simp add: fca_follows_def bind_fca_def)
qed

lemma delete_fca_step:
  "rows_sound fc_id sound_fca fs \<Longrightarrow> fca_table_step fs (snd (delete_fca now i fs))"
  unfolding delete_fca_def by (rule set_fcas_step) (simp_all add: sound_fca_def fca_follows_def)

lemma set_manual_order_step:
  "rows_sound fc_id sound_fca fs \<Longrightarrow> fca_table_step fs (snd (set_manual_order now i order manual fs))"
  unfolding set_manual_order_def by (rule set_fcas_step) (simp_all add: sound_fca_def fca_follows_def)

lemma set_event_fca_auto_step:
  "rows_sound fc_id sound_fca fs \<Longrightarrow> fca_table_step fs (snd (set_event_fca_auto now e i auto fs))"
  unfolding set_event_fca_auto_def by (rule set_fcas_step) (simp_all add: sound_fca_def fca_follows_def)

lemma published_fca_follows:
  "fc_event_status r = Some FcaPlanned \<Longrightarrow> sound_fca r \<Longrightarrow>
     fca_follows r ((published_fca now r)\<lparr>fc_updated_at := t\<rparr>) \<and> sound_fca ((published_fca now r)\<lparr>fc_updated_at := t\<rparr>)"
  by (auto simp: sound_fca_def fca_follows_def published_fca_def)

lemma archived_fca_follows:
  "fc_event_status r = Some FcaPlanned \<or> fc_event_status r = Some FcaPublished \<Longrightarrow> sound_fca r \<Longrightarrow>
     fca_follows r ((archived_fca now r)\<lparr>fc_updated_at := t\<rparr>) \<and> sound_fca ((archived_fca now r)\<lparr>fc_updated_at := t\<rparr>)"
  by (auto simp: sound_fca_def fca_follows_def archived_fca_def)

lemma mark_event_fca_published_step:
  "rows_sound fc_id sound_fca fs \<Longrightarrow> fca_table_step fs (snd (mark_event_fca_published now e i fs))"
  unfolding mark_event_fca_published_def by (rule set_fcas_step) (simp_all add: published_fca_follows)

lemma mark_event_fca_archived_step:
  "rows_sound fc_id sound_fca fs \<Longrightarrow> fca_table_step fs (snd (mark_event_fca_archived now e i fs))"
  unfolding mark_event_fca_archived_def by (rule set_fcas_step) (simp_all add: archived_fca_follows)

lemma lifecycle_step:
  assumes "rows_sound fc_id sound_fca fs"
  shows "fca_table_step fs (run_event_fca_lifecycle events now fs)"
proof -
  let ?due = "\<lambda>f. fc_event_status f = Some FcaPlanned \<and> fc_auto_publish f \<and> event_ready events now f \<and> fc_deleted_at f = None"
  have "fca_table_step fs (snd (set_fcas now ?due (published_fca now) fs))" (is "fca_table_step fs ?mid")
    by (rule set_fcas_step [OF assms]) (simp add: published_fca_follows)
  moreover from this have "fca_table_step ?mid (run_event_fca_lifecycle events now fs)"
    unfolding run_event_fca_lifecycle_def Let_def
    by (intro set_fcas_step [OF fcarow.step_sound]) (auto simp: archived_fca_follows)
  ultimately show ?thesis by (rule fcarow.step_trans)
qed

inductive fca_step :: "(ustr \<Rightarrow> bool) \<Rightarrow> fca list \<Rightarrow> fca list \<Rightarrow> bool" for contrasts where
  created: "create_fca_handler contrasts now i sc req fs = Inr (f, fs') \<Longrightarrow> fca_step contrasts fs fs'"
| updated: "update_fca_handler contrasts now i sc req fs = Inr (f, fs') \<Longrightarrow> fca_step contrasts fs fs'"
| deleted: "delete_fca_handler now i sc fs = Inr fs' \<Longrightarrow> fca_step contrasts fs fs'"
| reordered: "reorder_fca now i sc order fs = Inr fs' \<Longrightarrow> fca_step contrasts fs fs'"
| planned: "create_event_fca_handler contrasts events now i e req fs = Inr fs' \<Longrightarrow> fca_step contrasts fs fs'"
| replanned: "update_event_fca contrasts now e i req fs = Inr fs' \<Longrightarrow> fca_step contrasts fs fs'"
| unplanned: "delete_event_fca now e i fs = Inr fs' \<Longrightarrow> fca_step contrasts fs fs'"
| published: "publish_event_fca now e i fs = Inr fs' \<Longrightarrow> fca_step contrasts fs fs'"
| archived: "archive_event_fca now e i fs = Inr fs' \<Longrightarrow> fca_step contrasts fs fs'"
| automated: "set_event_fca_auto_handler now e i auto fs = Inr fs' \<Longrightarrow> fca_step contrasts fs fs'"
| passed: "fca_step contrasts fs (run_event_fca_lifecycle events now fs)"

lemmas fca_handler_defs = create_fca_handler_def update_fca_handler_def delete_fca_handler_def reorder_fca_def
  create_event_fca_handler_def update_event_fca_def delete_event_fca_def publish_event_fca_def archive_event_fca_def
  set_event_fca_auto_handler_def

lemma fca_step_table:
  assumes "fca_step contrasts fs fs'" and sound: "rows_sound fc_id sound_fca fs"
  shows "fca_table_step fs fs'"
  using assms(1)
proof cases
  case (created now i sc req f)
  then have "validate_fca contrasts req = Inr ()" "insert_fca (bind_fca req (new_fca now i None None)) fs = Inr fs'"
    by (auto simp: fca_handler_defs create_fca_def bind_result_Inr_iff)
  then show ?thesis by (intro insert_fca_step [OF sound new_fca_sound]) simp_all
next
  case (planned events now i e req)
  then have "validate_fca contrasts req = Inr ()" "insert_fca (bind_fca req (new_fca now i (Some e) (Some FcaPlanned))) fs = Inr fs'"
    by (auto simp: fca_handler_defs create_event_fca_def bind_result_Inr_iff split: if_splits)
  then show ?thesis by (intro insert_fca_step [OF sound new_fca_sound]) simp_all
next
  case (updated now i sc req f)
  then have "validate_fca contrasts req = Inr ()" "fs' = snd (update_fca now i req fs)"
    by (auto simp: fca_handler_defs bind_result_Inr_iff split: prod.splits bool.splits)
  then show ?thesis using update_fca_step [OF sound] by simp
next
  case (replanned now e i req)
  then have "validate_fca contrasts req = Inr ()" "fs' = snd (update_fca now i req fs)"
    by (auto simp: fca_handler_defs bind_result_Inr_iff)
  then show ?thesis using update_fca_step [OF sound] by simp
next
  case (deleted now i sc)
  then have "fs' = snd (delete_fca now i fs)"
    by (auto simp: fca_handler_defs bind_result_Inr_iff split: prod.splits bool.splits)
  then show ?thesis using delete_fca_step [OF sound] by simp
next
  case (reordered now i sc order)
  then have "fs' = snd (set_manual_order now i order (order \<noteq> []) fs)"
    by (auto simp: fca_handler_defs bind_result_Inr_iff split: prod.splits bool.splits)
  then show ?thesis using set_manual_order_step [OF sound] by simp
next
  case (unplanned now e i)
  then show ?thesis using delete_fca_step [OF sound] by (auto simp: fca_handler_defs bind_result_Inr_iff)
next
  case (published now e i)
  then show ?thesis using mark_event_fca_published_step [OF sound]
    by (auto simp: fca_handler_defs bind_result_Inr_iff split: if_splits)
next
  case (archived now e i)
  then show ?thesis using mark_event_fca_archived_step [OF sound]
    by (auto simp: fca_handler_defs bind_result_Inr_iff split: if_splits)
next
  case (automated now e i auto)
  then show ?thesis using set_event_fca_auto_step [OF sound] by (auto simp: fca_handler_defs bind_result_Inr_iff)
next
  case (passed events now)
  then show ?thesis using lifecycle_step [OF sound] by simp
qed

lemma fca_run_table:
  assumes "(fca_step contrasts)\<^sup>*\<^sup>* fs fs'" and "rows_sound fc_id sound_fca fs"
  shows "fca_table_step fs fs'"
  using assms
proof (induction rule: rtranclp_induct)
  case base
  then show ?case by (rule fcarow.step_refl)
next
  case (step a b)
  then show ?case using fca_step_table fcarow.step_sound fcarow.step_trans by blast
qed

text \<open>C25. Over any run of the endpoints and lifecycle passes the table of areas stays sound: ids are
  unique, an area has a status exactly when it has an event, a planned one was never published, and the
  stored numbers and colours are in range. A row keeps its id, event and creation time, its status only
  advances, and once archived or deleted it is never on the live list again.\<close>

theorem fca_table_history:
  assumes "(fca_step contrasts)\<^sup>*\<^sup>* fs fs'" and "rows_sound fc_id sound_fca fs" and "f \<in> set fs"
  shows "rows_sound fc_id sound_fca fs' \<and> (\<exists>g\<in>set fs'. fca_follows f g) \<and>
    (fc_event_status f = Some FcaArchived \<or> fc_deleted_at f \<noteq> None \<longrightarrow> fc_id f \<notin> fc_id ` set (list_fcas fs'))"
proof -
  have step: "fca_table_step fs fs'" using assms(1,2) by (rule fca_run_table)
  then have sound: "rows_sound fc_id sound_fca fs'" by (rule fcarow.step_sound)
  obtain g where g: "g \<in> set fs'" "fca_follows f g" using fcarow.step_keeps [OF step assms(3)] by auto
  have "fc_id f \<notin> fc_id ` set (list_fcas fs')" if gone: "fc_event_status f = Some FcaArchived \<or> fc_deleted_at f \<noteq> None"
  proof
    assume "fc_id f \<in> fc_id ` set (list_fcas fs')"
    then obtain h where h: "h \<in> set fs'" "fc_id h = fc_id f" "fc_deleted_at h = None" "not_hidden_event h"
      by (auto simp: list_fcas_def)
    then have "h = g"
      using sound g by (auto simp: rows_sound_def distinct_map fca_follows_def inj_on_def)
    with g(2) h gone have "fc_event_status f = Some FcaArchived" "fc_deleted_at f = None"
      by (auto simp: fca_follows_def)
    moreover have "fc_event_id f \<noteq> None"
      using assms(2,3) calculation(1) by (auto simp: rows_sound_def list_all_iff sound_fca_def)
    ultimately show False using g(2) h \<open>h = g\<close> by (auto simp: fca_follows_def not_hidden_event_def)
  qed
  with sound g show ?thesis by blast
qed

definition sample_request :: upsert_fca where
  "sample_request = \<lparr>uf_name = lit ''JAX ARR'', uf_color = None, uf_artcc = lit ''zjx'', uf_points = [(30, -81), (31, -82)],
     uf_dests = [lit ''KJAX''], uf_origins = [], uf_fixes = [], uf_scope = [], uf_min_fl = None, uf_max_fl = None,
     uf_dir = None, uf_mode = None, uf_rate = Some 300, uf_mit = None, uf_enabled = None\<rparr>"

definition sample_archived :: fca where
  "sample_archived = archived_fca 5 (published_fca 3 (bind_fca sample_request (new_fca 1 (lit ''f1'') (Some 7) (Some FcaPlanned))))"

lemma fca_table_history_witness:
  "lit ''f1'' \<notin> fc_id ` set (list_fcas (projr (update_event_fca (\<lambda>_. True) 9 7 (lit ''f1'') sample_request [sample_archived]))) \<and>
   sound_fca (hd (projr (update_event_fca (\<lambda>_. True) 9 7 (lit ''f1'') sample_request [sample_archived])))"
proof -
  let ?r = "update_event_fca (\<lambda>_. True) 9 7 (lit ''f1'') sample_request [sample_archived]"
  have r: "?r = Inr (projr ?r)" by (rule sum.collapse(2) [symmetric]) code_simp
  have ne: "projr ?r \<noteq> []" by code_simp
  have "(fca_step (\<lambda>_. True))\<^sup>*\<^sup>* [sample_archived] (projr ?r)" using r by (intro r_into_rtranclp) (rule replanned)
  moreover have "rows_sound fc_id sound_fca [sample_archived]" by code_simp
  ultimately have "rows_sound fc_id sound_fca (projr ?r) \<and> (\<exists>g\<in>set (projr ?r). fca_follows sample_archived g) \<and>
      (fc_event_status sample_archived = Some FcaArchived \<or> fc_deleted_at sample_archived \<noteq> None \<longrightarrow>
        fc_id sample_archived \<notin> fc_id ` set (list_fcas (projr ?r)))"
    by (rule fca_table_history) simp
  moreover have "fc_event_status sample_archived = Some FcaArchived" "fc_id sample_archived = lit ''f1''" by code_simp+
  ultimately show ?thesis using ne by (auto simp: rows_sound_def list_all_iff)
qed

section \<open>The lifecycle pass\<close>



end
