(* ===== verification/ReleaseAuthority.thy ===== *)
theory ReleaseAuthority
  imports Authorization
begin

text \<open>
  Who may write a release, and on what condition: \<open>backend/src/handlers/release_authority.rs\<close> with
  \<open>Expect\<close> and \<open>ReleaseHolder\<close> of \<open>repos/flow.rs\<close>. The tables of releases and of issued CFRs share one
  contract, the locale \<open>held_table\<close>: a row has a version and the actor who wrote it last, a writer may
  state what it expects to find, and the expectation is tested in the write itself.
\<close>

section \<open>The code\<close>

datatype expect =
    Absent
  | Version int

record release_holding =
  rh_version :: int
  rh_machine :: "(ustr \<times> ustr) option"

text \<open>\<open>access.actors\<close>: the type and display name of an actor; the \<open>case\<close> of \<open>HOLDER_SELECT\<close>.\<close>

type_synonym actors = "(ustr \<times> ustr \<times> ustr option) list"

definition machine_of :: "actors \<Rightarrow> ustr option \<Rightarrow> (ustr \<times> ustr option) option" where
  "machine_of actors writer = (case writer of
     None \<Rightarrow> None
   | Some a \<Rightarrow> (case map_of actors a of
       None \<Rightarrow> None
     | Some (actor_type, name) \<Rightarrow>
         if actor_type = lit ''service_account'' \<or> actor_type = lit ''api_key'' then Some (a, name) else None))"

definition holder_of :: "int \<Rightarrow> (ustr \<times> ustr option) option \<Rightarrow> release_holding" where
  "holder_of v m = \<lparr>rh_version = v,
     rh_machine = map_option (\<lambda>(a, name). (a, case name of None \<Rightarrow> [] | Some n \<Rightarrow> n)) m\<rparr>"

fun is_machine :: "principal \<Rightarrow> bool" where
  "is_machine (User _) = False"
| "is_machine (ApiKey _) = True"
| "is_machine (ServiceAccount _) = True"

text \<open>\<open>str::parse::<i64>\<close>.\<close>

definition parse_i64 :: "ustr \<Rightarrow> int option" where
  "parse_i64 s =
     (let (negative, digits) = (case s of
            [] \<Rightarrow> (False, [])
          | c # cs \<Rightarrow> if c = 45 then (True, cs) else if c = 43 then (False, cs) else (False, s))
      in if digits = [] \<or> \<not> list_all is_ascii_digit digits then None
         else let n = foldl (\<lambda>n c. 10 * n + (c - 48)) 0 digits; v = (if negative then - n else n)
           in if - (2 ^ 63) \<le> v \<and> v < 2 ^ 63 then Some v else None)"

text \<open>A header that is there has its text, or none when it is not visible ASCII.\<close>

record conditions =
  if_none_match :: "ustr option option"
  if_match :: "ustr option option"

definition unquote :: "ustr \<Rightarrow> ustr" where
  "unquote raw = (case Option.bind (strip_prefix [34] raw) (strip_suffix [34]) of Some r \<Rightarrow> r | None \<Rightarrow> raw)"

definition parse_precondition :: "conditions \<Rightarrow> expect option result" where
  "parse_precondition headers = (case if_none_match headers of
     Some value \<Rightarrow> if map_option trim value = Some [42] then Inr (Some Absent) else Inl BadRequest
   | None \<Rightarrow> (case if_match headers of
       None \<Rightarrow> Inr None
     | Some None \<Rightarrow> Inl BadRequest
     | Some (Some raw) \<Rightarrow> (case parse_i64 (unquote (trim raw)) of
         Some v \<Rightarrow> Inr (Some (Version v))
       | None \<Rightarrow> Inl BadRequest)))"

definition precondition :: "conditions \<Rightarrow> principal \<Rightarrow> expect option result" where
  "precondition headers writer = bind_result (parse_precondition headers) (\<lambda>expect.
     if expect = None \<and> is_machine writer then Inl PreconditionRequired else Inr expect)"

text \<open>A clear takes no \<open>If-None-Match\<close> (\<open>clear_release\<close>, \<open>release_cfr\<close>).\<close>

definition clear_version :: "conditions \<Rightarrow> principal \<Rightarrow> int option result" where
  "clear_version headers writer = bind_result (precondition headers writer) (\<lambda>expect.
     case expect of
       Some Absent \<Rightarrow> Inl BadRequest
     | Some (Version v) \<Rightarrow> Inr (Some v)
     | None \<Rightarrow> Inr None)"

definition authorize :: "principal \<Rightarrow> ustr option \<Rightarrow> release_holding option \<Rightarrow> unit result" where
  "authorize writer writer_actor holder =
     (if \<not> is_machine writer then Inr ()
      else (case map_option rh_machine holder of
        None \<Rightarrow> Inr ()
      | Some None \<Rightarrow> Inl (ConflictReason (lit ''held_by_person''))
      | Some (Some (holder_actor, _)) \<Rightarrow>
          if Some holder_actor = writer_actor then Inr () else Inl (ConflictReason (lit ''held_by_other_machine''))))"

definition etag :: "int \<Rightarrow> ustr" where
  "etag version = quoted_version version"

lemma machine_attribution:
  "is_machine p \<Longrightarrow> at_user_id (attribution_in ru rk rs p) = None"
  by (cases p) auto

lemma person_attribution:
  "\<not> is_machine p \<Longrightarrow> at_user_id (attribution_in ru rk rs p) \<noteq> None"
  by (cases p) auto

section \<open>The contract of a table of held rows\<close>

text \<open>A write of key \<open>k\<close>: store a value under a precondition, or clear at a version.\<close>

datatype ('k, 'v) row_write =
    Store 'k 'v attribution "expect option"
  | Clear 'k "int option" attribution

fun write_key :: "('k, 'v) row_write \<Rightarrow> 'k" where
  "write_key (Store k v by e) = k"
| "write_key (Clear k v by) = k"

fun write_by :: "('k, 'v) row_write \<Rightarrow> attribution" where
  "write_by (Store k v by e) = by"
| "write_by (Clear k v by) = by"

fun is_clear :: "('k, 'v) row_write \<Rightarrow> bool" where
  "is_clear (Store k v by e) = False"
| "is_clear (Clear k v by) = True"

text \<open>What a write needs to find at its key.\<close>

fun write_admitted :: "('k, 'v) row_write \<Rightarrow> (int \<times> ustr option) option \<Rightarrow> bool" where
  "write_admitted (Store k v by None) row = True"
| "write_admitted (Store k v by (Some Absent)) row = (row = None)"
| "write_admitted (Store k v by (Some (Version n))) row =
     (case row of None \<Rightarrow> False
      | Some (m, a) \<Rightarrow> m = n \<and> (case machine_actor by of None \<Rightarrow> True | Some me \<Rightarrow> a = Some me))"
| "write_admitted (Clear k v by) row =
     (case row of None \<Rightarrow> False
      | Some (m, a) \<Rightarrow> (case v of None \<Rightarrow> True | Some n \<Rightarrow> m = n) \<and>
          (case machine_actor by of None \<Rightarrow> True | Some me \<Rightarrow> a = Some me))"

text \<open>What the key holds after an admitted write: the next version, by the writer.\<close>

fun written :: "('k, 'v) row_write \<Rightarrow> (int \<times> ustr option) option \<Rightarrow> (int \<times> ustr option) option" where
  "written (Store k v by e) row = Some (case row of None \<Rightarrow> 1 | Some (m, _) \<Rightarrow> m + 1, at_actor_id by)"
| "written (Clear k v by) row = None"

locale held_table =
  fixes look_row :: "'t \<Rightarrow> 'k \<Rightarrow> (int \<times> ustr option) option"
    and run :: "('k, 'v) row_write \<Rightarrow> 't \<Rightarrow> bool \<times> 't"
    and keyed :: "'t \<Rightarrow> bool"
  assumes admitted: "keyed t \<Longrightarrow> fst (run w t) \<longleftrightarrow> write_admitted w (look_row t (write_key w))"
    and refused: "keyed t \<Longrightarrow> \<not> fst (run w t) \<Longrightarrow> snd (run w t) = t"
    and effect: "keyed t \<Longrightarrow> fst (run w t) \<Longrightarrow> look_row (snd (run w t)) (write_key w) = written w (look_row t (write_key w))"
    and others: "keyed t \<Longrightarrow> j \<noteq> write_key w \<Longrightarrow> look_row (snd (run w t)) j = look_row t j"
    and keyed_run: "keyed t \<Longrightarrow> keyed (snd (run w t))"
begin

text \<open>A version precondition names the version that was there, and the write is the next one.\<close>

lemma fenced:
  assumes "keyed t" and "fst (run (Store k v by (Some (Version n))) t)"
  shows "\<exists>a. look_row t k = Some (n, a)"
    and "look_row (snd (run (Store k v by (Some (Version n))) t)) k = Some (n + 1, at_actor_id by)"
proof -
  have "write_admitted (Store k v by (Some (Version n))) (look_row t k)"
    using admitted [OF assms(1), of "Store k v by (Some (Version n))"] assms(2) by simp
  then obtain a where a: "look_row t k = Some (n, a)" by (auto split: option.splits)
  then show "\<exists>a. look_row t k = Some (n, a)" ..
  show "look_row (snd (run (Store k v by (Some (Version n))) t)) k = Some (n + 1, at_actor_id by)"
    using effect [OF assms] a by simp
qed

text \<open>As long as a row is not cleared its version only grows.\<close>

lemma version_grows_once:
  assumes "keyed t" and "look_row t k = Some (n, a)" and "\<not> (is_clear w \<and> write_key w = k)"
  shows "\<exists>m b. look_row (snd (run w t)) k = Some (m, b) \<and> n \<le> m"
proof (cases "write_key w = k \<and> fst (run w t)")
  case True
  with assms show ?thesis using effect [OF assms(1), of w] by (cases w) auto
next
  case False
  then have "look_row (snd (run w t)) k = look_row t k"
    using others [OF assms(1)] refused [OF assms(1)] by metis
  with assms(2) show ?thesis by simp
qed

text \<open>Once a write has gone through under a precondition, no other goes through under the same one as long
  as the row is there and its version has not gone back.\<close>

lemma one_winner:
  assumes "keyed t" and won: "fst (run (Store k v by (Some e)) t)"
    and n: "look_row (snd (run (Store k v by (Some e)) t)) k = Some (n, a)"
    and "keyed t'" and m: "look_row t' k = Some (m, b)" "n \<le> m"
  shows "\<not> fst (run (Store k v' by' (Some e)) t')"
proof -
  have past: "l < n" if "e = Version l" for l
    using fenced(2) [OF assms(1)] won n that by fastforce
  show ?thesis using admitted [OF assms(4), of "Store k v' by' (Some e)"] m past by (cases e) fastforce+
qed

end

section \<open>Keyed rows meet the contract\<close>

subsection \<open>Rows with a unique key\<close>

lemma find_None: "find P xs = None \<longleftrightarrow> (\<forall>x\<in>set xs. \<not> P x)"
  by (induction xs) auto

lemma list_ex_find: "list_ex P xs \<longleftrightarrow> find P xs \<noteq> None"
  by (auto simp: find_None list_ex_iff)

lemma find_key_map:
  "(\<And>r. key (f r) = key r) \<Longrightarrow> find (\<lambda>r. key r = j) (map (\<lambda>r. if P r then f r else r) rs) =
     map_option (\<lambda>r. if P r then f r else r) (find (\<lambda>r. key r = j) rs)"
  by (induction rs) auto

lemma find_key_append:
  "find (\<lambda>r. key r = j) (rs @ [x]) =
     (case find (\<lambda>r. key r = j) rs of None \<Rightarrow> if key x = j then Some x else None | Some r \<Rightarrow> Some r)"
  by (induction rs) auto

lemma find_key_filter:
  "distinct (map key rs) \<Longrightarrow> find (\<lambda>r. key r = j) (filter Q rs) = option_filter Q (find (\<lambda>r. key r = j) rs)"
proof (induction rs)
  case (Cons a rs)
  from Cons.prems have "\<forall>r\<in>set rs. key r \<noteq> key a" by (simp add: image_iff) metis
  then have "find (\<lambda>r. key r = key a) rs = None" "find (\<lambda>r. key r = key a) (filter Q rs) = None"
    by (auto simp: find_None)
  with Cons show ?case by (cases "j = key a") (auto simp: option_filter_def)
qed (simp add: option_filter_def)

lemma find_key_and:
  "distinct (map key rs) \<Longrightarrow> find (\<lambda>r. key r = j \<and> Q r) rs = option_filter Q (find (\<lambda>r. key r = j) rs)"
proof (induction rs)
  case (Cons a rs)
  from Cons.prems have "\<forall>r\<in>set rs. key r \<noteq> key a" by (simp add: image_iff) metis
  then have "find (\<lambda>r. key r = key a) rs = None" "find (\<lambda>r. key r = key a \<and> Q r) rs = None"
    by (auto simp: find_None)
  with Cons show ?case by (cases "j = key a") (auto simp: option_filter_def)
qed (simp add: option_filter_def)

lemma find_key_is: "find (\<lambda>r. key r = j) rs = Some r \<Longrightarrow> key r = j"
  by (induction rs) (auto split: if_splits)

lemma map_untouched: "(\<And>r. r \<in> set rs \<Longrightarrow> \<not> P r) \<Longrightarrow> map (\<lambda>r. if P r then f r else r) rs = rs"
  by (induction rs) auto

lemma map_key_map: "(\<And>r. key (f r) = key r) \<Longrightarrow> map key (map (\<lambda>r. if P r then f r else r) rs) = map key rs"
  by (induction rs) auto

lemmas keyed_row_simps = find_key_map find_key_append find_key_filter find_key_and list_ex_find

subsection \<open>The statements of a table, over its columns\<close>

text \<open>\<open>$n::text is null or updated_by_actor = $n\<close>, with \<open>machine_actor\<close> bound: a null actor equals nothing.\<close>

definition holds_or_person :: "attribution \<Rightarrow> ustr option \<Rightarrow> bool" where
  "holds_or_person by actor \<longleftrightarrow> (case machine_actor by of None \<Rightarrow> True | Some me \<Rightarrow> actor = Some me)"

definition rows_upsert :: "('r \<Rightarrow> bool) \<Rightarrow> ('r \<Rightarrow> int) \<Rightarrow> ('r \<Rightarrow> ustr option) \<Rightarrow> ('r \<Rightarrow> 'r) \<Rightarrow> 'r \<Rightarrow>
    attribution \<Rightarrow> expect option \<Rightarrow> 'r list \<Rightarrow> int option \<times> 'r list" where
  "rows_upsert here ver act stored fresh by expect rs = (case expect of
        None \<Rightarrow> (case find here rs of
            None \<Rightarrow> (Some 1, rs @ [fresh])
          | Some r \<Rightarrow> (Some (ver r + 1), map (\<lambda>r. if here r then stored r else r) rs))
      | Some Absent \<Rightarrow> if list_ex here rs then (None, rs) else (Some 1, rs @ [fresh])
      | Some (Version v) \<Rightarrow>
          (let hit = (\<lambda>r. here r \<and> ver r = v \<and> holds_or_person by (act r))
           in (map_option (\<lambda>r. ver r + 1) (find hit rs), map (\<lambda>r. if hit r then stored r else r) rs)))"

definition rows_delete :: "('r \<Rightarrow> bool) \<Rightarrow> ('r \<Rightarrow> int) \<Rightarrow> ('r \<Rightarrow> ustr option) \<Rightarrow>
    int option \<Rightarrow> attribution \<Rightarrow> 'r list \<Rightarrow> bool \<times> 'r list" where
  "rows_delete here ver act version by rs =
     (let hit = (\<lambda>r. here r \<and> (case version of None \<Rightarrow> True | Some v \<Rightarrow> ver r = v) \<and> holds_or_person by (act r))
      in (list_ex hit rs, filter (\<lambda>r. \<not> hit r) rs))"

definition rows_look :: "('r \<Rightarrow> 'k) \<Rightarrow> ('r \<Rightarrow> int) \<Rightarrow> ('r \<Rightarrow> ustr option) \<Rightarrow> 'r list \<Rightarrow> 'k \<Rightarrow> (int \<times> ustr option) option" where
  "rows_look key ver act rs k = map_option (\<lambda>r. (ver r, act r)) (find (\<lambda>r. key r = k) rs)"

fun rows_run :: "('r \<Rightarrow> 'k) \<Rightarrow> ('r \<Rightarrow> int) \<Rightarrow> ('r \<Rightarrow> ustr option) \<Rightarrow> ('v \<Rightarrow> attribution \<Rightarrow> 'r \<Rightarrow> 'r) \<Rightarrow>
    ('k \<Rightarrow> 'v \<Rightarrow> attribution \<Rightarrow> 'r) \<Rightarrow> ('k, 'v) row_write \<Rightarrow> 'r list \<Rightarrow> bool \<times> 'r list" where
  "rows_run key ver act stored fresh (Store k v by e) rs =
     (case rows_upsert (\<lambda>r. key r = k) ver act (stored v by) (fresh k v by) by e rs of (n, rs') \<Rightarrow> (n \<noteq> None, rs'))"
| "rows_run key ver act stored fresh (Clear k v by) rs = rows_delete (\<lambda>r. key r = k) ver act v by rs"

locale held_rows =
  fixes key :: "'r \<Rightarrow> 'k" and ver :: "'r \<Rightarrow> int" and act :: "'r \<Rightarrow> ustr option"
    and stored :: "'v \<Rightarrow> attribution \<Rightarrow> 'r \<Rightarrow> 'r" and fresh :: "'k \<Rightarrow> 'v \<Rightarrow> attribution \<Rightarrow> 'r"
  assumes stored: "key (stored v by r) = key r" "ver (stored v by r) = ver r + 1" "act (stored v by r) = at_actor_id by"
    and fresh: "key (fresh k v by) = k" "ver (fresh k v by) = 1" "act (fresh k v by) = at_actor_id by"
begin

lemma look_map:
  "rows_look key ver act (map (\<lambda>r. if P r then stored v by r else r) rs) j =
     map_option (\<lambda>r. if P r then (ver r + 1, at_actor_id by) else (ver r, act r)) (find (\<lambda>r. key r = j) rs)"
  by (auto simp: rows_look_def find_key_map stored option.map_comp o_def intro!: map_option_cong)

lemma look_where:
  "rows_look key ver act (map (\<lambda>r. if key r = k \<and> Q r then stored v by r else r) rs) j =
     (case find (\<lambda>r. key r = k) rs of
        Some r \<Rightarrow> if j = k \<and> Q r then Some (ver r + 1, at_actor_id by) else rows_look key ver act rs j
      | None \<Rightarrow> rows_look key ver act rs j)"
proof (cases "find (\<lambda>r. key r = j) rs")
  case None
  then show ?thesis by (auto simp: look_map rows_look_def [of key ver act rs] split: option.splits)
next
  case (Some r)
  from find_key_is [OF Some] have r: "key r = j" .
  show ?thesis
  proof (cases "j = k")
    case True
    with Some r show ?thesis by (simp add: look_map rows_look_def [of key ver act rs])
  next
    case False
    with Some r show ?thesis by (simp add: look_map rows_look_def [of key ver act rs] split: option.splits)
  qed
qed

lemma look_append:
  "find (\<lambda>r. key r = k) rs = None \<Longrightarrow> rows_look key ver act (rs @ [fresh k v by]) j =
     (if j = k then Some (1, at_actor_id by) else rows_look key ver act rs j)"
  by (auto simp: rows_look_def find_key_append fresh split: option.splits)

lemma fresh_key: "find (\<lambda>r. key r = k) rs = None \<Longrightarrow> distinct (map key rs) \<Longrightarrow> distinct (map key (rs @ [fresh k v by]))"
  by (auto simp: find_None fresh)

lemma stored_keys: "map key (map (\<lambda>r. if P r then stored v by r else r) rs) = map key rs"
  by (rule map_key_map) (rule stored)

lemma run_store:
  assumes w_def: "w = Store k v by e" and "distinct (map key rs)"
  shows "(fst (rows_run key ver act stored fresh w rs) \<longleftrightarrow> write_admitted w (rows_look key ver act rs k)) \<and>
    (\<not> fst (rows_run key ver act stored fresh w rs) \<longrightarrow> snd (rows_run key ver act stored fresh w rs) = rs) \<and>
    (fst (rows_run key ver act stored fresh w rs) \<longrightarrow>
       rows_look key ver act (snd (rows_run key ver act stored fresh w rs)) k = written w (rows_look key ver act rs k)) \<and>
    (\<forall>j. j \<noteq> k \<longrightarrow> rows_look key ver act (snd (rows_run key ver act stored fresh w rs)) j = rows_look key ver act rs j) \<and>
    distinct (map key (snd (rows_run key ver act stored fresh w rs)))"
proof (cases e)
  case None
  show ?thesis
  proof (cases "find (\<lambda>r. key r = k) rs")
    case none: None
    then show ?thesis using assms(2) None fresh_key [OF none]
      by (simp add: w_def rows_upsert_def look_append del: map_append) (simp add: rows_look_def)
  next
    case (Some r)
    have "rows_look key ver act (map (\<lambda>r. if key r = k then stored v by r else r) rs) j =
        (if j = k then Some (ver r + 1, at_actor_id by) else rows_look key ver act rs j)" for j
      using look_where [of k "\<lambda>_. True" v "by" rs j] Some by simp
    then show ?thesis using assms(2) None Some
      by (simp add: w_def rows_upsert_def stored_keys del: map_map) (simp add: rows_look_def)
  qed
next
  case e: (Some x)
  show ?thesis
  proof (cases x)
    case Absent
    show ?thesis
    proof (cases "find (\<lambda>r. key r = k) rs")
      case none: None
      then show ?thesis using assms(2) e Absent fresh_key [OF none]
        by (simp add: w_def rows_upsert_def look_append list_ex_find del: map_append) (simp add: rows_look_def)
    next
      case (Some r)
      then show ?thesis using assms(2) e Absent by (simp add: w_def rows_upsert_def list_ex_find rows_look_def)
    qed
  next
    case (Version n)
    let ?Q = "\<lambda>r. ver r = n \<and> holds_or_person by (act r)"
    let ?hit = "\<lambda>r. key r = k \<and> ?Q r"
    have hit: "find ?hit rs = option_filter ?Q (find (\<lambda>r. key r = k) rs)"
      using assms(2) by (rule find_key_and)
    have look: "rows_look key ver act (map (\<lambda>r. if ?hit r then stored v by r else r) rs) j =
        (case find ?hit rs of Some r \<Rightarrow> if j = k then Some (ver r + 1, at_actor_id by) else rows_look key ver act rs j
         | None \<Rightarrow> rows_look key ver act rs j)" for j
      by (simp add: look_where [where Q = ?Q] hit option_filter_def split: option.split)
    have same: "map (\<lambda>r. if ?hit r then stored v by r else r) rs = rs" if "find ?hit rs = None"
      using that by (intro map_untouched) (auto simp: find_None)
    have "fst (rows_run key ver act stored fresh w rs) \<longleftrightarrow> find ?hit rs \<noteq> None"
      "snd (rows_run key ver act stored fresh w rs) = map (\<lambda>r. if ?hit r then stored v by r else r) rs"
      by (simp_all add: w_def e Version rows_upsert_def Let_def conj_assoc)
    moreover have "find ?hit rs \<noteq> None \<longleftrightarrow> write_admitted w (rows_look key ver act rs k)"
      unfolding hit by (auto simp: w_def e Version rows_look_def option_filter_def holds_or_person_def split: option.splits)
    moreover have "written w (rows_look key ver act rs k) = Some (ver r + 1, at_actor_id by)" if "find ?hit rs = Some r" for r
      using that unfolding hit by (auto simp: w_def rows_look_def option_filter_def split: option.splits if_splits)
    ultimately show ?thesis using look same assms(2) by (auto simp: stored_keys simp del: map_map split: option.splits)
  qed
qed

lemma run_clear:
  assumes w: "w = Clear k n by" and "distinct (map key rs)"
  shows "(fst (rows_run key ver act stored fresh w rs) \<longleftrightarrow> write_admitted w (rows_look key ver act rs k)) \<and>
    (\<not> fst (rows_run key ver act stored fresh w rs) \<longrightarrow> snd (rows_run key ver act stored fresh w rs) = rs) \<and>
    (fst (rows_run key ver act stored fresh w rs) \<longrightarrow>
       rows_look key ver act (snd (rows_run key ver act stored fresh w rs)) k = written w (rows_look key ver act rs k)) \<and>
    (\<forall>j. j \<noteq> k \<longrightarrow> rows_look key ver act (snd (rows_run key ver act stored fresh w rs)) j = rows_look key ver act rs j) \<and>
    distinct (map key (snd (rows_run key ver act stored fresh w rs)))"
proof -
  let ?Q = "\<lambda>r. (case n of None \<Rightarrow> True | Some v \<Rightarrow> ver r = v) \<and> holds_or_person by (act r)"
  let ?hit = "\<lambda>r. key r = k \<and> ?Q r"
  have run: "rows_run key ver act stored fresh w rs = (list_ex ?hit rs, filter (\<lambda>r. \<not> ?hit r) rs)"
    by (simp add: w rows_delete_def Let_def)
  have hit: "find ?hit rs = option_filter ?Q (find (\<lambda>r. key r = k) rs)" using assms(2) by (rule find_key_and)
  have look: "rows_look key ver act (filter (\<lambda>r. \<not> ?hit r) rs) j =
      map_option (\<lambda>r. (ver r, act r)) (option_filter (\<lambda>r. \<not> ?hit r) (find (\<lambda>r. key r = j) rs))" for j
    unfolding rows_look_def find_key_filter [OF assms(2)] ..
  have "filter (\<lambda>r. \<not> ?hit r) rs = rs" if "\<not> list_ex ?hit rs"
    using that by (auto simp: filter_id_conv list_ex_iff)
  moreover have "list_ex ?hit rs \<longleftrightarrow> write_admitted w (rows_look key ver act rs k)"
    unfolding list_ex_find hit by (auto simp: w rows_look_def option_filter_def holds_or_person_def split: option.splits)
  moreover have "rows_look key ver act (filter (\<lambda>r. \<not> ?hit r) rs) k = None" if gone: "list_ex ?hit rs"
  proof -
    obtain r where r: "find (\<lambda>r. key r = k) rs = Some r" "?Q r"
      using gone unfolding list_ex_find hit by (auto simp: option_filter_def split: option.splits if_splits)
    with find_key_is [OF r(1)] show ?thesis unfolding look by (simp add: option_filter_def)
  qed
  moreover have "rows_look key ver act (filter (\<lambda>r. \<not> ?hit r) rs) j = rows_look key ver act rs j" if "j \<noteq> k" for j
    using that find_key_is [of key j rs] unfolding look rows_look_def [of key ver act rs]
    by (auto simp: option_filter_def split: option.splits)
  ultimately show ?thesis unfolding run using assms(2) by (simp add: w distinct_map_filter)
qed

end

sublocale held_rows \<subseteq> held_table "rows_look key ver act" "rows_run key ver act stored fresh" "\<lambda>rs. distinct (map key rs)"
proof unfold_locales
  fix w rs j
  assume keyed: "distinct (map key rs)"
  note cases = run_store [OF _ keyed] run_clear [OF _ keyed]
  show "fst (rows_run key ver act stored fresh w rs) \<longleftrightarrow> write_admitted w (rows_look key ver act rs (write_key w))"
    using cases [of w] by (cases w) simp_all
  show "snd (rows_run key ver act stored fresh w rs) = rs" if "\<not> fst (rows_run key ver act stored fresh w rs)"
    using cases [of w] that by (cases w) simp_all
  show "rows_look key ver act (snd (rows_run key ver act stored fresh w rs)) (write_key w) = written w (rows_look key ver act rs (write_key w))"
    if "fst (rows_run key ver act stored fresh w rs)"
    using cases [of w] that by (cases w) simp_all
  show "rows_look key ver act (snd (rows_run key ver act stored fresh w rs)) j = rows_look key ver act rs j" if "j \<noteq> write_key w"
    using cases [of w] that by (cases w) simp_all
  show "distinct (map key (snd (rows_run key ver act stored fresh w rs)))"
    using cases [of w] by (cases w) simp_all
qed

end
