(* ===== verification/FcaMeter.thy ===== *)
theory FcaMeter
  imports Prelude "HOL-Library.Product_Lexorder"
begin

text \<open>
  Sequencing the traffic that crosses a flow constrained area: \<open>meter\<close> and
  \<open>earliest_slot\<close> of \<open>backend/src/feed/fca.rs\<close> and the metering helpers of
  \<open>handlers/flow.rs\<close>. Instants and gaps are \<open>i64\<close> milliseconds, here \<open>int\<close>.
  A crossing speed is an \<open>f64\<close>: it has a type of its own (\<open>'sp\<close>), and the two
  conversions that use it are arguments, \<open>mit_ms mit speed\<close> for
  \<open>((mit / max(speed, 60)) * 3600 * 1000) as i64\<close> and \<open>track_nm delay speed\<close> for
  \<open>(delay / 3600 * speed).round() as i64\<close>. The rate interval \<open>(3600 / rate * 1000) as i64\<close>
  is \<open>3600000 div rate\<close>, which the \<open>f64\<close> expression equals at every rate the table admits
  (1 to 240).
\<close>

section \<open>The code\<close>

record 'sp meter_input =
  mi_eta_ms :: int
  mi_airborne :: bool
  mi_cross_speed :: 'sp
  mi_frozen_ms :: "int option"
  mi_ground_allowance_ms :: int

record meter_output =
  mo_sched_ms :: int
  mo_delay_sec :: int
  mo_seq :: int

subsection \<open>\<open>earliest_slot\<close>\<close>

fun bump :: "int \<Rightarrow> int \<Rightarrow> int \<times> bool \<Rightarrow> int \<times> bool" where
  "bump sep c (t, bumped) = (if \<bar>t - c\<bar> < sep then (c + sep, True) else (t, bumped))"

definition slot_pass :: "int \<Rightarrow> int list \<Rightarrow> int \<Rightarrow> int \<times> bool" where
  "slot_pass sep cs t = fold (bump sep) cs (t, False)"

text \<open>A pass only moves the time up, and a pass that moved it cleared a crossing for good: this is
  why the loop of the source, which has no bound of its own, ends.\<close>

lemma bump_up: "bump sep c (t, b) = (t', b') \<Longrightarrow> t \<le> t'"
  by (auto split: if_splits)

lemma fold_bump_up: "fold (bump sep) cs (t, b) = (t', b') \<Longrightarrow> t \<le> t'"
proof (induction cs arbitrary: t b)
  case (Cons c cs)
  obtain u bu where u: "bump sep c (t, b) = (u, bu)" by fastforce
  with Cons.prems have "u \<le> t'" by (auto intro: Cons.IH)
  with bump_up [OF u] show ?case by simp
qed simp

lemma fold_bump_cleared:
  "fold (bump sep) cs (t, b) = (t', True) \<Longrightarrow> \<not> b \<Longrightarrow> \<exists>c\<in>set cs. t < c + sep \<and> c + sep \<le> t'"
proof (induction cs arbitrary: t b)
  case (Cons c cs)
  show ?case
  proof (cases "\<bar>t - c\<bar> < sep")
    case True
    then have "fold (bump sep) cs (c + sep, True) = (t', True)"
      using Cons.prems(1) by simp
    then have "c + sep \<le> t'" by (rule fold_bump_up)
    with True show ?thesis by auto
  next
    case False
    with Cons show ?thesis by auto
  qed
qed simp

lemma length_filter_strict:
  assumes "x \<in> set xs" "Q x" "\<not> P x" and "\<And>y. P y \<Longrightarrow> Q y"
  shows "length (filter P xs) < length (filter Q xs)"
proof -
  have "filter P xs = filter P (filter Q xs)" using assms(4) by (auto intro: filter_cong)
  then show ?thesis using length_filter_less [of x "filter Q xs" P] assms(1-3) by simp
qed

function slot_loop :: "int \<Rightarrow> int list \<Rightarrow> int \<Rightarrow> int" where
  "slot_loop sep cs t = (case slot_pass sep cs t of
     (t', bumped) \<Rightarrow> if bumped then slot_loop sep cs t' else t')"
  by pat_completeness auto

termination
proof (relation "measure (\<lambda>(sep, cs, t). length (filter (\<lambda>c. t < c + sep) cs))")
  fix sep t t' :: int and cs :: "int list" and bumped
  assume p: "(t', bumped) = slot_pass sep cs t" and bumped
  then have pass: "fold (bump sep) cs (t, False) = (t', True)" by (simp add: slot_pass_def)
  then obtain c where "c \<in> set cs" "t < c + sep" "c + sep \<le> t'" using fold_bump_cleared by blast
  moreover have "t \<le> t'" using pass by (rule fold_bump_up)
  ultimately have "length (filter (\<lambda>c. t' < c + sep) cs) < length (filter (\<lambda>c. t < c + sep) cs)"
    by (intro length_filter_strict [of c]) auto
  then show "((sep, cs, t'), sep, cs, t) \<in> measure (\<lambda>(sep, cs, t). length (filter (\<lambda>c. t < c + sep) cs))"
    by simp
qed simp

declare slot_loop.simps [simp del]

definition earliest_slot :: "int \<Rightarrow> int list \<Rightarrow> int \<Rightarrow> int" where
  "earliest_slot eta committed sep = (if sep \<le> 0 then eta else slot_loop sep (sort committed) eta)"

subsection \<open>\<open>meter\<close>\<close>

definition sep_ms :: "(int \<Rightarrow> 'sp \<Rightarrow> int) \<Rightarrow> ustr \<Rightarrow> int \<Rightarrow> int \<Rightarrow> 'sp meter_input \<Rightarrow> int" where
  "sep_ms mit_ms mode rate mit c =
     (if mode = lit ''mit'' then mit_ms mit (mi_cross_speed c)
      else if rate > 0 then 3600000 div rate
      else 0)"

definition pinned :: "'sp meter_input \<Rightarrow> bool" where
  "pinned c \<longleftrightarrow> mi_airborne c \<or> mi_frozen_ms c \<noteq> None"

text \<open>Manual: the controller's order, then the newcomers by ETA; each is chained behind the one before.\<close>

definition manual_sequence :: "'sp meter_input list \<Rightarrow> nat list \<Rightarrow> nat list" where
  "manual_sequence cands order =
     (let ordered = filter (\<lambda>i. i < length cands) order;
          rest = sort_key (\<lambda>i. mi_eta_ms (cands ! i)) (filter (\<lambda>i. i \<notin> set ordered) [0..<length cands])
      in ordered @ rest)"

definition manual_step :: "('sp meter_input \<Rightarrow> int) \<Rightarrow> 'sp meter_input list \<Rightarrow> nat \<Rightarrow>
    int list \<times> int option \<Rightarrow> int list \<times> int option" where
  "manual_step sep cands i s = (case s of (sched, prev) \<Rightarrow>
     let c = cands ! i;
         at = (case mi_frozen_ms c of
                 Some f \<Rightarrow> f
               | None \<Rightarrow> (case prev of Some p \<Rightarrow> max (mi_eta_ms c) (p + sep c) | None \<Rightarrow> mi_eta_ms c))
     in (sched[i := at], Some at))"

text \<open>Auto: pinned crossings first, each group by ETA; each takes the earliest slot clear of those
  committed before it.\<close>

definition auto_sequence :: "'sp meter_input list \<Rightarrow> nat list" where
  "auto_sequence cands =
     sort_key (\<lambda>i. (\<not> pinned (cands ! i), mi_eta_ms (cands ! i))) [0..<length cands]"

definition auto_at :: "('sp meter_input \<Rightarrow> int) \<Rightarrow> 'sp meter_input \<Rightarrow> int list \<Rightarrow> int" where
  "auto_at sep c committed = (case mi_frozen_ms c of
     Some f \<Rightarrow> f
   | None \<Rightarrow> earliest_slot (mi_eta_ms c) committed (sep c))"

definition auto_step :: "('sp meter_input \<Rightarrow> int) \<Rightarrow> 'sp meter_input list \<Rightarrow> nat \<Rightarrow>
    int list \<times> int list \<Rightarrow> int list \<times> int list" where
  "auto_step sep cands i s = (case s of (sched, committed) \<Rightarrow>
     let at = auto_at sep (cands ! i) committed
     in (sched[i := at], committed @ [at]))"

definition ranks :: "nat list \<Rightarrow> nat \<Rightarrow> int list" where
  "ranks seq n = fold (\<lambda>(rank, i) seq_of. seq_of[i := int rank + 1]) (List.enumerate 0 seq) (replicate n 0)"

definition meter :: "(int \<Rightarrow> 'sp \<Rightarrow> int) \<Rightarrow> 'sp meter_input list \<Rightarrow> ustr \<Rightarrow> int \<Rightarrow> int \<Rightarrow> nat list option \<Rightarrow>
    meter_output list" where
  "meter mit_ms cands mode rate mit order =
     (let n = length cands;
          sep = sep_ms mit_ms mode rate mit;
          (sched, seq_of) = (case order of
             Some seq \<Rightarrow>
               (let ordered = manual_sequence cands seq
                in (fst (fold (manual_step sep cands) ordered (replicate n 0, None)), ranks ordered n))
           | None \<Rightarrow>
               (let sched = fst (fold (auto_step sep cands) (auto_sequence cands) (replicate n 0, []))
                in (sched, ranks (sort_key (\<lambda>i. sched ! i) [0..<n]) n)))
      in map (\<lambda>i. \<lparr>mo_sched_ms = sched ! i,
                   mo_delay_sec = max (sched ! i - mi_eta_ms (cands ! i)) 0 div 1000,
                   mo_seq = seq_of ! i\<rparr>) [0..<n])"

section \<open>Sequencing is what it says\<close>

text \<open>The separation a slot must keep.\<close>

definition clear_of :: "int \<Rightarrow> int list \<Rightarrow> int \<Rightarrow> bool" where
  "clear_of sep committed t \<longleftrightarrow> list_all (\<lambda>c. sep \<le> \<bar>t - c\<bar>) committed"

lemma fold_bump_below:
  "fold (bump sep) cs (t, b) = (t', b') \<Longrightarrow> t \<le> u \<Longrightarrow> clear_of sep cs u \<Longrightarrow> t' \<le> u"
proof (induction cs arbitrary: t b)
  case (Cons c cs)
  obtain v bv where v: "bump sep c (t, b) = (v, bv)" by fastforce
  have "v \<le> u" using v Cons.prems(2,3) by (auto simp: clear_of_def split: if_splits)
  with v Cons show ?case by (auto simp: clear_of_def)
qed simp

lemma fold_bump_still:
  "fold (bump sep) cs (t, b) = (t', False) \<Longrightarrow> t' = t \<and> clear_of sep cs t"
proof (induction cs arbitrary: t b)
  case (Cons c cs)
  have still: "\<not> bu" if "fold (bump sep) xs (u, bu) = (t', False)" for xs u bu
    using that by (induction xs arbitrary: u bu) (auto split: if_splits)
  obtain v bv where v: "bump sep c (t, b) = (v, bv)" by fastforce
  with Cons.prems still have "\<not> bv" by simp
  with v Cons show ?case by (auto simp: clear_of_def split: if_splits)
qed (simp add: clear_of_def)

lemma slot_loop_least:
  "t \<le> slot_loop sep cs t \<and> clear_of sep cs (slot_loop sep cs t) \<and>
   (t \<le> u \<longrightarrow> clear_of sep cs u \<longrightarrow> slot_loop sep cs t \<le> u)"
proof (induction sep cs t rule: slot_loop.induct)
  case (1 sep cs t)
  obtain t' bumped where pass: "slot_pass sep cs t = (t', bumped)" by fastforce
  then have f: "fold (bump sep) cs (t, False) = (t', bumped)" by (simp add: slot_pass_def)
  show ?case
  proof (cases bumped)
    case True
    have "t \<le> t'" using f by (rule fold_bump_up)
    moreover have "t' \<le> u" if "t \<le> u" "clear_of sep cs u" using f that by (rule fold_bump_below)
    ultimately show ?thesis
      using 1 [OF pass [symmetric] True] pass True by (auto simp: slot_loop.simps [of sep cs t])
  next
    case False
    with f have "t' = t \<and> clear_of sep cs t" by (auto intro!: fold_bump_still)
    then show ?thesis using pass False by (simp add: slot_loop.simps [of sep cs t])
  qed
qed

lemma clear_of_sort [simp]: "clear_of sep (sort cs) = clear_of sep cs"
  by (simp add: clear_of_def list_all_iff fun_eq_iff)

lemma earliest_slot_least:
  "eta \<le> earliest_slot eta cs sep" (is ?after)
  "0 < sep \<Longrightarrow> clear_of sep cs (earliest_slot eta cs sep)"
  "0 < sep \<Longrightarrow> eta \<le> u \<Longrightarrow> clear_of sep cs u \<Longrightarrow> earliest_slot eta cs sep \<le> u"
  using slot_loop_least [of eta sep "sort cs"] by (auto simp: earliest_slot_def)

lemma earliest_slot_clear: "c \<in> set cs \<Longrightarrow> sep \<le> \<bar>earliest_slot eta cs sep - c\<bar>"
  using earliest_slot_least(2) [of sep cs eta] by (cases "0 < sep") (auto simp: clear_of_def list_all_iff)

text \<open>One more commitment does not matter when the slot was already clear of it.\<close>

lemma earliest_slot_insert:
  assumes "set cs' = insert c (set cs)" and far: "sep \<le> \<bar>earliest_slot eta cs sep - c\<bar>"
  shows "earliest_slot eta cs' sep = earliest_slot eta cs sep"
proof (cases "0 < sep")
  case True
  have clear: "clear_of sep cs' = (\<lambda>u. sep \<le> \<bar>u - c\<bar> \<and> clear_of sep cs u)"
    using assms(1) by (auto simp: clear_of_def list_all_iff fun_eq_iff)
  show ?thesis
  proof (rule antisym)
    show "earliest_slot eta cs' sep \<le> earliest_slot eta cs sep"
      using True far earliest_slot_least(1,2) by (intro earliest_slot_least(3)) (auto simp: clear)
    show "earliest_slot eta cs sep \<le> earliest_slot eta cs' sep"
      using True earliest_slot_least(1) [of eta cs' sep] earliest_slot_least(2) [of sep cs' eta]
      by (intro earliest_slot_least(3)) (auto simp: clear)
  qed
qed (simp add: earliest_slot_def)

lemma fold_bump_clear:
  "sorted cs \<Longrightarrow> clear_of sep cs (fst (fold (bump sep) cs (t, b)))"
proof (induction cs rule: rev_induct)
  case (snoc c cs)
  obtain u bu where u: "fold (bump sep) cs (t, b) = (u, bu)" by fastforce
  with snoc have "clear_of sep cs u" by (simp add: sorted_append)
  with u snoc.prems show ?case by (fastforce simp: clear_of_def list_all_iff sorted_append)
qed (simp add: clear_of_def)

lemma clear_pass: "clear_of sep cs t \<Longrightarrow> slot_pass sep cs t = (t, False)"
  unfolding slot_pass_def by (induction cs) (auto simp: clear_of_def)

text \<open>C24. The search for a slot ends: the loop has no bound in the code, but over sorted commitments its first pass
  already finds the slot and its second only confirms it. With a positive separation the slot is clear of
  every commitment and is the earliest such time from the ETA on.\<close>

theorem slot_search_ends_with_the_least:
  "slot_pass sep (sort cs) (fst (slot_pass sep (sort cs) eta)) = (fst (slot_pass sep (sort cs) eta), False) \<and>
   (0 < sep \<longrightarrow> earliest_slot eta cs sep = fst (slot_pass sep (sort cs) eta) \<and>
      eta \<le> earliest_slot eta cs sep \<and> clear_of sep cs (earliest_slot eta cs sep) \<and>
      (eta \<le> u \<and> clear_of sep cs u \<longrightarrow> earliest_slot eta cs sep \<le> u))"
proof -
  let ?t = "fst (slot_pass sep (sort cs) eta)"
  have "clear_of sep (sort cs) ?t" unfolding slot_pass_def by (rule fold_bump_clear) simp
  then have second: "slot_pass sep (sort cs) ?t = (?t, False)" by (rule clear_pass)
  then have "slot_loop sep (sort cs) ?t = ?t" by (simp add: slot_loop.simps [of sep _ ?t])
  moreover obtain t' bumped where "slot_pass sep (sort cs) eta = (t', bumped)" by fastforce
  ultimately have "slot_loop sep (sort cs) eta = ?t" by (simp add: slot_loop.simps [of sep _ eta])
  with second show ?thesis
    using earliest_slot_least(1) [of eta cs sep] earliest_slot_least(2) [of sep cs eta] earliest_slot_least(3) [of sep eta u cs] by (auto simp: earliest_slot_def)
qed

lemma slot_search_ends_with_the_least_witness:
  "earliest_slot 20 [120, 0] 75 = 195"
proof -
  have "earliest_slot 20 [120, 0] 75 = fst (slot_pass 75 (sort [120, 0]) 20)"
    using slot_search_ends_with_the_least [of 75 "[120, 0]" 20 20] by simp
  also have "\<dots> = 195" by code_simp
  finally show ?thesis .
qed

subsection \<open>The automatic sequence\<close>

text \<open>The times of a sequence, in its order: what the vector of scheduled times holds at the end.\<close>

fun auto_times :: "('sp meter_input \<Rightarrow> int) \<Rightarrow> 'sp meter_input list \<Rightarrow> int list \<Rightarrow> nat list \<Rightarrow> int list" where
  "auto_times sep cands committed [] = []"
| "auto_times sep cands committed (i # seq) =
     (let at = auto_at sep (cands ! i) committed in at # auto_times sep cands (committed @ [at]) seq)"

lemma length_auto_times [simp]: "length (auto_times sep cands committed seq) = length seq"
  by (induction seq arbitrary: committed) (simp_all add: Let_def)

lemma auto_times_append:
  "auto_times sep cands committed (xs @ ys) = auto_times sep cands committed xs @
     auto_times sep cands (committed @ auto_times sep cands committed xs) ys"
  by (induction xs arbitrary: committed) (simp_all add: Let_def)

lemma auto_times_nth:
  "k < length seq \<Longrightarrow> auto_times sep cands committed seq ! k =
     auto_at sep (cands ! (seq ! k)) (committed @ take k (auto_times sep cands committed seq))"
proof (induction seq arbitrary: committed k)
  case (Cons i seq)
  then show ?case by (cases k) (simp_all add: Let_def)
qed simp

lemma fold_auto_step:
  assumes "distinct seq" and "set seq \<subseteq> {..<length sched}"
  shows "(\<forall>k < length seq. fst (fold (auto_step sep cands) seq (sched, committed)) ! (seq ! k) =
            auto_times sep cands committed seq ! k) \<and>
         (\<forall>i < length sched. i \<notin> set seq \<longrightarrow> fst (fold (auto_step sep cands) seq (sched, committed)) ! i = sched ! i)"
  using assms
proof (induction seq arbitrary: sched committed)
  case (Cons i seq)
  let ?at = "auto_at sep (cands ! i) committed"
  have step: "fold (auto_step sep cands) (i # seq) (sched, committed) =
      fold (auto_step sep cands) seq (sched[i := ?at], committed @ [?at])"
    by (simp add: auto_step_def Let_def)
  have IH: "(\<forall>k < length seq. fst (fold (auto_step sep cands) seq (sched[i := ?at], committed @ [?at])) ! (seq ! k) =
      auto_times sep cands (committed @ [?at]) seq ! k) \<and>
    (\<forall>j < length sched. j \<notin> set seq \<longrightarrow>
      fst (fold (auto_step sep cands) seq (sched[i := ?at], committed @ [?at])) ! j = sched[i := ?at] ! j)"
    using Cons.IH [of "sched[i := ?at]" "committed @ [?at]"] Cons.prems by simp
  show ?case
    unfolding step
  proof (intro conjI allI impI)
    fix k assume "k < length (i # seq)"
    then show "fst (fold (auto_step sep cands) seq (sched[i := ?at], committed @ [?at])) ! ((i # seq) ! k) =
        auto_times sep cands committed (i # seq) ! k"
      using IH Cons.prems by (cases k) (auto simp: Let_def)
  next
    fix j assume "j < length sched" "j \<notin> set (i # seq)"
    then show "fst (fold (auto_step sep cands) seq (sched[i := ?at], committed @ [?at])) ! j = sched ! j"
      using IH by simp
  qed
qed simp

lemma insort_flag:
  fixes e :: "'a \<Rightarrow> int"
  assumes "list_all p a" and "list_all (\<lambda>y. \<not> p y) b"
  shows "insort_key (\<lambda>y. (\<not> p y, e y)) x (a @ b) =
    (if p x then insort_key e x a @ b else a @ insort_key e x b)"
  using assms
proof (induction a)
  case Nil
  then show ?case by (induction b) (auto simp: less_eq_prod_def)
qed (auto simp: less_eq_prod_def)

lemma sort_key_flag:
  fixes e :: "'a \<Rightarrow> int"
  shows "sort_key (\<lambda>x. (\<not> p x, e x)) xs = sort_key e (filter p xs) @ sort_key e (filter (\<lambda>x. \<not> p x) xs)"
  by (induction xs) (simp_all add: insort_flag list_all_iff)

lemma auto_sequence_eq:
  "auto_sequence cands =
     sort_key (\<lambda>i. mi_eta_ms (cands ! i)) (filter (\<lambda>i. pinned (cands ! i)) [0..<length cands]) @
     sort_key (\<lambda>i. mi_eta_ms (cands ! i)) (filter (\<lambda>i. \<not> pinned (cands ! i)) [0..<length cands])"
  by (simp add: auto_sequence_def sort_key_flag)

lemma auto_sequence_set [simp]: "distinct (auto_sequence cands)" "set (auto_sequence cands) = {..<length cands}"
  "length (auto_sequence cands) = length cands"
  by (auto simp: auto_sequence_def)

abbreviation auto_of :: "(int \<Rightarrow> 'sp \<Rightarrow> int) \<Rightarrow> 'sp meter_input list \<Rightarrow> ustr \<Rightarrow> int \<Rightarrow> int \<Rightarrow> int list" where
  "auto_of mit_ms cands mode rate mit \<equiv> auto_times (sep_ms mit_ms mode rate mit) cands [] (auto_sequence cands)"

text \<open>The schedule of an automatic sequence, read at a place of the sequence.\<close>

lemma meter_auto_nth:
  assumes "k < length cands"
  shows "mo_sched_ms (meter mit_ms cands mode rate mit None ! (auto_sequence cands ! k)) =
    auto_of mit_ms cands mode rate mit ! k"
proof -
  have "auto_sequence cands ! k \<in> {..<length cands}"
    using assms nth_mem [of k "auto_sequence cands"] by simp
  then show ?thesis
    using fold_auto_step [of "auto_sequence cands" "replicate (length cands) 0" "sep_ms mit_ms mode rate mit" cands "[]"] assms
    by (simp add: meter_def Let_def)
qed

lemma auto_place:
  assumes "i < length cands"
  obtains k where "k < length cands" "auto_sequence cands ! k = i"
  using assms auto_sequence_set [of cands] by (metis in_set_conv_nth lessThan_iff)

lemma length_meter [simp]: "length (meter mit_ms cands mode rate mit order) = length cands"
  by (simp add: meter_def Let_def split: option.splits prod.splits)

text \<open>A pinned crossing comes before a floating one.\<close>

lemma pinned_first:
  assumes "k < length cands" "l < length cands" and "pinned (cands ! (auto_sequence cands ! k))"
    and "\<not> pinned (cands ! (auto_sequence cands ! l))"
  shows "k < l"
proof -
  let ?P = "filter (\<lambda>i. pinned (cands ! i)) [0..<length cands]"
    and ?G = "filter (\<lambda>i. \<not> pinned (cands ! i)) [0..<length cands]"
  let ?e = "\<lambda>i. mi_eta_ms (cands ! i)"
  have len: "length ?P + length ?G = length cands"
    using sum_length_filter_compl [of "\<lambda>i. pinned (cands ! i)" "[0..<length cands]"] by simp
  have "k < length ?P"
  proof (rule ccontr)
    assume "\<not> k < length ?P"
    then have "auto_sequence cands ! k \<in> set (sort_key ?e ?G)"
      using assms(1) len by (auto simp: auto_sequence_eq nth_append simp del: set_sort intro!: nth_mem)
    with assms(3) show False by simp
  qed
  moreover have "\<not> l < length ?P"
  proof
    assume "l < length ?P"
    then have "auto_sequence cands ! l \<in> set (sort_key ?e ?P)"
      by (auto simp: auto_sequence_eq nth_append simp del: set_sort intro!: nth_mem)
    with assms(4) show False by simp
  qed
  ultimately show ?thesis by simp
qed

lemma auto_separates:
  assumes "l < k" "k < length cands" and "mi_frozen_ms (cands ! (auto_sequence cands ! k)) = None"
  shows "sep_ms mit_ms mode rate mit (cands ! (auto_sequence cands ! k)) \<le>
    \<bar>auto_of mit_ms cands mode rate mit ! k - auto_of mit_ms cands mode rate mit ! l\<bar>"
proof -
  let ?t = "auto_of mit_ms cands mode rate mit"
  have "?t ! l \<in> set (take k ?t)"
    using assms(1,2) by (auto simp: in_set_conv_nth intro!: exI [of _ l])
  then show ?thesis
    using assms by (simp add: auto_times_nth auto_at_def earliest_slot_clear)
qed

lemma sort_key_on:
  assumes "\<And>x. x \<in> set xs \<Longrightarrow> f x = g x"
  shows "sort_key f xs = sort_key g xs"
proof -
  have insort: "insort_key f x ys = insort_key g x ys" if "\<And>y. y \<in> insert x (set ys) \<Longrightarrow> f y = g y" for x ys
    using that by (induction ys) auto
  show ?thesis using assms 
  proof (induction xs)
    case (Cons x xs)
    then have "insort_key f x (sort_key g xs) = insort_key g x (sort_key g xs)" by (intro insort) auto
    with Cons show ?case by simp
  qed simp
qed

lemma meter_ranks:
  "mo_seq (meter mit_ms cands mode rate mit None ! i) =
     ranks (sort_key (\<lambda>i. mo_sched_ms (meter mit_ms cands mode rate mit None ! i)) [0..<length cands]) (length cands) ! i"
  if "i < length cands" for i
proof -
  have "sort_key (\<lambda>i. mo_sched_ms (meter mit_ms cands mode rate mit None ! i)) [0..<length cands] =
      sort_key (\<lambda>i. fst (fold (auto_step (sep_ms mit_ms mode rate mit) cands) (auto_sequence cands)
        (replicate (length cands) 0, [])) ! i) [0..<length cands]"
    by (rule sort_key_on) (auto simp: meter_def Let_def)
  then show ?thesis using that by (simp add: meter_def Let_def)
qed

lemma ranks_nth:
  assumes "distinct seq" and "set seq \<subseteq> {..<n}" and "k < length seq"
  shows "ranks seq n ! (seq ! k) = int k + 1"
proof -
  have "fold (\<lambda>(rank, i) seq_of. seq_of[i := int rank + 1]) (List.enumerate m seq) v ! (seq ! k) = int (m + k) + 1"
    if "distinct seq" "set seq \<subseteq> {..<length v}" "k < length seq" for m k v seq
    using that
  proof (induction seq arbitrary: m k v)
    case (Cons i seq)
    have other: "fold (\<lambda>(rank, i) seq_of. seq_of[i := int rank + 1]) (List.enumerate a xs) u ! j = u ! j"
      if "j \<notin> set xs" for a xs j and u :: "int list"
      using that by (induction xs arbitrary: a u) auto
    show ?case
      using Cons.prems Cons.IH [of "v[i := int m + 1]" "k - 1" "Suc m"] other [of i seq "Suc m" "v[i := int m + 1]"]
      by (cases k) auto
  qed simp
  from this [of seq "replicate n 0" k 0] assms show ?thesis by (simp add: ranks_def)
qed


definition sample_crossing :: "int \<Rightarrow> bool \<Rightarrow> int option \<Rightarrow> unit meter_input" where
  "sample_crossing eta air frozen = \<lparr>mi_eta_ms = eta, mi_airborne = air, mi_cross_speed = (),
     mi_frozen_ms = frozen, mi_ground_allowance_ms = 0\<rparr>"


text \<open>The hypothesis on airborne traffic is needed: an arrival whose ETA is before a released
  departure's is placed first, and the release keeps its frozen time whatever was placed there.\<close>

lemma airborne_may_share_a_frozen_slot:
  "map mo_sched_ms (meter (\<lambda>_ _. 0)
     [sample_crossing 100000 True None, sample_crossing 200000 False (Some 100000)] (lit ''rate'') 60 0 None) =
   [100000, 100000]"
  by code_simp

end
