(* ===== verification/FlowMetering.thy ===== *)
theory FlowMetering
  imports FcaMeter Fcas GdpWindow
begin

text \<open>
  The metering helpers of \<open>backend/src/handlers/flow.rs\<close>: the controller's order as indices, the crossings
  a release must clear, the slot a ready flight is given and the listing of a metered sequence. Of a
  crossing flight only the fields metering reads or writes are kept; the others pass through. The
  \<open>f64\<close> conversions are the arguments \<open>mit_ms\<close> and \<open>track_nm\<close> of \<open>FcaMeter\<close>.
\<close>

section \<open>The code\<close>

record fca_flight =
  ff_callsign :: ustr
  ff_cross_time :: "int option"
  ff_delay_min :: int
  ff_delay_sec :: int
  ff_delay_nm :: int
  ff_seq :: int
  ff_edct :: "int option"
  ff_released :: bool
  ff_release_version :: "int option"

definition RELEASE_MARGIN_MS :: int where "RELEASE_MARGIN_MS = 15000"

fun position :: "('a \<Rightarrow> bool) \<Rightarrow> 'a list \<Rightarrow> nat option" where
  "position P [] = None"
| "position P (x # xs) = (if P x then Some 0 else map_option Suc (position P xs))"

text \<open>\<open>parse_hhmm_z\<close>: a clock time within twelve hours of now.\<close>

definition parse_hhmm_z :: "ustr \<Rightarrow> int \<Rightarrow> int option" where
  "parse_hhmm_z raw now =
     (let s = rev (dropWhile (\<lambda>c. c = 122 \<or> c = 90) (rev (trim raw))) in
      if length s \<noteq> 4 \<or> \<not> list_all is_ascii_digit s then None
      else let h = digits_value (take 2 s); m = digits_value (drop 2 s) in
        if 24 \<le> h \<or> 60 \<le> m then None
        else let t = midnight_ms now + (h * 60 + m) * minute_ms in
          Some (if t < now - 12 * 3600 * 1000 then t + 24 * 3600 * 1000
                else if now + 12 * 3600 * 1000 < t then t - 24 * 3600 * 1000
                else t))"

definition manual_order :: "fca \<Rightarrow> fca_flight list \<Rightarrow> nat list option" where
  "manual_order f flights =
     (if fc_manual_seq f \<and> fc_manual_order f \<noteq> []
      then Some (List.map_filter (\<lambda>cs. position (\<lambda>g. ff_callsign g = cs) flights) (fc_manual_order f))
      else None)"

definition committed_crossings :: "'sp meter_input list \<Rightarrow> meter_output list \<Rightarrow> nat \<Rightarrow> int list" where
  "committed_crossings metas metered releasing =
     map (\<lambda>(_, _, out). mo_sched_ms out)
       (filter (\<lambda>(j, m, _). j \<noteq> releasing \<and> pinned m) (List.enumerate 0 (zip metas metered)))"

definition separation_ms :: "(int \<Rightarrow> 'sp \<Rightarrow> int) \<Rightarrow> fca \<Rightarrow> 'sp \<Rightarrow> int" where
  "separation_ms mit_ms f cross_speed =
     (if fc_mode f = lit ''mit'' then mit_ms (fc_mit f) cross_speed
      else if fc_rate f > 0 then 3600000 div fc_rate f
      else 0)"

definition release_ms :: "int \<Rightarrow> int \<Rightarrow> int \<Rightarrow> int \<Rightarrow> int" where
  "release_ms cta_ms eta_ms now_ms ground_allowance_ms = cta_ms - (eta_ms - now_ms - ground_allowance_ms)"

definition rdy_slot :: "(int \<Rightarrow> 'sp \<Rightarrow> int) \<Rightarrow> fca \<Rightarrow> 'sp meter_input list \<Rightarrow> meter_output list \<Rightarrow> nat \<Rightarrow> bool \<Rightarrow> int" where
  "rdy_slot mit_ms f metas metered ti manual =
     (let sep = separation_ms mit_ms f (mi_cross_speed (metas ! ti)) in
      if manual then mo_sched_ms (metered ! ti) + RELEASE_MARGIN_MS
      else earliest_slot (mi_eta_ms (metas ! ti)) (committed_crossings metas metered ti) (sep + RELEASE_MARGIN_MS))"

definition meter_fca :: "(int \<Rightarrow> 'sp \<Rightarrow> int) \<Rightarrow> fca \<Rightarrow> fca_flight list \<Rightarrow> 'sp meter_input list \<Rightarrow> meter_output list" where
  "meter_fca mit_ms f flights metas =
     meter mit_ms metas (fc_mode f) (fc_rate f) (fc_mit f) (manual_order f flights)"

definition metered_flight :: "(int \<Rightarrow> 'sp \<Rightarrow> int) \<Rightarrow> fca_flight \<Rightarrow> meter_output \<Rightarrow> 'sp meter_input \<Rightarrow> fca_flight" where
  "metered_flight track_nm g m input = g\<lparr>ff_cross_time := Some (mo_sched_ms m),
     ff_delay_min := (mo_delay_sec m + 30) div 60, ff_delay_sec := mo_delay_sec m,
     ff_delay_nm := track_nm (mo_delay_sec m) (mi_cross_speed input), ff_seq := mo_seq m\<rparr>"

definition meter_in_place ::
    "(int \<Rightarrow> 'sp \<Rightarrow> int) \<Rightarrow> (int \<Rightarrow> 'sp \<Rightarrow> int) \<Rightarrow> fca \<Rightarrow> fca_flight list \<Rightarrow> 'sp meter_input list \<Rightarrow> fca_flight list" where
  "meter_in_place mit_ms track_nm f flights metas =
     map (\<lambda>((g, m), input). metered_flight track_nm g m input) (zip (zip flights (meter_fca mit_ms f flights metas)) metas)"

definition finalize ::
    "(int \<Rightarrow> 'sp \<Rightarrow> int) \<Rightarrow> (int \<Rightarrow> 'sp \<Rightarrow> int) \<Rightarrow> fca \<Rightarrow> fca_flight list \<Rightarrow> 'sp meter_input list \<Rightarrow> fca_flight list" where
  "finalize mit_ms track_nm f flights metas = sort_key ff_seq (meter_in_place mit_ms track_nm f flights metas)"

section \<open>A release disturbs no committed crossing\<close>

lemma sep_ms_separation: "sep_ms mit_ms (fc_mode f) (fc_rate f) (fc_mit f) c = separation_ms mit_ms f (mi_cross_speed c)"
  by (simp add: sep_ms_def separation_ms_def)

lemma committed_crossings_set:
  assumes "length metered = length metas"
  shows "set (committed_crossings metas metered ti) =
    (\<lambda>j. mo_sched_ms (metered ! j)) ` {j. j < length metas \<and> j \<noteq> ti \<and> pinned (metas ! j)}"
proof -
  have "List.enumerate 0 (zip metas metered) = map (\<lambda>j. (j, metas ! j, metered ! j)) [0..<length metas]"
    using assms by (auto intro!: nth_equalityI simp: nth_enumerate_eq)
  then show ?thesis by (auto simp: committed_crossings_def filter_map o_def)
qed

text \<open>Releasing a floating flight puts it among the pinned ones and leaves their order alone.\<close>

lemma released_sequence:
  assumes "ti < length metas" and "\<not> pinned (metas ! ti)"
    and metas': "metas' = metas[ti := (metas ! ti)\<lparr>mi_frozen_ms := Some cta\<rparr>]"
  obtains xs ys gs gs' where "auto_sequence metas = xs @ ys @ gs" "auto_sequence metas' = xs @ ti # ys @ gs'"
    and "set (xs @ ys) = {j. j < length metas \<and> pinned (metas ! j)}" "ti \<notin> set (xs @ ys)"
proof -
  let ?e = "\<lambda>i. mi_eta_ms (metas ! i)" and ?n = "[0..<length metas]"
  have at: "metas' ! j = (if j = ti then (metas ! ti)\<lparr>mi_frozen_ms := Some cta\<rparr> else metas ! j)" if "j < length metas" for j
    using that assms(1) by (auto simp: metas')
  have len: "length metas' = length metas" by (simp add: metas')
  have e: "(\<lambda>i. mi_eta_ms (metas' ! i)) = ?e"
    using assms(1) by (auto simp: metas' fun_eq_iff nth_list_update)
  have p: "filter (\<lambda>i. pinned (metas' ! i)) ?n = filter (\<lambda>i. pinned (metas ! i) \<or> i = ti) ?n"
    using at by (auto intro!: filter_cong simp: pinned_def)
  define P where "P = sort_key ?e (filter (\<lambda>i. pinned (metas ! i)) ?n)"
  define P' where "P' = sort_key ?e (filter (\<lambda>i. pinned (metas ! i) \<or> i = ti) ?n)"
  have "P = filter (\<lambda>i. i \<noteq> ti) P'"
    using assms(2) unfolding P_def P'_def filter_sort filter_filter
    by (intro arg_cong [of _ _ "sort_key ?e"] filter_cong) auto
  moreover have "ti \<in> set P'" "distinct P'" using assms(1) by (auto simp: P'_def)
  then obtain xs ys where xy: "P' = xs @ ti # ys" "ti \<notin> set (xs @ ys)" by (auto dest!: split_list)
  moreover have "filter (\<lambda>i. i \<noteq> ti) xs = xs" "filter (\<lambda>i. i \<noteq> ti) ys = ys"
    using xy(2) by (auto simp: filter_id_conv)
  ultimately have "P = xs @ ys" by simp
  moreover have "set P = {j. j < length metas \<and> pinned (metas ! j)}" by (auto simp: P_def)
  moreover have "auto_sequence metas = P @ sort_key ?e (filter (\<lambda>i. \<not> pinned (metas ! i)) ?n)"
    by (simp add: auto_sequence_eq P_def)
  moreover have "auto_sequence metas' = P' @ sort_key ?e (filter (\<lambda>i. \<not> pinned (metas' ! i)) ?n)"
    by (simp add: auto_sequence_eq e p P'_def len)
  ultimately show ?thesis using that xy by simp
qed

lemma auto_times_cong:
  "(\<And>i. i \<in> set seq \<Longrightarrow> cands' ! i = cands ! i) \<Longrightarrow> auto_times sep cands' committed seq = auto_times sep cands committed seq"
  by (induction seq arbitrary: committed) (simp_all add: Let_def)

lemma auto_times_insert:
  assumes "\<And>i. i \<in> set seq \<Longrightarrow> cands' ! i = cands ! i"
    and "\<And>k. k < length seq \<Longrightarrow> sep (cands ! (seq ! k)) \<le> \<bar>auto_times sep cands (a @ b) seq ! k - c\<bar>"
  shows "auto_times sep cands' (a @ c # b) seq = auto_times sep cands (a @ b) seq"
  using assms
proof (induction seq arbitrary: b)
  case (Cons i seq)
  let ?at = "auto_at sep (cands ! i) (a @ b)"
  have "auto_at sep (cands' ! i) (a @ c # b) = ?at"
  proof (cases "mi_frozen_ms (cands ! i)")
    case None
    with Cons.prems(2) [of 0] have "sep (cands ! i) \<le> \<bar>earliest_slot (mi_eta_ms (cands ! i)) (a @ b) (sep (cands ! i)) - c\<bar>"
      by (simp add: Let_def auto_at_def)
    then show ?thesis
      using Cons.prems(1) [of i] None earliest_slot_insert [of "a @ c # b" c "a @ b"] by (simp add: auto_at_def)
  qed (use Cons.prems(1) [of i] in \<open>simp add: auto_at_def\<close>)
  moreover have "auto_times sep cands' (a @ c # (b @ [?at])) seq = auto_times sep cands (a @ (b @ [?at])) seq"
  proof (rule Cons.IH)
    show "sep (cands ! (seq ! k)) \<le> \<bar>auto_times sep cands (a @ b @ [?at]) seq ! k - c\<bar>" if "k < length seq" for k
      using Cons.prems(2) [of "Suc k"] that by (simp add: Let_def)
  qed (use Cons.prems(1) in simp)
  ultimately show ?case by (simp add: Let_def)
qed simp


definition sample_area :: fca where
  "sample_area = new_fca 0 (lit ''f1'') None None"

definition sample_line :: "unit meter_input list" where
  "sample_line = [sample_crossing 0 True None, sample_crossing 10000 True None, sample_crossing 20000 False None]"


end
