(* ===== verification/Releases.thy ===== *)
theory Releases
  imports ReleaseAuthority FlowMetering
begin

text \<open>
  Frozen releases, the table \<open>flow.fca_release\<close> of \<open>backend/src/repos/flow.rs\<close>, and issued CFRs, the
  table \<open>tmu.issued_cfrs\<close> of \<open>repos/tmu.rs\<close>: two tables written by different statements under the one
  contract \<open>held_table\<close>, which both interpret.
\<close>

section \<open>Releases\<close>

record release =
  rl_fca :: ustr
  rl_callsign :: ustr
  rl_cta_ms :: int
  rl_edct_ms :: int
  rl_by_user :: "ustr option"
  rl_by_actor :: "ustr option"
  rl_version :: int

definition rl_key :: "release \<Rightarrow> ustr \<times> ustr" where
  "rl_key r = (rl_fca r, rl_callsign r)"

definition release_holder :: "actors \<Rightarrow> release list \<Rightarrow> ustr \<Rightarrow> ustr \<Rightarrow> release_holding option" where
  "release_holder actors rs fca callsign =
     map_option (\<lambda>r. holder_of (rl_version r) (machine_of actors (rl_by_actor r)))
       (find (\<lambda>r. rl_fca r = fca \<and> rl_callsign r = callsign) rs)"

definition release_holders :: "actors \<Rightarrow> release list \<Rightarrow> ustr \<Rightarrow> (ustr \<times> release_holding) list" where
  "release_holders actors rs fca =
     map (\<lambda>r. (rl_callsign r, holder_of (rl_version r) (machine_of actors (rl_by_actor r))))
       (filter (\<lambda>r. rl_fca r = fca) rs)"

definition list_releases :: "release list \<Rightarrow> ustr \<Rightarrow> (ustr \<times> int \<times> int) list" where
  "list_releases rs fca = map (\<lambda>r. (rl_callsign r, rl_cta_ms r, rl_edct_ms r)) (filter (\<lambda>r. rl_fca r = fca) rs)"

definition stored_release :: "int \<Rightarrow> int \<Rightarrow> attribution \<Rightarrow> release \<Rightarrow> release" where
  "stored_release cta edct by r = r\<lparr>rl_cta_ms := cta, rl_edct_ms := edct,
     rl_by_user := at_user_id by, rl_by_actor := at_actor_id by, rl_version := rl_version r + 1\<rparr>"

definition new_release :: "ustr \<Rightarrow> ustr \<Rightarrow> int \<Rightarrow> int \<Rightarrow> attribution \<Rightarrow> release" where
  "new_release fca callsign cta edct by = \<lparr>rl_fca = fca, rl_callsign = callsign, rl_cta_ms = cta, rl_edct_ms = edct,
     rl_by_user = at_user_id by, rl_by_actor = at_actor_id by, rl_version = 1\<rparr>"

definition upsert_release ::
    "ustr \<Rightarrow> ustr \<Rightarrow> int \<Rightarrow> int \<Rightarrow> attribution \<Rightarrow> expect option \<Rightarrow> release list \<Rightarrow> int option \<times> release list" where
  "upsert_release fca callsign cta edct by expect rs =
     (let here = (\<lambda>r. rl_fca r = fca \<and> rl_callsign r = callsign); new = new_release fca callsign cta edct by
      in case expect of
        None \<Rightarrow> (case find here rs of
            None \<Rightarrow> (Some 1, rs @ [new])
          | Some r \<Rightarrow> (Some (rl_version r + 1), map (\<lambda>r. if here r then stored_release cta edct by r else r) rs))
      | Some Absent \<Rightarrow> if list_ex here rs then (None, rs) else (Some 1, rs @ [new])
      | Some (Version v) \<Rightarrow>
          (let hit = (\<lambda>r. here r \<and> rl_version r = v \<and> holds_or_person by (rl_by_actor r))
           in (map_option (\<lambda>r. rl_version r + 1) (find hit rs),
               map (\<lambda>r. if hit r then stored_release cta edct by r else r) rs)))"

text \<open>The other row of a swap, in the self-join of the update; it reads the rows as they were.\<close>

definition swap_partner :: "ustr \<Rightarrow> ustr \<Rightarrow> ustr \<Rightarrow> attribution \<Rightarrow> release list \<Rightarrow> release \<Rightarrow> release option" where
  "swap_partner fca a b by rs r =
     (if rl_fca r = fca then
        find (\<lambda>other. rl_fca other = fca \<and>
          (rl_callsign r = a \<and> rl_callsign other = b \<or> rl_callsign r = b \<and> rl_callsign other = a) \<and>
          holds_or_person by (rl_by_actor r) \<and> holds_or_person by (rl_by_actor other)) rs
      else None)"

definition swap_releases :: "ustr \<Rightarrow> ustr \<Rightarrow> ustr \<Rightarrow> attribution \<Rightarrow> release list \<Rightarrow> bool \<times> release list" where
  "swap_releases fca a b by rs =
     (length (filter (\<lambda>r. swap_partner fca a b by rs r \<noteq> None) rs) = 2,
      map (\<lambda>r. case swap_partner fca a b by rs r of
          None \<Rightarrow> r
        | Some other \<Rightarrow> stored_release (rl_cta_ms other) (rl_edct_ms other) by r) rs)"

definition delete_release :: "ustr \<Rightarrow> ustr \<Rightarrow> int option \<Rightarrow> attribution \<Rightarrow> release list \<Rightarrow> bool \<times> release list" where
  "delete_release fca callsign version by rs =
     (let hit = (\<lambda>r. rl_fca r = fca \<and> rl_callsign r = callsign \<and>
            (case version of None \<Rightarrow> True | Some v \<Rightarrow> rl_version r = v) \<and> holds_or_person by (rl_by_actor r))
      in (list_ex hit rs, filter (\<lambda>r. \<not> hit r) rs))"

section \<open>Issued CFRs\<close>

record issued_cfr =
  ic_callsign :: ustr
  ic_airport :: ustr
  ic_wheels_up :: int
  ic_by_user :: "ustr option"
  ic_by_actor :: "ustr option"
  ic_issued_at :: int
  ic_version :: int

definition issued_cfr_map :: "issued_cfr list \<Rightarrow> ustr \<Rightarrow> (ustr \<times> int) list" where
  "issued_cfr_map cs airport = map (\<lambda>c. (ic_callsign c, ic_wheels_up c)) (filter (\<lambda>c. ic_airport c = airport) cs)"

definition get_issued_cfr :: "issued_cfr list \<Rightarrow> ustr \<Rightarrow> issued_cfr option" where
  "get_issued_cfr cs callsign = find (\<lambda>c. ic_callsign c = callsign) cs"

definition cfr_holder :: "actors \<Rightarrow> issued_cfr list \<Rightarrow> ustr \<Rightarrow> release_holding option" where
  "cfr_holder actors cs callsign =
     map_option (\<lambda>c. holder_of (ic_version c) (machine_of actors (ic_by_actor c))) (get_issued_cfr cs callsign)"

definition stored_cfr :: "int \<Rightarrow> ustr \<Rightarrow> int \<Rightarrow> attribution \<Rightarrow> issued_cfr \<Rightarrow> issued_cfr" where
  "stored_cfr now airport wheels_up by c = c\<lparr>ic_airport := airport, ic_wheels_up := wheels_up,
     ic_by_user := at_user_id by, ic_by_actor := at_actor_id by, ic_issued_at := now, ic_version := ic_version c + 1\<rparr>"

definition upsert_issued_cfr ::
    "int \<Rightarrow> ustr \<Rightarrow> ustr \<Rightarrow> int \<Rightarrow> attribution \<Rightarrow> expect option \<Rightarrow> issued_cfr list \<Rightarrow> int option \<times> issued_cfr list" where
  "upsert_issued_cfr now callsign airport wheels_up by expect cs =
     (let here = (\<lambda>c. ic_callsign c = callsign);
          new = \<lparr>ic_callsign = callsign, ic_airport = airport, ic_wheels_up = wheels_up,
                 ic_by_user = at_user_id by, ic_by_actor = at_actor_id by, ic_issued_at = now, ic_version = 1\<rparr>
      in case expect of
        None \<Rightarrow> (case find here cs of
            None \<Rightarrow> (Some 1, cs @ [new])
          | Some c \<Rightarrow> (Some (ic_version c + 1), map (\<lambda>c. if here c then stored_cfr now airport wheels_up by c else c) cs))
      | Some Absent \<Rightarrow> if list_ex here cs then (None, cs) else (Some 1, cs @ [new])
      | Some (Version v) \<Rightarrow>
          (let hit = (\<lambda>c. here c \<and> ic_version c = v \<and> holds_or_person by (ic_by_actor c))
           in (map_option (\<lambda>c. ic_version c + 1) (find hit cs),
               map (\<lambda>c. if hit c then stored_cfr now airport wheels_up by c else c) cs)))"

definition delete_issued_cfr :: "ustr \<Rightarrow> int option \<Rightarrow> attribution \<Rightarrow> issued_cfr list \<Rightarrow> bool \<times> issued_cfr list" where
  "delete_issued_cfr callsign version by cs =
     (let hit = (\<lambda>c. ic_callsign c = callsign \<and>
            (case version of None \<Rightarrow> True | Some v \<Rightarrow> ic_version c = v) \<and> holds_or_person by (ic_by_actor c))
      in (list_ex hit cs, filter (\<lambda>c. \<not> hit c) cs))"

definition prune_stale_cfrs :: "int \<Rightarrow> issued_cfr list \<Rightarrow> issued_cfr list" where
  "prune_stale_cfrs now cs = filter (\<lambda>c. \<not> ic_issued_at c < now - 12 * 60 * minute_ms) cs"

section \<open>Both are tables of held rows\<close>

text \<open>A write in the vocabulary of the contract, run by the statements above.\<close>

fun run_release :: "(ustr \<times> ustr, int \<times> int) row_write \<Rightarrow> release list \<Rightarrow> bool \<times> release list" where
  "run_release (Store (fca, cs) (cta, edct) by e) rs =
     (case upsert_release fca cs cta edct by e rs of (v, rs') \<Rightarrow> (v \<noteq> None, rs'))"
| "run_release (Clear (fca, cs) v by) rs = delete_release fca cs v by rs"

fun run_cfr :: "(ustr, int \<times> ustr \<times> int) row_write \<Rightarrow> issued_cfr list \<Rightarrow> bool \<times> issued_cfr list" where
  "run_cfr (Store callsign (now, airport, wheels_up) by e) cs =
     (case upsert_issued_cfr now callsign airport wheels_up by e cs of (v, cs') \<Rightarrow> (v \<noteq> None, cs'))"
| "run_cfr (Clear callsign v by) cs = delete_issued_cfr callsign v by cs"

definition new_cfr :: "ustr \<Rightarrow> int \<times> ustr \<times> int \<Rightarrow> attribution \<Rightarrow> issued_cfr" where
  "new_cfr callsign v by = (case v of (now, airport, wheels_up) \<Rightarrow>
     \<lparr>ic_callsign = callsign, ic_airport = airport, ic_wheels_up = wheels_up,
      ic_by_user = at_user_id by, ic_by_actor = at_actor_id by, ic_issued_at = now, ic_version = 1\<rparr>)"

abbreviation look_release :: "release list \<Rightarrow> ustr \<times> ustr \<Rightarrow> (int \<times> ustr option) option" where
  "look_release \<equiv> rows_look rl_key rl_version rl_by_actor"

abbreviation look_cfr :: "issued_cfr list \<Rightarrow> ustr \<Rightarrow> (int \<times> ustr option) option" where
  "look_cfr \<equiv> rows_look ic_callsign ic_version ic_by_actor"

lemma rl_key_iff: "rl_fca r = fca \<and> rl_callsign r = cs \<longleftrightarrow> rl_key r = (fca, cs)"
  by (simp add: rl_key_def)

lemma run_release_rows:
  "run_release = rows_run rl_key rl_version rl_by_actor (\<lambda>(cta, edct). stored_release cta edct)
     (\<lambda>(fca, cs) (cta, edct). new_release fca cs cta edct)"
proof (intro ext)
  fix w :: "(ustr \<times> ustr, int \<times> int) row_write" and rs
  show "run_release w rs = rows_run rl_key rl_version rl_by_actor (\<lambda>(cta, edct). stored_release cta edct)
     (\<lambda>(fca, cs) (cta, edct). new_release fca cs cta edct) w rs"
    by (cases "(w, rs)" rule: run_release.cases)
      (simp_all add: upsert_release_def delete_release_def rows_upsert_def rows_delete_def Let_def rl_key_iff [symmetric] conj_assoc
        split: option.splits expect.splits)
qed

lemma run_cfr_rows:
  "run_cfr = rows_run ic_callsign ic_version ic_by_actor (\<lambda>(now, airport, wheels_up). stored_cfr now airport wheels_up) new_cfr"
proof (intro ext)
  fix w :: "(ustr, int \<times> ustr \<times> int) row_write" and cs
  show "run_cfr w cs = rows_run ic_callsign ic_version ic_by_actor (\<lambda>(now, airport, wheels_up). stored_cfr now airport wheels_up) new_cfr w cs"
    by (cases "(w, cs)" rule: run_cfr.cases)
      (simp_all add: upsert_issued_cfr_def delete_issued_cfr_def rows_upsert_def rows_delete_def Let_def new_cfr_def
        split: option.splits expect.splits)
qed

interpretation rel: held_rows rl_key rl_version rl_by_actor "\<lambda>(cta, edct). stored_release cta edct"
    "\<lambda>(fca, cs) (cta, edct). new_release fca cs cta edct"
  rewrites "rows_run rl_key rl_version rl_by_actor (\<lambda>(cta, edct). stored_release cta edct)
     (\<lambda>(fca, cs) (cta, edct). new_release fca cs cta edct) = run_release"
  by unfold_locales (auto simp: stored_release_def new_release_def rl_key_def run_release_rows)

interpretation icfr: held_rows ic_callsign ic_version ic_by_actor "\<lambda>(now, airport, wheels_up). stored_cfr now airport wheels_up" new_cfr
  rewrites "rows_run ic_callsign ic_version ic_by_actor (\<lambda>(now, airport, wheels_up). stored_cfr now airport wheels_up) new_cfr = run_cfr"
  by unfold_locales (auto simp: stored_cfr_def new_cfr_def run_cfr_rows)

end
