(* ===== verification/ReleaseHandlers.thy ===== *)
theory ReleaseHandlers
  imports Releases
begin

text \<open>
  The endpoints that write releases (\<open>mark_release\<close>, \<open>clear_release\<close>, \<open>swap_releases\<close> of
  \<open>backend/src/handlers/flow.rs\<close>) and CFRs (\<open>issue_cfr\<close>, \<open>release_cfr\<close> of \<open>handlers/feed.rs\<close>). Each reads the
  table, computes, and writes later: it has two tables as arguments, the one its reads saw and the one the
  write finds, because other requests run in between. \<open>attr\<close> is the attribution of a principal,
  \<open>cand\<close> the crossing candidates of an area (\<open>build_candidates\<close>: feed, routes and winds in
  \<open>f64\<close>; none without a snapshot), \<open>slot\<close> and \<open>proposed\<close> the runway slot and the proposed wheels-up of the
  arrival flow, \<open>artcc_for\<close> the ARTCC that owns an airport, \<open>runway\<close> the departure runway assigned to a flight.
\<close>

section \<open>Releases\<close>

type_synonym 'sp candidates = "fca \<Rightarrow> (ustr \<times> int \<times> int) list \<Rightarrow> (fca_flight list \<times> 'sp meter_input list) option"

definition annotate_releases :: "fca_flight list \<Rightarrow> (ustr \<times> release_holding) list \<Rightarrow> fca_flight list" where
  "annotate_releases flights holders =
     map (\<lambda>g. g\<lparr>ff_release_version := map_option rh_version (map_of holders (ff_callsign g))\<rparr>) flights"

definition released_time ::
    "(int \<Rightarrow> 'sp \<Rightarrow> int) \<Rightarrow> fca \<Rightarrow> fca_flight list \<Rightarrow> 'sp meter_input list \<Rightarrow> nat \<Rightarrow> int \<Rightarrow> ustr option \<Rightarrow> int result" where
  "released_time mit_ms f flights metas ti now ready =
     (let eta = mi_eta_ms (metas ! ti); allowance = mi_ground_allowance_ms (metas ! ti);
          order = manual_order f flights; metered = meter mit_ms metas (fc_mode f) (fc_rate f) (fc_mit f) order
      in case option_filter (\<lambda>s. trim s \<noteq> []) ready of
        Some r \<Rightarrow> bind_result (ok_or BadRequest (parse_hhmm_z r now)) (\<lambda>ready_ms. Inr (ready_ms + (eta - now - allowance)))
      | None \<Rightarrow> Inr (rdy_slot mit_ms f metas metered ti (order \<noteq> None)))"

definition mark_release ::
    "(int \<Rightarrow> 'sp \<Rightarrow> int) \<Rightarrow> (int \<Rightarrow> 'sp \<Rightarrow> int) \<Rightarrow> 'sp candidates \<Rightarrow> actors \<Rightarrow> (principal \<Rightarrow> attribution) \<Rightarrow> int \<Rightarrow>
     scopes \<Rightarrow> principal \<Rightarrow> ustr \<Rightarrow> ustr \<Rightarrow> conditions \<Rightarrow> ustr option \<Rightarrow> fca list \<Rightarrow> release list \<Rightarrow> release list \<Rightarrow>
     ((ustr \<times> fca_flight list) \<times> release list) result" where
  "mark_release mit_ms track_nm cand actors attr now sc p i raw headers ready fs rs rs' =
     bind_result (ok_or NotFound (get_fca fs i)) (\<lambda>f.
     bind_result (require_visible_event_fca sc f) (\<lambda>_.
     bind_result (require_fca_scope sc f) (\<lambda>_.
     let callsign = ascii_upper raw; by = attr p in
     bind_result (precondition headers p) (\<lambda>expect.
     bind_result (authorize p (at_actor_id by) (release_holder actors rs i callsign)) (\<lambda>_.
     bind_result (ok_or ServiceUnavailable (cand f (list_releases rs i))) (\<lambda>(flights, metas).
     bind_result (ok_or NotFound (position (\<lambda>g. ff_callsign g = callsign) flights)) (\<lambda>ti.
     let eta = mi_eta_ms (metas ! ti); allowance = mi_ground_allowance_ms (metas ! ti) in
     bind_result (released_time mit_ms f flights metas ti now ready) (\<lambda>cta.
     let edct = release_ms cta eta now allowance in
     (case upsert_release i callsign cta edct by expect rs' of
        (None, _) \<Rightarrow> Inl (PreconditionFailed (map_option rh_version (release_holder actors rs' i callsign)))
      | (Some version, rs'') \<Rightarrow>
          let metas' = metas[ti := (metas ! ti)\<lparr>mi_frozen_ms := Some cta\<rparr>];
              flights' = flights[ti := (flights ! ti)\<lparr>ff_released := True, ff_edct := Some edct\<rparr>]
          in Inr ((etag version,
               annotate_releases (finalize mit_ms track_nm f flights' metas') (release_holders actors rs'' i)), rs''))))))))))"

definition clear_release ::
    "(int \<Rightarrow> 'sp \<Rightarrow> int) \<Rightarrow> (int \<Rightarrow> 'sp \<Rightarrow> int) \<Rightarrow> 'sp candidates \<Rightarrow> actors \<Rightarrow> (principal \<Rightarrow> attribution) \<Rightarrow>
     scopes \<Rightarrow> principal \<Rightarrow> ustr \<Rightarrow> ustr \<Rightarrow> conditions \<Rightarrow> fca list \<Rightarrow> release list \<Rightarrow> release list \<Rightarrow>
     (fca_flight list \<times> release list) result" where
  "clear_release mit_ms track_nm cand actors attr sc p i raw headers fs rs rs' =
     bind_result (ok_or NotFound (get_fca fs i)) (\<lambda>f.
     bind_result (require_visible_event_fca sc f) (\<lambda>_.
     bind_result (require_fca_scope sc f) (\<lambda>_.
     let callsign = ascii_upper raw; by = attr p in
     bind_result (clear_version headers p) (\<lambda>version.
     let holder = release_holder actors rs i callsign in
     bind_result (if holder \<noteq> None then authorize p (at_actor_id by) holder else Inr ()) (\<lambda>_.
     (case delete_release i callsign version by rs' of
        (deleted, rs'') \<Rightarrow>
          if \<not> deleted \<and> version \<noteq> None then Inl (PreconditionFailed (map_option rh_version holder))
          else (case cand f (list_releases rs'' i) of
              None \<Rightarrow> Inr ([], rs'')
            | Some (flights, metas) \<Rightarrow>
                Inr (annotate_releases (finalize mit_ms track_nm f flights metas) (release_holders actors rs'' i), rs''))))))))"

text \<open>\<open>same_departure_slot\<close>: pilots and prefiles with the departure of their plan, none when the feed is empty.\<close>

type_synonym filed = "(ustr \<times> ustr option) list"

definition departure_of :: "(filed \<times> filed) option \<Rightarrow> ustr \<Rightarrow> ustr option" where
  "departure_of snapshot callsign = (case snapshot of
     None \<Rightarrow> None
   | Some (pilots, prefiles) \<Rightarrow>
       let plan_in = (\<lambda>xs. case find (\<lambda>(cs, _). ascii_lower cs = ascii_lower callsign) xs of
             Some (_, plan) \<Rightarrow> plan | None \<Rightarrow> None)
       in (case or_else (plan_in pilots) (plan_in prefiles) of
          None \<Rightarrow> None
        | Some departure \<Rightarrow> let dep = ascii_upper (trim departure) in if dep = [] then None else Some dep))"

definition same_departure_slot ::
    "(filed \<times> filed) option \<Rightarrow> (ustr \<Rightarrow> ustr \<Rightarrow> ustr option) \<Rightarrow> ustr \<Rightarrow> ustr \<Rightarrow> unit result" where
  "same_departure_slot snapshot runway a b =
     (case (departure_of snapshot a, departure_of snapshot b) of
        (Some dep_a, Some dep_b) \<Rightarrow>
          if dep_a \<noteq> dep_b then Inl (ConflictReason (lit ''different_departure''))
          else (case (runway dep_a a, runway dep_b b) of
              (Some runway_a, Some runway_b) \<Rightarrow>
                if runway_a \<noteq> runway_b then Inl (ConflictReason (lit ''different_runway'')) else Inr ()
            | _ \<Rightarrow> Inl (ConflictReason (lit ''runway_unassigned'')))
      | _ \<Rightarrow> Inl (ConflictReason (lit ''departure_unknown'')))"

definition authorize_both :: "actors \<Rightarrow> principal \<Rightarrow> attribution \<Rightarrow> release list \<Rightarrow> ustr \<Rightarrow> ustr \<Rightarrow> ustr \<Rightarrow> unit result" where
  "authorize_both actors p by rs i a b =
     bind_result (authorize p (at_actor_id by) (release_holder actors rs i a)) (\<lambda>_.
     authorize p (at_actor_id by) (release_holder actors rs i b))"

definition swap_releases_handler ::
    "(filed \<times> filed) option \<Rightarrow> (ustr \<Rightarrow> ustr \<Rightarrow> ustr option) \<Rightarrow> actors \<Rightarrow> (principal \<Rightarrow> attribution) \<Rightarrow>
     scopes \<Rightarrow> principal \<Rightarrow> ustr \<Rightarrow> ustr \<Rightarrow> ustr \<Rightarrow> fca list \<Rightarrow> release list \<Rightarrow> release list \<Rightarrow> release list result" where
  "swap_releases_handler snapshot runway actors attr sc p i raw_a raw_b fs rs rs' =
     (let a = ascii_upper (trim raw_a); b = ascii_upper (trim raw_b); by = attr p in
      if a = [] \<or> b = [] \<or> a = b then Inl BadRequest
      else
        bind_result (ok_or NotFound (get_fca fs i)) (\<lambda>f.
        bind_result (require_visible_event_fca sc f) (\<lambda>_.
        bind_result (require_fca_scope sc f) (\<lambda>_.
        bind_result (authorize_both actors p by rs i a b) (\<lambda>_.
        bind_result (same_departure_slot snapshot runway a b) (\<lambda>_.
        (case swap_releases i a b by rs' of
           (True, rs'') \<Rightarrow> Inr rs''
         | (False, rs'') \<Rightarrow>
             bind_result (if machine_actor by \<noteq> None then authorize_both actors p by rs'' i a b else Inr ())
               (\<lambda>_. Inl NotFound))))))))"

section \<open>Issued CFRs\<close>

definition CFR_ASSIGN_PERM :: ustr where "CFR_ASSIGN_PERM = lit ''tmu.cfr.assign''"

definition require_cfr_scope :: "(ustr \<Rightarrow> ustr option) \<Rightarrow> scopes \<Rightarrow> ustr \<Rightarrow> unit result" where
  "require_cfr_scope artcc_for sc airport =
     (if allows (sc CFR_ASSIGN_PERM) (artcc_for airport) then Inr () else Inl Forbidden)"

definition issue_cfr ::
    "(ustr \<Rightarrow> (ustr \<times> int) list \<Rightarrow> ustr \<Rightarrow> int \<Rightarrow> int option) \<Rightarrow> (ustr \<Rightarrow> ustr \<Rightarrow> int option) \<Rightarrow> (ustr \<Rightarrow> ustr option) \<Rightarrow>
     actors \<Rightarrow> (principal \<Rightarrow> attribution) \<Rightarrow> int \<Rightarrow> scopes \<Rightarrow> principal \<Rightarrow> ustr \<Rightarrow> ustr \<Rightarrow> int option \<Rightarrow> conditions \<Rightarrow>
     issued_cfr list \<Rightarrow> issued_cfr list \<Rightarrow> ((ustr \<times> issued_cfr) \<times> issued_cfr list) result" where
  "issue_cfr slot proposed artcc_for actors attr now sc p raw_callsign raw_airport ready headers cs cs' =
     (let callsign = ascii_upper (trim raw_callsign); airport = ascii_upper (trim raw_airport); by = attr p in
      if callsign = [] \<or> utf8_len airport < 3 then Inl BadRequest
      else
        bind_result (require_cfr_scope artcc_for sc airport) (\<lambda>_.
        bind_result (case get_issued_cfr cs callsign of
            Some existing \<Rightarrow> require_cfr_scope artcc_for sc (ic_airport existing) | None \<Rightarrow> Inr ()) (\<lambda>_.
        bind_result (precondition headers p) (\<lambda>expect.
        bind_result (authorize p (at_actor_id by) (cfr_holder actors cs callsign)) (\<lambda>_.
        let wheels_up = (case ready of
              Some r \<Rightarrow> (case slot airport (issued_cfr_map cs airport) callsign r of Some t \<Rightarrow> t | None \<Rightarrow> r)
            | None \<Rightarrow> (case proposed airport callsign of Some t \<Rightarrow> t | None \<Rightarrow> now))
        in (case upsert_issued_cfr now callsign airport wheels_up by expect cs' of
             (None, _) \<Rightarrow> Inl (PreconditionFailed (map_option rh_version (cfr_holder actors cs' callsign)))
           | (Some version, cs'') \<Rightarrow>
               let pruned = prune_stale_cfrs now cs'' in
               bind_result (ok_or Internal (get_issued_cfr pruned callsign)) (\<lambda>c. Inr ((etag version, c), pruned))))))))"

definition release_cfr ::
    "(ustr \<Rightarrow> ustr option) \<Rightarrow> actors \<Rightarrow> (principal \<Rightarrow> attribution) \<Rightarrow> scopes \<Rightarrow> principal \<Rightarrow> ustr \<Rightarrow> conditions \<Rightarrow>
     issued_cfr list \<Rightarrow> issued_cfr list \<Rightarrow> issued_cfr list result" where
  "release_cfr artcc_for actors attr sc p raw headers cs cs' =
     (let callsign = ascii_upper (trim raw); by = attr p in
      bind_result (clear_version headers p) (\<lambda>version.
      (case (cfr_holder actors cs callsign, get_issued_cfr cs callsign) of
         (Some holder, Some cfr) \<Rightarrow>
           bind_result (require_cfr_scope artcc_for sc (ic_airport cfr)) (\<lambda>_.
           bind_result (authorize p (at_actor_id by) (Some holder)) (\<lambda>_.
           (case delete_issued_cfr callsign version by cs' of
              (True, cs'') \<Rightarrow> Inr cs''
            | (False, _) \<Rightarrow> Inl (PreconditionFailed (Some (rh_version holder))))))
       | _ \<Rightarrow> Inl NotFound)))"

end
