(* ===== verification/ReleaseLife.thy ===== *)
theory ReleaseLife
  imports ReleaseHandlers FcaLife
begin

text \<open>
  What the endpoints of \<open>ReleaseHandlers\<close> promise: a machine changes only what it holds, a precondition
  is good for one write, a swap exchanges two times and nothing else, and an area hidden from the caller
  answers as an area that does not exist.
\<close>

section \<open>A machine changes only what it holds\<close>

lemma not_held: "machine_actor by \<noteq> None \<Longrightarrow> holds_or_person by a \<Longrightarrow> a = machine_actor by"
  by (auto simp: holds_or_person_def)

lemma machine_actor_machine:
  "is_machine p \<Longrightarrow> machine_actor (attribution_in ru rk rs p) \<noteq> None"
  by (simp add: machine_actor_def machine_attribution)

lemma upsert_release_spares:
  assumes "machine_actor by \<noteq> None" and "e \<noteq> None" and "upsert_release fca cs cta edct by e rs = (n, rs')"
    and "r \<in> set rs" and "rl_by_actor r \<noteq> machine_actor by"
  shows "r \<in> set rs'"
  using assms not_held [OF assms(1)]
  by (auto simp: upsert_release_def Let_def image_iff split: expect.splits if_splits)

lemma delete_release_spares:
  assumes "machine_actor by \<noteq> None" and "delete_release fca cs v by rs = (d, rs')"
    and "r \<in> set rs" and "rl_by_actor r \<noteq> machine_actor by"
  shows "r \<in> set rs'"
  using assms not_held [OF assms(1)] by (auto simp: delete_release_def Let_def)

lemma swap_releases_spares:
  assumes "machine_actor by \<noteq> None" and "swap_releases fca a b by rs = (d, rs')"
    and "r \<in> set rs" and "rl_by_actor r \<noteq> machine_actor by"
  shows "r \<in> set rs'"
proof -
  have "swap_partner fca a b by rs r = None"
    using not_held [OF assms(1)] assms(4) by (auto simp: swap_partner_def find_None)
  then show ?thesis using assms(2,3) by (auto simp: swap_releases_def image_iff intro!: bexI [of _ r])
qed

lemma machine_precondition: "is_machine p \<Longrightarrow> precondition headers p = Inr e \<Longrightarrow> e \<noteq> None"
  by (auto simp: precondition_def bind_result_Inr_iff split: if_splits)

lemma bind_result_InrE:
  "bind_result r f = Inr b \<Longrightarrow> (\<And>a. r = Inr a \<Longrightarrow> f a = Inr b \<Longrightarrow> P) \<Longrightarrow> P"
  by (auto simp: bind_result_Inr_iff)

lemma mark_release_writes:
  assumes "mark_release mit_ms track_nm cand actors attr now sc p i raw headers ready fs rs t = Inr ((tag, flights), t')"
  obtains e n cta edct where "precondition headers p = Inr e"
    "upsert_release i (ascii_upper raw) cta edct (attr p) e t = (Some n, t')" "tag = etag n"
  using assms that unfolding mark_release_def Let_def
  by (auto elim!: bind_result_InrE split: prod.split_asm option.split_asm)

lemma clear_release_writes:
  assumes "clear_release mit_ms track_nm cand actors attr sc p i raw headers fs rs t = Inr (flights, t')"
  obtains v d where "clear_version headers p = Inr v" "delete_release i (ascii_upper raw) v (attr p) t = (d, t')"
  using assms that unfolding clear_release_def Let_def
  by (auto elim!: bind_result_InrE split: prod.split_asm option.split_asm if_split_asm)

lemma swap_handler_writes:
  assumes "swap_releases_handler snapshot runway actors attr sc p i a b fs rs t = Inr t'"
  shows "swap_releases i (ascii_upper (trim a)) (ascii_upper (trim b)) (attr p) t = (True, t')"
    and "ascii_upper (trim a) \<noteq> ascii_upper (trim b)"
  using assms unfolding swap_releases_handler_def Let_def
  by (auto elim!: bind_result_InrE split: prod.split_asm bool.split_asm if_split_asm)

text \<open>C20. Whatever the table was when a machine's request read it, when the machine's write lands every release
  that the machine does not hold at that moment is still there unchanged, on each of the three endpoints.\<close>

theorem machine_spares_releases:
  assumes "is_machine p" and attr: "attr = attribution_in ru rk rs_actor"
    and r: "r \<in> set t" "rl_by_actor r \<noteq> machine_actor (attr p)"
  shows "(mark_release mit_ms track_nm cand actors attr now sc p i cs headers ready fs read t = Inr (x, t') \<longrightarrow> r \<in> set t') \<and>
    (clear_release mit_ms track_nm cand actors attr sc p i cs headers fs read t = Inr (y, t') \<longrightarrow> r \<in> set t') \<and>
    (swap_releases_handler snapshot runway actors attr sc p i a b fs read t = Inr t' \<longrightarrow> r \<in> set t')"
proof -
  have m: "machine_actor (attr p) \<noteq> None" using machine_actor_machine [OF assms(1)] by (simp add: attr)
  show ?thesis
  proof (intro conjI impI)
    assume mark: "mark_release mit_ms track_nm cand actors attr now sc p i cs headers ready fs read t = Inr (x, t')"
    obtain tag flights where x: "x = (tag, flights)" by fastforce
    show "r \<in> set t'"
      using mark unfolding x
    proof (rule mark_release_writes)
      fix e n cta edct assume e: "precondition headers p = Inr e"
        "upsert_release i (ascii_upper cs) cta edct (attr p) e t = (Some n, t')"
      from machine_precondition [OF assms(1) e(1)] show "r \<in> set t'" by (rule upsert_release_spares [OF m _ e(2) r])
    qed
  next
    assume "clear_release mit_ms track_nm cand actors attr sc p i cs headers fs read t = Inr (y, t')"
    with delete_release_spares [OF m _ r] show "r \<in> set t'" by (blast elim: clear_release_writes)
  next
    assume "swap_releases_handler snapshot runway actors attr sc p i a b fs read t = Inr t'"
    from swap_handler_writes(1) [OF this] show "r \<in> set t'" by (rule swap_releases_spares [OF m _ r])
  qed
qed

lemma upsert_cfr_spares:
  assumes "machine_actor by \<noteq> None" and "e \<noteq> None" and "upsert_issued_cfr now cs airport w by e t = (n, t')"
    and "c \<in> set t" and "ic_by_actor c \<noteq> machine_actor by"
  shows "c \<in> set t'"
  using assms not_held [OF assms(1)]
  by (auto simp: upsert_issued_cfr_def Let_def image_iff split: expect.splits if_splits)

lemma delete_cfr_spares:
  assumes "machine_actor by \<noteq> None" and "delete_issued_cfr cs v by t = (d, t')"
    and "c \<in> set t" and "ic_by_actor c \<noteq> machine_actor by"
  shows "c \<in> set t'"
  using assms not_held [OF assms(1)] by (auto simp: delete_issued_cfr_def Let_def)

lemma issue_cfr_writes:
  assumes "issue_cfr slot proposed artcc_for actors attr now sc p raw airport ready headers read t = Inr ((tag, c), t')"
  obtains e n w u where "precondition headers p = Inr e" "tag = etag n" "t' = prune_stale_cfrs now u"
    "upsert_issued_cfr now (ascii_upper (trim raw)) (ascii_upper (trim airport)) w (attr p) e t = (Some n, u)"
  using assms that unfolding issue_cfr_def Let_def
  by (auto elim!: bind_result_InrE split: prod.split_asm option.split_asm if_split_asm)

text \<open>The same for issued CFRs: a machine's write leaves every CFR it does not hold, except that issuing one
  prunes those issued more than twelve hours ago.\<close>

theorem machine_spares_cfrs:
  assumes "is_machine p" and attr: "attr = attribution_in ru rk rs_actor"
    and c: "c \<in> set t" "ic_by_actor c \<noteq> machine_actor (attr p)"
  shows "(issue_cfr slot proposed artcc_for actors attr now sc p raw airport ready headers read t = Inr (x, t') \<and>
      now - 12 * 60 * minute_ms \<le> ic_issued_at c \<longrightarrow> c \<in> set t') \<and>
    (release_cfr artcc_for actors attr sc p raw headers read t = Inr t' \<longrightarrow> c \<in> set t')"
proof -
  have m: "machine_actor (attr p) \<noteq> None" using machine_actor_machine [OF assms(1)] by (simp add: attr)
  show ?thesis
  proof (intro conjI impI)
    assume issue: "issue_cfr slot proposed artcc_for actors attr now sc p raw airport ready headers read t = Inr (x, t') \<and>
      now - 12 * 60 * minute_ms \<le> ic_issued_at c"
    obtain tag body where x: "x = (tag, body)" by fastforce
    show "c \<in> set t'"
      using issue [THEN conjunct1] unfolding x
    proof (rule issue_cfr_writes)
      fix e n w u assume e: "precondition headers p = Inr e" "t' = prune_stale_cfrs now u"
        "upsert_issued_cfr now (ascii_upper (trim raw)) (ascii_upper (trim airport)) w (attr p) e t = (Some n, u)"
      from machine_precondition [OF assms(1) e(1)] have "c \<in> set u" by (rule upsert_cfr_spares [OF m _ e(3) c])
      with issue e(2) show "c \<in> set t'" by (simp add: prune_stale_cfrs_def)
    qed
  next
    assume "release_cfr artcc_for actors attr sc p raw headers read t = Inr t'"
    then obtain v where "delete_issued_cfr (ascii_upper (trim raw)) v (attr p) t = (True, t')"
      unfolding release_cfr_def Let_def
      by (auto elim!: bind_result_InrE split: option.split_asm prod.split_asm bool.split_asm)
    with delete_cfr_spares [OF m _ c] show "c \<in> set t'" by blast
  qed
qed

section \<open>A precondition is good for one write\<close>

text \<open>Every statement that writes the table, with the row of one key not cleared.\<close>

inductive release_change :: "ustr \<times> ustr \<Rightarrow> release list \<Rightarrow> release list \<Rightarrow> bool" for k where
  stored: "upsert_release fca cs cta edct by e t = (n, t') \<Longrightarrow> release_change k t t'"
| swapped: "swap_releases fca a b by t = (d, t') \<Longrightarrow> release_change k t t'"
| cleared: "delete_release fca cs v by t = (d, t') \<Longrightarrow> (fca, cs) \<noteq> k \<Longrightarrow> release_change k t t'"

definition keyed_releases :: "release list \<Rightarrow> bool" where
  "keyed_releases t \<longleftrightarrow> distinct (map rl_key t)"

definition version_kept :: "ustr \<times> ustr \<Rightarrow> release list \<Rightarrow> release list \<Rightarrow> bool" where
  "version_kept k t t' \<longleftrightarrow> (\<forall>n a. look_release t k = Some (n, a) \<longrightarrow> (\<exists>m b. look_release t' k = Some (m, b) \<and> n \<le> m))"

lemma find_key_map_all: "(\<And>r. key (f r) = key r) \<Longrightarrow> find (\<lambda>r. key r = k) (map f rs) = map_option f (find (\<lambda>r. key r = k) rs)"
  by (induction rs) auto

lemma swap_releases_rows:
  "snd (swap_releases fca a b by t) = map (\<lambda>r. case swap_partner fca a b by t r of
      None \<Rightarrow> r | Some other \<Rightarrow> stored_release (rl_cta_ms other) (rl_edct_ms other) by r) t"
  by (simp add: swap_releases_def)

lemma swap_keeps_keys:
  "rl_key (case x of None \<Rightarrow> r | Some other \<Rightarrow> stored_release (rl_cta_ms other) (rl_edct_ms other) by r) = rl_key r"
  by (simp add: rl_key_def stored_release_def split: option.split)

lemma release_change_keeps:
  assumes "release_change k t t'" and "keyed_releases t"
  shows "keyed_releases t' \<and> version_kept k t t'"
  using assms(1)
proof cases
  case (stored fca cs cta edct "by" e n)
  then have t': "t' = snd (run_release (Store (fca, cs) (cta, edct) by e) t)" by simp
  show ?thesis
    using rel.keyed_run [of t] rel.version_grows_once [of t k _ _ "Store (fca, cs) (cta, edct) by e"] assms(2)
    unfolding t' keyed_releases_def version_kept_def by (simp del: run_release.simps)
next
  case (cleared fca cs v "by" d)
  then have t': "t' = snd (run_release (Clear (fca, cs) v by) t)" by simp
  show ?thesis
    using rel.keyed_run [of t] rel.version_grows_once [of t k _ _ "Clear (fca, cs) v by"] assms(2) cleared(2)
    unfolding t' keyed_releases_def version_kept_def by (simp del: run_release.simps)
next
  case (swapped fca a b "by" d)
  then have t': "t' = snd (swap_releases fca a b by t)" by simp
  have "map rl_key t' = map rl_key t" unfolding t' swap_releases_rows map_map o_def swap_keeps_keys ..
  moreover have "version_kept k t t'"
    unfolding t' swap_releases_rows version_kept_def rows_look_def find_key_map_all [where key = rl_key, OF swap_keeps_keys]
    by (cases "find (\<lambda>r. rl_key r = k) t") (auto simp: stored_release_def split: option.split)
  ultimately show ?thesis using assms(2) by (simp add: keyed_releases_def)
qed

lemma release_changes_keep:
  assumes "(release_change k)\<^sup>*\<^sup>* t t'" and "keyed_releases t"
  shows "keyed_releases t' \<and> version_kept k t t'"
  using assms
proof (induction rule: rtranclp_induct)
  case base
  then show ?case by (auto simp: version_kept_def)
next
  case (step u v)
  then have u: "keyed_releases u" "version_kept k t u" by auto
  from release_change_keeps [OF step(2) u(1)] u(2) show ?case
    unfolding version_kept_def by (meson order_trans)
qed

lemma precondition_any: "precondition headers p = Inr (Some e) \<Longrightarrow> precondition headers q = Inr (Some e)"
  by (auto simp: precondition_def bind_result_Inr_iff split: if_splits)

text \<open>C21. A release marked under a precondition is marked once. After the request went through, and whatever is
  written to the table except clearing that release, a request for the same flight with the same
  precondition, by anyone and with any times, is refused.\<close>

theorem retried_release_is_refused:
  assumes first: "mark_release mit_ms track_nm cand actors attr now sc p i raw headers ready fs read t = Inr (x, t1)"
    and e: "precondition headers p = Inr (Some e)" and "keyed_releases t"
    and between: "(release_change (i, ascii_upper raw))\<^sup>*\<^sup>* t1 t2"
    and again: "ascii_upper raw' = ascii_upper raw"
  shows "isl (mark_release mit_ms' track_nm' cand' actors' attr' now' sc' q i raw' headers ready' fs' read' t2)"
proof (rule ccontr)
  assume "\<not> isl (mark_release mit_ms' track_nm' cand' actors' attr' now' sc' q i raw' headers ready' fs' read' t2)"
  then obtain tag2 fl2 t3 where second: "mark_release mit_ms' track_nm' cand' actors' attr' now' sc' q i raw' headers ready' fs' read' t2 = Inr ((tag2, fl2), t3)"
    by (cases "mark_release mit_ms' track_nm' cand' actors' attr' now' sc' q i raw' headers ready' fs' read' t2") auto
  obtain tag fl where x: "x = (tag, fl)" by fastforce
  let ?k = "(i, ascii_upper raw)"
  from first x obtain n cta edct where up: "upsert_release i (ascii_upper raw) cta edct (attr p) (Some e) t = (Some n, t1)"
    using e by (auto elim: mark_release_writes)
  from second obtain m cta' edct' where up2: "upsert_release i (ascii_upper raw) cta' edct' (attr' q) (Some e) t2 = (Some m, t3)"
    using precondition_any [OF e, of q] again by (auto elim: mark_release_writes)
  let ?w = "Store ?k (cta, edct) (attr p) (Some e)"
  have run: "run_release ?w t = (True, t1)" using up by simp
  have k: "distinct (map rl_key t)" using assms(3) by (simp add: keyed_releases_def)
  have k1: "keyed_releases t1" using rel.keyed_run [OF k, of ?w] run by (simp add: keyed_releases_def)
  obtain l a where l: "look_release t1 ?k = Some (l, a)" using rel.effect [OF k, of ?w] run by simp
  obtain m' b where "look_release t2 ?k = Some (m', b)" "l \<le> m'" and k2: "keyed_releases t2"
    using release_changes_keep [OF between k1] l by (auto simp: version_kept_def)
  then have "\<not> fst (run_release (Store ?k (cta', edct') (attr' q) (Some e)) t2)"
    using rel.one_winner [OF k, of ?k "(cta, edct)" "attr p" e l a t2 m' b] run l by (simp add: keyed_releases_def del: run_release.simps)
  with up2 show False by simp
qed

text \<open>A cleared release starts again at version 1, so a version that named the row before the clear names the
  row after it too.\<close>

lemma cleared_release_restarts_versions:
  "let person = \<lambda>u. \<lparr>at_user_id = Some (lit u), at_actor_id = Some (lit u)\<rparr>;
       (v1, t1) = upsert_release (lit ''f'') (lit ''A'') 10 5 (person ''x'') (Some Absent) [];
       (_, t2) = delete_release (lit ''f'') (lit ''A'') None (person ''y'') t1;
       (v2, t3) = upsert_release (lit ''f'') (lit ''A'') 90 85 (person ''y'') (Some Absent) t2;
       (v3, t4) = upsert_release (lit ''f'') (lit ''A'') 20 15 (person ''x'') (Some (Version 1)) t3
   in v1 = Some 1 \<and> v2 = Some 1 \<and> v3 = Some 2 \<and> map rl_cta_ms t4 = [20]"
  by code_simp

section \<open>A swap exchanges two times\<close>

lemma holds_person: "at_user_id by \<noteq> None \<Longrightarrow> holds_or_person by a"
  by (auto simp: holds_or_person_def machine_actor_def)

lemma find_only:
  assumes "distinct (map key xs)" and "x \<in> set xs" and "P x" and "\<And>y. P y \<Longrightarrow> key y = key x"
  shows "find P xs = Some x"
  using assms
proof (induction xs)
  case (Cons y ys)
  show ?case
  proof (cases "y = x")
    case False
    with Cons.prems(1,2) have "x \<in> set ys" "key y \<noteq> key x" by auto
    moreover from this have "\<not> P y" using Cons.prems(4) by blast
    moreover have "find P ys = Some x"
    proof (rule Cons.IH)
      show "distinct (map key ys)" using Cons.prems(1) by simp
      show "key z = key x" if "P z" for z using Cons.prems(4) [OF that] .
    qed fact+
    ultimately show ?thesis by simp
  qed (use Cons.prems(3) in simp)
qed simp

lemma rl_key_inj: "keyed_releases t \<Longrightarrow> r \<in> set t \<Longrightarrow> s \<in> set t \<Longrightarrow> rl_key r = rl_key s \<Longrightarrow> r = s"
  by (auto simp: keyed_releases_def distinct_map dest: inj_onD)

lemma swap_partner_row:
  assumes "keyed_releases t" and "ra \<in> set t" "rb \<in> set t" and "rl_key ra = (fca, a)" "rl_key rb = (fca, b)" and "a \<noteq> b"
    and "holds_or_person by (rl_by_actor ra)" "holds_or_person by (rl_by_actor rb)" and "r \<in> set t"
  shows "swap_partner fca a b by t r = (if r = ra then Some rb else if r = rb then Some ra else None)"
proof -
  have uniq: "r = ra \<longleftrightarrow> rl_key r = (fca, a)" "r = rb \<longleftrightarrow> rl_key r = (fca, b)"
    using rl_key_inj [OF assms(1,9,2)] rl_key_inj [OF assms(1,9,3)] assms(4,5) by auto
  show ?thesis
  proof (cases "r = ra \<or> r = rb")
    case True
    have "find (\<lambda>other. rl_fca other = fca \<and>
          (rl_callsign r = a \<and> rl_callsign other = b \<or> rl_callsign r = b \<and> rl_callsign other = a) \<and>
          holds_or_person by (rl_by_actor r) \<and> holds_or_person by (rl_by_actor other)) t = Some (if r = ra then rb else ra)"
      using assms True
      by (intro find_only [where key = rl_key]) (auto simp: keyed_releases_def rl_key_def split: if_splits)
    moreover have "rl_fca r = fca" using True assms(4,5) by (auto simp: rl_key_def)
    ultimately show ?thesis using True uniq by (auto simp: swap_partner_def)
  next
    case False
    with uniq show ?thesis by (auto simp: swap_partner_def find_None rl_key_def)
  qed
qed

text \<open>A swap of two released flights of one area, by someone who may change both, gives each row the other's
  times at its next version, changes no other row, and leaves as many rows as before.\<close>

theorem swap_exchanges_times:
  assumes "keyed_releases t" and "ra \<in> set t" "rb \<in> set t"
    and "rl_key ra = (fca, a)" "rl_key rb = (fca, b)" and "a \<noteq> b"
    and holds: "holds_or_person by (rl_by_actor ra)" "holds_or_person by (rl_by_actor rb)"
  shows "swap_releases fca a b by t = (True, map (\<lambda>r.
      if r = ra then stored_release (rl_cta_ms rb) (rl_edct_ms rb) by r
      else if r = rb then stored_release (rl_cta_ms ra) (rl_edct_ms ra) by r else r) t)"
proof -
  have partner: "swap_partner fca a b by t r = (if r = ra then Some rb else if r = rb then Some ra else None)"
    if "r \<in> set t" for r using swap_partner_row [OF assms that] .
  have "filter (\<lambda>r. swap_partner fca a b by t r \<noteq> None) t = filter (\<lambda>r. r = ra \<or> r = rb) t"
    by (rule filter_cong) (use partner in \<open>auto split: if_splits\<close>)
  moreover have "distinct t" using assms(1) by (simp add: keyed_releases_def distinct_map)
  then have "length (filter (\<lambda>r. r = ra \<or> r = rb) t) = card {r \<in> set t. r = ra \<or> r = rb}"
    by (simp add: distinct_length_filter Int_def conj_commute)
  moreover have "{r \<in> set t. r = ra \<or> r = rb} = {ra, rb}" "ra \<noteq> rb" using assms by auto
  ultimately have "length (filter (\<lambda>r. swap_partner fca a b by t r \<noteq> None) t) = 2" by simp
  moreover have "map (\<lambda>r. case swap_partner fca a b by t r of
      None \<Rightarrow> r | Some other \<Rightarrow> stored_release (rl_cta_ms other) (rl_edct_ms other) by r) t =
    map (\<lambda>r. if r = ra then stored_release (rl_cta_ms rb) (rl_edct_ms rb) by r
      else if r = rb then stored_release (rl_cta_ms ra) (rl_edct_ms ra) by r else r) t"
    using partner by (intro map_cong) simp_all
  ultimately show ?thesis by (simp add: swap_releases_def)
qed

section \<open>A hidden area looks absent\<close>

lemma list_fcas_without_hidden:
  assumes "\<And>g. g \<in> set fs \<Longrightarrow> fc_id g = i \<Longrightarrow> \<not> not_hidden_event g"
  shows "list_fcas (filter (\<lambda>g. fc_id g \<noteq> i) fs) = list_fcas fs"
proof -
  have "filter (\<lambda>f. (fc_deleted_at f = None \<and> not_hidden_event f) \<and> fc_id f \<noteq> i) fs =
      filter (\<lambda>f. fc_deleted_at f = None \<and> not_hidden_event f) fs"
    by (rule filter_cong) (use assms in auto)
  then show ?thesis by (simp add: list_fcas_def conj_commute)
qed

text \<open>To a caller who plans no events, an event's area that is not published does not exist: it is on no list
  of live areas, and editing, deleting or reordering it, marking, clearing or swapping releases in it is
  refused with exactly the answer the same request gets when the row is not in the table at all.\<close>

theorem hidden_area_looks_absent:
  assumes "distinct (map fc_id fs)" and f: "get_fca fs i = Some f" "fc_event_id f \<noteq> None" "fc_event_status f \<noteq> Some FcaPublished"
    and outsider: "\<not> is_event_planner sc" and gone: "gone = filter (\<lambda>g. fc_id g \<noteq> i) fs"
  shows "list_fcas fs = list_fcas gone \<and>
    update_fca_handler contrasts now i sc req fs = update_fca_handler contrasts now i sc req gone \<and>
    delete_fca_handler now i sc fs = delete_fca_handler now i sc gone \<and>
    reorder_fca now i sc order fs = reorder_fca now i sc order gone \<and>
    mark_release mit_ms track_nm cand actors attr now sc p i cs headers ready fs read t =
      mark_release mit_ms track_nm cand actors attr now sc p i cs headers ready gone read t \<and>
    clear_release mit_ms track_nm cand actors attr sc p i cs headers fs read t =
      clear_release mit_ms track_nm cand actors attr sc p i cs headers gone read t \<and>
    swap_releases_handler snapshot runway actors attr sc p i a b fs read t =
      swap_releases_handler snapshot runway actors attr sc p i a b gone read t \<and>
    mark_release mit_ms track_nm cand actors attr now sc p i cs headers ready fs read t = Inl NotFound"
proof -
  have none: "get_fca gone i = None" by (simp add: gone get_fca_def find_None)
  have planner: "require_event_fca_planner sc f = Inl NotFound" and visible: "require_visible_event_fca sc f = Inl NotFound"
    using f outsider by (simp_all add: require_event_fca_planner_def require_visible_event_fca_def)
  have "fc_id g = i \<Longrightarrow> g = f" if "g \<in> set fs" for g
  proof -
    assume "fc_id g = i"
    moreover have "f \<in> set fs" "fc_id f = i" using f(1) by (auto simp: get_fca_def find_Some_iff)
    ultimately show "g = f" using assms(1) that by (auto simp: distinct_map dest: inj_onD)
  qed
  then have "list_fcas fs = list_fcas gone"
    unfolding gone using f(2,3) by (intro list_fcas_without_hidden [symmetric]) (auto simp: not_hidden_event_def)
  moreover have "update_fca_handler contrasts now i sc req fs = update_fca_handler contrasts now i sc req gone"
    by (cases "validate_fca contrasts req") (simp_all add: update_fca_handler_def f(1) none planner ok_or_def)
  moreover have "delete_fca_handler now i sc fs = delete_fca_handler now i sc gone"
    by (simp add: delete_fca_handler_def f(1) none planner ok_or_def)
  moreover have "reorder_fca now i sc order fs = reorder_fca now i sc order gone"
    by (simp add: reorder_fca_def f(1) none visible ok_or_def)
  moreover have "mark_release mit_ms track_nm cand actors attr now sc p i cs headers ready fs read t = Inl NotFound"
      "mark_release mit_ms track_nm cand actors attr now sc p i cs headers ready gone read t = Inl NotFound"
    by (simp_all add: mark_release_def f(1) none visible ok_or_def)
  moreover have "clear_release mit_ms track_nm cand actors attr sc p i cs headers fs read t =
      clear_release mit_ms track_nm cand actors attr sc p i cs headers gone read t"
    by (simp add: clear_release_def f(1) none visible ok_or_def)
  moreover have "swap_releases_handler snapshot runway actors attr sc p i a b fs read t =
      swap_releases_handler snapshot runway actors attr sc p i a b gone read t"
    by (simp add: swap_releases_handler_def f(1) none visible ok_or_def Let_def)
  ultimately show ?thesis by simp
qed

section \<open>The properties at work\<close>

definition sample_service :: principal where
  "sample_service = ServiceAccount \<lparr>csa_id = lit ''sa'', csa_key = lit ''vtbfm'', csa_name = lit ''vTBFM'', csa_rate_limit_per_min = None\<rparr>"

definition sample_attr :: "principal \<Rightarrow> attribution" where
  "sample_attr = attribution_in (\<lambda>u _. Some u) (\<lambda>k _. Some k) (\<lambda>s _. Some s)"

definition sample_actors :: actors where
  "sample_actors = [(lit ''sa'', lit ''service_account'', Some (lit ''vTBFM'')), (lit ''u1'', lit ''user'', Some (lit ''Ann''))]"

definition sample_flight :: "ustr \<Rightarrow> fca_flight" where
  "sample_flight cs = \<lparr>ff_callsign = cs, ff_cross_time = None, ff_delay_min = 0, ff_delay_sec = 0, ff_delay_nm = 0,
     ff_seq = 0, ff_edct = None, ff_released = False, ff_release_version = None\<rparr>"

definition sample_cand :: "unit candidates" where
  "sample_cand f releases = Some ([sample_flight (lit ''DAL1''), sample_flight (lit ''AAL2'')],
     [sample_crossing 600000 False None, sample_crossing 900000 False None])"

definition sample_scopes :: scopes where
  "sample_scopes permission = (if permission = EVENTS_PLAN_UPDATE then Facilities {} else National {})"

definition sample_mark :: "ustr \<Rightarrow> conditions \<Rightarrow> release list \<Rightarrow> ((ustr \<times> fca_flight list) \<times> release list) result" where
  "sample_mark cs headers t = mark_release (\<lambda>_ _. 0) (\<lambda>_ _. 0) sample_cand sample_actors sample_attr 0 sample_scopes sample_service
     (lit ''f1'') cs headers None [sample_area] t t"

definition only_if_absent :: conditions where
  "only_if_absent = \<lparr>if_none_match = Some (Some (lit ''*'')), if_match = None\<rparr>"

definition sample_held :: release where
  "sample_held = new_release (lit ''f1'') (lit ''DAL1'') 600000 0 \<lparr>at_user_id = Some (lit ''u1''), at_actor_id = Some (lit ''u1'')\<rparr>"

lemma machine_spares_releases_witness:
  "sample_held \<in> set (snd (projr (sample_mark (lit ''aal2'') only_if_absent [sample_held]))) \<and>
   length (snd (projr (sample_mark (lit ''aal2'') only_if_absent [sample_held]))) = 2"
proof -
  let ?r = "sample_mark (lit ''aal2'') only_if_absent [sample_held]"
  have "?r = Inr (projr ?r)" by (rule sum.collapse(2) [symmetric]) code_simp
  then have r: "mark_release (\<lambda>_ _. 0) (\<lambda>_ _. 0) sample_cand sample_actors sample_attr 0 sample_scopes sample_service
     (lit ''f1'') (lit ''aal2'') only_if_absent None [sample_area] [sample_held] [sample_held] = Inr (fst (projr ?r), snd (projr ?r))"
    unfolding sample_mark_def by simp
  have m: "is_machine sample_service" and other: "rl_by_actor sample_held \<noteq> machine_actor (sample_attr sample_service)"
    by code_simp+
  have "sample_held \<in> set (snd (projr ?r))"
    by (rule machine_spares_releases [OF m sample_attr_def _ other, of "[sample_held]", THEN conjunct1, THEN mp, OF _ r]) simp
  moreover have "length (snd (projr ?r)) = 2" by code_simp
  ultimately show ?thesis by simp
qed

lemma retried_release_is_refused_witness:
  "isl (sample_mark (lit ''dal1'') only_if_absent (snd (projr (sample_mark (lit ''DAL1'') only_if_absent []))))"
proof -
  let ?r = "sample_mark (lit ''DAL1'') only_if_absent []"
  have "?r = Inr (projr ?r)" by (rule sum.collapse(2) [symmetric]) code_simp
  then have first: "mark_release (\<lambda>_ _. 0) (\<lambda>_ _. 0) sample_cand sample_actors sample_attr 0 sample_scopes sample_service
     (lit ''f1'') (lit ''DAL1'') only_if_absent None [sample_area] [] [] = Inr (fst (projr ?r), snd (projr ?r))"
    unfolding sample_mark_def by simp
  have "precondition only_if_absent sample_service = Inr (Some Absent)" by code_simp
  moreover have "ascii_upper (lit ''dal1'') = ascii_upper (lit ''DAL1'')" by code_simp
  ultimately show ?thesis
    unfolding sample_mark_def [of "lit ''dal1''"]
    by (intro retried_release_is_refused [OF first _ _ rtranclp.rtrancl_refl]) (simp_all add: keyed_releases_def)
qed

lemma swap_exchanges_times_witness:
  "map rl_cta_ms (snd (swap_releases (lit ''f'') (lit ''A'') (lit ''B'') \<lparr>at_user_id = Some [], at_actor_id = None\<rparr>
     [new_release (lit ''f'') (lit ''A'') 10 5 \<lparr>at_user_id = Some [], at_actor_id = None\<rparr>,
      new_release (lit ''f'') (lit ''B'') 20 15 \<lparr>at_user_id = Some [], at_actor_id = None\<rparr>])) = [20, 10]"
proof -
  let ?by = "\<lparr>at_user_id = Some [], at_actor_id = None\<rparr> :: attribution"
  let ?a = "new_release (lit ''f'') (lit ''A'') 10 5 ?by" and ?b = "new_release (lit ''f'') (lit ''B'') 20 15 ?by"
  have "keyed_releases [?a, ?b]" "rl_key ?a = (lit ''f'', lit ''A'')" "rl_key ?b = (lit ''f'', lit ''B'')"
      "holds_or_person ?by (rl_by_actor ?a)" "lit ''A'' \<noteq> lit ''B''"
    by (simp_all add: keyed_releases_def rl_key_def new_release_def holds_person)
  then have "swap_releases (lit ''f'') (lit ''A'') (lit ''B'') ?by [?a, ?b] = (True, map (\<lambda>r.
      if r = ?a then stored_release (rl_cta_ms ?b) (rl_edct_ms ?b) ?by r
      else if r = ?b then stored_release (rl_cta_ms ?a) (rl_edct_ms ?a) ?by r else r) [?a, ?b])"
    by (intro swap_exchanges_times) (simp_all add: holds_person)
  then show ?thesis by (simp add: new_release_def stored_release_def)
qed

definition sample_issued :: issued_cfr where
  "sample_issued = new_cfr (lit ''DAL1'') (0, lit ''KJFK'', 600000) \<lparr>at_user_id = Some (lit ''u1''), at_actor_id = Some (lit ''u1'')\<rparr>"

lemma machine_spares_cfrs_witness:
  "sample_issued \<in> set (snd (projr (issue_cfr (\<lambda>_ _ _ _. None) (\<lambda>_ _. None) (\<lambda>_. None) sample_actors sample_attr 0 sample_scopes
     sample_service (lit ''aal2'') (lit ''kjfk'') (Some 60000) only_if_absent [sample_issued] [sample_issued])))"
proof -
  let ?r = "issue_cfr (\<lambda>_ _ _ _. None) (\<lambda>_ _. None) (\<lambda>_. None) sample_actors sample_attr 0 sample_scopes
     sample_service (lit ''aal2'') (lit ''kjfk'') (Some 60000) only_if_absent [sample_issued] [sample_issued]"
  have "?r = Inr (projr ?r)" by (rule sum.collapse(2) [symmetric]) code_simp
  moreover have "projr ?r = (fst (projr ?r), snd (projr ?r))" by simp
  ultimately have r: "?r = Inr (fst (projr ?r), snd (projr ?r))" by metis
  have m: "is_machine sample_service" and other: "ic_by_actor sample_issued \<noteq> machine_actor (sample_attr sample_service)"
    by code_simp+
  have young: "0 - 12 * 60 * minute_ms \<le> ic_issued_at sample_issued" by code_simp
  show ?thesis
    by (rule machine_spares_cfrs [OF m sample_attr_def _ other, of "[sample_issued]", THEN conjunct1, THEN mp, OF _ conjI [OF r young]]) simp
qed

lemma hidden_area_looks_absent_witness:
  "mark_release (\<lambda>_ _. 0) (\<lambda>_ _. 0) sample_cand sample_actors sample_attr 0 sample_scopes sample_service
     (lit ''f1'') (lit ''DAL1'') only_if_absent None [sample_area\<lparr>fc_event_id := Some 7, fc_event_status := Some FcaPlanned\<rparr>] [] [] = Inl NotFound"
proof -
  let ?f = "sample_area\<lparr>fc_event_id := Some 7, fc_event_status := Some FcaPlanned\<rparr>"
  have "get_fca [?f] (lit ''f1'') = Some ?f" by (simp add: get_fca_def sample_area_def new_fca_def)
  moreover have "\<not> is_event_planner sample_scopes" by (simp add: is_event_planner_def sample_scopes_def)
  ultimately show ?thesis
    by (intro hidden_area_looks_absent [OF _ _ _ _ _ refl, THEN conjunct2, THEN conjunct2, THEN conjunct2, THEN conjunct2,
          THEN conjunct2, THEN conjunct2, THEN conjunct2, of "[?f]" "lit ''f1''" ?f]) simp_all
qed

end
