(* ===== verification/AccessTables.thy ===== *)
theory AccessTables
  imports Authorization
begin

text \<open>
  The rows the access editors and the VATUSA sync share, and every write to them in
  \<open>repos/access.rs\<close>: groups and what they bundle, memberships and direct grants at a scope, the
  server admins. A write that breaks a foreign key or a primary key of migrations 0003, 0005 and 0098
  is the \<open>ApiError::Internal\<close> the code maps the database's error to. \<open>d_access\<close> holds the tables the
  resolver of \<open>AccessControl\<close> reads, so what an editor writes is what a gate reads next.
\<close>

subsection \<open>Tables\<close>

record member =
  mb_id :: ustr
  mb_cid :: "int option"
  mb_home :: "ustr option"
  mb_synced :: bool
  mb_detached :: "(int \<times> ustr) option"

record vatusa_mapping =
  vm_id :: int
  vm_vatusa_role :: ustr
  vm_facility :: "ustr option"
  vm_role_name :: ustr

record directory =
  d_access :: access_db
  d_roles :: "(ustr \<times> ustr option) list"
  d_members :: "member list"
  d_facilities :: "(ustr \<times> bool) list"
  d_vatusa_roles :: "(int \<times> ustr \<times> ustr) list"
  d_visits :: "(int \<times> ustr) list"
  d_mappings :: "vatusa_mapping list"
  d_discord :: "(ustr \<times> ustr) list"

abbreviation with_access :: "directory \<Rightarrow> (access_db \<Rightarrow> access_db) \<Rightarrow> directory" where
  "with_access d f \<equiv> d\<lparr>d_access := f (d_access d)\<rparr>"

text \<open>A loop of statements in one transaction: the first failure aborts it.\<close>

fun fold_result :: "('a \<Rightarrow> 's \<Rightarrow> 's result) \<Rightarrow> 'a list \<Rightarrow> 's \<Rightarrow> 's result" where
  "fold_result f [] s = Inr s"
| "fold_result f (x # xs) s = bind_result (f x s) (fold_result f xs)"

definition scope_key :: "ustr option \<Rightarrow> artcc option" where
  "scope_key artcc = map_option ascii_upper (clean artcc)"

definition find_member :: "directory \<Rightarrow> ustr \<Rightarrow> member option" where
  "find_member d user_id = find (\<lambda>m. mb_id m = user_id) (d_members d)"

definition find_user_id_by_cid :: "directory \<Rightarrow> int \<Rightarrow> ustr option" where
  "find_user_id_by_cid d cid = map_option mb_id (find (\<lambda>m. mb_cid m = Some cid) (d_members d))"

definition list_facilities :: "directory \<Rightarrow> ustr list" where
  "list_facilities d = sort (map fst (filter snd (d_facilities d)))"

definition known_facility :: "directory \<Rightarrow> ustr \<Rightarrow> bool" where
  "known_facility d f = List.member (map fst (d_facilities d)) f"

definition scope_exists :: "directory \<Rightarrow> artcc option \<Rightarrow> bool" where
  "scope_exists d artcc = (case artcc of None \<Rightarrow> True | Some a \<Rightarrow> known_facility d a)"

subsection \<open>Groups\<close>

definition fetch_role_names :: "directory \<Rightarrow> ustr list" where
  "fetch_role_names d = sort (map fst (d_roles d))"

definition fetch_assignable_role_names :: "directory \<Rightarrow> ustr list" where
  "fetch_assignable_role_names d = filter (\<lambda>r. \<not> is_system_role r) (fetch_role_names d)"

definition fetch_service_account_assignable_roles :: "directory \<Rightarrow> ustr list" where
  "fetch_service_account_assignable_roles d = filter (\<lambda>r. r \<noteq> SERVER_ADMIN_ROLE) (fetch_role_names d)"

definition fetch_role_permission_names :: "directory \<Rightarrow> ustr list \<Rightarrow> ustr list" where
  "fetch_role_permission_names d role_names =
     sort (remdups [p. (r, p) \<leftarrow> t_role_permissions (d_access d), List.member role_names r])"

definition fetch_access_catalog_names :: "directory \<Rightarrow> ustr list" where
  "fetch_access_catalog_names d = sort (t_permissions (d_access d))"

record group_row =
  gr_name :: ustr
  gr_description :: "ustr option"
  gr_permission_count :: nat
  gr_user_count :: nat
  gr_service_account_count :: nat

definition group_select :: "directory \<Rightarrow> ustr \<times> ustr option \<Rightarrow> group_row" where
  "group_select d r =
     \<lparr>gr_name = fst r, gr_description = snd r,
      gr_permission_count = length (filter (\<lambda>(n, _). n = fst r) (t_role_permissions (d_access d))),
      gr_user_count = length (remdups (map ur_user
        (filter (\<lambda>ur. ur_role ur = fst r) (t_user_roles (d_access d))))),
      gr_service_account_count = length (remdups (map sar_account
        (filter (\<lambda>sar. sar_role sar = fst r) (t_sa_roles (d_access d)))))\<rparr>"

definition fetch_groups :: "directory \<Rightarrow> group_row list" where
  "fetch_groups d = sort_key gr_name (map (group_select d) (d_roles d))"

definition fetch_group :: "directory \<Rightarrow> ustr \<Rightarrow> group_row option" where
  "fetch_group d role_name = map_option (group_select d) (find (\<lambda>r. fst r = role_name) (d_roles d))"

definition fetch_all_group_permissions :: "directory \<Rightarrow> (ustr \<times> ustr) list" where
  "fetch_all_group_permissions d = sort (t_role_permissions (d_access d))"

definition insert_group_permission :: "ustr \<Rightarrow> ustr \<Rightarrow> directory \<Rightarrow> directory result" where
  "insert_group_permission role_name name d =
     (if List.member (t_role_permissions (d_access d)) (role_name, name) \<or>
         \<not> List.member (map fst (d_roles d)) role_name \<or>
         \<not> List.member (t_permissions (d_access d)) name
      then Inl Internal
      else Inr (with_access d (\<lambda>a. a\<lparr>t_role_permissions := t_role_permissions a @ [(role_name, name)]\<rparr>)))"

definition replace_group_permissions :: "ustr \<Rightarrow> ustr list \<Rightarrow> directory \<Rightarrow> directory result" where
  "replace_group_permissions role_name names d =
     fold_result (insert_group_permission role_name) names
       (with_access d (\<lambda>a. a\<lparr>t_role_permissions :=
          filter (\<lambda>(r, _). r \<noteq> role_name) (t_role_permissions a)\<rparr>))"

definition create_group :: "ustr \<Rightarrow> ustr option \<Rightarrow> directory \<Rightarrow> directory result" where
  "create_group role_name description d =
     (if List.member (map fst (d_roles d)) role_name then Inl Internal
      else Inr (d\<lparr>d_roles := d_roles d @ [(role_name, description)]\<rparr>))"

text \<open>The foreign keys of memberships, bundles and mappings cascade.\<close>

definition delete_group :: "ustr \<Rightarrow> directory \<Rightarrow> directory" where
  "delete_group role_name d =
     with_access (d\<lparr>d_roles := filter (\<lambda>(r, _). r \<noteq> role_name) (d_roles d),
       d_mappings := filter (\<lambda>m. vm_role_name m \<noteq> role_name) (d_mappings d)\<rparr>)
     (\<lambda>a. a\<lparr>t_user_roles := filter (\<lambda>ur. ur_role ur \<noteq> role_name) (t_user_roles a),
            t_role_permissions := filter (\<lambda>(r, _). r \<noteq> role_name) (t_role_permissions a),
            t_sa_roles := filter (\<lambda>sar. sar_role sar \<noteq> role_name) (t_sa_roles a)\<rparr>)"

subsection \<open>Memberships and direct grants\<close>

definition set_user_role_scoped :: "ustr \<Rightarrow> ustr \<Rightarrow> bool \<Rightarrow> artcc option \<Rightarrow> grant_source \<Rightarrow>
    directory \<Rightarrow> directory result" where
  "set_user_role_scoped user_id role_name held artcc src d =
     (let row = \<lparr>ur_user = user_id, ur_role = role_name, ur_artcc = artcc, ur_source = src\<rparr> in
      if held then
        (if List.member (t_user_roles (d_access d)) row then Inr d
         else if find_member d user_id = None \<or> \<not> List.member (map fst (d_roles d)) role_name \<or>
                 \<not> scope_exists d artcc
         then Inl Internal
         else Inr (with_access d (\<lambda>a. a\<lparr>t_user_roles := t_user_roles a @ [row]\<rparr>)))
      else Inr (with_access d (\<lambda>a. a\<lparr>t_user_roles := filter (\<lambda>ur. ur \<noteq> row) (t_user_roles a)\<rparr>)))"

definition set_user_role :: "ustr \<Rightarrow> ustr \<Rightarrow> bool \<Rightarrow> grant_source \<Rightarrow> directory \<Rightarrow> directory result" where
  "set_user_role user_id role_name held src = set_user_role_scoped user_id role_name held None src"

definition same_key :: "ustr \<Rightarrow> ustr \<Rightarrow> artcc option \<Rightarrow> grant_source \<Rightarrow> user_permission_row \<Rightarrow> bool" where
  "same_key user_id name artcc src up \<longleftrightarrow>
     up_user up = user_id \<and> up_permission up = name \<and> up_artcc up = artcc \<and> up_source up = src"

definition grant_permission :: "ustr \<Rightarrow> artcc option \<Rightarrow> ustr \<Rightarrow> directory \<Rightarrow> directory result" where
  "grant_permission user_id artcc name d =
     (if list_ex (same_key user_id name artcc Manual) (t_user_permissions (d_access d))
      then Inr (with_access d (\<lambda>a. a\<lparr>t_user_permissions :=
        map (\<lambda>up. if same_key user_id name artcc Manual up then up\<lparr>up_granted := True\<rparr> else up)
          (t_user_permissions a)\<rparr>))
      else if find_member d user_id = None \<or> \<not> List.member (t_permissions (d_access d)) name \<or>
              \<not> scope_exists d artcc
      then Inl Internal
      else Inr (with_access d (\<lambda>a. a\<lparr>t_user_permissions := t_user_permissions a @
        [\<lparr>up_user = user_id, up_permission = name, up_granted = True, up_artcc = artcc,
          up_source = Manual\<rparr>]\<rparr>)))"

definition manual_grant_at :: "ustr \<Rightarrow> artcc option \<Rightarrow> user_permission_row \<Rightarrow> bool" where
  "manual_grant_at user_id artcc up \<longleftrightarrow>
     up_user up = user_id \<and> up_artcc up = artcc \<and> up_source up = Manual \<and> up_granted up"

definition replace_user_permissions_scoped :: "ustr \<Rightarrow> artcc option \<Rightarrow> ustr list \<Rightarrow> directory \<Rightarrow>
    directory result" where
  "replace_user_permissions_scoped user_id artcc names d =
     fold_result (grant_permission user_id artcc) names
       (with_access d (\<lambda>a. a\<lparr>t_user_permissions :=
          filter (\<lambda>up. \<not> manual_grant_at user_id artcc up) (t_user_permissions a)\<rparr>))"

definition replace_user_permissions :: "ustr \<Rightarrow> ustr list \<Rightarrow> directory \<Rightarrow> directory result" where
  "replace_user_permissions user_id names = replace_user_permissions_scoped user_id None names"

subsection \<open>Server admins\<close>

definition BASELINE_ROLE :: ustr where "BASELINE_ROLE = lit ''USER''"

definition assign_server_admin :: "ustr \<Rightarrow> directory \<Rightarrow> directory result" where
  "assign_server_admin user_id = set_user_role_scoped user_id SERVER_ADMIN_ROLE True None System"

definition revoke_server_admin :: "ustr \<Rightarrow> directory \<Rightarrow> bool \<times> directory" where
  "revoke_server_admin user_id d =
     (let gone = \<lambda>ur. ur_user ur = user_id \<and> ur_role ur = SERVER_ADMIN_ROLE in
      (list_ex gone (t_user_roles (d_access d)),
       with_access d (\<lambda>a. a\<lparr>t_user_roles := filter (\<lambda>ur. \<not> gone ur) (t_user_roles a)\<rparr>)))"

definition demote_server_admin :: "ustr \<Rightarrow> directory \<Rightarrow> (bool \<times> directory) result" where
  "demote_server_admin user_id d =
     (case revoke_server_admin user_id d of
        (False, d1) \<Rightarrow> Inr (False, d1)
      | (True, d1) \<Rightarrow>
          bind_result (replace_user_permissions user_id [] d1) (\<lambda>d2.
          bind_result (set_user_role user_id BASELINE_ROLE True System d2) (\<lambda>d3. Inr (True, d3))))"

definition server_admins_not_in :: "directory \<Rightarrow> int list \<Rightarrow> (ustr \<times> int option) list" where
  "server_admins_not_in d admin_cids =
     map (\<lambda>m. (mb_id m, mb_cid m))
       (sort_key (\<lambda>m. (mb_cid m = None, mb_cid m, mb_id m))
         (filter (\<lambda>m. list_ex (\<lambda>ur. ur_user ur = mb_id m \<and> ur_role ur = SERVER_ADMIN_ROLE)
              (t_user_roles (d_access d)) \<and>
            (case mb_cid m of None \<Rightarrow> True | Some cid \<Rightarrow> \<not> List.member admin_cids cid)) (d_members d)))"

subsection \<open>What the resolver makes of the rows\<close>

definition member_at :: "access_db \<Rightarrow> ustr \<Rightarrow> ustr \<Rightarrow> artcc option \<Rightarrow> bool" where
  "member_at db u role artcc \<longleftrightarrow>
     (\<exists>ur\<in>set (t_user_roles db). ur_user ur = u \<and> ur_role ur = role \<and> ur_artcc ur = artcc)"

definition direct_at :: "access_db \<Rightarrow> ustr \<Rightarrow> ustr \<Rightarrow> artcc option \<Rightarrow> bool \<Rightarrow> bool" where
  "direct_at db u p artcc g \<longleftrightarrow>
     (\<exists>up\<in>set (t_user_permissions db). up_user up = u \<and> up_permission up = p \<and> up_artcc up = artcc \<and>
        up_granted up = g)"

definition server_admin :: "access_db \<Rightarrow> ustr \<Rightarrow> bool" where
  "server_admin db u \<longleftrightarrow> is_server_admin (fetch_user_role_names db u)"

lemma server_admin_iff: "server_admin db u \<longleftrightarrow> (\<exists>x. member_at db u SERVER_ADMIN_ROLE x)"
  by (force simp: server_admin_def is_server_admin_def fetch_user_role_names_def member_at_def)

lemma rows_grant_True:
  "rows_grant (v_effective_user_permissions db u) p x True \<longleftrightarrow>
     (\<exists>r. member_at db u r x \<and> (r, p) \<in> set (t_role_permissions db)) \<or>
     x = None \<and> server_admin db u \<and> p \<in> set (t_permissions db) \<or> direct_at db u p x True"
  unfolding server_admin_iff rows_grant_def v_effective_user_permissions_def member_at_def direct_at_def
  by (fastforce simp: list_ex_iff image_iff split: if_splits)

lemma rows_grant_False:
  "rows_grant (v_effective_user_permissions db u) p x False \<longleftrightarrow> direct_at db u p x False"
  unfolding rows_grant_def v_effective_user_permissions_def direct_at_def
  by (auto simp: image_iff split: if_splits)

lemma rows_grant_named: "rows_grant rows p x g \<Longrightarrow> p \<in> permission_name ` set rows"
  by (force simp: rows_grant_def)

lemma user_allows_Some:
  "allows (user_permission_scope db u p) (Some a) \<longleftrightarrow>
     (let g = rows_grant (v_effective_user_permissions db u) p in
      (g None True \<or> g (Some a) True) \<and> \<not> g None False \<and> \<not> g (Some a) False)"
proof (cases "bt_get (fetch_effective_permissions db u) p")
  case None
  then have "p \<notin> permission_name ` set (v_effective_user_permissions db u)"
    by (auto simp: fetch_effective_permissions_def compose_get split: if_splits)
  then have "\<not> rows_grant (v_effective_user_permissions db u) p x g" for x g
    using rows_grant_named by blast
  with None show ?thesis
    by (simp add: user_permission_scope_def scope_or_nothing_def)
next
  case (Some s)
  then have "bt_get (compose (v_effective_user_permissions db u)) p = Some s"
    by (simp add: fetch_effective_permissions_def)
  from compose_allows_Some [OF this, of a] Some show ?thesis
    by (simp add: user_permission_scope_def scope_or_nothing_def Let_def)
qed

lemma user_allows_None:
  "allows (user_permission_scope db u p) None \<longleftrightarrow>
     (let g = rows_grant (v_effective_user_permissions db u) p in
      g None True \<and> \<not> g None False \<and> (\<forall>b. \<not> g (Some b) False))"
proof (cases "bt_get (fetch_effective_permissions db u) p")
  case None
  then have "p \<notin> permission_name ` set (v_effective_user_permissions db u)"
    by (auto simp: fetch_effective_permissions_def compose_get split: if_splits)
  then have "\<not> rows_grant (v_effective_user_permissions db u) p x g" for x g
    using rows_grant_named by blast
  with None show ?thesis
    by (simp add: user_permission_scope_def scope_or_nothing_def)
next
  case (Some s)
  then have "bt_get (compose (v_effective_user_permissions db u)) p = Some s"
    by (simp add: fetch_effective_permissions_def)
  from compose_allows_None [OF this] Some show ?thesis
    by (simp add: user_permission_scope_def scope_or_nothing_def Let_def)
qed

text \<open>Holding without exception covers every facility.\<close>

lemma national_covers_all:
  "allows (user_permission_scope db u p) None \<Longrightarrow> allows (user_permission_scope db u p) (Some a)"
  by (auto simp: user_allows_Some user_allows_None Let_def)

subsection \<open>Loops\<close>

lemma fold_result_invariant:
  assumes "fold_result f xs s = Inr t" and "P s"
    and "\<And>x s t. x \<in> set xs \<Longrightarrow> f x s = Inr t \<Longrightarrow> P s \<Longrightarrow> P t"
  shows "P t"
  using assms
proof (induction f xs s rule: fold_result.induct)
  case (2 f x xs s)
  then show ?case
    by (auto simp: bind_result_Inr_iff)
qed simp

lemma fold_result_append:
  "fold_result f (xs @ ys) s = bind_result (fold_result f xs s) (fold_result f ys)"
proof (induction xs arbitrary: s)
  case (Cons x xs)
  then show ?case by (cases "f x s") auto
qed simp

lemma fold_result_total:
  assumes "P s" and "\<And>x s. x \<in> set xs \<Longrightarrow> P s \<Longrightarrow> \<exists>t. f x s = Inr t \<and> P t"
  shows "\<exists>t. fold_result f xs s = Inr t \<and> P t"
  using assms
proof (induction f xs s rule: fold_result.induct)
  case (2 f x xs s)
  then obtain t where "f x s = Inr t" and "P t" by (meson list.set_intros(1))
  with 2 show ?case by auto
qed simp

subsection \<open>The rows a write leaves\<close>

definition role_row :: "ustr \<Rightarrow> ustr \<Rightarrow> artcc option \<Rightarrow> grant_source \<Rightarrow> user_role_row" where
  "role_row u r x src = \<lparr>ur_user = u, ur_role = r, ur_artcc = x, ur_source = src\<rparr>"

definition hand_grant :: "ustr \<Rightarrow> artcc option \<Rightarrow> ustr \<Rightarrow> user_permission_row" where
  "hand_grant u x p = \<lparr>up_user = u, up_permission = p, up_granted = True, up_artcc = x, up_source = Manual\<rparr>"

lemma set_user_role_rows:
  assumes "set_user_role_scoped u r held x src d = Inr d'"
  shows "set (t_user_roles (d_access d')) = (if held then insert (role_row u r x src) (set (t_user_roles (d_access d)))
      else set (t_user_roles (d_access d)) - {role_row u r x src})"
    and "t_user_permissions (d_access d') = t_user_permissions (d_access d)"
    and "t_role_permissions (d_access d') = t_role_permissions (d_access d)"
    and "t_permissions (d_access d') = t_permissions (d_access d)"
    and "d' = d\<lparr>d_access := d_access d'\<rparr>"
  using assms by (auto simp: set_user_role_scoped_def role_row_def Let_def split: if_splits)

lemma grant_permission_rows:
  assumes "grant_permission u x p d = Inr d'"
  shows "set (t_user_permissions (d_access d')) =
      insert (hand_grant u x p) {up \<in> set (t_user_permissions (d_access d)). \<not> same_key u p x Manual up}"
    and "t_user_roles (d_access d') = t_user_roles (d_access d)"
    and "t_role_permissions (d_access d') = t_role_permissions (d_access d)"
    and "t_permissions (d_access d') = t_permissions (d_access d)"
    and "d' = d\<lparr>d_access := d_access d'\<rparr>"
proof -
  let ?rows = "t_user_permissions (d_access d)"
  show "set (t_user_permissions (d_access d')) = insert (hand_grant u x p) {up \<in> set ?rows. \<not> same_key u p x Manual up}"
  proof (cases "list_ex (same_key u p x Manual) ?rows")
    case True
    have "up\<lparr>up_granted := True\<rparr> = hand_grant u x p" if "same_key u p x Manual up" for up
      using that by (simp add: same_key_def hand_grant_def)
    moreover have "t_user_permissions (d_access d') =
        map (\<lambda>up. if same_key u p x Manual up then up\<lparr>up_granted := True\<rparr> else up) ?rows"
      using assms True by (auto simp: grant_permission_def)
    ultimately have "set (t_user_permissions (d_access d')) =
        (\<lambda>up. if same_key u p x Manual up then hand_grant u x p else up) ` set ?rows"
      by (auto simp: image_iff)
    with True show ?thesis by (auto simp: list_ex_iff image_iff)
  next
    case False
    with assms show ?thesis
      by (auto simp: grant_permission_def hand_grant_def list_ex_iff split: if_splits)
  qed
qed (use assms in \<open>auto simp: grant_permission_def split: if_splits\<close>)

lemma fold_grant_rows:
  assumes "fold_result (grant_permission u x) names d = Inr d'"
  shows "set (t_user_permissions (d_access d')) = hand_grant u x ` set names \<union>
      {up \<in> set (t_user_permissions (d_access d)). \<forall>p\<in>set names. \<not> same_key u p x Manual up} \<and>
    t_user_roles (d_access d') = t_user_roles (d_access d) \<and>
    t_role_permissions (d_access d') = t_role_permissions (d_access d) \<and>
    t_permissions (d_access d') = t_permissions (d_access d) \<and> d' = d\<lparr>d_access := d_access d'\<rparr>"
  using assms
proof (induction names arbitrary: d)
  case (Cons p names)
  then obtain d1 where d1: "grant_permission u x p d = Inr d1"
    and rest: "fold_result (grant_permission u x) names d1 = Inr d'"
    by (auto simp: bind_result_Inr_iff)
  note one = grant_permission_rows [OF d1] and all = Cons.IH [OF rest]
  have "same_key u q x Manual (hand_grant u x p) \<longleftrightarrow> q = p" for q
    by (auto simp: same_key_def hand_grant_def)
  moreover have "d' = d\<lparr>d_access := d_access d'\<rparr>"
    using one(5) all by (cases d; cases d1; cases d') simp
  ultimately show ?case using one(1-4) all by auto
qed simp

lemma replace_permission_rows:
  assumes "replace_user_permissions_scoped u x names d = Inr d'"
  shows "set (t_user_permissions (d_access d')) = hand_grant u x ` set names \<union>
      {up \<in> set (t_user_permissions (d_access d)). \<not> manual_grant_at u x up \<and>
        (\<forall>p\<in>set names. \<not> same_key u p x Manual up)}"
    and "t_user_roles (d_access d') = t_user_roles (d_access d)"
    and "t_role_permissions (d_access d') = t_role_permissions (d_access d)"
    and "t_permissions (d_access d') = t_permissions (d_access d)"
    and "d' = d\<lparr>d_access := d_access d'\<rparr>"
  using fold_grant_rows [OF assms [unfolded replace_user_permissions_scoped_def]] by auto

end
