(* ===== verification/AccessEditors.thy ===== *)
theory AccessEditors
  imports AccessTables
begin

text \<open>
  The editors of groups, memberships and direct grants: the endpoints of \<open>handlers/access.rs\<close> with
  the guards that bound what an editor may hand out, and \<open>detach_roles\<close> of \<open>repos/vatusa.rs\<close>. An
  endpoint reads outside the transaction it writes in, so it takes the directory it reads (\<open>d\<close>) and
  the directory the transaction finds (\<open>w\<close>); they differ when another request came between. The
  result is what the transaction committed, with the answer, which may be an error of its own.
\<close>

subsection \<open>The caller\<close>

record caller =
  cl_user :: "current_user option"
  cl_service_account :: "current_service_account option"
  cl_api_key :: "current_api_key option"

definition AccessUsersUpdate :: permission_path where
  "AccessUsersUpdate = from_segments [lit ''access'', lit ''users''] Update"

definition AccessGroupsUpdate :: permission_path where
  "AccessGroupsUpdate = from_segments [lit ''access'', lit ''groups''] Update"

definition editing_user :: "access_db \<Rightarrow> int \<Rightarrow> caller \<Rightarrow> permission_path \<Rightarrow> current_user result" where
  "editing_user db now c permission =
     bind_result (ensure_permission (Some db) now (cl_user c) (cl_service_account c) (cl_api_key c) permission)
       (\<lambda>_. ok_or Unauthorized (cl_user c))"

subsection \<open>The guards\<close>

definition VATUSA_STAFF :: ustr where "VATUSA_STAFF = lit ''VATUSA_STAFF''"

definition holds_at :: "access_db \<Rightarrow> ustr \<Rightarrow> ustr \<Rightarrow> artcc option \<Rightarrow> bool" where
  "holds_at db actor name artcc =
     (case bt_get (fetch_effective_permissions db actor) name of None \<Rightarrow> False | Some s \<Rightarrow> allows s artcc)"

definition symmetric_difference :: "('a::linorder) list \<Rightarrow> 'a list \<Rightarrow> 'a list" where
  "symmetric_difference xs ys =
     sort (remdups (filter (\<lambda>x. x \<notin> set ys) xs @ filter (\<lambda>y. y \<notin> set xs) ys))"

definition enforce_group_scope :: "access_db \<Rightarrow> ustr \<Rightarrow> ustr \<Rightarrow> ustr list \<Rightarrow> ustr list \<Rightarrow> unit result" where
  "enforce_group_scope db actor role_name before after =
     bind_result (fetch_user_access (Some db) actor) (\<lambda>(actor_roles, _).
       if is_server_admin actor_roles then Inr ()
       else if role_name = VATUSA_STAFF then Inl Forbidden
       else if list_all (\<lambda>name. holds_at db actor name None) (symmetric_difference before after) then Inr ()
       else Inl Forbidden)"

definition enforce_membership_scope :: "access_db \<Rightarrow> ustr \<Rightarrow> ustr \<Rightarrow> artcc option \<Rightarrow> unit result" where
  "enforce_membership_scope db actor role_name artcc =
     bind_result (fetch_user_access (Some db) actor) (\<lambda>(actor_roles, _).
       if is_server_admin actor_roles then Inr ()
       else if role_name = VATUSA_STAFF then Inl Forbidden
       else if list_all (\<lambda>name. holds_at db actor name artcc) (fetch_group_permissions db role_name) then Inr ()
       else Inl Forbidden)"

fun check_granted :: "(ustr \<times> permission_scope) list \<Rightarrow> (artcc option \<times> ustr) list \<Rightarrow> unit result" where
  "check_granted held [] = Inr ()"
| "check_granted held ((artcc, name) # diff) =
     (case bt_get held name of
        None \<Rightarrow> Inl Unauthorized
      | Some scope \<Rightarrow>
          if scope_is_empty scope then Inl Unauthorized
          else if \<not> allows scope artcc then Inl Forbidden
          else check_granted held diff)"

fun check_roles :: "access_db \<Rightarrow> ustr \<Rightarrow> (artcc option \<times> ustr) list \<Rightarrow> unit result" where
  "check_roles db actor [] = Inr ()"
| "check_roles db actor ((artcc, role) # diff) =
     (let holdings = fetch_user_role_grants db actor in
      if \<not> (List.member holdings (None, role) \<or> artcc \<noteq> None \<and> List.member holdings (artcc, role))
      then Inl Forbidden
      else bind_result (enforce_membership_scope db actor role artcc) (\<lambda>_. check_roles db actor diff))"

record norm_scope =
  ns_artcc :: "artcc option"
  ns_names :: "ustr list"
  ns_roles :: "ustr list option"

definition requested_perms :: "norm_scope list \<Rightarrow> (artcc option \<times> ustr) list" where
  "requested_perms scopes = [(ns_artcc s, name). s \<leftarrow> scopes, name \<leftarrow> ns_names s]"

definition requested_roles :: "norm_scope list \<Rightarrow> (artcc option \<times> ustr) list" where
  "requested_roles scopes =
     [(ns_artcc s, role). s \<leftarrow> scopes, role \<leftarrow> (case ns_roles s of None \<Rightarrow> [] | Some rs \<Rightarrow> rs)]"

definition payload_scopes :: "norm_scope list \<Rightarrow> artcc option list" where
  "payload_scopes scopes = map ns_artcc scopes"

definition role_scopes :: "norm_scope list \<Rightarrow> artcc option list" where
  "role_scopes scopes = map ns_artcc (filter (\<lambda>s. ns_roles s \<noteq> None) scopes)"

definition enforce_actor_scope :: "access_db \<Rightarrow> ustr \<Rightarrow> norm_scope list \<Rightarrow> (artcc option \<times> ustr) list \<Rightarrow>
    (artcc option \<times> ustr) list \<Rightarrow> ustr list \<Rightarrow> unit result" where
  "enforce_actor_scope db actor scopes before_grants before_roles assignable =
     bind_result (fetch_user_access (Some db) actor) (\<lambda>(actor_roles, _).
       if is_server_admin actor_roles then Inr ()
       else
         bind_result (check_granted (fetch_effective_permissions db actor)
           (symmetric_difference (requested_perms scopes)
             (filter (\<lambda>(artcc, _). List.member (payload_scopes scopes) artcc) before_grants))) (\<lambda>_.
         check_roles db actor
           (symmetric_difference (requested_roles scopes)
             (filter (\<lambda>(artcc, role). List.member (role_scopes scopes) artcc \<and> List.member assignable role)
               before_roles))))"

subsection \<open>The user editor\<close>

record scope_update =
  su_artcc_id :: "ustr option"
  su_permissions :: json
  su_role_names :: "ustr list option"

record update_user_access_request =
  ua_reason :: ustr
  ua_scopes :: "scope_update list"

definition scope_permission_names :: "json \<Rightarrow> ustr list result" where
  "scope_permission_names tree =
     (if tree = JObject [] then Inr [] else ok_or BadRequest (normalize_permission_tree tree))"

fun norm_scopes :: "directory \<Rightarrow> scope_update list \<Rightarrow> norm_scope list result" where
  "norm_scopes d [] = Inr []"
| "norm_scopes d (s # ss) =
     (let artcc = scope_key (su_artcc_id s) in
      if (case artcc of None \<Rightarrow> False | Some a \<Rightarrow> \<not> List.member (list_facilities d) a) then Inl BadRequest
      else
        bind_result (scope_permission_names (su_permissions s)) (\<lambda>names.
        if \<not> list_all (List.member (fetch_access_catalog_names d)) names then Inl BadRequest
        else if (case su_role_names s of None \<Rightarrow> False
             | Some rs \<Rightarrow> \<not> list_all (List.member (fetch_assignable_role_names d)) rs) then Inl BadRequest
        else bind_result (norm_scopes d ss) (\<lambda>rest.
          Inr (\<lparr>ns_artcc = artcc, ns_names = names, ns_roles = su_role_names s\<rparr> # rest))))"

definition detach_roles :: "int \<Rightarrow> ustr \<Rightarrow> ustr \<Rightarrow> directory \<Rightarrow> bool \<times> directory" where
  "detach_roles now user_id by_user d =
     (list_ex (\<lambda>m. mb_id m = user_id \<and> mb_detached m = None) (d_members d),
      d\<lparr>d_members := map (\<lambda>m. if mb_id m = user_id \<and> mb_detached m = None
          then m\<lparr>mb_detached := Some (now, by_user)\<rparr> else m) (d_members d)\<rparr>)"

text \<open>One role at one scope as a save leaves it: unticking takes a row of VATUSA's too.\<close>

definition save_role :: "ustr \<Rightarrow> artcc option \<Rightarrow> ustr \<Rightarrow> bool \<Rightarrow> directory \<Rightarrow> directory result" where
  "save_role user_id artcc role held d =
     bind_result (set_user_role_scoped user_id role held artcc Manual d) (\<lambda>d1.
       if held then Inr d1 else set_user_role_scoped user_id role False artcc Vatusa d1)"

definition save_scope :: "ustr \<Rightarrow> bool \<Rightarrow> ustr list \<Rightarrow> norm_scope \<Rightarrow> directory \<Rightarrow> directory result" where
  "save_scope user_id target_admin assignable s d =
     bind_result (if target_admin then Inr d
       else replace_user_permissions_scoped user_id (ns_artcc s) (ns_names s) d) (\<lambda>d1.
     case ns_roles s of None \<Rightarrow> Inr d1
     | Some role_names \<Rightarrow>
         fold_result (\<lambda>role. save_role user_id (ns_artcc s) role (List.member role_names role)) assignable d1)"

definition access_body :: "access_db \<Rightarrow> ustr \<Rightarrow> int \<Rightarrow> user_access_body result" where
  "access_body db user_id cid =
     user_access_body_of user_id cid (fetch_user_direct_grants db user_id) (fetch_user_role_grants db user_id)"

definition fill_server_admin_permissions :: "directory \<Rightarrow> user_access_body \<Rightarrow> user_access_body result" where
  "fill_server_admin_permissions d body =
     (if uab_server_admin body then apply_server_admin_catalog body (fetch_access_catalog_names d)
      else Inr body)"

definition get_user_access :: "directory \<Rightarrow> int \<Rightarrow> user_access_body result" where
  "get_user_access d cid =
     bind_result (ok_or NotFound (find_user_id_by_cid d cid)) (\<lambda>target.
     bind_result (access_body (d_access d) target cid) (fill_server_admin_permissions d))"

definition update_user_access :: "int \<Rightarrow> caller \<Rightarrow> int \<Rightarrow> update_user_access_request \<Rightarrow> directory \<Rightarrow>
    directory \<Rightarrow> (user_access_body result \<times> directory) result" where
  "update_user_access now c cid payload d w =
     (let db = d_access d in
      bind_result (editing_user db now c AccessUsersUpdate) (\<lambda>user.
      if trim (ua_reason payload) = [] then Inl BadRequest
      else
        bind_result (norm_scopes d (ua_scopes payload)) (\<lambda>scopes.
        bind_result (ok_or NotFound (find_user_id_by_cid d cid)) (\<lambda>target.
        bind_result (access_body db target cid) (\<lambda>before.
        bind_result (enforce_actor_scope db (cu_id user) scopes (fetch_user_direct_grants db target)
          (fetch_user_role_grants db target) (fetch_assignable_role_names d)) (\<lambda>_.
        bind_result (fold_result (save_scope target (uab_server_admin before) (fetch_assignable_role_names d))
          scopes w) (\<lambda>w1.
        let w2 = snd (detach_roles now target (cu_id user) w1) in
        Inr (bind_result (access_body (d_access w2) target cid) (fill_server_admin_permissions w2), w2))))))))"

subsection \<open>The group editor\<close>

record group_body =
  gb_name :: ustr
  gb_description :: "ustr option"
  gb_permissions :: "ustr list"
  gb_system :: bool
  gb_user_count :: nat
  gb_service_account_count :: nat

definition group_body_of :: "group_row \<Rightarrow> ustr list \<Rightarrow> group_body" where
  "group_body_of row permissions =
     \<lparr>gb_name = gr_name row, gb_description = gr_description row, gb_permissions = permissions,
      gb_system = is_system_role (gr_name row), gb_user_count = gr_user_count row,
      gb_service_account_count = gr_service_account_count row\<rparr>"

definition list_groups :: "directory \<Rightarrow> group_body list" where
  "list_groups d = map (\<lambda>row. group_body_of row
     (map snd (filter (\<lambda>(r, _). r = gr_name row) (fetch_all_group_permissions d)))) (fetch_groups d)"

definition read_group :: "directory \<Rightarrow> ustr \<Rightarrow> ustr list \<Rightarrow> group_body result" where
  "read_group d name permissions =
     bind_result (ok_or Internal (fetch_group d name)) (\<lambda>row. Inr (group_body_of row permissions))"

record create_group_request =
  cg_name :: ustr
  cg_description :: "ustr option"
  cg_reason :: ustr

definition group_name_ok :: "ustr \<Rightarrow> bool" where
  "group_name_ok name \<longleftrightarrow> name \<noteq> [] \<and> list_all (\<lambda>ch. is_ascii_uppercase ch \<or> ch = 95) name"

definition create_group_handler :: "int \<Rightarrow> caller \<Rightarrow> create_group_request \<Rightarrow> directory \<Rightarrow> directory \<Rightarrow>
    (group_body result \<times> directory) result" where
  "create_group_handler now c payload d w =
     bind_result (editing_user (d_access d) now c AccessGroupsUpdate) (\<lambda>user.
     let name = ascii_upper (trim (cg_name payload)) in
     if trim (cg_reason payload) = [] \<or> \<not> group_name_ok name then Inl BadRequest
     else if is_system_role name \<or> fetch_group d name \<noteq> None then Inl Conflict
     else bind_result (create_group name (clean (cg_description payload)) w) (\<lambda>w1.
       Inr (read_group w1 name [], w1)))"

record update_group_request =
  ug_permissions :: "ustr list"
  ug_reason :: ustr

definition requested_permissions :: "ustr list \<Rightarrow> ustr list" where
  "requested_permissions names = sort (remdups (filter (\<lambda>v. v \<noteq> []) (map trim names)))"

definition update_group :: "int \<Rightarrow> caller \<Rightarrow> ustr \<Rightarrow> update_group_request \<Rightarrow> directory \<Rightarrow> directory \<Rightarrow>
    (group_body result \<times> directory) result" where
  "update_group now c name payload d w =
     (let db = d_access d; requested = requested_permissions (ug_permissions payload) in
      bind_result (editing_user db now c AccessGroupsUpdate) (\<lambda>user.
      if trim (ug_reason payload) = [] then Inl BadRequest
      else if is_system_role name then Inl Forbidden
      else if \<not> list_all (List.member (fetch_access_catalog_names d)) requested then Inl BadRequest
      else
        bind_result (ok_or NotFound (fetch_group d name)) (\<lambda>row.
        bind_result (enforce_group_scope db (cu_id user) name (fetch_group_permissions db name) requested) (\<lambda>_.
        bind_result (replace_group_permissions name requested w) (\<lambda>w1.
          Inr (read_group w1 name (fetch_group_permissions (d_access w1) name), w1))))))"

definition delete_group_handler :: "int \<Rightarrow> caller \<Rightarrow> ustr \<Rightarrow> directory \<Rightarrow> directory \<Rightarrow> directory result" where
  "delete_group_handler now c name d w =
     bind_result (editing_user (d_access d) now c AccessGroupsUpdate) (\<lambda>user.
     if is_system_role name then Inl Forbidden
     else bind_result (ok_or NotFound (fetch_group d name)) (\<lambda>row.
       if 0 < gr_user_count row \<or> 0 < gr_service_account_count row then Inl Conflict
       else Inr (delete_group name w)))"

subsection \<open>Memberships\<close>

record group_member_request =
  gm_cid :: int
  gm_artcc_id :: "ustr option"
  gm_reason :: ustr

definition change_membership :: "int \<Rightarrow> current_user \<Rightarrow> ustr \<Rightarrow> group_member_request \<Rightarrow> bool \<Rightarrow>
    directory \<Rightarrow> directory \<Rightarrow> (unit result \<times> directory) result" where
  "change_membership now actor name payload held d w =
     (let db = d_access d; artcc = scope_key (gm_artcc_id payload) in
      if trim (gm_reason payload) = [] then Inl BadRequest
      else if is_system_role name then Inl Forbidden
      else if fetch_group d name = None then Inl NotFound
      else if (case artcc of None \<Rightarrow> False | Some a \<Rightarrow> \<not> List.member (list_facilities d) a) then Inl BadRequest
      else
        bind_result (ok_or NotFound (find_user_id_by_cid d (gm_cid payload))) (\<lambda>target.
        bind_result (enforce_membership_scope db (cu_id actor) name artcc) (\<lambda>_.
        bind_result (access_body db target (gm_cid payload)) (\<lambda>before.
        bind_result (save_role target artcc name held w) (\<lambda>w1.
        let w2 = snd (detach_roles now target (cu_id actor) w1) in
        Inr (bind_result (bind_result (access_body (d_access w2) target (gm_cid payload))
               (fill_server_admin_permissions w2)) (\<lambda>_. Inr ()), w2))))))"

definition add_group_member :: "int \<Rightarrow> caller \<Rightarrow> ustr \<Rightarrow> group_member_request \<Rightarrow> directory \<Rightarrow> directory \<Rightarrow>
    (unit result \<times> directory) result" where
  "add_group_member now c name payload d w =
     bind_result (editing_user (d_access d) now c AccessGroupsUpdate) (\<lambda>user.
       change_membership now user name payload True d w)"

definition remove_group_member :: "int \<Rightarrow> caller \<Rightarrow> ustr \<Rightarrow> group_member_request \<Rightarrow> directory \<Rightarrow> directory \<Rightarrow>
    (unit result \<times> directory) result" where
  "remove_group_member now c name payload d w =
     bind_result (editing_user (d_access d) now c AccessGroupsUpdate) (\<lambda>user.
       change_membership now user name payload False d w)"

end
