(* ===== verification/AccessLife.thy ===== *)
theory AccessLife
  imports AccessEditors
begin

text \<open>
  What the editors can do to anyone's access. \<open>bounded_by\<close> compares two states of the tables: whatever
  is granted in the second and was not in the first lies within an actor's authority in the first.
  Every endpoint run by someone who is not a server admin keeps to it, so no sequence of saves by any
  group of editors gives anyone more than one of them held at the start.
\<close>

subsection \<open>Effects of the writers\<close>

definition covers :: "access_db \<Rightarrow> ustr \<Rightarrow> ustr \<Rightarrow> artcc option \<Rightarrow> bool" where
  "covers db u p x = allows (user_permission_scope db u p) x"

lemma holds_at_iff: "holds_at db u p x = covers db u p x"
  by (auto simp: holds_at_def covers_def user_permission_scope_def scope_or_nothing_allows split: option.splits)

text \<open>\<open>M\<close> says which memberships may appear, \<open>G\<close> which direct grants may appear or denies be lifted.\<close>

definition gains_only :: "(ustr \<Rightarrow> ustr \<Rightarrow> artcc option \<Rightarrow> bool) \<Rightarrow> (ustr \<Rightarrow> ustr \<Rightarrow> artcc option \<Rightarrow> bool) \<Rightarrow>
    access_db \<Rightarrow> access_db \<Rightarrow> bool" where
  "gains_only M G db db' \<longleftrightarrow>
     t_role_permissions db' = t_role_permissions db \<and> t_permissions db' = t_permissions db \<and>
     (\<forall>u r x. member_at db' u r x \<longrightarrow> member_at db u r x \<or> M u r x) \<and>
     (\<forall>u p x. direct_at db' u p x True \<longrightarrow> direct_at db u p x True \<or> G u p x) \<and>
     (\<forall>u p x. direct_at db u p x False \<longrightarrow> direct_at db' u p x False \<or> G u p x) \<and>
     (\<forall>u p x. direct_at db' u p x False \<longrightarrow> direct_at db u p x False)"

lemma gains_only_refl [simp]: "gains_only M G db db"
  by (simp add: gains_only_def)

lemma gains_only_trans: "gains_only M G a b \<Longrightarrow> gains_only M G b c \<Longrightarrow> gains_only M G a c"
  unfolding gains_only_def by metis

lemma gains_only_role:
  assumes "set_user_role_scoped u r held x src d = Inr d'" and "held \<Longrightarrow> M u r x"
  shows "gains_only M G (d_access d) (d_access d')"
  using assms
  by (auto simp: set_user_role_scoped_def gains_only_def member_at_def direct_at_def Let_def split: if_splits)

lemma gains_only_fold:
  assumes "fold_result f xs d = Inr d'"
    and "\<And>x d d'. x \<in> set xs \<Longrightarrow> f x d = Inr d' \<Longrightarrow> gains_only M G (d_access d) (d_access d')"
  shows "gains_only M G (d_access d) (d_access d')"
  using assms(1)
proof (rule fold_result_invariant [where P = "\<lambda>t. gains_only M G (d_access d) (d_access t)"])
  fix x s t
  assume "x \<in> set xs" and "f x s = Inr t" and "gains_only M G (d_access d) (d_access s)"
  then show "gains_only M G (d_access d) (d_access t)"
    using assms(2) gains_only_trans by blast
qed simp

lemma gains_only_replace:
  assumes "replace_user_permissions_scoped u x names d = Inr d'" and "\<And>p. p \<in> set names \<Longrightarrow> G u p x"
  shows "gains_only M G (d_access d) (d_access d')"
  using assms(2)
  unfolding gains_only_def member_at_def direct_at_def replace_permission_rows(1-4) [OF assms(1)]
  by (auto simp: hand_grant_def manual_grant_at_def same_key_def)

lemma gains_only_save_role:
  assumes "save_role u x r held d = Inr d'" and "held \<Longrightarrow> M u r x"
  shows "gains_only M G (d_access d) (d_access d')"
proof -
  from assms(1) obtain d1 where d1: "set_user_role_scoped u r held x Manual d = Inr d1"
    and d': "(if held then Inr d1 else set_user_role_scoped u r False x Vatusa d1) = Inr d'"
    by (auto simp: save_role_def bind_result_Inr_iff)
  have "gains_only M G (d_access d1) (d_access d')"
    using d' by (auto split: if_splits intro: gains_only_role [where held = False])
  with gains_only_role [of u r held x Manual d d1 M G] d1 assms(2) show ?thesis
    using gains_only_trans by blast
qed

lemma gains_only_save_scope:
  assumes "save_scope u admin assignable s d = Inr d'"
    and "\<And>p. p \<in> set (ns_names s) \<Longrightarrow> G u p (ns_artcc s)"
    and "\<And>rs r. ns_roles s = Some rs \<Longrightarrow> r \<in> set rs \<Longrightarrow> r \<in> set assignable \<Longrightarrow> M u r (ns_artcc s)"
  shows "gains_only M G (d_access d) (d_access d')"
proof -
  from assms(1) obtain d1 where
    d1: "(if admin then Inr d else replace_user_permissions_scoped u (ns_artcc s) (ns_names s) d) = Inr d1"
    and d': "(case ns_roles s of None \<Rightarrow> Inr d1 | Some rs \<Rightarrow>
      fold_result (\<lambda>r. save_role u (ns_artcc s) r (List.member rs r)) assignable d1) = Inr d'"
    by (auto simp: save_scope_def bind_result_Inr_iff)
  have "gains_only M G (d_access d) (d_access d1)"
    using d1 assms(2) by (auto split: if_splits intro: gains_only_replace)
  moreover have "gains_only M G (d_access d1) (d_access d')"
  proof (cases "ns_roles s")
    case (Some rs)
    with d' have "fold_result (\<lambda>r. save_role u (ns_artcc s) r (List.member rs r)) assignable d1 = Inr d'"
      by simp
    then show ?thesis
    proof (rule gains_only_fold)
      fix r a b
      assume "r \<in> set assignable" and "save_role u (ns_artcc s) r (List.member rs r) a = Inr b"
      with Some assms(3) show "gains_only M G (d_access a) (d_access b)"
        using gains_only_save_role [where M = M and G = G] by simp
    qed
  qed (use d' in simp)
  ultimately show ?thesis by (rule gains_only_trans)
qed

lemma detach_roles_access [simp]: "d_access (snd (detach_roles now u by_user d)) = d_access d"
  by (simp add: detach_roles_def)

subsection \<open>What the guards establish\<close>

lemma set_symmetric_difference [simp]:
  "set (symmetric_difference xs ys) = (set xs - set ys) \<union> (set ys - set xs)"
  by (auto simp: symmetric_difference_def)

lemma check_granted_ok:
  "check_granted (fetch_effective_permissions db actor) diff = Inr () \<Longrightarrow> (x, p) \<in> set diff \<Longrightarrow>
     covers db actor p x"
  by (induction "fetch_effective_permissions db actor" diff rule: check_granted.induct)
    (auto simp: covers_def user_permission_scope_def scope_or_nothing_def split: option.splits if_splits)

lemma fetch_group_permissions_set:
  "p \<in> set (fetch_group_permissions db r) \<longleftrightarrow> (r, p) \<in> set (t_role_permissions db)"
  by (force simp: fetch_group_permissions_def)

lemma not_admin_access:
  "fetch_user_access (Some db) actor = Inr (roles, ps) \<Longrightarrow> is_server_admin roles = server_admin db actor"
  by (auto simp: fetch_user_access_def bind_result_Inr_iff server_admin_def)

lemma membership_scope_ok:
  assumes "enforce_membership_scope db actor r x = Inr ()" and "\<not> server_admin db actor"
    and "(r, p) \<in> set (t_role_permissions db)"
  shows "covers db actor p x"
  using assms
  by (auto simp: enforce_membership_scope_def bind_result_Inr_iff not_admin_access list_all_iff
      fetch_group_permissions_set holds_at_iff split: if_splits)

lemma check_roles_ok:
  "check_roles db actor diff = Inr () \<Longrightarrow> (x, r) \<in> set diff \<Longrightarrow> enforce_membership_scope db actor r x = Inr ()"
  by (induction db actor diff rule: check_roles.induct)
    (auto simp: Let_def bind_result_Inr_iff split: if_splits)

lemma group_scope_ok:
  assumes "enforce_group_scope db actor r before after = Inr ()" and "\<not> server_admin db actor"
    and "p \<in> set before \<longleftrightarrow> p \<notin> set after"
  shows "covers db actor p None"
  using assms
  by (auto simp: enforce_group_scope_def bind_result_Inr_iff not_admin_access list_all_iff
      holds_at_iff split: if_splits)

lemma direct_grants_set:
  "(x, p) \<in> set (fetch_user_direct_grants db u) \<longleftrightarrow> direct_at db u p x True"
  by (force simp: fetch_user_direct_grants_def direct_at_def)

lemma role_grants_set: "(x, r) \<in> set (fetch_user_role_grants db u) \<longleftrightarrow> member_at db u r x"
  by (force simp: fetch_user_role_grants_def member_at_def)

subsection \<open>Denies and grants do not meet\<close>

definition up_key :: "user_permission_row \<Rightarrow> ustr \<times> ustr \<times> artcc option \<times> grant_source" where
  "up_key up = (up_user up, up_permission up, up_artcc up, up_source up)"

text \<open>The unique index, denies only by hand, and no deny beside a grant of the same permission to the
  same member at the same scope.\<close>

definition direct_sound :: "access_db \<Rightarrow> bool" where
  "direct_sound db \<longleftrightarrow> distinct (map up_key (t_user_permissions db)) \<and>
     (\<forall>up\<in>set (t_user_permissions db). \<not> up_granted up \<longrightarrow> up_source up = Manual) \<and>
     (\<forall>u p x. \<not> (direct_at db u p x True \<and> direct_at db u p x False))"

lemma direct_sound_filter:
  "direct_sound db \<Longrightarrow> direct_sound (db\<lparr>t_user_permissions := filter P (t_user_permissions db)\<rparr>)"
  unfolding direct_sound_def direct_at_def by (simp add: distinct_map_filter) blast

lemma direct_sound_cong:
  "t_user_permissions db' = t_user_permissions db \<Longrightarrow> direct_sound db' = direct_sound db"
  by (simp add: direct_sound_def direct_at_def)

lemma direct_at_grant:
  assumes "grant_permission u x p d = Inr d'" and "direct_sound (d_access d)"
  shows "direct_at (d_access d') v q y g \<longleftrightarrow>
    (if (v, q, y) = (u, p, x) then g else direct_at (d_access d) v q y g)"
proof (cases "(v, q, y) = (u, p, x)")
  case True
  have "up_granted up" if "up \<in> set (t_user_permissions (d_access d))" "\<not> same_key u p x Manual up"
    "up_user up = u" "up_permission up = p" "up_artcc up = x" for up
    using that assms(2) by (auto simp: direct_sound_def same_key_def)
  with True show ?thesis
    unfolding direct_at_def grant_permission_rows(1) [OF assms(1)] by (cases g) (auto simp: hand_grant_def)
next
  case False
  then show ?thesis
    unfolding direct_at_def grant_permission_rows(1) [OF assms(1)] by (auto simp: same_key_def hand_grant_def)
qed

lemma direct_sound_grant:
  assumes "grant_permission u x p d = Inr d'" and "direct_sound (d_access d)"
  shows "direct_sound (d_access d')"
proof -
  have "distinct (map up_key (t_user_permissions (d_access d')))"
  proof (cases "list_ex (same_key u p x Manual) (t_user_permissions (d_access d))")
    case True
    moreover have "map up_key (map (\<lambda>up. if same_key u p x Manual up then up\<lparr>up_granted := True\<rparr> else up) rows) =
        map up_key rows" for rows
      by (simp add: up_key_def)
    ultimately show ?thesis
      using assms by (auto simp: grant_permission_def direct_sound_def simp del: map_map)
  next
    case False
    then have "(u, p, x, Manual) \<notin> up_key ` set (t_user_permissions (d_access d))"
      by (auto simp: list_ex_iff same_key_def up_key_def)
    with False assms show ?thesis
      by (auto simp: grant_permission_def direct_sound_def up_key_def split: if_splits)
  qed
  moreover have "\<forall>up\<in>set (t_user_permissions (d_access d')). \<not> up_granted up \<longrightarrow> up_source up = Manual"
    using assms by (auto simp: grant_permission_def direct_sound_def split: if_splits)
  moreover have "\<not> (direct_at (d_access d') v q y True \<and> direct_at (d_access d') v q y False)" for v q y
    unfolding direct_at_grant [OF assms] using assms(2) by (auto simp: direct_sound_def)
  ultimately show ?thesis by (simp add: direct_sound_def)
qed

subsection \<open>What the writers take away\<close>

definition losses_only :: "(ustr \<Rightarrow> ustr \<Rightarrow> artcc option \<Rightarrow> bool) \<Rightarrow> (ustr \<Rightarrow> ustr \<Rightarrow> artcc option \<Rightarrow> bool) \<Rightarrow>
    access_db \<Rightarrow> access_db \<Rightarrow> bool" where
  "losses_only M G db db' \<longleftrightarrow>
     (\<forall>u r x. member_at db u r x \<longrightarrow> member_at db' u r x \<or> M u r x) \<and>
     (\<forall>u p x. direct_at db u p x True \<longrightarrow> direct_at db' u p x True \<or> G u p x)"

lemma losses_only_refl [simp]: "losses_only M G db db"
  by (simp add: losses_only_def)

lemma losses_only_trans: "losses_only M G a b \<Longrightarrow> losses_only M G b c \<Longrightarrow> losses_only M G a c"
  unfolding losses_only_def by metis

lemma losses_only_role:
  assumes "set_user_role_scoped u r held x src d = Inr d'" and "\<not> held \<Longrightarrow> M u r x"
  shows "losses_only M G (d_access d) (d_access d')"
proof -
  have "member_at (d_access d) v q y \<Longrightarrow> member_at (d_access d') v q y \<or> (v, q, y) = (u, r, x) \<and> \<not> held" for v q y
    unfolding member_at_def set_user_role_rows(1) [OF assms(1)] by (force simp: role_row_def)
  with assms(2) show ?thesis
    by (auto simp: losses_only_def direct_at_def set_user_role_rows(2) [OF assms(1)])
qed

lemma losses_only_fold:
  assumes "fold_result f xs d = Inr d'"
    and "\<And>x d d'. x \<in> set xs \<Longrightarrow> f x d = Inr d' \<Longrightarrow> losses_only M G (d_access d) (d_access d')"
  shows "losses_only M G (d_access d) (d_access d')"
  using assms(1)
proof (rule fold_result_invariant [where P = "\<lambda>t. losses_only M G (d_access d) (d_access t)"])
  fix x s t
  assume "x \<in> set xs" and "f x s = Inr t" and "losses_only M G (d_access d) (d_access s)"
  then show "losses_only M G (d_access d) (d_access t)"
    using assms(2) losses_only_trans by blast
qed simp

abbreviation nothing :: "ustr \<Rightarrow> ustr \<Rightarrow> artcc option \<Rightarrow> bool" where
  "nothing \<equiv> \<lambda>_ _ _. False"

lemma losses_only_replace:
  assumes "replace_user_permissions_scoped u x names d = Inr d'" and "\<And>p. p \<notin> set names \<Longrightarrow> G u p x"
  shows "losses_only M G (d_access d) (d_access d')"
proof -
  have "direct_at (d_access d') v p y True" if "direct_at (d_access d) v p y True" "\<not> G v p y" for v p y
  proof -
    from that obtain up where up: "up \<in> set (t_user_permissions (d_access d))" "up_user up = v"
      "up_permission up = p" "up_artcc up = y" "up_granted up"
      by (auto simp: direct_at_def)
    show ?thesis
    proof (cases "v = u \<and> y = x \<and> p \<in> set names")
      case True
      then show ?thesis
        unfolding direct_at_def replace_permission_rows(1) [OF assms(1)]
        by (intro bexI [of _ "hand_grant u x p"]) (auto simp: hand_grant_def)
    next
      case False
      with up assms(2) that(2) show ?thesis
        unfolding direct_at_def replace_permission_rows(1) [OF assms(1)]
        by (intro bexI [of _ up]) (auto simp: manual_grant_at_def same_key_def)
    qed
  qed
  then show ?thesis
    by (auto simp: losses_only_def member_at_def replace_permission_rows(2) [OF assms(1)])
qed

lemma losses_only_save_role:
  assumes "save_role u x r held d = Inr d'" and "\<not> held \<Longrightarrow> M u r x"
  shows "losses_only M G (d_access d) (d_access d')"
proof -
  from assms(1) obtain d1 where d1: "set_user_role_scoped u r held x Manual d = Inr d1"
    and d': "(if held then Inr d1 else set_user_role_scoped u r False x Vatusa d1) = Inr d'"
    by (auto simp: save_role_def bind_result_Inr_iff)
  have "losses_only M G (d_access d1) (d_access d')"
    using d' assms(2) by (auto split: if_splits intro: losses_only_role [where held = False])
  with losses_only_role [of u r held x Manual d d1 M G] d1 assms(2) show ?thesis
    using losses_only_trans by blast
qed

lemma losses_only_save_scope:
  assumes "save_scope u admin assignable s d = Inr d'"
    and "\<And>p. p \<notin> set (ns_names s) \<Longrightarrow> G u p (ns_artcc s)"
    and "\<And>rs r. ns_roles s = Some rs \<Longrightarrow> r \<in> set assignable \<Longrightarrow> r \<notin> set rs \<Longrightarrow> M u r (ns_artcc s)"
  shows "losses_only M G (d_access d) (d_access d')"
proof -
  from assms(1) obtain d1 where
    d1: "(if admin then Inr d else replace_user_permissions_scoped u (ns_artcc s) (ns_names s) d) = Inr d1"
    and d': "(case ns_roles s of None \<Rightarrow> Inr d1 | Some rs \<Rightarrow>
      fold_result (\<lambda>r. save_role u (ns_artcc s) r (List.member rs r)) assignable d1) = Inr d'"
    by (auto simp: save_scope_def bind_result_Inr_iff)
  have "losses_only M G (d_access d) (d_access d1)"
    using d1 assms(2) by (auto split: if_splits intro: losses_only_replace)
  moreover have "losses_only M G (d_access d1) (d_access d')"
  proof (cases "ns_roles s")
    case (Some rs)
    with d' have "fold_result (\<lambda>r. save_role u (ns_artcc s) r (List.member rs r)) assignable d1 = Inr d'"
      by simp
    then show ?thesis
    proof (rule losses_only_fold)
      fix r a b
      assume "r \<in> set assignable" and "save_role u (ns_artcc s) r (List.member rs r) a = Inr b"
      with Some assms(3) show "losses_only M G (d_access a) (d_access b)"
        using losses_only_save_role [where M = M and G = G] by simp
    qed
  qed (use d' in simp)
  ultimately show ?thesis by (rule losses_only_trans)
qed

subsection \<open>The endpoints\<close>

datatype editor_step =
    SaveUser int caller int update_user_access_request
  | CreateGroup int caller create_group_request
  | UpdateGroup int caller ustr update_group_request
  | DeleteGroup int caller ustr
  | AddMember int caller ustr group_member_request
  | RemoveMember int caller ustr group_member_request

fun step_caller :: "editor_step \<Rightarrow> caller" where
  "step_caller (SaveUser _ c _ _) = c"
| "step_caller (CreateGroup _ c _) = c"
| "step_caller (UpdateGroup _ c _ _) = c"
| "step_caller (DeleteGroup _ c _) = c"
| "step_caller (AddMember _ c _ _) = c"
| "step_caller (RemoveMember _ c _ _) = c"

fun attempt :: "editor_step \<Rightarrow> directory \<Rightarrow> directory \<Rightarrow> directory result" where
  "attempt (SaveUser now c cid p) d w = bind_result (update_user_access now c cid p d w) (\<lambda>(_, w'). Inr w')"
| "attempt (CreateGroup now c p) d w = bind_result (create_group_handler now c p d w) (\<lambda>(_, w'). Inr w')"
| "attempt (UpdateGroup now c n p) d w = bind_result (update_group now c n p d w) (\<lambda>(_, w'). Inr w')"
| "attempt (DeleteGroup now c n) d w = delete_group_handler now c n d w"
| "attempt (AddMember now c n p) d w = bind_result (add_group_member now c n p d w) (\<lambda>(_, w'). Inr w')"
| "attempt (RemoveMember now c n p) d w = bind_result (remove_group_member now c n p d w) (\<lambda>(_, w'). Inr w')"

text \<open>One request after another: a refused one changes nothing.\<close>

definition after_step :: "editor_step \<Rightarrow> directory \<Rightarrow> directory" where
  "after_step s d = (case attempt s d d of Inl _ \<Rightarrow> d | Inr d' \<Rightarrow> d')"

definition after_steps :: "editor_step list \<Rightarrow> directory \<Rightarrow> directory" where
  "after_steps steps d = fold after_step steps d"

definition acts_as :: "editor_step \<Rightarrow> ustr \<Rightarrow> bool" where
  "acts_as s actor \<longleftrightarrow> (\<exists>user. cl_user (step_caller s) = Some user \<and> cu_id user = actor)"

lemma editing_user_ok: "editing_user db now c perm = Inr user \<Longrightarrow> cl_user c = Some user"
  by (cases "cl_user c") (auto simp: editing_user_def bind_result_Inr_iff)

lemma update_user_access_ok:
  assumes "update_user_access now c cid payload d w = Inr (body, w')"
  obtains user scopes target admin w1 where "cl_user c = Some user"
    and "norm_scopes d (ua_scopes payload) = Inr scopes" and "find_user_id_by_cid d cid = Some target"
    and "enforce_actor_scope (d_access d) (cu_id user) scopes (fetch_user_direct_grants (d_access d) target)
      (fetch_user_role_grants (d_access d) target) (fetch_assignable_role_names d) = Inr ()"
    and "fold_result (save_scope target admin (fetch_assignable_role_names d)) scopes w = Inr w1"
    and "d_access w' = d_access w1"
  using assms
  by (auto simp: update_user_access_def bind_result_Inr_iff Let_def ok_or_def editing_user_ok
      split: if_splits option.splits)

lemma update_group_ok:
  assumes "update_group now c name payload d w = Inr (body, w')"
  obtains user where "cl_user c = Some user" and "\<not> is_system_role name"
    and "enforce_group_scope (d_access d) (cu_id user) name (fetch_group_permissions (d_access d) name)
      (requested_permissions (ug_permissions payload)) = Inr ()"
    and "replace_group_permissions name (requested_permissions (ug_permissions payload)) w = Inr w'"
  using assms
  by (auto simp: update_group_def bind_result_Inr_iff Let_def editing_user_ok split: if_splits)

lemma change_membership_ok:
  assumes "change_membership now actor name payload held d w = Inr (body, w')"
  obtains target w1 where "\<not> is_system_role name"
    and "enforce_membership_scope (d_access d) (cu_id actor) name (scope_key (gm_artcc_id payload)) = Inr ()"
    and "save_role target (scope_key (gm_artcc_id payload)) name held w = Inr w1"
    and "d_access w' = d_access w1" and "find_user_id_by_cid d (gm_cid payload) = Some target"
  using assms
  by (auto simp: change_membership_def bind_result_Inr_iff Let_def ok_or_def split: if_splits option.splits)

lemma create_group_ok:
  assumes "create_group_handler now c payload d w = Inr (body, w')"
  shows "d_access w' = d_access w"
  using assms
  by (auto simp: create_group_handler_def create_group_def bind_result_Inr_iff Let_def split: if_splits)

lemma delete_group_ok:
  assumes "delete_group_handler now c name d w = Inr w'"
  shows "w' = delete_group name w \<and> \<not> is_system_role name \<and> (\<exists>user. cl_user c = Some user) \<and>
    (\<exists>row. fetch_group d name = Some row \<and> gr_user_count row = 0 \<and> gr_service_account_count row = 0)"
  using assms
  by (auto simp: delete_group_handler_def bind_result_Inr_iff ok_or_def editing_user_ok
      split: if_splits option.splits)

lemma norm_scopes_ok:
  assumes "norm_scopes d ss = Inr scopes" and "s \<in> set scopes"
  shows "set (ns_names s) \<subseteq> set (t_permissions (d_access d)) \<and>
    (\<forall>rs. ns_roles s = Some rs \<longrightarrow> set rs \<subseteq> set (fetch_assignable_role_names d))"
  using assms
proof (induction ss arbitrary: scopes)
  case (Cons u ss)
  let ?artcc = "scope_key (su_artcc_id u)"
  from Cons.prems(1) obtain names rest where
    scopes: "scopes = \<lparr>ns_artcc = ?artcc, ns_names = names, ns_roles = su_role_names u\<rparr> # rest"
    and names: "list_all (List.member (fetch_access_catalog_names d)) names"
    and roles: "\<not> (case su_role_names u of None \<Rightarrow> False
      | Some rs \<Rightarrow> \<not> list_all (List.member (fetch_assignable_role_names d)) rs)"
    and rest: "norm_scopes d ss = Inr rest"
    by (simp add: Let_def bind_result_Inr_iff split: if_split_asm) blast+
  from Cons.prems(2) scopes consider "s = \<lparr>ns_artcc = ?artcc, ns_names = names, ns_roles = su_role_names u\<rparr>"
    | "s \<in> set rest" by auto
  then show ?case
  proof cases
    case 1
    with names roles show ?thesis
      by (auto simp: list_all_iff fetch_access_catalog_names_def split: option.splits)
  next
    case 2
    with Cons.IH [OF rest] show ?thesis by simp
  qed
qed simp

lemma norm_scopes_artccs:
  "norm_scopes d ss = Inr scopes \<Longrightarrow> payload_scopes scopes = map (scope_key \<circ> su_artcc_id) ss"
  by (induction ss arbitrary: scopes)
    (auto simp: payload_scopes_def Let_def bind_result_Inr_iff split: if_split_asm)

lemma assignable_not_system: "r \<in> set (fetch_assignable_role_names d) \<Longrightarrow> \<not> is_system_role r"
  by (simp add: fetch_assignable_role_names_def)

lemma server_admin_is_system: "is_system_role SERVER_ADMIN_ROLE"
  by code_simp

lemma replace_group_access:
  assumes "replace_group_permissions name names w = Inr w'"
  shows "t_user_roles (d_access w') = t_user_roles (d_access w) \<and>
    t_user_permissions (d_access w') = t_user_permissions (d_access w) \<and>
    t_permissions (d_access w') = t_permissions (d_access w) \<and>
    (\<forall>p. (name, p) \<in> set (t_role_permissions (d_access w')) \<longleftrightarrow> p \<in> set names) \<and>
    (\<forall>r p. r \<noteq> name \<longrightarrow>
       ((r, p) \<in> set (t_role_permissions (d_access w')) \<longleftrightarrow> (r, p) \<in> set (t_role_permissions (d_access w))))"
proof -
  let ?Q = "\<lambda>ns t. t_user_roles (d_access t) = t_user_roles (d_access w) \<and>
    t_user_permissions (d_access t) = t_user_permissions (d_access w) \<and>
    t_permissions (d_access t) = t_permissions (d_access w) \<and>
    (\<forall>p. (name, p) \<in> set (t_role_permissions (d_access t)) \<longleftrightarrow> p \<in> set ns) \<and>
    (\<forall>r p. r \<noteq> name \<longrightarrow>
       ((r, p) \<in> set (t_role_permissions (d_access t)) \<longleftrightarrow> (r, p) \<in> set (t_role_permissions (d_access w))))"
  have "?Q (ns @ rest) t'" if "fold_result (insert_group_permission name) rest t = Inr t'" and "?Q ns t"
    for ns rest t t'
    using that
  proof (induction rest arbitrary: ns t)
    case (Cons p rest)
    then obtain t1 where t1: "insert_group_permission name p t = Inr t1"
      and rest: "fold_result (insert_group_permission name) rest t1 = Inr t'"
      by (auto simp: bind_result_Inr_iff)
    have "?Q (ns @ [p]) t1"
      using Cons.prems(2) t1 by (auto simp: insert_group_permission_def split: if_splits)
    from Cons.IH [OF rest this] show ?case by simp
  qed simp
  from this [of names _ w' "[]"] assms show ?thesis
    unfolding replace_group_permissions_def by auto
qed

subsection \<open>Changes within someone's authority\<close>

definition bundle_at :: "access_db \<Rightarrow> ustr \<Rightarrow> ustr \<Rightarrow> artcc option \<Rightarrow> bool" where
  "bundle_at db u p x \<longleftrightarrow> (\<exists>r. member_at db u r x \<and> (r, p) \<in> set (t_role_permissions db))"

text \<open>Whatever the second state grants beyond the first lies within \<open>C\<close>. Read backwards it says the
  same of what the second state takes away.\<close>

definition grows_within :: "(ustr \<Rightarrow> artcc option \<Rightarrow> bool) \<Rightarrow> access_db \<Rightarrow> access_db \<Rightarrow> bool" where
  "grows_within C db db' \<longleftrightarrow>
     t_permissions db' = t_permissions db \<and>
     (\<forall>u. server_admin db' u \<longrightarrow> server_admin db u) \<and>
     (\<forall>u p x. bundle_at db' u p x \<longrightarrow> bundle_at db u p x \<or> C p x) \<and>
     (\<forall>u p x. direct_at db' u p x True \<longrightarrow> direct_at db u p x True \<or> C p x) \<and>
     (\<forall>u p x. direct_at db u p x False \<longrightarrow> direct_at db' u p x False \<or> C p x)"

lemma covers_Some_iff:
  "covers db u p (Some a) \<longleftrightarrow>
     (\<exists>x\<in>{None, Some a}. bundle_at db u p x \<or> direct_at db u p x True \<or>
        x = None \<and> server_admin db u \<and> p \<in> set (t_permissions db)) \<and>
     \<not> direct_at db u p None False \<and> \<not> direct_at db u p (Some a) False"
  by (auto simp: covers_def user_allows_Some Let_def rows_grant_True rows_grant_False bundle_at_def)

lemma covers_None_Some: "covers db u p None \<Longrightarrow> covers db u p x"
  by (cases x) (auto simp: covers_def dest: national_covers_all)

lemma grows_covered:
  assumes "grows_within (covers db actor) db db'" and "covers db' u p (Some a)"
  shows "covers db u p (Some a) \<or> covers db actor p (Some a)"
proof (rule ccontr)
  assume new: "\<not> ?thesis"
  then have C: "x \<in> {None, Some a} \<Longrightarrow> \<not> covers db actor p x" for x
    using covers_None_Some by blast
  then have "\<not> direct_at db u p x False" if "x \<in> {None, Some a}" for x
    using that assms unfolding grows_within_def covers_Some_iff by blast
  moreover have "\<exists>x\<in>{None, Some a}. bundle_at db u p x \<or> direct_at db u p x True \<or>
      x = None \<and> server_admin db u \<and> p \<in> set (t_permissions db)"
    using C assms unfolding grows_within_def covers_Some_iff by metis
  ultimately show False
    using new unfolding covers_Some_iff by blast
qed

lemma lost_covered:
  assumes "grows_within (covers db actor) db' db" and "covers db u p (Some a)"
  shows "covers db' u p (Some a) \<or> covers db actor p (Some a)"
proof (rule ccontr)
  assume lost: "\<not> ?thesis"
  then have C: "x \<in> {None, Some a} \<Longrightarrow> \<not> covers db actor p x" for x
    using covers_None_Some by blast
  then have "\<not> direct_at db' u p x False" if "x \<in> {None, Some a}" for x
    using that assms unfolding grows_within_def covers_Some_iff by blast
  moreover have "\<exists>x\<in>{None, Some a}. bundle_at db' u p x \<or> direct_at db' u p x True \<or>
      x = None \<and> server_admin db' u \<and> p \<in> set (t_permissions db')"
    using C assms unfolding grows_within_def covers_Some_iff by metis
  ultimately show False
    using lost unfolding covers_Some_iff by blast
qed

lemma grows_from_gains:
  assumes "gains_only M G db db'" and "\<And>u x. \<not> M u SERVER_ADMIN_ROLE x"
    and "\<And>u r x p. M u r x \<Longrightarrow> (r, p) \<in> set (t_role_permissions db) \<Longrightarrow> bundle_at db u p x \<or> C p x"
    and "\<And>u p x. G u p x \<Longrightarrow> \<not> direct_at db u p x True \<Longrightarrow> C p x" and "direct_sound db"
  shows "grows_within C db db'"
  unfolding grows_within_def
proof (intro conjI allI impI)
  show "t_permissions db' = t_permissions db"
    using assms(1) by (simp add: gains_only_def)
next
  fix u assume "server_admin db' u"
  then show "server_admin db u"
    using assms(1,2) unfolding server_admin_iff gains_only_def by metis
next
  fix u p x assume "bundle_at db' u p x"
  then show "bundle_at db u p x \<or> C p x"
    using assms(1,3) unfolding bundle_at_def gains_only_def by metis
next
  fix u p x assume "direct_at db' u p x True"
  then show "direct_at db u p x True \<or> C p x"
    using assms(1,4) unfolding gains_only_def by metis
next
  fix u p x assume "direct_at db u p x False"
  then show "direct_at db' u p x False \<or> C p x"
    using assms(1,4,5) unfolding gains_only_def direct_sound_def by metis
qed

lemma shrinks_from_losses:
  assumes "losses_only M L db db'" and "gains_only M' G db db'" and "\<And>u x. \<not> M u SERVER_ADMIN_ROLE x"
    and "\<And>u r x p. M u r x \<Longrightarrow> member_at db u r x \<Longrightarrow> (r, p) \<in> set (t_role_permissions db) \<Longrightarrow> C p x"
    and "\<And>u p x. L u p x \<Longrightarrow> direct_at db u p x True \<Longrightarrow> C p x"
  shows "grows_within C db' db"
  unfolding grows_within_def
proof (intro conjI allI impI)
  show "t_permissions db = t_permissions db'"
    using assms(2) by (simp add: gains_only_def)
next
  fix u assume "server_admin db u"
  then show "server_admin db' u"
    using assms(1,3) unfolding server_admin_iff losses_only_def by metis
next
  fix u p x assume "bundle_at db u p x"
  then show "bundle_at db' u p x \<or> C p x"
    using assms(1,2,4) unfolding bundle_at_def losses_only_def gains_only_def by metis
next
  fix u p x assume "direct_at db u p x True"
  then show "direct_at db' u p x True \<or> C p x"
    using assms(1,5) unfolding losses_only_def by metis
next
  fix u p x assume "direct_at db' u p x False"
  then show "direct_at db u p x False \<or> C p x"
    using assms(2) unfolding gains_only_def by metis
qed

lemma actor_scope_ok:
  assumes "enforce_actor_scope db actor scopes (fetch_user_direct_grants db t) (fetch_user_role_grants db t)
      assignable = Inr ()" and "\<not> server_admin db actor"
  shows "(x, p) \<in> set (requested_perms scopes) \<Longrightarrow> \<not> direct_at db t p x True \<Longrightarrow> covers db actor p x"
    and "x \<in> set (payload_scopes scopes) \<Longrightarrow> (x, p) \<notin> set (requested_perms scopes) \<Longrightarrow>
      direct_at db t p x True \<Longrightarrow> covers db actor p x"
    and "(x, r) \<in> set (requested_roles scopes) \<Longrightarrow> \<not> member_at db t r x \<Longrightarrow>
      (r, p) \<in> set (t_role_permissions db) \<Longrightarrow> covers db actor p x"
    and "x \<in> set (role_scopes scopes) \<Longrightarrow> r \<in> set assignable \<Longrightarrow> (x, r) \<notin> set (requested_roles scopes) \<Longrightarrow>
      member_at db t r x \<Longrightarrow> (r, p) \<in> set (t_role_permissions db) \<Longrightarrow> covers db actor p x"
proof -
  let ?P = "symmetric_difference (requested_perms scopes)
    (filter (\<lambda>(artcc, _). List.member (payload_scopes scopes) artcc) (fetch_user_direct_grants db t))"
  let ?R = "symmetric_difference (requested_roles scopes)
    (filter (\<lambda>(artcc, role). List.member (role_scopes scopes) artcc \<and> List.member assignable role)
      (fetch_user_role_grants db t))"
  have P: "check_granted (fetch_effective_permissions db actor) ?P = Inr ()"
    and R: "check_roles db actor ?R = Inr ()"
    using assms by (auto simp: enforce_actor_scope_def bind_result_Inr_iff not_admin_access split: if_splits)
  note perm = check_granted_ok [OF P] and role = membership_scope_ok [OF check_roles_ok [OF R] assms(2)]
  show "(x, p) \<in> set (requested_perms scopes) \<Longrightarrow> \<not> direct_at db t p x True \<Longrightarrow> covers db actor p x"
    by (rule perm) (simp add: direct_grants_set)
  show "x \<in> set (payload_scopes scopes) \<Longrightarrow> (x, p) \<notin> set (requested_perms scopes) \<Longrightarrow>
      direct_at db t p x True \<Longrightarrow> covers db actor p x"
    by (rule perm) (simp add: direct_grants_set)
  show "(x, r) \<in> set (requested_roles scopes) \<Longrightarrow> \<not> member_at db t r x \<Longrightarrow>
      (r, p) \<in> set (t_role_permissions db) \<Longrightarrow> covers db actor p x"
    by (rule role [of x r p]) (simp_all add: role_grants_set)
  show "x \<in> set (role_scopes scopes) \<Longrightarrow> r \<in> set assignable \<Longrightarrow> (x, r) \<notin> set (requested_roles scopes) \<Longrightarrow>
      member_at db t r x \<Longrightarrow> (r, p) \<in> set (t_role_permissions db) \<Longrightarrow> covers db actor p x"
    by (rule role [of x r p]) (simp_all add: role_grants_set)
qed

subsection \<open>Every endpoint stays within the caller's authority\<close>

lemma requested_in_perms: "s \<in> set scopes \<Longrightarrow> p \<in> set (ns_names s) \<Longrightarrow> (ns_artcc s, p) \<in> set (requested_perms scopes)"
  by (auto simp: requested_perms_def)

lemma requested_in_roles:
  "s \<in> set scopes \<Longrightarrow> ns_roles s = Some rs \<Longrightarrow> r \<in> set rs \<Longrightarrow> (ns_artcc s, r) \<in> set (requested_roles scopes)"
  by (force simp: requested_roles_def)

lemma requested_at_distinct:
  assumes "distinct (payload_scopes scopes)" and "s \<in> set scopes"
  shows "(ns_artcc s, p) \<in> set (requested_perms scopes) \<longleftrightarrow> p \<in> set (ns_names s)"
    and "ns_roles s = Some rs \<Longrightarrow> (ns_artcc s, r) \<in> set (requested_roles scopes) \<longleftrightarrow> r \<in> set rs"
proof -
  have "inj_on ns_artcc (set scopes)"
    using assms(1) by (simp add: payload_scopes_def distinct_map)
  then have same: "t \<in> set scopes \<Longrightarrow> ns_artcc t = ns_artcc s \<Longrightarrow> t = s" for t
    using assms(2) by (meson inj_onD)
  have perms: "(y, p) \<in> set (requested_perms scopes) \<longleftrightarrow> (\<exists>t\<in>set scopes. ns_artcc t = y \<and> p \<in> set (ns_names t))" for y
    by (force simp: requested_perms_def)
  have roles: "(y, r) \<in> set (requested_roles scopes) \<longleftrightarrow>
      (\<exists>t\<in>set scopes. ns_artcc t = y \<and> (\<exists>rs. ns_roles t = Some rs \<and> r \<in> set rs))" for y
    by (force simp: requested_roles_def split: option.splits)
  show "(ns_artcc s, p) \<in> set (requested_perms scopes) \<longleftrightarrow> p \<in> set (ns_names s)"
    unfolding perms using assms(2) same by blast
  show "(ns_artcc s, r) \<in> set (requested_roles scopes) \<longleftrightarrow> r \<in> set rs" if rs: "ns_roles s = Some rs"
  proof
    assume "(ns_artcc s, r) \<in> set (requested_roles scopes)"
    then obtain t ts where "t \<in> set scopes" "ns_artcc t = ns_artcc s" "ns_roles t = Some ts" "r \<in> set ts"
      unfolding roles by blast
    with same [of t] rs show "r \<in> set rs" by simp
  next
    assume "r \<in> set rs"
    with assms(2) rs show "(ns_artcc s, r) \<in> set (requested_roles scopes)"
      unfolding roles by blast
  qed
qed

lemma save_scopes_gains:
  assumes "fold_result (save_scope t admin assignable) scopes w = Inr w1"
  shows "gains_only (\<lambda>u r x. u = t \<and> (x, r) \<in> set (requested_roles scopes) \<and> r \<in> set assignable)
    (\<lambda>u p x. u = t \<and> (x, p) \<in> set (requested_perms scopes)) (d_access w) (d_access w1)"
  using assms
proof (rule gains_only_fold)
  fix s a b
  assume "s \<in> set scopes" and "save_scope t admin assignable s a = Inr b"
  then show "gains_only (\<lambda>u r x. u = t \<and> (x, r) \<in> set (requested_roles scopes) \<and> r \<in> set assignable)
    (\<lambda>u p x. u = t \<and> (x, p) \<in> set (requested_perms scopes)) (d_access a) (d_access b)"
    by (intro gains_only_save_scope) (auto simp: requested_in_perms requested_in_roles)
qed

lemma save_scopes_losses:
  assumes "fold_result (save_scope t admin assignable) scopes w = Inr w1" and "distinct (payload_scopes scopes)"
  shows "losses_only (\<lambda>u r x. u = t \<and> x \<in> set (role_scopes scopes) \<and> r \<in> set assignable \<and>
      (x, r) \<notin> set (requested_roles scopes))
    (\<lambda>u p x. u = t \<and> x \<in> set (payload_scopes scopes) \<and> (x, p) \<notin> set (requested_perms scopes))
    (d_access w) (d_access w1)"
  using assms(1)
proof (rule losses_only_fold)
  fix s a b
  assume s: "s \<in> set scopes" and save: "save_scope t admin assignable s a = Inr b"
  show "losses_only (\<lambda>u r x. u = t \<and> x \<in> set (role_scopes scopes) \<and> r \<in> set assignable \<and>
      (x, r) \<notin> set (requested_roles scopes))
    (\<lambda>u p x. u = t \<and> x \<in> set (payload_scopes scopes) \<and> (x, p) \<notin> set (requested_perms scopes))
    (d_access a) (d_access b)"
  proof (rule losses_only_save_scope [OF save])
    fix p assume "p \<notin> set (ns_names s)"
    then show "t = t \<and> ns_artcc s \<in> set (payload_scopes scopes) \<and> (ns_artcc s, p) \<notin> set (requested_perms scopes)"
      using s requested_at_distinct(1) [OF assms(2) s] by (simp add: payload_scopes_def)
  next
    fix rs r assume "ns_roles s = Some rs" and "r \<in> set assignable" and "r \<notin> set rs"
    then show "t = t \<and> ns_artcc s \<in> set (role_scopes scopes) \<and> r \<in> set assignable \<and>
        (ns_artcc s, r) \<notin> set (requested_roles scopes)"
      using s requested_at_distinct(2) [OF assms(2) s] by (auto simp: role_scopes_def)
  qed
qed

lemma save_user_grows:
  assumes "update_user_access now c cid payload d d = Inr (body, d')" and "cl_user c = Some user"
    and "\<not> server_admin (d_access d) (cu_id user)" and "direct_sound (d_access d)"
  shows "grows_within (covers (d_access d) (cu_id user)) (d_access d) (d_access d')"
proof -
  from assms(1,2) obtain scopes t admin w1 where
    ok: "enforce_actor_scope (d_access d) (cu_id user) scopes (fetch_user_direct_grants (d_access d) t)
      (fetch_user_role_grants (d_access d) t) (fetch_assignable_role_names d) = Inr ()"
    and saved: "fold_result (save_scope t admin (fetch_assignable_role_names d)) scopes d = Inr w1"
    and d': "d_access d' = d_access w1"
    by (auto elim!: update_user_access_ok)
  note guard = actor_scope_ok [OF ok assms(3)]
  show ?thesis
    unfolding d'
  proof (rule grows_from_gains [OF save_scopes_gains [OF saved]])
    show "\<not> (u = t \<and> (x, SERVER_ADMIN_ROLE) \<in> set (requested_roles scopes) \<and>
        SERVER_ADMIN_ROLE \<in> set (fetch_assignable_role_names d))" for u x
      using assignable_not_system server_admin_is_system by blast
  next
    fix u r x p
    assume "u = t \<and> (x, r) \<in> set (requested_roles scopes) \<and> r \<in> set (fetch_assignable_role_names d)"
      and "(r, p) \<in> set (t_role_permissions (d_access d))"
    with guard(3) show "bundle_at (d_access d) u p x \<or> covers (d_access d) (cu_id user) p x"
      unfolding bundle_at_def by blast
  next
    fix u p x
    assume "u = t \<and> (x, p) \<in> set (requested_perms scopes)" and "\<not> direct_at (d_access d) u p x True"
    with guard(1) show "covers (d_access d) (cu_id user) p x" by blast
  qed (rule assms(4))
qed

lemma save_user_shrinks:
  assumes "update_user_access now c cid payload d d = Inr (body, d')" and "cl_user c = Some user"
    and "\<not> server_admin (d_access d) (cu_id user)"
    and "distinct (map (scope_key \<circ> su_artcc_id) (ua_scopes payload))"
  shows "grows_within (covers (d_access d) (cu_id user)) (d_access d') (d_access d)"
proof -
  from assms(1,2) obtain scopes t admin w1 where
    norm: "norm_scopes d (ua_scopes payload) = Inr scopes" and
    ok: "enforce_actor_scope (d_access d) (cu_id user) scopes (fetch_user_direct_grants (d_access d) t)
      (fetch_user_role_grants (d_access d) t) (fetch_assignable_role_names d) = Inr ()"
    and saved: "fold_result (save_scope t admin (fetch_assignable_role_names d)) scopes d = Inr w1"
    and d': "d_access d' = d_access w1"
    by (auto elim!: update_user_access_ok)
  have dist: "distinct (payload_scopes scopes)"
    using assms(4) norm_scopes_artccs [OF norm] by simp
  note guard = actor_scope_ok [OF ok assms(3)]
  show ?thesis
    unfolding d'
  proof (rule shrinks_from_losses [OF save_scopes_losses [OF saved dist] save_scopes_gains [OF saved]])
    show "\<not> (u = t \<and> x \<in> set (role_scopes scopes) \<and> SERVER_ADMIN_ROLE \<in> set (fetch_assignable_role_names d) \<and>
        (x, SERVER_ADMIN_ROLE) \<notin> set (requested_roles scopes))" for u x
      using assignable_not_system server_admin_is_system by blast
  qed (use guard(2,4) in blast)+
qed

lemma membership_within:
  assumes "change_membership now user name payload held d d = Inr (body, d')"
    and "\<not> server_admin (d_access d) (cu_id user)" and "direct_sound (d_access d)"
  shows "grows_within (covers (d_access d) (cu_id user)) (d_access d) (d_access d') \<and>
    grows_within (covers (d_access d) (cu_id user)) (d_access d') (d_access d)"
proof -
  let ?x = "scope_key (gm_artcc_id payload)"
  from assms(1) obtain t w1 where sys: "\<not> is_system_role name"
    and ok: "enforce_membership_scope (d_access d) (cu_id user) name ?x = Inr ()"
    and saved: "save_role t ?x name held d = Inr w1" and d': "d_access d' = d_access w1"
    by (rule change_membership_ok)
  let ?M = "\<lambda>u r y. u = t \<and> r = name \<and> y = ?x"
  have gains: "gains_only ?M nothing (d_access d) (d_access d')"
    unfolding d' by (rule gains_only_save_role [OF saved]) simp
  have losses: "losses_only ?M nothing (d_access d) (d_access d')"
    unfolding d' by (rule losses_only_save_role [OF saved]) simp
  have admin: "\<not> ?M u SERVER_ADMIN_ROLE x" for u x
    using sys server_admin_is_system by auto
  note guard = membership_scope_ok [OF ok assms(2)]
  show ?thesis
    by (rule conjI, rule grows_from_gains [OF gains admin _ _ assms(3)])
      (use guard in auto, rule shrinks_from_losses [OF losses gains admin], use guard in auto)
qed

lemma update_group_within:
  assumes "update_group now c name payload d d = Inr (body, d')" and "cl_user c = Some user"
    and "\<not> server_admin (d_access d) (cu_id user)"
  shows "grows_within (covers (d_access d) (cu_id user)) (d_access d) (d_access d') \<and>
    grows_within (covers (d_access d) (cu_id user)) (d_access d') (d_access d)"
proof -
  let ?names = "requested_permissions (ug_permissions payload)"
  from assms(1,2) have
    ok: "enforce_group_scope (d_access d) (cu_id user) name (fetch_group_permissions (d_access d) name) ?names = Inr ()"
    and saved: "replace_group_permissions name ?names d = Inr d'"
    by (auto elim!: update_group_ok)
  note same = replace_group_access [OF saved]
  have cov: "covers (d_access d) (cu_id user) p x"
    if "(name, p) \<in> set (t_role_permissions (d_access d)) \<longleftrightarrow> p \<notin> set ?names" for p x
    using group_scope_ok [OF ok assms(3)] that covers_None_Some by (auto simp: fetch_group_permissions_set)
  have "member_at (d_access d') = member_at (d_access d)" and "direct_at (d_access d') = direct_at (d_access d)"
    using same by (auto simp: member_at_def direct_at_def fun_eq_iff)
  moreover have "bundle_at (d_access d') u p x \<longleftrightarrow> bundle_at (d_access d) u p x \<or> covers (d_access d) (cu_id user) p x"
    if "\<not> covers (d_access d) (cu_id user) p x" for u p x
  proof -
    have "(r, p) \<in> set (t_role_permissions (d_access d')) \<longleftrightarrow> (r, p) \<in> set (t_role_permissions (d_access d))" for r
      using same cov [of p x] that by (cases "r = name") auto
    with calculation that show ?thesis by (simp add: bundle_at_def)
  qed
  ultimately show ?thesis
    using same by (auto simp: grows_within_def server_admin_iff)
qed

lemma unheld_group_deletion:
  assumes "delete_group_handler now c name d d = Inr d'"
  shows "grows_within C (d_access d) (d_access d') \<and> grows_within C (d_access d') (d_access d)"
proof -
  from delete_group_ok [OF assms] obtain row where row: "fetch_group d name = Some row" "gr_user_count row = 0"
    and d': "d' = delete_group name d" and sys: "\<not> is_system_role name"
    by auto
  then obtain r where "find (\<lambda>r. fst r = name) (d_roles d) = Some r" and "row = group_select d r"
    by (auto simp: fetch_group_def)
  then have "fst r = name" and "row = group_select d r"
    by (auto simp: find_Some_iff)
  with row(2) have none: "ur \<in> set (t_user_roles (d_access d)) \<Longrightarrow> ur_role ur \<noteq> name" for ur
    by (auto simp: group_select_def filter_empty_conv)
  have "member_at (d_access d') = member_at (d_access d)" and "direct_at (d_access d') = direct_at (d_access d)"
    using none unfolding d' by (auto simp: delete_group_def member_at_def direct_at_def fun_eq_iff)
  moreover have "bundle_at (d_access d') = bundle_at (d_access d)"
    using none unfolding d' by (auto simp: delete_group_def bundle_at_def member_at_def fun_eq_iff)
  moreover have "t_permissions (d_access d') = t_permissions (d_access d)"
    by (simp add: d' delete_group_def)
  ultimately show ?thesis
    by (simp add: grows_within_def server_admin_iff)
qed

subsection \<open>No escalation\<close>

lemma direct_sound_role:
  "set_user_role_scoped u r held x src d = Inr d' \<Longrightarrow> direct_sound (d_access d) \<Longrightarrow> direct_sound (d_access d')"
  by (rule direct_sound_cong [THEN iffD2])
    (auto simp: set_user_role_scoped_def Let_def split: if_splits)

lemma direct_sound_save_role:
  assumes "save_role u x r held d = Inr d'" and "direct_sound (d_access d)"
  shows "direct_sound (d_access d')"
proof -
  from assms(1) obtain d1 where d1: "set_user_role_scoped u r held x Manual d = Inr d1"
    and d': "(if held then Inr d1 else set_user_role_scoped u r False x Vatusa d1) = Inr d'"
    by (auto simp: save_role_def bind_result_Inr_iff)
  from direct_sound_role [OF d1 assms(2)] d' show ?thesis
    by (auto split: if_splits dest: direct_sound_role)
qed

lemma direct_sound_save_scope:
  assumes "save_scope u admin assignable s d = Inr d'" and "direct_sound (d_access d)"
  shows "direct_sound (d_access d')"
proof -
  from assms(1) obtain d1 where
    d1: "(if admin then Inr d else replace_user_permissions_scoped u (ns_artcc s) (ns_names s) d) = Inr d1"
    and d': "(case ns_roles s of None \<Rightarrow> Inr d1 | Some rs \<Rightarrow>
      fold_result (\<lambda>r. save_role u (ns_artcc s) r (List.member rs r)) assignable d1) = Inr d'"
    by (auto simp: save_scope_def bind_result_Inr_iff)
  have "direct_sound (d_access d1)"
  proof (cases admin)
    case False
    with d1 have "fold_result (grant_permission u (ns_artcc s)) (ns_names s) (with_access d (\<lambda>a. a\<lparr>t_user_permissions :=
        filter (\<lambda>up. \<not> manual_grant_at u (ns_artcc s) up) (t_user_permissions a)\<rparr>)) = Inr d1"
      by (simp add: replace_user_permissions_scoped_def)
    then show ?thesis
      by (rule fold_result_invariant [where P = "\<lambda>t. direct_sound (d_access t)"])
        (use assms(2) direct_sound_filter direct_sound_grant in auto)
  qed (use d1 assms(2) in simp)
  moreover have ?thesis if start: "direct_sound (d_access d1)"
  proof (cases "ns_roles s")
    case (Some rs)
    with d' have "fold_result (\<lambda>r. save_role u (ns_artcc s) r (List.member rs r)) assignable d1 = Inr d'"
      by simp
    then show ?thesis
      by (rule fold_result_invariant [where P = "\<lambda>t. direct_sound (d_access t)"])
        (use start direct_sound_save_role in blast)+
  qed (use d' start in simp)
  ultimately show ?thesis by blast
qed

lemma membership_sound:
  assumes "change_membership now user n p held d w = Inr (body, w')" and "direct_sound (d_access w)"
  shows "direct_sound (d_access w')"
proof -
  from assms(1) obtain t w1 where "save_role t (scope_key (gm_artcc_id p)) n held w = Inr w1"
    and "d_access w' = d_access w1"
    by (rule change_membership_ok)
  with direct_sound_save_role assms(2) show ?thesis by simp
qed

lemma attempt_member:
  shows "attempt (AddMember now c n p) d w = Inr w' \<Longrightarrow>
      \<exists>user body. cl_user c = Some user \<and> change_membership now user n p True d w = Inr (body, w')"
    and "attempt (RemoveMember now c n p) d w = Inr w' \<Longrightarrow>
      \<exists>user body. cl_user c = Some user \<and> change_membership now user n p False d w = Inr (body, w')"
  by (auto simp: bind_result_Inr_iff add_group_member_def remove_group_member_def dest!: editing_user_ok)

lemma direct_sound_attempt:
  assumes "attempt s d w = Inr w'" and "direct_sound (d_access w)"
  shows "direct_sound (d_access w')"
proof (cases s)
  case (SaveUser now c cid p)
  with assms(1) obtain body where "update_user_access now c cid p d w = Inr (body, w')"
    by (auto simp: bind_result_Inr_iff)
  then obtain t admin scopes w1 where
    "fold_result (save_scope t admin (fetch_assignable_role_names d)) scopes w = Inr w1"
    and w': "d_access w' = d_access w1"
    by (rule update_user_access_ok)
  then have "direct_sound (d_access w1)"
    using fold_result_invariant [where P = "\<lambda>t. direct_sound (d_access t)"] direct_sound_save_scope assms(2)
    by blast
  with w' show ?thesis by simp
next
  case (UpdateGroup now c n p)
  with assms(1) obtain body where "update_group now c n p d w = Inr (body, w')"
    by (auto simp: bind_result_Inr_iff)
  then have "t_user_permissions (d_access w') = t_user_permissions (d_access w)"
    by (rule update_group_ok) (use replace_group_access in blast)
  with assms(2) show ?thesis using direct_sound_cong by blast
next
  case (CreateGroup now c p)
  with assms show ?thesis by (auto simp: bind_result_Inr_iff dest!: create_group_ok)
next
  case (DeleteGroup now c n)
  with assms have "t_user_permissions (d_access w') = t_user_permissions (d_access w)"
    by (auto simp: delete_group_def dest!: delete_group_ok)
  with assms(2) show ?thesis using direct_sound_cong by blast
next
  case (AddMember now c n p)
  then obtain user body where "change_membership now user n p True d w = Inr (body, w')"
    using attempt_member(1) assms(1) by blast
  then show ?thesis using membership_sound assms(2) by blast
next
  case (RemoveMember now c n p)
  then obtain user body where "change_membership now user n p False d w = Inr (body, w')"
    using attempt_member(2) assms(1) by blast
  then show ?thesis using membership_sound assms(2) by blast
qed

definition one_entry_per_scope :: "editor_step \<Rightarrow> bool" where
  "one_entry_per_scope s \<longleftrightarrow> (case s of
     SaveUser _ _ _ p \<Rightarrow> distinct (map (scope_key \<circ> su_artcc_id) (ua_scopes p)) | _ \<Rightarrow> True)"

lemma attempt_within:
  assumes "attempt s d d = Inr d'" and "acts_as s actor" and "\<not> server_admin (d_access d) actor"
    and "direct_sound (d_access d)"
  shows "grows_within (covers (d_access d) actor) (d_access d) (d_access d') \<and>
    (one_entry_per_scope s \<longrightarrow> grows_within (covers (d_access d) actor) (d_access d') (d_access d))"
proof -
  from assms(2) obtain user where user: "cl_user (step_caller s) = Some user" "cu_id user = actor"
    by (auto simp: acts_as_def)
  note na = assms(3) [folded user(2)]
  show ?thesis
  proof (cases s)
    case (SaveUser now c cid p)
    with assms(1,4) user na show ?thesis
      by (auto simp: bind_result_Inr_iff one_entry_per_scope_def dest: save_user_grows save_user_shrinks)
  next
    case (CreateGroup now c p)
    with assms show ?thesis by (auto simp: bind_result_Inr_iff grows_within_def dest!: create_group_ok)
  next
    case (UpdateGroup now c n p)
    with assms user na show ?thesis by (auto simp: bind_result_Inr_iff dest: update_group_within)
  next
    case (DeleteGroup now c n)
    with assms show ?thesis by (auto dest: unheld_group_deletion)
  next
    case (AddMember now c n p)
    with assms(1) user(1) obtain body where "change_membership now user n p True d d = Inr (body, d')"
      using attempt_member(1) by fastforce
    from membership_within [OF this na assms(4)] user(2) show ?thesis by simp
  next
    case (RemoveMember now c n p)
    with assms(1) user(1) obtain body where "change_membership now user n p False d d = Inr (body, d')"
      using attempt_member(2) by fastforce
    from membership_within [OF this na assms(4)] user(2) show ?thesis by simp
  qed
qed


definition ec_names :: "ustr list" where
  "ec_names = map lit [''access.groups.update'', ''access.users.update'', ''events.plan.update'']"

text \<open>\<open>u1\<close> coordinates events at ZDC; \<open>u2\<close> and \<open>u3\<close> hold nothing; \<open>u9\<close> runs the system.\<close>

definition sample_directory :: directory where
  "sample_directory =
     \<lparr>d_access = sample_db\<lparr>
        t_user_roles := [role_row (lit ''u1'') (lit ''EC'') (Some (lit ''ZDC'')) Manual,
          role_row (lit ''u9'') (lit ''SERVER_ADMIN'') None System],
        t_role_permissions := map (Pair (lit ''EC'')) ec_names,
        t_permissions := ec_names @ [lit ''flow.fca.update''],
        t_user_permissions := []\<rparr>,
      d_roles = map (\<lambda>r. (lit r, None)) [''EC'', ''NTMO'', ''SERVER_ADMIN'', ''USER'', ''CONTROLLER''],
      d_members = map (\<lambda>(i, cid). \<lparr>mb_id = lit i, mb_cid = Some cid, mb_home = None, mb_synced = False, mb_detached = None\<rparr>)
        [(''u1'', 1), (''u2'', 2), (''u3'', 3), (''u9'', 9)],
      d_facilities = [(lit ''ZDC'', True), (lit ''ZNY'', True)],
      d_vatusa_roles = [], d_visits = [], d_mappings = [], d_discord = []\<rparr>"

definition sample_caller :: "string \<Rightarrow> int \<Rightarrow> caller" where
  "sample_caller i cid = \<lparr>cl_user = Some \<lparr>cu_id = lit i, cu_cid = cid, cu_email = [], cu_display_name = lit i,
     cu_rating = None, cu_primary_role = None\<rparr>, cl_service_account = None, cl_api_key = None\<rparr>"

definition add_at_zdc :: "string \<Rightarrow> int \<Rightarrow> int \<Rightarrow> editor_step" where
  "add_at_zdc by_user by_cid cid = AddMember 0 (sample_caller by_user by_cid) (lit ''EC'')
     \<lparr>gm_cid = cid, gm_artcc_id = Some (lit ''zdc''), gm_reason = lit ''event''\<rparr>"

lemma sample_directory_facts:
  "direct_sound (d_access sample_directory)" "\<not> server_admin (d_access sample_directory) (lit ''u1'')"
  "\<not> server_admin (d_access sample_directory) (lit ''u2'')"
  "acts_as (add_at_zdc i j k) (lit i)"
proof -
  show "direct_sound (d_access sample_directory)"
    by (simp add: sample_directory_def direct_sound_def direct_at_def)
  show "\<not> server_admin (d_access sample_directory) (lit ''u1'')"
    and "\<not> server_admin (d_access sample_directory) (lit ''u2'')"
    by (code_simp, code_simp)
  show "acts_as (add_at_zdc i j k) (lit i)"
    by (simp add: acts_as_def add_at_zdc_def sample_caller_def)
qed


text \<open>C3. No sequence of requests to the editors, by any number of people none of whom is a server
  admin, leaves anyone with authority over a permission at a facility that neither they nor one of
  those people had at the start.\<close>

theorem no_escalation_by_collusion:
  assumes "\<forall>s\<in>set steps. \<exists>b\<in>A. acts_as s b" and "\<forall>b\<in>A. \<not> server_admin (d_access d) b"
    and "direct_sound (d_access d)" and "covers (d_access (after_steps steps d)) u p (Some a)"
  shows "covers (d_access d) u p (Some a) \<or> (\<exists>b\<in>A. covers (d_access d) b p (Some a))"
  using assms
proof (induction steps arbitrary: d u)
  case Nil
  then show ?case by (simp add: after_steps_def)
next
  case (Cons s steps)
  show ?case
  proof (cases "attempt s d d")
    case (Inl e)
    with Cons show ?thesis by (simp add: after_steps_def after_step_def)
  next
    case (Inr d1)
    from Cons.prems(1) obtain b where b: "b \<in> A" "acts_as s b" by auto
    have grows: "grows_within (covers (d_access d) b) (d_access d) (d_access d1)"
      using attempt_within [OF Inr b(2)] Cons.prems(2,3) b(1) by blast
    then have "\<forall>b\<in>A. \<not> server_admin (d_access d1) b"
      using Cons.prems(2) by (auto simp: grows_within_def)
    moreover have "direct_sound (d_access d1)"
      using direct_sound_attempt [OF Inr Cons.prems(3)] .
    moreover have "after_steps (s # steps) d = after_steps steps d1"
      by (simp add: after_steps_def after_step_def Inr)
    ultimately have "covers (d_access d1) u p (Some a) \<or> (\<exists>c\<in>A. covers (d_access d1) c p (Some a))"
      using Cons.IH [of d1 u] Cons.prems(1,4) by simp
    with grows_covered [OF grows] b(1) show ?thesis by blast
  qed
qed

theorem no_escalation_by_collusion_witness:
  "covers (d_access sample_directory) (lit ''u3'') (lit ''events.plan.update'') (Some (lit ''ZDC'')) \<or>
   (\<exists>b\<in>{lit ''u1'', lit ''u2''}. covers (d_access sample_directory) b (lit ''events.plan.update'') (Some (lit ''ZDC'')))"
proof (rule no_escalation_by_collusion)
  show "covers (d_access (after_steps [add_at_zdc ''u1'' 1 2, add_at_zdc ''u2'' 2 3] sample_directory))
      (lit ''u3'') (lit ''events.plan.update'') (Some (lit ''ZDC''))"
    by code_simp
qed (use sample_directory_facts in auto)

end
