(* ===== verification/AccessSaves.thy ===== *)
theory AccessSaves
  imports AccessLife
begin

text \<open>
  What a save of the user editor leaves, row for row; what no editor touches; and where the guards
  let something through: a scope named twice, a synced grant beside a deny, a save that raced another.
\<close>

subsection \<open>The rows at one scope\<close>

definition grants_at :: "access_db \<Rightarrow> ustr \<Rightarrow> artcc option \<Rightarrow> user_permission_row set" where
  "grants_at db u x = {up \<in> set (t_user_permissions db). up_user up = u \<and> up_artcc up = x}"

definition roles_at :: "access_db \<Rightarrow> ustr \<Rightarrow> artcc option \<Rightarrow> (ustr \<times> grant_source) set" where
  "roles_at db u x = {(r, src). role_row u r x src \<in> set (t_user_roles db)}"

definition saved_grants :: "ustr \<Rightarrow> artcc option \<Rightarrow> ustr list \<Rightarrow> user_permission_row set \<Rightarrow> user_permission_row set" where
  "saved_grants u x names before = hand_grant u x ` set names \<union>
     {up \<in> before. up_source up \<noteq> Manual \<or> \<not> up_granted up \<and> up_permission up \<notin> set names}"

definition saved_roles :: "ustr list \<Rightarrow> ustr list \<Rightarrow> (ustr \<times> grant_source) set \<Rightarrow> (ustr \<times> grant_source) set" where
  "saved_roles assignable rs before =
     {(r, src) \<in> before. \<not> (r \<in> set assignable \<and> r \<notin> set rs \<and> src \<in> {Manual, Vatusa})} \<union>
     {(r, Manual) |r. r \<in> set assignable \<and> r \<in> set rs}"

lemma role_row_inject [simp]:
  "role_row u r x src = role_row u' r' x' src' \<longleftrightarrow> u = u' \<and> r = r' \<and> x = x' \<and> src = src'"
  by (auto simp: role_row_def)

lemma replace_at:
  assumes "replace_user_permissions_scoped u x names d = Inr d'"
  shows "grants_at (d_access d') v y = (if v = u \<and> y = x then saved_grants u x names (grants_at (d_access d) u x)
      else grants_at (d_access d) v y)"
    and "roles_at (d_access d') v y = roles_at (d_access d) v y"
  unfolding grants_at_def roles_at_def saved_grants_def replace_permission_rows(1,2) [OF assms]
  by (auto simp: hand_grant_def manual_grant_at_def same_key_def)

lemma save_role_at:
  assumes "save_role u x r held d = Inr d'"
  shows "roles_at (d_access d') v y =
      (if v = u \<and> y = x then (if held then insert (r, Manual) (roles_at (d_access d) u x)
         else roles_at (d_access d) u x - {(r, Manual), (r, Vatusa)})
       else roles_at (d_access d) v y)"
    and "t_user_permissions (d_access d') = t_user_permissions (d_access d)"
proof -
  from assms obtain d1 where d1: "set_user_role_scoped u r held x Manual d = Inr d1"
    and d': "(if held then Inr d1 else set_user_role_scoped u r False x Vatusa d1) = Inr d'"
    by (auto simp: save_role_def bind_result_Inr_iff)
  have rows: "set (t_user_roles (d_access d')) =
      (if held then insert (role_row u r x Manual) (set (t_user_roles (d_access d)))
       else set (t_user_roles (d_access d)) - {role_row u r x Manual, role_row u r x Vatusa})"
    and perms: "t_user_permissions (d_access d') = t_user_permissions (d_access d)"
    using d' set_user_role_rows(1,2) [OF d1] set_user_role_rows(1,2) [of u r False x Vatusa d1 d']
    by (auto split: if_splits)
  show "roles_at (d_access d') v y =
      (if v = u \<and> y = x then (if held then insert (r, Manual) (roles_at (d_access d) u x)
         else roles_at (d_access d) u x - {(r, Manual), (r, Vatusa)})
       else roles_at (d_access d) v y)"
    unfolding roles_at_def rows by auto
  show "t_user_permissions (d_access d') = t_user_permissions (d_access d)" by (rule perms)
qed

lemma save_roles_at:
  assumes "fold_result (\<lambda>r. save_role u x r (List.member rs r)) todo d = Inr d'"
  shows "roles_at (d_access d') v y =
      (if v = u \<and> y = x then saved_roles todo rs (roles_at (d_access d) u x) else roles_at (d_access d) v y) \<and>
    t_user_permissions (d_access d') = t_user_permissions (d_access d)"
  using assms
proof (induction todo arbitrary: d)
  case (Cons r todo)
  then obtain d1 where d1: "save_role u x r (List.member rs r) d = Inr d1"
    and rest: "fold_result (\<lambda>r. save_role u x r (List.member rs r)) todo d1 = Inr d'"
    by (auto simp: bind_result_Inr_iff)
  have "saved_roles todo rs (if r \<in> set rs then insert (r, Manual) R else R - {(r, Manual), (r, Vatusa)}) =
      saved_roles (r # todo) rs R" for R
    by (auto simp: saved_roles_def)
  with Cons.IH [OF rest] save_role_at [OF d1] show ?case by auto
qed (simp add: saved_roles_def)

definition saved_scope :: "bool \<Rightarrow> ustr list \<Rightarrow> norm_scope \<Rightarrow> ustr \<Rightarrow> access_db \<Rightarrow> access_db \<Rightarrow> bool" where
  "saved_scope target_admin assignable s t db db' \<longleftrightarrow>
     grants_at db' t (ns_artcc s) =
       (if target_admin then grants_at db t (ns_artcc s)
        else saved_grants t (ns_artcc s) (ns_names s) (grants_at db t (ns_artcc s))) \<and>
     roles_at db' t (ns_artcc s) =
       (case ns_roles s of None \<Rightarrow> roles_at db t (ns_artcc s)
        | Some rs \<Rightarrow> saved_roles assignable rs (roles_at db t (ns_artcc s)))"

lemma save_scope_at:
  assumes "save_scope t admin assignable s d = Inr d'"
  shows "saved_scope admin assignable s t (d_access d) (d_access d')"
    and "v \<noteq> t \<or> y \<noteq> ns_artcc s \<Longrightarrow> grants_at (d_access d') v y = grants_at (d_access d) v y \<and>
      roles_at (d_access d') v y = roles_at (d_access d) v y"
proof -
  let ?x = "ns_artcc s"
  from assms obtain d1 where
    d1: "(if admin then Inr d else replace_user_permissions_scoped t ?x (ns_names s) d) = Inr d1"
    and d': "(case ns_roles s of None \<Rightarrow> Inr d1 | Some rs \<Rightarrow>
      fold_result (\<lambda>r. save_role t ?x r (List.member rs r)) assignable d1) = Inr d'"
    by (auto simp: save_scope_def bind_result_Inr_iff)
  have perms: "grants_at (d_access d1) v y =
      (if v = t \<and> y = ?x \<and> \<not> admin then saved_grants t ?x (ns_names s) (grants_at (d_access d) t ?x)
       else grants_at (d_access d) v y)"
    and first: "roles_at (d_access d1) v y = roles_at (d_access d) v y" for v y
    using d1 replace_at [of t ?x "ns_names s" d d1] by (auto split: if_splits)
  have roles: "roles_at (d_access d') v y = (case ns_roles s of None \<Rightarrow> roles_at (d_access d1) v y
      | Some rs \<Rightarrow> (if v = t \<and> y = ?x then saved_roles assignable rs (roles_at (d_access d1) t ?x)
          else roles_at (d_access d1) v y))"
    and kept: "grants_at (d_access d') v y = grants_at (d_access d1) v y" for v y
    using d' save_roles_at [of t ?x _ assignable d1 d' v y] by (auto simp: grants_at_def split: option.splits)
  show "saved_scope admin assignable s t (d_access d) (d_access d')"
    by (simp add: saved_scope_def perms first roles kept split: option.split)
  show "v \<noteq> t \<or> y \<noteq> ?x \<Longrightarrow> grants_at (d_access d') v y = grants_at (d_access d) v y \<and>
      roles_at (d_access d') v y = roles_at (d_access d) v y"
    by (auto simp: perms first roles kept split: option.split)
qed

lemma save_scopes_at:
  assumes "fold_result (save_scope t admin assignable) scopes d = Inr d'" and "distinct (payload_scopes scopes)"
  shows "(\<forall>s\<in>set scopes. saved_scope admin assignable s t (d_access d) (d_access d')) \<and>
    (\<forall>v y. v \<noteq> t \<or> y \<notin> set (payload_scopes scopes) \<longrightarrow>
       grants_at (d_access d') v y = grants_at (d_access d) v y \<and>
       roles_at (d_access d') v y = roles_at (d_access d) v y)"
  using assms
proof (induction scopes arbitrary: d)
  case (Cons s scopes)
  then obtain d1 where d1: "save_scope t admin assignable s d = Inr d1"
    and rest: "fold_result (save_scope t admin assignable) scopes d1 = Inr d'"
    by (auto simp: bind_result_Inr_iff)
  from Cons.prems(2) have fresh: "ns_artcc s \<notin> set (payload_scopes scopes)"
    and dist: "distinct (payload_scopes scopes)"
    by (auto simp: payload_scopes_def)
  note one = save_scope_at [OF d1] and all = Cons.IH [OF rest dist]
  have "saved_scope admin assignable s t (d_access d) (d_access d')"
    using one(1) all fresh by (simp add: saved_scope_def)
  moreover have "saved_scope admin assignable u t (d_access d) (d_access d')" if u: "u \<in> set scopes" for u
  proof -
    have "ns_artcc u \<noteq> ns_artcc s"
      using u fresh unfolding payload_scopes_def by (metis imageI set_map)
    with one(2) [of t "ns_artcc u"]
    have eq: "grants_at (d_access d1) t (ns_artcc u) = grants_at (d_access d) t (ns_artcc u)"
      "roles_at (d_access d1) t (ns_artcc u) = roles_at (d_access d) t (ns_artcc u)"
      by auto
    have "saved_scope admin assignable u t (d_access d1) (d_access d')"
      using all u by blast
    then show ?thesis unfolding saved_scope_def eq .
  qed
  moreover have "grants_at (d_access d') v y = grants_at (d_access d) v y \<and>
      roles_at (d_access d') v y = roles_at (d_access d) v y"
    if "v \<noteq> t \<or> y \<notin> set (payload_scopes (s # scopes))" for v y
  proof -
    have "v \<noteq> t \<or> y \<noteq> ns_artcc s" and "v \<noteq> t \<or> y \<notin> set (payload_scopes scopes)"
      using that by (auto simp: payload_scopes_def)
    with one(2) all show ?thesis by metis
  qed
  ultimately show ?case by simp
qed simp

subsection \<open>A save does what it says\<close>

lemma target_admin_iff:
  "access_body db u cid = Inr body \<Longrightarrow> uab_server_admin body \<longleftrightarrow> member_at db u SERVER_ADMIN_ROLE None"
  by (auto simp: access_body_def user_access_body_of_def bind_result_Inr_iff Let_def is_server_admin_def
      image_iff role_grants_set [symmetric])

lemma update_user_access_writes:
  assumes "update_user_access now c cid payload d w = Inr (body, w')"
  obtains scopes t by_user w1 where "norm_scopes d (ua_scopes payload) = Inr scopes"
    and "find_user_id_by_cid d cid = Some t"
    and "fold_result (save_scope t (member_at (d_access d) t SERVER_ADMIN_ROLE None)
      (fetch_assignable_role_names d)) scopes w = Inr w1"
    and "w' = snd (detach_roles now t by_user w1)"
proof -
  from assms obtain scopes t before by_user w1 where norm: "norm_scopes d (ua_scopes payload) = Inr scopes"
    and t: "find_user_id_by_cid d cid = Some t" and before: "access_body (d_access d) t cid = Inr before"
    and saved: "fold_result (save_scope t (uab_server_admin before) (fetch_assignable_role_names d)) scopes w = Inr w1"
    and w': "w' = snd (detach_roles now t by_user w1)"
    by (auto simp: update_user_access_def bind_result_Inr_iff Let_def ok_or_def split: if_splits option.splits)
  from that [OF norm t saved [unfolded target_admin_iff [OF before]] w'] show thesis .
qed

lemma detach_roles_detached:
  assumes "m \<in> set (d_members (snd (detach_roles now t by_user d)))" and "mb_id m = t"
  shows "mb_detached m \<noteq> None"
proof -
  from assms(1) obtain n where "n \<in> set (d_members d)"
    and "m = (if mb_id n = t \<and> mb_detached n = None then n\<lparr>mb_detached := Some (now, by_user)\<rparr> else n)"
    by (auto simp: detach_roles_def)
  with assms(2) show ?thesis by (simp split: if_splits)
qed


definition sample_save :: "string \<Rightarrow> update_user_access_request" where
  "sample_save artcc = \<lparr>ua_reason = lit ''r'', ua_scopes = [\<lparr>su_artcc_id = Some (lit artcc),
     su_permissions = JObject [(lit ''events'', JObject [(lit ''plan'', JArray [JString (lit ''update'')])])],
     su_role_names = None\<rparr>]\<rparr>"

definition saved_sample :: directory where
  "saved_sample = after_step (SaveUser 5 (sample_caller ''u1'' 1) 2 (sample_save ''ZDC'')) sample_directory"


subsection \<open>System groups\<close>

definition system_view :: "directory \<Rightarrow> user_role_row list \<times> (ustr \<times> ustr) list \<times> (ustr \<times> ustr option) list" where
  "system_view d =
     (filter (\<lambda>ur. is_system_role (ur_role ur)) (t_user_roles (d_access d)),
      filter (\<lambda>(r, _). is_system_role r) (t_role_permissions (d_access d)),
      filter (\<lambda>(r, _). is_system_role r) (d_roles d))"

lemma filter_absorb: "(\<And>x. Q x \<Longrightarrow> P x) \<Longrightarrow> filter Q (filter P xs) = filter Q xs"
  by (induction xs) auto

lemma system_view_role:
  assumes "set_user_role_scoped u r held x src d = Inr d'" and "\<not> is_system_role r"
  shows "system_view d' = system_view d"
proof -
  have "filter (\<lambda>ur. is_system_role (ur_role ur)) (filter (\<lambda>ur. ur \<noteq> role_row u r x src) rows) =
      filter (\<lambda>ur. is_system_role (ur_role ur)) rows" for rows
    using assms(2) by (intro filter_absorb) (auto simp: role_row_def)
  with assms show ?thesis
    by (auto simp: set_user_role_scoped_def system_view_def role_row_def Let_def split: if_splits)
qed

lemma system_view_save_role:
  assumes "save_role u x r held d = Inr d'" and "\<not> is_system_role r"
  shows "system_view d' = system_view d"
proof -
  from assms(1) obtain d1 where d1: "set_user_role_scoped u r held x Manual d = Inr d1"
    and d': "(if held then Inr d1 else set_user_role_scoped u r False x Vatusa d1) = Inr d'"
    by (auto simp: save_role_def bind_result_Inr_iff)
  from system_view_role [OF d1 assms(2)] d' show ?thesis
    by (auto split: if_splits dest: system_view_role [OF _ assms(2)])
qed

lemma system_view_fold:
  assumes "fold_result f xs d = Inr d'"
    and "\<And>x a b. x \<in> set xs \<Longrightarrow> f x a = Inr b \<Longrightarrow> system_view b = system_view a"
  shows "system_view d' = system_view d"
  using assms(1) by (rule fold_result_invariant [where P = "\<lambda>t. system_view t = system_view d"])
    (use assms(2) in auto)

lemma system_view_cong:
  "t_user_roles (d_access d') = t_user_roles (d_access d) \<Longrightarrow>
   t_role_permissions (d_access d') = t_role_permissions (d_access d) \<Longrightarrow> d_roles d' = d_roles d \<Longrightarrow>
   system_view d' = system_view d"
  by (simp add: system_view_def)

lemma system_view_replace:
  assumes "replace_user_permissions_scoped u x names d = Inr d'"
  shows "system_view d' = system_view d"
  using replace_permission_rows(2,3,5) [OF assms]
  by (intro system_view_cong) (auto, metis directory.select_convs(2) directory.surjective directory.update_convs(1))

lemma system_view_save_scope:
  assumes "save_scope t admin (fetch_assignable_role_names e) s d = Inr d'"
  shows "system_view d' = system_view d"
proof -
  from assms obtain d1 where
    d1: "(if admin then Inr d else replace_user_permissions_scoped t (ns_artcc s) (ns_names s) d) = Inr d1"
    and d': "(case ns_roles s of None \<Rightarrow> Inr d1 | Some rs \<Rightarrow>
      fold_result (\<lambda>r. save_role t (ns_artcc s) r (List.member rs r)) (fetch_assignable_role_names e) d1) = Inr d'"
    by (auto simp: save_scope_def bind_result_Inr_iff)
  have "system_view d1 = system_view d"
    using d1 system_view_replace by (auto split: if_splits)
  moreover have "system_view d' = system_view d1"
  proof (cases "ns_roles s")
    case (Some rs)
    with d' have "fold_result (\<lambda>r. save_role t (ns_artcc s) r (List.member rs r))
        (fetch_assignable_role_names e) d1 = Inr d'"
      by simp
    then show ?thesis
      by (rule system_view_fold) (use system_view_save_role assignable_not_system in blast)
  qed (use d' in simp)
  ultimately show ?thesis by simp
qed

lemma system_view_detach: "system_view (snd (detach_roles now t by_user d)) = system_view d"
  by (simp add: system_view_def detach_roles_def)

lemma system_view_membership:
  assumes "change_membership now user name payload held d w = Inr (body, w')"
  shows "system_view w' = system_view w"
proof -
  from assms obtain t w1 where sys: "\<not> is_system_role name"
    and saved: "save_role t (scope_key (gm_artcc_id payload)) name held w = Inr w1"
    and w': "w' = snd (detach_roles now t (cu_id user) w1)"
    by (auto simp: change_membership_def bind_result_Inr_iff Let_def split: if_splits)
  from system_view_save_role [OF saved sys] show ?thesis
    unfolding w' by (simp add: system_view_detach)
qed

lemma system_view_replace_group:
  assumes "replace_group_permissions name names d = Inr d'" and "\<not> is_system_role name"
  shows "system_view d' = system_view d"
proof -
  let ?d = "with_access d (\<lambda>a. a\<lparr>t_role_permissions := filter (\<lambda>(r, _). r \<noteq> name) (t_role_permissions a)\<rparr>)"
  have "system_view ?d = system_view d"
    using assms(2) by (auto simp: system_view_def simp del: filter_filter intro!: filter_absorb)
  moreover have "system_view d' = system_view ?d"
    using assms(1) [unfolded replace_group_permissions_def]
    by (rule system_view_fold) (use assms(2) in \<open>auto simp: insert_group_permission_def system_view_def split: if_splits\<close>)
  ultimately show ?thesis by simp
qed

lemma system_view_delete_group:
  assumes "\<not> is_system_role name"
  shows "system_view (delete_group name d) = system_view d"
  unfolding system_view_def delete_group_def using assms
  by (auto simp del: filter_filter intro!: filter_absorb)

text \<open>C9. No request to the editors, whoever makes it and whatever came between its reads and its
  write, adds, removes or changes a membership of a system group, what a system group bundles, or the
  group itself; so server admins come and go only through \<open>assign_server_admin\<close> and
  \<open>revoke_server_admin\<close>.\<close>

theorem editors_leave_system_groups:
  assumes "attempt s d w = Inr w'"
  shows "system_view w' = system_view w"
proof (cases s)
  case (SaveUser now c cid p)
  with assms obtain body where "update_user_access now c cid p d w = Inr (body, w')"
    by (auto simp: bind_result_Inr_iff)
  then obtain scopes t by_user w1 where
    saved: "fold_result (save_scope t (member_at (d_access d) t SERVER_ADMIN_ROLE None)
      (fetch_assignable_role_names d)) scopes w = Inr w1"
    and w': "w' = snd (detach_roles now t by_user w1)"
    by (rule update_user_access_writes)
  have "system_view w1 = system_view w"
    using saved by (rule system_view_fold) (rule system_view_save_scope)
  then show ?thesis
    unfolding w' by (simp add: system_view_detach)
next
  case (CreateGroup now c p)
  with assms show ?thesis
    by (auto simp: bind_result_Inr_iff create_group_handler_def create_group_def system_view_def Let_def
        split: if_splits)
next
  case (UpdateGroup now c n p)
  with assms obtain body where "update_group now c n p d w = Inr (body, w')"
    by (auto simp: bind_result_Inr_iff)
  then show ?thesis
    by (rule update_group_ok) (use system_view_replace_group in blast)
next
  case (DeleteGroup now c n)
  with assms show ?thesis
    using system_view_delete_group by (auto dest!: delete_group_ok)
next
  case (AddMember now c n p)
  with assms show ?thesis
    using attempt_member(1) system_view_membership by metis
next
  case (RemoveMember now c n p)
  with assms show ?thesis
    using attempt_member(2) system_view_membership by metis
qed

theorem editors_leave_system_groups_witness:
  "system_view saved_sample = system_view sample_directory"
proof (rule editors_leave_system_groups)
  show "attempt (SaveUser 5 (sample_caller ''u1'' 1) 2 (sample_save ''ZDC'')) sample_directory sample_directory =
      Inr saved_sample"
    by code_simp
qed

subsection \<open>What the guards let through\<close>

definition direct_row :: "string \<Rightarrow> string \<Rightarrow> bool \<Rightarrow> string option \<Rightarrow> grant_source \<Rightarrow> user_permission_row" where
  "direct_row u p g x src = \<lparr>up_user = lit u, up_permission = lit p, up_granted = g,
     up_artcc = map_option lit x, up_source = src\<rparr>"

definition with_direct :: "user_permission_row list \<Rightarrow> directory" where
  "with_direct rows = with_access sample_directory (\<lambda>a. a\<lparr>t_user_permissions := rows\<rparr>)"

definition tree_of :: "string list \<Rightarrow> json" where
  "tree_of names = (if names = [] then JObject []
     else case permission_tree_from_names (map lit names) of Inl _ \<Rightarrow> JNull | Inr t \<Rightarrow> t)"

text \<open>\<open>u1\<close> saves \<open>u2\<close>, naming ZDC once for each list of permissions.\<close>

definition save_at_zdc :: "string list list \<Rightarrow> editor_step" where
  "save_at_zdc entries = SaveUser 5 (sample_caller ''u1'' 1) 2 \<lparr>ua_reason = lit ''r'',
     ua_scopes = map (\<lambda>names. \<lparr>su_artcc_id = Some (lit ''ZDC''), su_permissions = tree_of names,
       su_role_names = None\<rparr>) entries\<rparr>"

abbreviation u2_covers :: "directory \<Rightarrow> string \<Rightarrow> string option \<Rightarrow> bool" where
  "u2_covers d p x \<equiv> covers (d_access d) (lit ''u2'') (lit p) (map_option lit x)"

text \<open>The guard compares the union of the entries with what was held, but each entry is written over
  the one before it: a permission named only in the first entry is taken away unchecked.\<close>

lemma repeated_scope_strips_unheld:
  "let d = with_direct [direct_row ''u2'' ''flow.fca.update'' True (Some ''ZDC'') Manual];
       d' = after_step (save_at_zdc [[''flow.fca.update''], []]) d
   in u2_covers d ''flow.fca.update'' (Some ''ZDC'') \<and> \<not> u2_covers d' ''flow.fca.update'' (Some ''ZDC'') \<and>
      \<not> covers (d_access d) (lit ''u1'') (lit ''flow.fca.update'') (Some (lit ''ZDC''))"
  by code_simp

text \<open>The guard reads a synced grant as held and skips it; the write turns the manual deny beside it
  into a grant.\<close>

lemma unchanged_save_lifts_deny:
  "let d = with_direct [direct_row ''u2'' ''flow.fca.update'' True (Some ''ZDC'') Vatusa,
         direct_row ''u2'' ''flow.fca.update'' False (Some ''ZDC'') Manual];
       d' = after_step (save_at_zdc [[''flow.fca.update'']]) d
   in \<not> u2_covers d ''flow.fca.update'' (Some ''ZDC'') \<and> u2_covers d' ''flow.fca.update'' (Some ''ZDC'') \<and>
      \<not> covers (d_access d) (lit ''u1'') (lit ''flow.fca.update'') (Some (lit ''ZDC''))"
  by code_simp

text \<open>An editor at one facility who replaces a deny there gives a national holder the unrestricted
  holding, which the editor does not have.\<close>

lemma facility_editor_restores_national:
  "let d = with_direct [direct_row ''u2'' ''events.plan.update'' True None Manual,
         direct_row ''u2'' ''events.plan.update'' False (Some ''ZDC'') Manual];
       d' = after_step (save_at_zdc [[''events.plan.update'']]) d
   in \<not> u2_covers d ''events.plan.update'' None \<and> u2_covers d' ''events.plan.update'' None \<and>
      \<not> covers (d_access d) (lit ''u1'') (lit ''events.plan.update'') None"
  by code_simp

text \<open>The guard reads the rows before the transaction. A grant revoked in between is put back by a
  caller who does not hold it; a group that gained a member in between is deleted with the member's
  row.\<close>

lemma stale_save_regrants:
  "let d = with_direct [direct_row ''u2'' ''flow.fca.update'' True (Some ''ZDC'') Manual]; w = with_direct []
   in case attempt (save_at_zdc [[''flow.fca.update'']]) d w of Inl _ \<Rightarrow> False
      | Inr w' \<Rightarrow> \<not> u2_covers w ''flow.fca.update'' (Some ''ZDC'') \<and> u2_covers w' ''flow.fca.update'' (Some ''ZDC'')"
  by code_simp

lemma stale_delete_takes_members:
  "let d = sample_directory; row = role_row (lit ''u3'') (lit ''NTMO'') None Manual;
       w = with_access d (\<lambda>a. a\<lparr>t_user_roles := t_user_roles a @ [row]\<rparr>)
   in case attempt (DeleteGroup 0 (sample_caller ''u1'' 1) (lit ''NTMO'')) d w of Inl _ \<Rightarrow> False
      | Inr w' \<Rightarrow> row \<in> set (t_user_roles (d_access w)) \<and> row \<notin> set (t_user_roles (d_access w'))"
  by code_simp

end
