(* ===== verification/VatusaSync.thy ===== *)
theory VatusaSync
  imports AccessEditors
begin

text \<open>
  VATUSA member sync: what a member's VATUSA roles and roster justify, reconciling their \<open>vatusa\<close>
  rows with it, the sign-in sync, the division pull with its truncation check, the role mappings, and
  the reset of everyone's access (\<open>repos/vatusa.rs\<close>, \<open>feed/vatusa.rs\<close>, \<open>handlers/access.rs\<close>). Of
  a member VATUSA sends, the facility, roles, visits and Discord id are kept; names and ratings, which
  decide nothing here, are not. \<open>upper\<close> is Unicode upper-casing, \<open>new_id\<close> the id drawn for a seeded
  member. A reconcile returns the changes its audit entry names, \<open>None\<close> when it wrote nothing.
\<close>

subsection \<open>What VATUSA justifies\<close>

definition ZHQ :: ustr where "ZHQ = lit ''ZHQ''"
definition ROSTER_GROUP :: ustr where "ROSTER_GROUP = lit ''CONTROLLER''"

type_synonym grant_key = "ustr \<times> artcc option"
type_synonym justified_grants = "(grant_key \<times> ustr list) list"

definition normalise_facility :: "(ustr \<Rightarrow> ustr) \<Rightarrow> ustr \<Rightarrow> ustr" where
  "normalise_facility upper raw = (if trim raw = lit ''*'' then ZHQ else upper (trim raw))"

definition justified_rows :: "directory \<Rightarrow> int \<Rightarrow> (grant_key \<times> ustr) list" where
  "justified_rows d cid =
     [((vm_role_name m, if f = ZHQ then None else Some f), r @ lit ''@'' @ f).
        (c, f, r) \<leftarrow> d_vatusa_roles d, c = cid, f = ZHQ \<or> known_facility d f,
        m \<leftarrow> d_mappings d, vm_vatusa_role m = r \<and> (vm_facility m = None \<or> vm_facility m = Some f)] @
     [((ROSTER_GROUP, mb_home m), lit ''roster home '' @ the (mb_home m)).
        m \<leftarrow> d_members d, mb_cid m = Some cid, mb_home m \<noteq> None \<and> known_facility d (the (mb_home m))] @
     [((ROSTER_GROUP, Some f), lit ''roster visit '' @ f). (c, f) \<leftarrow> d_visits d, c = cid, known_facility d f]"

definition desired_vatusa_grants :: "directory \<Rightarrow> int \<Rightarrow> justified_grants" where
  "desired_vatusa_grants d cid =
     (let rows = justified_rows d cid in
      map (\<lambda>k. (k, sort (remdups (map snd (filter (\<lambda>(k', _). k' = k) rows))))) (sort (remdups (map fst rows))))"

definition held_vatusa :: "directory \<Rightarrow> ustr \<Rightarrow> grant_key list" where
  "held_vatusa d user_id = sort (remdups (map (\<lambda>ur. (ur_role ur, ur_artcc ur))
     (filter (\<lambda>ur. ur_user ur = user_id \<and> ur_source ur = Vatusa) (t_user_roles (d_access d)))))"

definition pending_changes :: "directory \<Rightarrow> ustr \<Rightarrow> justified_grants \<Rightarrow> justified_grants \<times> grant_key list" where
  "pending_changes d user_id now_justified =
     (let held = held_vatusa d user_id in
      (filter (\<lambda>(k, _). \<not> List.member held k) now_justified,
       filter (\<lambda>k. bt_get now_justified k = None) held))"

subsection \<open>Reconciling\<close>

definition is_detached :: "directory \<Rightarrow> ustr \<Rightarrow> bool" where
  "is_detached d user_id = (case find_member d user_id of None \<Rightarrow> False | Some m \<Rightarrow> mb_detached m \<noteq> None)"

definition detached_state :: "directory \<Rightarrow> ustr \<Rightarrow> (int \<times> ustr) option" where
  "detached_state d user_id = (case find_member d user_id of None \<Rightarrow> None | Some m \<Rightarrow> mb_detached m)"

definition access_snapshot :: "directory \<Rightarrow> ustr \<Rightarrow> int \<Rightarrow> user_access_body result" where
  "access_snapshot d user_id cid =
     bind_result (access_body (d_access d) user_id cid) (fill_server_admin_permissions d)"

definition apply_changes :: "ustr \<Rightarrow> grant_key list \<Rightarrow> grant_key list \<Rightarrow> directory \<Rightarrow> directory result" where
  "apply_changes user_id grants revokes d =
     bind_result (fold_result (\<lambda>(g, s). set_user_role_scoped user_id g True s Vatusa) grants d)
       (fold_result (\<lambda>(g, s). set_user_role_scoped user_id g False s Vatusa) revokes)"

definition scope_label :: "artcc option \<Rightarrow> ustr" where
  "scope_label s = (case s of None \<Rightarrow> lit ''nationally'' | Some a \<Rightarrow> lit ''at '' @ a)"

definition grant_reason :: "grant_key \<times> ustr list \<Rightarrow> ustr" where
  "grant_reason gb = (case gb of ((g, s), because) \<Rightarrow>
     lit ''granted '' @ g @ lit '' '' @ scope_label s @ lit '' (holds '' @ join (lit '', '') because @ lit '')'')"

definition revoke_reason :: "justified_grants \<Rightarrow> grant_key \<Rightarrow> ustr" where
  "revoke_reason justified_before k =
     lit ''revoked '' @ fst k @ lit '' '' @ scope_label (snd k) @ lit '' ('' @
     (case bt_get justified_before k of
        Some because \<Rightarrow> lit ''no longer holds '' @ join (lit '', '') because
      | None \<Rightarrow> lit ''no mapped VATUSA role supports it'') @ lit '')''"

definition reconcile_vatusa_grants :: "ustr \<Rightarrow> int \<Rightarrow> justified_grants \<Rightarrow> justified_grants \<Rightarrow> directory \<Rightarrow>
    (ustr list option \<times> directory) result" where
  "reconcile_vatusa_grants user_id cid justified_before justified_now d =
     (if is_detached d user_id then Inr (None, d)
      else case pending_changes d user_id justified_now of (grants, revokes) \<Rightarrow>
        if grants = [] \<and> revokes = [] then Inr (None, d)
        else
          bind_result (access_snapshot d user_id cid) (\<lambda>_.
          bind_result (apply_changes user_id (map fst grants) revokes d) (\<lambda>d1.
          bind_result (access_snapshot d1 user_id cid) (\<lambda>_.
            Inr (Some (map grant_reason grants @ map (revoke_reason justified_before) revokes), d1)))))"

definition reconcile_member :: "int \<Rightarrow> justified_grants \<Rightarrow> directory \<Rightarrow> (ustr list option \<times> directory) result" where
  "reconcile_member cid justified_before d = (case find_user_id_by_cid d cid of
     None \<Rightarrow> Inr (None, d)
   | Some user_id \<Rightarrow> reconcile_vatusa_grants user_id cid justified_before (desired_vatusa_grants d cid) d)"

definition reconcile_member_access :: "int \<Rightarrow> directory \<Rightarrow> directory result" where
  "reconcile_member_access cid d = bind_result (reconcile_member cid [] d) (\<lambda>(_, d1). Inr d1)"

definition preview_resync :: "directory \<Rightarrow> ustr \<Rightarrow> int \<Rightarrow> justified_grants \<times> grant_key list" where
  "preview_resync d user_id cid = pending_changes d user_id (desired_vatusa_grants d cid)"

definition reattach :: "ustr \<Rightarrow> directory \<Rightarrow> directory" where
  "reattach user_id d = d\<lparr>d_members :=
     map (\<lambda>m. if mb_id m = user_id then m\<lparr>mb_detached := None\<rparr> else m) (d_members d)\<rparr>"

definition resync :: "ustr \<Rightarrow> int \<Rightarrow> directory \<Rightarrow> directory result" where
  "resync user_id cid d = reconcile_member_access cid (reattach user_id d)"

definition resync_user_vatusa :: "int \<Rightarrow> caller \<Rightarrow> int \<Rightarrow> ustr \<Rightarrow> directory \<Rightarrow> directory \<Rightarrow> directory result" where
  "resync_user_vatusa now c cid reason d w =
     (let db = d_access d in
      bind_result (editing_user db now c AccessUsersUpdate) (\<lambda>user.
      if trim reason = [] then Inl BadRequest
      else if \<not> allows (user_permission_scope db (cu_id user) (as_db_value AccessUsersUpdate)) None
      then Inl Forbidden
      else
        bind_result (ok_or NotFound (find_user_id_by_cid d cid)) (\<lambda>target.
        bind_result (access_body db target cid) (\<lambda>_. resync target cid w))))"

subsection \<open>Sign-in\<close>

record vatusa_member =
  vt_cid :: int
  vt_facility :: ustr
  vt_discord_id :: "ustr option"
  vt_roles :: "(ustr \<times> ustr) list"
  vt_visits :: "ustr list"

definition nullif_empty :: "ustr \<Rightarrow> ustr option" where
  "nullif_empty f = (if f = [] then None else Some f)"

definition link_discord :: "ustr \<Rightarrow> ustr option \<Rightarrow> (ustr \<times> ustr) list \<Rightarrow> (ustr \<times> ustr) list" where
  "link_discord user_id discord_id links = (case clean discord_id of
     None \<Rightarrow> filter (\<lambda>(l, _). l \<noteq> user_id) links
   | Some did \<Rightarrow>
       let kept = filter (\<lambda>(l, e). \<not> (e = did \<and> l \<noteq> user_id)) links in
       if list_ex (\<lambda>(l, _). l = user_id) kept
       then map (\<lambda>(l, e). if l = user_id then (l, did) else (l, e)) kept
       else kept @ [(user_id, did)])"

definition upsert_member :: "(ustr \<Rightarrow> ustr) \<Rightarrow> vatusa_member \<Rightarrow> directory \<Rightarrow> (ustr list option \<times> directory) result" where
  "upsert_member upper m d =
     (let cid = vt_cid m;
          d1 = d\<lparr>d_members := map (\<lambda>u. if mb_cid u = Some cid
            then u\<lparr>mb_home := nullif_empty (normalise_facility upper (vt_facility m)), mb_synced := True\<rparr> else u)
            (d_members d)\<rparr>;
          justified_before = desired_vatusa_grants d1 cid;
          roles = remdups (filter (\<lambda>(_, f, r). f \<noteq> [] \<and> r \<noteq> [])
            (map (\<lambda>(f, r). (cid, normalise_facility upper f, upper (trim r))) (vt_roles m)));
          visits = remdups (filter (\<lambda>(_, f). f \<noteq> [])
            (map (\<lambda>f. (cid, normalise_facility upper f)) (vt_visits m)));
          d2 = d1\<lparr>d_vatusa_roles := filter (\<lambda>(c, _). c \<noteq> cid) (d_vatusa_roles d1) @ roles,
            d_visits := filter (\<lambda>(c, _). c \<noteq> cid) (d_visits d1) @ visits\<rparr>
      in case find_user_id_by_cid d2 cid of
        None \<Rightarrow> Inr (None, d2)
      | Some user_id \<Rightarrow>
          bind_result (reconcile_vatusa_grants user_id cid justified_before (desired_vatusa_grants d2 cid) d2)
            (\<lambda>(changes, d3). Inr (changes, d3\<lparr>d_discord := link_discord user_id (vt_discord_id m) (d_discord d3)\<rparr>)))"

subsection \<open>The division pull\<close>

record division_member =
  dm_cid :: int
  dm_facility :: ustr
  dm_visits :: "ustr list"
  dm_roles :: "(ustr \<times> ustr) list"

record division_controller =
  dc_cid :: int
  dc_facility :: ustr
  dc_visiting_facilities :: "ustr list"

fun dedup_by :: "('a \<Rightarrow> 'b) \<Rightarrow> 'a list \<Rightarrow> 'a list" where
  "dedup_by key (x # y # xs) =
     (if key x = key y then dedup_by key (x # xs) else x # dedup_by key (y # xs))"
| "dedup_by key xs = xs"

text \<open>The roles are taken out of the map by the first controller with their CID, in the order of the
  response; a second one gets none.\<close>

fun with_roles :: "(int \<times> ustr \<times> ustr) list \<Rightarrow> int list \<Rightarrow> (ustr \<Rightarrow> ustr) \<Rightarrow> division_controller list \<Rightarrow>
    division_member list" where
  "with_roles roles taken upper [] = []"
| "with_roles roles taken upper (c # cs) =
     \<lparr>dm_cid = dc_cid c, dm_facility = normalise_facility upper (dc_facility c),
      dm_visits = filter (\<lambda>f. f \<noteq> []) (map (normalise_facility upper) (dc_visiting_facilities c)),
      dm_roles = (if List.member taken (dc_cid c) then []
        else map snd (filter (\<lambda>(cid, _). cid = dc_cid c) roles))\<rparr>
     # with_roles roles (dc_cid c # taken) upper cs"

definition division_members :: "(ustr \<Rightarrow> ustr) \<Rightarrow> division_controller list \<Rightarrow> (int \<times> ustr \<times> ustr) list \<Rightarrow>
    division_member list" where
  "division_members upper controllers pulled_roles =
     (let roles = filter (\<lambda>(_, f, r). f \<noteq> [] \<and> r \<noteq> [])
        (map (\<lambda>(cid, f, r). (cid, normalise_facility upper f, upper (trim r))) pulled_roles)
      in dedup_by dm_cid (sort_key dm_cid (with_roles roles [] upper controllers)))"

definition replace_roles :: "int list \<Rightarrow> (int \<times> ustr \<times> ustr) list \<Rightarrow> directory \<Rightarrow> directory" where
  "replace_roles cids roles d =
     (let kept = filter (\<lambda>row. \<not> (List.member cids (fst row) \<and> \<not> List.member roles row)) (d_vatusa_roles d)
      in d\<lparr>d_vatusa_roles := kept @ filter (\<lambda>row. \<not> List.member kept row) (remdups roles)\<rparr>)"

definition replace_visits :: "int list \<Rightarrow> (int \<times> ustr) list \<Rightarrow> directory \<Rightarrow> directory" where
  "replace_visits cids visits d =
     (let kept = filter (\<lambda>row. \<not> (List.member cids (fst row) \<and> \<not> List.member visits row)) (d_visits d)
      in d\<lparr>d_visits := kept @ filter (\<lambda>row. \<not> List.member kept row) (remdups visits)\<rparr>)"

definition seed_member :: "(int \<Rightarrow> ustr) \<Rightarrow> division_member \<Rightarrow> directory \<Rightarrow> directory" where
  "seed_member new_id m d = d\<lparr>d_members :=
     (if list_ex (\<lambda>u. mb_cid u = Some (dm_cid m)) (d_members d)
      then map (\<lambda>u. if mb_cid u = Some (dm_cid m)
        then u\<lparr>mb_home := nullif_empty (dm_facility m), mb_synced := True\<rparr> else u) (d_members d)
      else d_members d @ [\<lparr>mb_id = new_id (dm_cid m), mb_cid = Some (dm_cid m),
        mb_home = nullif_empty (dm_facility m), mb_synced = True, mb_detached = None\<rparr>])\<rparr>"

fun reconcile_all :: "(int \<Rightarrow> justified_grants) \<Rightarrow> int list \<Rightarrow> directory \<Rightarrow> (nat \<times> directory) result" where
  "reconcile_all justified_before [] d = Inr (0, d)"
| "reconcile_all justified_before (cid # cids) d =
     bind_result (reconcile_member cid (justified_before cid) d) (\<lambda>(changes, d1).
     bind_result (reconcile_all justified_before cids d1) (\<lambda>(moved, d2).
       Inr ((if changes = None then 0 else 1) + moved, d2)))"

definition member_roles :: "division_member \<Rightarrow> (int \<times> ustr \<times> ustr) list" where
  "member_roles m = map (\<lambda>(f, r). (dm_cid m, f, r)) (dm_roles m)"

definition member_visits :: "division_member \<Rightarrow> (int \<times> ustr) list" where
  "member_visits m = map (Pair (dm_cid m)) (dm_visits m)"

definition apply_division_chunk :: "(int \<Rightarrow> ustr) \<Rightarrow> division_member list \<Rightarrow> directory \<Rightarrow>
    ((nat \<times> nat) \<times> directory) result" where
  "apply_division_chunk new_id members d =
     (let cids = map dm_cid members;
          seeded = length (filter (\<lambda>m. \<not> list_ex (\<lambda>u. mb_cid u = Some (dm_cid m)) (d_members d)) members);
          d1 = fold (seed_member new_id) members d;
          d2 = replace_roles cids (concat (map member_roles members)) d1;
          d3 = replace_visits cids (concat (map member_visits members)) d2
      in bind_result (reconcile_all (desired_vatusa_grants d) cids d3) (\<lambda>(moved, d4).
           Inr ((seeded, moved), d4)))"

function chunks :: "nat \<Rightarrow> 'a list \<Rightarrow> 'a list list" where
  "chunks n xs = (if xs = [] then [] else take (max 1 n) xs # chunks n (drop (max 1 n) xs))"
  by pat_completeness auto

termination chunks
  by (relation "measure (length \<circ> snd)") auto

declare chunks.simps [simp del]

definition departed_cids :: "int list \<Rightarrow> directory \<Rightarrow> int list" where
  "departed_cids present d = filter (\<lambda>cid. \<not> List.member present cid) (sort (remdups
     (map fst (d_vatusa_roles d) @ map fst (d_visits d) @
      List.map_filter (\<lambda>m. if mb_home m = None then None else mb_cid m) (d_members d))))"

definition clear_chunk :: "int list \<Rightarrow> directory \<Rightarrow> directory result" where
  "clear_chunk cids d =
     (let d1 = replace_visits cids [] (replace_roles cids [] d);
          d2 = d1\<lparr>d_members := map (\<lambda>u. case mb_cid u of None \<Rightarrow> u
            | Some cid \<Rightarrow> if List.member cids cid then u\<lparr>mb_home := None\<rparr> else u) (d_members d1)\<rparr>
      in bind_result (reconcile_all (desired_vatusa_grants d) cids d2) (\<lambda>(_, d3). Inr d3))"

definition PULL_CHUNK :: nat where "PULL_CHUNK = 500"

text \<open>Each chunk is a transaction of its own, so a failure leaves the chunks before it committed: the
  second component is the directory either way.\<close>

fun clear_chunks :: "int list list \<Rightarrow> directory \<Rightarrow> api_error option \<times> directory" where
  "clear_chunks [] d = (None, d)"
| "clear_chunks (cids # rest) d = (case clear_chunk cids d of
     Inl e \<Rightarrow> (Some e, d) | Inr d1 \<Rightarrow> clear_chunks rest d1)"

definition clear_departed :: "int list \<Rightarrow> directory \<Rightarrow> nat result \<times> directory" where
  "clear_departed present d =
     (let departed = departed_cids present d in
      case clear_chunks (chunks PULL_CHUNK departed) d of
        (Some e, d1) \<Rightarrow> (Inl e, d1)
      | (None, d1) \<Rightarrow> (Inr (length departed), d1))"

fun pull_chunks :: "(int \<Rightarrow> ustr) \<Rightarrow> division_member list list \<Rightarrow> directory \<Rightarrow> (nat \<times> nat) result \<times> directory" where
  "pull_chunks new_id [] d = (Inr (0, 0), d)"
| "pull_chunks new_id (members # rest) d = (case apply_division_chunk new_id members d of
     Inl e \<Rightarrow> (Inl e, d)
   | Inr ((s, c), d1) \<Rightarrow> (case pull_chunks new_id rest d1 of
       (Inl e, d2) \<Rightarrow> (Inl e, d2)
     | (Inr (seeded, changed), d2) \<Rightarrow> (Inr (s + seeded, c + changed), d2)))"

datatype pull_error = TruncatedControllers nat nat | TruncatedRoles nat nat | StoreFailed api_error | ClearFailed api_error

record pull_summary =
  ps_controllers :: nat
  ps_seeded :: nat
  ps_changed :: nat
  ps_departed :: nat

definition apply_division :: "(int \<Rightarrow> ustr) \<Rightarrow> division_member list \<Rightarrow> directory \<Rightarrow>
    (pull_error + pull_summary \<times> bool) \<times> directory" where
  "apply_division new_id members d =
     (let known = length (filter mb_synced (d_members d));
          stored_roles = length (d_vatusa_roles d);
          pulled_roles = sum_list (map (length \<circ> dm_roles) members)
      in if members = [] \<or> length members < known div 2
         then (Inl (TruncatedControllers (length members) known), d)
         else if pulled_roles < stored_roles div 2
         then (Inl (TruncatedRoles pulled_roles stored_roles), d)
         else case pull_chunks new_id (chunks PULL_CHUNK members) d of
           (Inl e, d1) \<Rightarrow> (Inl (StoreFailed e), d1)
         | (Inr (seeded, changed), d1) \<Rightarrow>
             (case clear_departed (map dm_cid members) d1 of
                (Inl e, d2) \<Rightarrow> (Inl (ClearFailed e), d2)
              | (Inr departed, d2) \<Rightarrow>
                  (Inr (\<lparr>ps_controllers = length members, ps_seeded = seeded, ps_changed = changed,
                     ps_departed = departed\<rparr>, 0 < changed + departed), d2)))"

subsection \<open>Role mappings\<close>

definition is_valid_vatusa_role :: "ustr \<Rightarrow> bool" where
  "is_valid_vatusa_role role \<longleftrightarrow> role \<noteq> [] \<and> utf8_len role \<le> 64 \<and>
     list_all (\<lambda>ch. is_ascii_uppercase ch \<or> is_ascii_digit ch \<or> ch = 95) role"

record mapping_body =
  mp_mapping :: vatusa_mapping
  mp_holders :: nat

definition mapping_matches :: "ustr \<Rightarrow> ustr option \<Rightarrow> int \<times> ustr \<times> ustr \<Rightarrow> bool" where
  "mapping_matches vatusa_role facility row \<longleftrightarrow>
     snd (snd row) = vatusa_role \<and> (facility = None \<or> facility = Some (fst (snd row)))"

definition mapping_select :: "directory \<Rightarrow> vatusa_mapping \<Rightarrow> mapping_body" where
  "mapping_select d m = \<lparr>mp_mapping = m, mp_holders = length (remdups (map fst
     (filter (mapping_matches (vm_vatusa_role m) (vm_facility m)) (d_vatusa_roles d))))\<rparr>"

definition fetch_role_mappings :: "directory \<Rightarrow> mapping_body list" where
  "fetch_role_mappings d = map (mapping_select d)
     (sort_key (\<lambda>m. (vm_role_name m, vm_vatusa_role m, vm_facility m)) (d_mappings d))"

definition fetch_role_mapping :: "directory \<Rightarrow> int \<Rightarrow> mapping_body option" where
  "fetch_role_mapping d i = map_option (mapping_select d) (find (\<lambda>m. vm_id m = i) (d_mappings d))"

definition fetch_known_vatusa_roles :: "directory \<Rightarrow> ustr list" where
  "fetch_known_vatusa_roles d = sort (remdups (map (snd \<circ> snd) (d_vatusa_roles d)))"

definition create_role_mapping :: "int \<Rightarrow> ustr \<Rightarrow> ustr option \<Rightarrow> ustr \<Rightarrow> directory \<Rightarrow> directory result" where
  "create_role_mapping i vatusa_role facility role_name d =
     (if list_ex (\<lambda>m. vm_vatusa_role m = vatusa_role \<and> vm_facility m = facility \<and> vm_role_name m = role_name)
          (d_mappings d) then Inl Conflict
      else if \<not> List.member (map fst (d_roles d)) role_name then Inl Internal
      else Inr (d\<lparr>d_mappings := d_mappings d @ [\<lparr>vm_id = i, vm_vatusa_role = vatusa_role,
        vm_facility = facility, vm_role_name = role_name\<rparr>]\<rparr>))"

definition delete_role_mapping :: "int \<Rightarrow> directory \<Rightarrow> directory" where
  "delete_role_mapping i d = d\<lparr>d_mappings := filter (\<lambda>m. vm_id m \<noteq> i) (d_mappings d)\<rparr>"

definition cids_holding :: "ustr \<Rightarrow> ustr option \<Rightarrow> directory \<Rightarrow> int list" where
  "cids_holding vatusa_role facility d = sort (remdups (map fst
     (filter (\<lambda>row. mapping_matches vatusa_role facility row \<and>
        list_ex (\<lambda>u. mb_cid u = Some (fst row)) (d_members d)) (d_vatusa_roles d))))"

definition reconcile_members_holding :: "ustr \<Rightarrow> ustr option \<Rightarrow> directory \<Rightarrow> directory result" where
  "reconcile_members_holding vatusa_role facility d =
     fold_result reconcile_member_access (cids_holding vatusa_role facility d) d"

definition enforce_mapping_scope :: "access_db \<Rightarrow> ustr \<Rightarrow> ustr \<Rightarrow> unit result" where
  "enforce_mapping_scope db actor role_name =
     (if is_system_role role_name then Inl Forbidden
      else enforce_group_scope db actor role_name [] (fetch_group_permissions db role_name))"

record create_mapping_request =
  cm_vatusa_role :: ustr
  cm_facility :: "ustr option"
  cm_role_name :: ustr
  cm_reason :: ustr

definition create_mapping :: "int \<Rightarrow> caller \<Rightarrow> int \<Rightarrow> create_mapping_request \<Rightarrow> directory \<Rightarrow> directory \<Rightarrow>
    directory result" where
  "create_mapping now c i payload d w =
     (let db = d_access d; vatusa_role = ascii_upper (trim (cm_vatusa_role payload));
          facility = scope_key (cm_facility payload); role_name = ascii_upper (trim (cm_role_name payload))
      in bind_result (editing_user db now c AccessGroupsUpdate) (\<lambda>user.
      if trim (cm_reason payload) = [] \<or> \<not> is_valid_vatusa_role vatusa_role then Inl BadRequest
      else if (case facility of None \<Rightarrow> False | Some f \<Rightarrow> f \<noteq> ZHQ \<and> \<not> known_facility d f) then Inl BadRequest
      else
        bind_result (enforce_mapping_scope db (cu_id user) role_name) (\<lambda>_.
        bind_result (ok_or NotFound (fetch_group d role_name)) (\<lambda>_.
        bind_result (create_role_mapping i vatusa_role facility role_name w) (\<lambda>w1.
          reconcile_members_holding vatusa_role facility w1)))))"

definition delete_mapping :: "int \<Rightarrow> caller \<Rightarrow> int \<Rightarrow> directory \<Rightarrow> directory \<Rightarrow> directory result" where
  "delete_mapping now c i d w =
     bind_result (editing_user (d_access d) now c AccessGroupsUpdate) (\<lambda>user.
     bind_result (ok_or NotFound (find (\<lambda>m. vm_id m = i) (d_mappings d))) (\<lambda>m.
     bind_result (enforce_mapping_scope (d_access d) (cu_id user) (vm_role_name m)) (\<lambda>_.
       reconcile_members_holding (vm_vatusa_role m) (vm_facility m) (delete_role_mapping i w))))"

end
