(* ===== verification/AccessReset.thy ===== *)
theory AccessReset
  imports VatusaSync
begin

text \<open>
  The reset of everyone's access to what VATUSA justifies: one member, the members it can change, the
  dry run and the run that writes (\<open>repos/vatusa.rs\<close>), and the endpoints with their gate and their
  claim of the reset lock (\<open>handlers/access_reset.rs\<close>). A row is the tuple \<open>GrantRow\<close> orders by: is it a
  group, its name, scope, source, and whether it grants.
\<close>

subsection \<open>One member\<close>

type_synonym reset_row = "bool \<times> ustr \<times> artcc option \<times> ustr \<times> bool"

definition grant_rows :: "directory \<Rightarrow> ustr \<Rightarrow> reset_row list" where
  "grant_rows d user_id = sort (remdups
     (map (\<lambda>ur. (True, ur_role ur, ur_artcc ur, source_as_str (ur_source ur), True))
        (filter (\<lambda>ur. ur_user ur = user_id) (t_user_roles (d_access d))) @
      map (\<lambda>up. (False, up_permission up, up_artcc up, source_as_str (up_source up), up_granted up))
        (filter (\<lambda>up. up_user up = user_id) (t_user_permissions (d_access d)))))"

definition row_label :: "reset_row \<Rightarrow> ustr" where
  "row_label row = (case row of (is_group, name, artcc, src, allow) \<Rightarrow>
     (if is_group then lit ''group '' else if allow then lit ''permission '' else lit ''deny '') @ name @
     lit '' '' @ scope_label artcc @ lit '' ('' @ src @ lit '')'')"

record member_reset =
  mr_user_id :: ustr
  mr_cid :: "int option"
  mr_reattached :: bool
  mr_added :: "reset_row list"
  mr_removed :: "reset_row list"

definition reset_reason :: "member_reset \<Rightarrow> ustr \<Rightarrow> ustr" where
  "reset_reason r reason = lit ''Reset to VATUSA: '' @ reason @ lit '' ('' @
     join (lit ''; '') (map (\<lambda>row. lit ''removed '' @ row_label row) (mr_removed r) @
       map (\<lambda>row. lit ''added '' @ row_label row) (mr_added r) @
       (if mr_reattached r then [lit ''re-attached to VATUSA role sync''] else [])) @ lit '')''"

definition drop_manual :: "ustr \<Rightarrow> directory \<Rightarrow> directory" where
  "drop_manual user_id d = with_access d (\<lambda>a. a\<lparr>
     t_user_roles := filter (\<lambda>ur. \<not> (ur_user ur = user_id \<and> ur_source ur = Manual)) (t_user_roles a),
     t_user_permissions := filter (\<lambda>up. \<not> (up_user up = user_id \<and> up_source up = Manual))
       (t_user_permissions a)\<rparr>)"

definition reset_grants :: "ustr \<Rightarrow> int option \<Rightarrow> directory \<Rightarrow> directory result" where
  "reset_grants user_id cid d = (case cid of
     None \<Rightarrow> Inr d
   | Some cid \<Rightarrow> (case pending_changes d user_id (desired_vatusa_grants d cid) of (grants, revokes) \<Rightarrow>
       apply_changes user_id (map fst grants) revokes d))"

definition or_zero :: "int option \<Rightarrow> int" where
  "or_zero cid = (case cid of None \<Rightarrow> 0 | Some c \<Rightarrow> c)"

definition reset_member :: "ustr \<Rightarrow> directory \<Rightarrow> (member_reset option \<times> directory) result" where
  "reset_member user_id d = (case find_member d user_id of
     None \<Rightarrow> Inr (None, d)
   | Some m \<Rightarrow>
       let before = grant_rows d user_id; detached = mb_detached m \<noteq> None in
       bind_result (access_snapshot d user_id (or_zero (mb_cid m))) (\<lambda>_.
       bind_result (reset_grants user_id (mb_cid m)
         (drop_manual user_id (if detached then reattach user_id d else d))) (\<lambda>d1.
       let after = grant_rows d1 user_id;
           removed = filter (\<lambda>row. \<not> List.member after row) before;
           added = filter (\<lambda>row. \<not> List.member before row) after in
       if \<not> detached \<and> removed = [] \<and> added = [] then Inr (None, d1)
       else bind_result (access_snapshot d1 user_id (or_zero (mb_cid m))) (\<lambda>_.
         Inr (Some \<lparr>mr_user_id = user_id, mr_cid = mb_cid m, mr_reattached = detached,
           mr_added = added, mr_removed = removed\<rparr>, d1)))))"

subsection \<open>Everyone\<close>

text \<open>The set form of what VATUSA justifies, for every CID at once.\<close>

definition justified_pairs :: "directory \<Rightarrow> (int \<times> grant_key) list" where
  "justified_pairs d = remdups
     ([(c, vm_role_name m, if f = ZHQ then None else Some f).
        (c, f, r) \<leftarrow> d_vatusa_roles d, f = ZHQ \<or> known_facility d f,
        m \<leftarrow> d_mappings d, vm_vatusa_role m = r \<and> (vm_facility m = None \<or> vm_facility m = Some f)] @
      List.map_filter (\<lambda>u. case (mb_cid u, mb_home u) of
          (Some cid, Some h) \<Rightarrow> if known_facility d h then Some (cid, ROSTER_GROUP, Some h) else None
        | _ \<Rightarrow> None) (d_members d) @
      map (\<lambda>(c, f). (c, ROSTER_GROUP, Some f)) (filter (\<lambda>(_, f). known_facility d f) (d_visits d)))"

definition justified_of :: "directory \<Rightarrow> member \<Rightarrow> grant_key list" where
  "justified_of d m = (case mb_cid m of None \<Rightarrow> []
     | Some cid \<Rightarrow> map snd (filter (\<lambda>(c, _). c = cid) (justified_pairs d)))"

definition drifted :: "directory \<Rightarrow> member \<Rightarrow> bool" where
  "drifted d m \<longleftrightarrow>
     list_ex (\<lambda>k. \<not> List.member (held_vatusa d (mb_id m)) k) (justified_of d m) \<or>
     list_ex (\<lambda>k. \<not> List.member (justified_of d m) k) (held_vatusa d (mb_id m))"

definition reset_candidates :: "directory \<Rightarrow> ustr list" where
  "reset_candidates d = map mb_id (sort_key (\<lambda>m. (mb_cid m = None, mb_cid m, mb_id m))
     (filter (\<lambda>m. mb_detached m \<noteq> None \<or>
        list_ex (\<lambda>ur. ur_user ur = mb_id m \<and> ur_source ur = Manual) (t_user_roles (d_access d)) \<or>
        list_ex (\<lambda>up. up_user up = mb_id m \<and> up_source up = Manual) (t_user_permissions (d_access d)) \<or>
        drifted d m) (d_members d)))"

datatype reset_mode = DryRun | Apply ustr

record reset_run =
  rn_users_checked :: nat
  rn_changed :: "member_reset list"
  rn_failure :: "api_error option"

definition reset_one :: "reset_mode \<Rightarrow> ustr \<Rightarrow> directory \<Rightarrow> (member_reset option \<times> directory) result" where
  "reset_one mode user_id d = bind_result (reset_member user_id d) (\<lambda>(change, d1).
     Inr (change, case mode of DryRun \<Rightarrow> d | Apply _ \<Rightarrow> d1))"

fun reset_users :: "reset_mode \<Rightarrow> ustr list \<Rightarrow> directory \<Rightarrow> (member_reset list \<times> api_error option) \<times> directory" where
  "reset_users mode [] d = (([], None), d)"
| "reset_users mode (u # us) d = (case reset_one mode u d of
     Inl e \<Rightarrow> (([], Some e), d)
   | Inr (change, d1) \<Rightarrow> (case reset_users mode us d1 of ((changed, failure), d2) \<Rightarrow>
       (((case change of None \<Rightarrow> [] | Some c \<Rightarrow> [c]) @ changed, failure), d2)))"

definition reset_all :: "reset_mode \<Rightarrow> directory \<Rightarrow> reset_run \<times> directory" where
  "reset_all mode d = (case reset_users mode (reset_candidates d) d of ((changed, failure), d1) \<Rightarrow>
     (\<lparr>rn_users_checked = length (d_members d), rn_changed = changed, rn_failure = failure\<rparr>, d1))"

subsection \<open>The endpoints\<close>

definition require_server_admin :: "access_db \<Rightarrow> current_user \<Rightarrow> unit result" where
  "require_server_admin db user =
     bind_result (fetch_user_access (Some db) (cu_id user)) (\<lambda>(roles, _).
       if is_server_admin roles then Inr () else Inl Forbidden)"

definition preview_vatusa_reset :: "caller \<Rightarrow> directory \<Rightarrow> reset_run result" where
  "preview_vatusa_reset c d =
     bind_result (ok_or Unauthorized (cl_user c)) (\<lambda>user.
     bind_result (require_server_admin (d_access d) user) (\<lambda>_.
       let run = fst (reset_all DryRun d) in
       case rn_failure run of Some e \<Rightarrow> Inl e | None \<Rightarrow> Inr run))"

text \<open>The reset behind a pull: \<open>pulled\<close> is the directory after it, or why it did not run.\<close>

datatype reset_failure = PullFailed ustr | ResetIncomplete api_error nat | ReasonMissing

definition reset_to_vatusa :: "ustr \<Rightarrow> ustr + directory \<Rightarrow> directory \<Rightarrow> (reset_failure + reset_run) \<times> directory" where
  "reset_to_vatusa reason pulled d =
     (if trim reason = [] then (Inl ReasonMissing, d)
      else case pulled of
        Inl message \<Rightarrow> (Inl (PullFailed message), d)
      | Inr d1 \<Rightarrow> (case reset_all (Apply (trim reason)) d1 of (run, d2) \<Rightarrow>
          (case rn_failure run of
             Some e \<Rightarrow> (Inl (ResetIncomplete e (length (rn_changed run))), d2)
           | None \<Rightarrow> (Inr run, d2))))"

end
