(* ===== verification/SyncLife.thy ===== *)
theory SyncLife
  imports AccessReset AccessLife
begin

text \<open>
  What the sync keeps. A reconcile makes a member's \<open>vatusa\<close> rows exactly the justified ones and
  touches nothing else; the reset leaves the system rows and the justified ones and is idempotent; the
  set query that picks the members to reset picks exactly those a reset would change.
\<close>

subsection \<open>Reconciling\<close>

definition vatusa_key :: "grant_key \<Rightarrow> ustr \<Rightarrow> user_role_row" where
  "vatusa_key k u = role_row u (fst k) (snd k) Vatusa"

lemma vatusa_key_inject [simp]: "vatusa_key k u = vatusa_key k' u' \<longleftrightarrow> k = k' \<and> u = u'"
  by (cases k; cases k') (auto simp: vatusa_key_def role_row_def)

lemma vatusa_key_sel [simp]:
  "ur_user (vatusa_key k u) = u" "ur_source (vatusa_key k u) = Vatusa"
  by (simp_all add: vatusa_key_def role_row_def)

lemma held_vatusa_iff: "k \<in> set (held_vatusa d u) \<longleftrightarrow> vatusa_key k u \<in> set (t_user_roles (d_access d))"
proof
  assume "k \<in> set (held_vatusa d u)"
  then obtain ur where "ur \<in> set (t_user_roles (d_access d))" "ur_user ur = u" "ur_source ur = Vatusa"
    "k = (ur_role ur, ur_artcc ur)"
    by (auto simp: held_vatusa_def)
  moreover from this have "vatusa_key k u = ur"
    by (simp add: vatusa_key_def role_row_def)
  ultimately show "vatusa_key k u \<in> set (t_user_roles (d_access d))" by simp
next
  assume "vatusa_key k u \<in> set (t_user_roles (d_access d))"
  then show "k \<in> set (held_vatusa d u)"
    by (force simp: held_vatusa_def vatusa_key_def role_row_def)
qed

definition same_but_roles :: "directory \<Rightarrow> directory \<Rightarrow> bool" where
  "same_but_roles d d' \<longleftrightarrow> (\<exists>rows. d' = with_access d (\<lambda>a. a\<lparr>t_user_roles := rows\<rparr>))"

lemma same_but_roles_refl [simp]: "same_but_roles d d"
  by (auto simp: same_but_roles_def intro!: exI [of _ "t_user_roles (d_access d)"])

lemma same_but_roles_trans: "same_but_roles a b \<Longrightarrow> same_but_roles b c \<Longrightarrow> same_but_roles a c"
  by (auto simp: same_but_roles_def)

lemma same_but_roles_role:
  assumes "set_user_role_scoped u r held x src d = Inr d'"
  shows "same_but_roles d d'"
proof -
  from assms have "d' = d \<or> (\<exists>rows. d' = with_access d (\<lambda>a. a\<lparr>t_user_roles := rows\<rparr>))"
    by (auto simp: set_user_role_scoped_def Let_def split: if_splits)
  then show ?thesis
    by (elim disjE) (simp, simp add: same_but_roles_def)
qed

lemma set_keys_rows:
  assumes "fold_result (\<lambda>(g, s). set_user_role_scoped u g held s Vatusa) keys d = Inr d'"
  shows "set (t_user_roles (d_access d')) =
      (if held then set (t_user_roles (d_access d)) \<union> (\<lambda>k. vatusa_key k u) ` set keys
       else set (t_user_roles (d_access d)) - (\<lambda>k. vatusa_key k u) ` set keys) \<and> same_but_roles d d'"
  using assms
proof (induction keys arbitrary: d)
  case (Cons k keys)
  obtain g s where k: "k = (g, s)" by (cases k)
  with Cons.prems obtain d1 where d1: "set_user_role_scoped u g held s Vatusa d = Inr d1"
    and rest: "fold_result (\<lambda>(g, s). set_user_role_scoped u g held s Vatusa) keys d1 = Inr d'"
    by (auto simp: bind_result_Inr_iff)
  from set_user_role_rows(1) [OF d1] Cons.IH [OF rest]
    same_but_roles_trans [OF same_but_roles_role [OF d1]] show ?case
    by (auto simp: k vatusa_key_def)
qed simp

lemma apply_changes_rows:
  assumes "apply_changes u grants revokes d = Inr d'"
  shows "set (t_user_roles (d_access d')) = set (t_user_roles (d_access d)) \<union>
      (\<lambda>k. vatusa_key k u) ` set grants - (\<lambda>k. vatusa_key k u) ` set revokes"
    and "same_but_roles d d'"
proof -
  from assms obtain d1 where
    d1: "fold_result (\<lambda>(g, s). set_user_role_scoped u g True s Vatusa) grants d = Inr d1"
    and d': "fold_result (\<lambda>(g, s). set_user_role_scoped u g False s Vatusa) revokes d1 = Inr d'"
    by (auto simp: apply_changes_def bind_result_Inr_iff)
  from set_keys_rows [OF d1] set_keys_rows [OF d']
  show "set (t_user_roles (d_access d')) = set (t_user_roles (d_access d)) \<union>
      (\<lambda>k. vatusa_key k u) ` set grants - (\<lambda>k. vatusa_key k u) ` set revokes"
    and "same_but_roles d d'"
    using same_but_roles_trans by auto
qed

lemma pending_applied:
  assumes "pending_changes d u justified = (grants, revokes)" and "apply_changes u (map fst grants) revokes d = Inr d'"
  shows "set (held_vatusa d' u) = fst ` set justified"
    and "\<not> (ur_user ur = u \<and> ur_source ur = Vatusa) \<Longrightarrow>
      ur \<in> set (t_user_roles (d_access d')) \<longleftrightarrow> ur \<in> set (t_user_roles (d_access d))"
    and "same_but_roles d d'"
proof -
  note rows = apply_changes_rows(1) [OF assms(2)]
  have pend: "grants = filter (\<lambda>(k, _). \<not> List.member (held_vatusa d u) k) justified"
    "revokes = filter (\<lambda>k. bt_get justified k = None) (held_vatusa d u)"
    using assms(1) by (auto simp: pending_changes_def Let_def)
  have "fst ` set grants = fst ` set justified - set (held_vatusa d u)"
    by (force simp: pend)
  moreover have "set revokes = set (held_vatusa d u) - fst ` set justified"
    by (auto simp: pend bt_get_None_iff)
  moreover have "vatusa_key k u \<in> (\<lambda>k. vatusa_key k u) ` K \<longleftrightarrow> k \<in> K" for k K
    by auto
  ultimately have "k \<in> set (held_vatusa d' u) \<longleftrightarrow> k \<in> fst ` set justified" for k
    unfolding held_vatusa_iff [of k d'] rows using held_vatusa_iff [of k d u] by (simp only: Un_iff Diff_iff set_map) blast
  then show "set (held_vatusa d' u) = fst ` set justified" by blast
  show "\<not> (ur_user ur = u \<and> ur_source ur = Vatusa) \<Longrightarrow>
      ur \<in> set (t_user_roles (d_access d')) \<longleftrightarrow> ur \<in> set (t_user_roles (d_access d))"
    unfolding rows by auto
  show "same_but_roles d d'" by (rule apply_changes_rows(2) [OF assms(2)])
qed

lemma nothing_pending:
  "pending_changes d u justified = ([], []) \<longleftrightarrow> set (held_vatusa d u) = fst ` set justified"
proof -
  have "filter (\<lambda>(k, _). \<not> List.member (held_vatusa d u) k) justified = [] \<longleftrightarrow>
      fst ` set justified \<subseteq> set (held_vatusa d u)"
    by (force simp: filter_empty_conv)
  moreover have "filter (\<lambda>k. bt_get justified k = None) (held_vatusa d u) = [] \<longleftrightarrow>
      set (held_vatusa d u) \<subseteq> fst ` set justified"
    by (auto simp: filter_empty_conv bt_get_None_iff)
  ultimately show ?thesis by (auto simp: pending_changes_def Let_def)
qed

definition other_rows :: "ustr \<Rightarrow> directory \<Rightarrow> user_role_row set" where
  "other_rows u d = {ur \<in> set (t_user_roles (d_access d)). \<not> (ur_user ur = u \<and> ur_source ur = Vatusa)}"

lemma reconcile_vatusa_grants_ok:
  assumes "reconcile_vatusa_grants u cid justified_before justified d = Inr (changes, d')"
  shows "other_rows u d' = other_rows u d" and "same_but_roles d d'"
    and "is_detached d u \<Longrightarrow> d' = d \<and> changes = None"
    and "\<not> is_detached d u \<Longrightarrow> set (held_vatusa d' u) = fst ` set justified"
    and "\<not> is_detached d u \<Longrightarrow> changes = None \<longleftrightarrow> set (held_vatusa d u) = fst ` set justified"
proof -
  obtain grants revokes where pend: "pending_changes d u justified = (grants, revokes)"
    by (cases "pending_changes d u justified")
  consider (off) "is_detached d u" "d' = d" "changes = None"
    | (none) "\<not> is_detached d u" "grants = []" "revokes = []" "d' = d" "changes = None"
    | (some) "\<not> is_detached d u" "\<not> (grants = [] \<and> revokes = [])" "changes \<noteq> None"
        "apply_changes u (map fst grants) revokes d = Inr d'"
    using assms pend by (auto simp: reconcile_vatusa_grants_def bind_result_Inr_iff split: if_splits)
  then have "other_rows u d' = other_rows u d \<and> same_but_roles d d' \<and>
    (is_detached d u \<longrightarrow> d' = d \<and> changes = None) \<and>
    (\<not> is_detached d u \<longrightarrow> set (held_vatusa d' u) = fst ` set justified \<and>
      (changes = None \<longleftrightarrow> set (held_vatusa d u) = fst ` set justified))"
  proof cases
    case some
    from pending_applied [OF pend some(4)] some nothing_pending [of d u justified] pend show ?thesis
      by (auto simp: other_rows_def)
  qed (use nothing_pending [of d u justified] pend in auto)
  then show "other_rows u d' = other_rows u d" and "same_but_roles d d'"
    and "is_detached d u \<Longrightarrow> d' = d \<and> changes = None"
    and "\<not> is_detached d u \<Longrightarrow> set (held_vatusa d' u) = fst ` set justified"
    and "\<not> is_detached d u \<Longrightarrow> changes = None \<longleftrightarrow> set (held_vatusa d u) = fst ` set justified"
    by blast+
qed

lemma same_but_roles_frame:
  assumes "same_but_roles d d'"
  shows "d_members d' = d_members d" and "find_member d' = find_member d"
    and "find_user_id_by_cid d' = find_user_id_by_cid d" and "is_detached d' = is_detached d"
    and "desired_vatusa_grants d' = desired_vatusa_grants d"
    and "t_user_permissions (d_access d') = t_user_permissions (d_access d)"
    and "d_vatusa_roles d' = d_vatusa_roles d" and "d_visits d' = d_visits d" and "d_mappings d' = d_mappings d"
    and "d_facilities d' = d_facilities d" and "d_roles d' = d_roles d"
proof -
  from assms obtain rows where d': "d' = with_access d (\<lambda>a. a\<lparr>t_user_roles := rows\<rparr>)"
    by (auto simp: same_but_roles_def)
  have "justified_rows d' = justified_rows d"
    by (rule ext) (simp add: d' justified_rows_def known_facility_def cong: if_cong)
  then show "desired_vatusa_grants d' = desired_vatusa_grants d"
    by (simp add: desired_vatusa_grants_def [abs_def])
  show "find_member d' = find_member d"
    by (rule ext) (simp add: d' find_member_def)
  then show "is_detached d' = is_detached d"
    by (simp add: is_detached_def [abs_def])
  show "find_user_id_by_cid d' = find_user_id_by_cid d"
    by (rule ext) (simp add: d' find_user_id_by_cid_def)
qed (use assms in \<open>auto simp: same_but_roles_def\<close>)

definition justified_keys :: "directory \<Rightarrow> int \<Rightarrow> grant_key set" where
  "justified_keys d cid = fst ` set (justified_rows d cid)"

lemma desired_keys: "fst ` set (desired_vatusa_grants d cid) = justified_keys d cid"
  by (force simp: desired_vatusa_grants_def justified_keys_def Let_def)

lemma reconcile_member_ok:
  assumes "reconcile_member cid justified_before d = Inr (changes, d')"
  shows "same_but_roles d d'"
    and "find_user_id_by_cid d cid = Some u \<Longrightarrow> other_rows u d' = other_rows u d"
    and "find_user_id_by_cid d cid = None \<Longrightarrow> d' = d"
    and "find_user_id_by_cid d cid = Some u \<Longrightarrow> is_detached d u \<Longrightarrow> d' = d"
    and "find_user_id_by_cid d cid = Some u \<Longrightarrow> \<not> is_detached d u \<Longrightarrow>
      set (held_vatusa d' u) = justified_keys d cid"
  using assms reconcile_vatusa_grants_ok [of _ cid justified_before "desired_vatusa_grants d cid" d changes d']
  by (auto simp: reconcile_member_def desired_keys split: option.splits)

text \<open>C5. Reconciling a member who is on role sync makes the groups they hold from VATUSA exactly those
  their stored VATUSA roles, home and visits justify, and leaves every other row of everyone, hand-made
  rows of the same groups included. It reports a change exactly when there was one. A member taken off
  role sync is left as they are.\<close>

theorem sync_grants_exactly_the_justified:
  assumes "find_user_id_by_cid d cid = Some u" and "reconcile_member cid justified_before d = Inr (changes, d')"
  shows "other_rows u d' = other_rows u d \<and>
    t_user_permissions (d_access d') = t_user_permissions (d_access d) \<and>
    set (held_vatusa d' u) = (if is_detached d u then set (held_vatusa d u) else justified_keys d cid) \<and>
    (changes = None \<longleftrightarrow> set (held_vatusa d' u) = set (held_vatusa d u))"
proof -
  from assms have rec: "reconcile_vatusa_grants u cid justified_before (desired_vatusa_grants d cid) d = Inr (changes, d')"
    by (simp add: reconcile_member_def)
  note ok = reconcile_vatusa_grants_ok [OF rec]
  show ?thesis
    using ok same_but_roles_frame(6) [OF ok(2)] by (cases "is_detached d u") (auto simp: desired_keys)
qed

text \<open>\<open>u2\<close> is an event coordinator at ZDC by VATUSA and visits ZNY.\<close>

definition synced_directory :: directory where
  "synced_directory = sample_directory\<lparr>
     d_vatusa_roles := [(2, lit ''ZDC'', lit ''EVENT_COORDINATOR'')], d_visits := [(2, lit ''ZNY'')],
     d_mappings := [\<lparr>vm_id = 1, vm_vatusa_role = lit ''EVENT_COORDINATOR'', vm_facility = None,
       vm_role_name = lit ''EC''\<rparr>]\<rparr>"

definition reconciled_sample :: directory where
  "reconciled_sample = (case reconcile_member 2 [] synced_directory of Inl _ \<Rightarrow> synced_directory | Inr (_, d) \<Rightarrow> d)"

theorem sync_grants_exactly_the_justified_witness:
  "set (held_vatusa reconciled_sample (lit ''u2'')) = justified_keys synced_directory 2"
proof -
  have u: "find_user_id_by_cid synced_directory 2 = Some (lit ''u2'')" by code_simp
  have "\<exists>changes. reconcile_member 2 [] synced_directory = Inr (changes, reconciled_sample)"
    by (rule exI) code_simp
  then obtain changes where "reconcile_member 2 [] synced_directory = Inr (changes, reconciled_sample)" ..
  from sync_grants_exactly_the_justified [OF u this] show ?thesis
    by (simp add: is_detached_def find_member_def synced_directory_def sample_directory_def)
qed

subsection \<open>The reset of one member\<close>

definition rows_of :: "ustr \<Rightarrow> directory \<Rightarrow> user_role_row set" where
  "rows_of u d = {ur \<in> set (t_user_roles (d_access d)). ur_user ur = u}"

definition direct_of :: "ustr \<Rightarrow> directory \<Rightarrow> user_permission_row set" where
  "direct_of u d = {up \<in> set (t_user_permissions (d_access d)). up_user up = u}"

definition reset_rows :: "ustr \<Rightarrow> directory \<Rightarrow> member \<Rightarrow> user_role_row set" where
  "reset_rows u d m = {ur \<in> rows_of u d. ur_source ur = System} \<union>
     (case mb_cid m of None \<Rightarrow> {ur \<in> rows_of u d. ur_source ur = Vatusa}
      | Some cid \<Rightarrow> (\<lambda>k. vatusa_key k u) ` justified_keys d cid)"

lemma detached_update_sel [simp]:
  "mb_id (if b then m\<lparr>mb_detached := v\<rparr> else m) = mb_id m"
  "mb_cid (if b then m\<lparr>mb_detached := v\<rparr> else m) = mb_cid m"
  "mb_home (if b then m\<lparr>mb_detached := v\<rparr> else m) = mb_home m"
  by simp_all

lemma justified_reattach [simp]: "justified_keys (reattach u d) cid = justified_keys d cid"
  by (simp add: justified_keys_def justified_rows_def reattach_def known_facility_def comp_def cong: if_cong)

lemma justified_drop [simp]: "justified_keys (drop_manual u d) cid = justified_keys d cid"
  by (simp add: justified_keys_def justified_rows_def drop_manual_def known_facility_def cong: if_cong)

lemma rows_by_source:
  "rows_of u d = {ur \<in> rows_of u d. ur_source ur = System} \<union> {ur \<in> rows_of u d. ur_source ur = Manual} \<union>
     (\<lambda>k. vatusa_key k u) ` set (held_vatusa d u)"
proof -
  have "ur \<in> (\<lambda>k. vatusa_key k u) ` set (held_vatusa d u)" if "ur \<in> rows_of u d" "ur_source ur = Vatusa" for ur
  proof -
    have "ur = vatusa_key (ur_role ur, ur_artcc ur) u"
      using that by (cases ur) (simp add: rows_of_def vatusa_key_def role_row_def)
    with that show ?thesis
      by (metis (no_types, lifting) held_vatusa_iff imageI mem_Collect_eq rows_of_def)
  qed
  moreover have "(\<lambda>k. vatusa_key k u) ` set (held_vatusa d u) \<subseteq> rows_of u d"
    by (auto simp: rows_of_def held_vatusa_iff)
  ultimately show ?thesis
    by (auto intro: grant_source.exhaust)
qed

lemma apply_changes_effect:
  assumes "pending_changes d u justified = (grants, revokes)" and "apply_changes u (map fst grants) revokes d = Inr d'"
  shows "rows_of u d' = {ur \<in> rows_of u d. ur_source ur \<noteq> Vatusa} \<union> (\<lambda>k. vatusa_key k u) ` fst ` set justified"
    and "v \<noteq> u \<Longrightarrow> rows_of v d' = rows_of v d"
proof -
  note applied = pending_applied [OF assms]
  show "rows_of u d' = {ur \<in> rows_of u d. ur_source ur \<noteq> Vatusa} \<union> (\<lambda>k. vatusa_key k u) ` fst ` set justified"
  proof -
    have "{ur \<in> rows_of u d'. ur_source ur \<noteq> Vatusa} = {ur \<in> rows_of u d. ur_source ur \<noteq> Vatusa}"
      using applied(2) by (auto simp: rows_of_def)
    moreover have "{ur \<in> rows_of u d'. ur_source ur = Vatusa} = (\<lambda>k. vatusa_key k u) ` set (held_vatusa d' u)"
      using rows_by_source [of u d'] by (auto simp: rows_of_def held_vatusa_iff)
    ultimately show ?thesis
      unfolding applied(1) by blast
  qed
  show "v \<noteq> u \<Longrightarrow> rows_of v d' = rows_of v d"
    using applied(2) by (auto simp: rows_of_def)
qed

lemma rows_of_reattach [simp]: "rows_of v (reattach u d) = rows_of v d"
  by (simp add: rows_of_def reattach_def)

lemma rows_of_drop: "rows_of v (drop_manual u d) =
    (if v = u then {ur \<in> rows_of u d. ur_source ur \<noteq> Manual} else rows_of v d)"
  by (auto simp: rows_of_def drop_manual_def)

lemma direct_of_drop: "direct_of v (drop_manual u d) =
    (if v = u then {up \<in> direct_of u d. up_source up \<noteq> Manual} else direct_of v d)"
  by (auto simp: direct_of_def drop_manual_def)

lemma reset_grants_effect:
  assumes "reset_grants u cid d = Inr d'"
  shows "rows_of u d' = {ur \<in> rows_of u d. ur_source ur \<noteq> Vatusa} \<union>
      (case cid of None \<Rightarrow> {ur \<in> rows_of u d. ur_source ur = Vatusa}
       | Some c \<Rightarrow> (\<lambda>k. vatusa_key k u) ` justified_keys d c)"
    and "v \<noteq> u \<Longrightarrow> rows_of v d' = rows_of v d" and "same_but_roles d d'"
proof -
  have "rows_of u d' = {ur \<in> rows_of u d. ur_source ur \<noteq> Vatusa} \<union>
      (case cid of None \<Rightarrow> {ur \<in> rows_of u d. ur_source ur = Vatusa}
       | Some c \<Rightarrow> (\<lambda>k. vatusa_key k u) ` justified_keys d c) \<and>
    (v \<noteq> u \<longrightarrow> rows_of v d' = rows_of v d) \<and> same_but_roles d d'" for v
  proof (cases cid)
    case None
    with assms show ?thesis by (auto simp: reset_grants_def)
  next
    case (Some c)
    obtain grants revokes where pend: "pending_changes d u (desired_vatusa_grants d c) = (grants, revokes)"
      by (cases "pending_changes d u (desired_vatusa_grants d c)")
    with assms Some have "apply_changes u (map fst grants) revokes d = Inr d'"
      by (simp add: reset_grants_def)
    from apply_changes_effect [OF pend this] pending_applied(3) [OF pend this] Some show ?thesis
      by (simp add: desired_keys)
  qed
  then show "rows_of u d' = {ur \<in> rows_of u d. ur_source ur \<noteq> Vatusa} \<union>
      (case cid of None \<Rightarrow> {ur \<in> rows_of u d. ur_source ur = Vatusa}
       | Some c \<Rightarrow> (\<lambda>k. vatusa_key k u) ` justified_keys d c)"
    and "v \<noteq> u \<Longrightarrow> rows_of v d' = rows_of v d" and "same_but_roles d d'"
    by blast+
qed

definition reset_start :: "ustr \<Rightarrow> member \<Rightarrow> directory \<Rightarrow> directory" where
  "reset_start u m d = drop_manual u (if mb_detached m \<noteq> None then reattach u d else d)"

lemma reset_member_ok:
  assumes "reset_member u d = Inr (change, d')" and "find_member d u = Some m"
  shows "reset_grants u (mb_cid m) (reset_start u m d) = Inr d'"
    and "change = None \<longleftrightarrow> mb_detached m = None \<and> set (grant_rows d u) = set (grant_rows d' u)"
proof -
  from assms have both: "reset_grants u (mb_cid m) (reset_start u m d) = Inr d' \<and>
    (change = None \<longleftrightarrow> mb_detached m = None \<and> filter (\<lambda>row. \<not> List.member (grant_rows d' u) row) (grant_rows d u) = [] \<and>
      filter (\<lambda>row. \<not> List.member (grant_rows d u) row) (grant_rows d' u) = [])"
    by (cases "mb_detached m") (auto simp: reset_member_def reset_start_def Let_def bind_result_Inr_iff split: if_splits)
  then show "reset_grants u (mb_cid m) (reset_start u m d) = Inr d'" by blast
  from both show "change = None \<longleftrightarrow> mb_detached m = None \<and> set (grant_rows d u) = set (grant_rows d' u)"
    by (auto simp: filter_empty_conv)
qed

lemma rows_of_start: "rows_of v (reset_start u m d) =
    (if v = u then {ur \<in> rows_of u d. ur_source ur \<noteq> Manual} else rows_of v d)"
  by (simp add: reset_start_def rows_of_drop)

lemma direct_of_start: "direct_of v (reset_start u m d) =
    (if v = u then {up \<in> direct_of u d. up_source up \<noteq> Manual} else direct_of v d)"
  by (simp add: reset_start_def direct_of_drop) (simp add: direct_of_def reattach_def)

lemma justified_start [simp]: "justified_keys (reset_start u m d) cid = justified_keys d cid"
  by (simp add: reset_start_def)

lemma reset_member_rows:
  assumes "reset_member u d = Inr (change, d')" and "find_member d u = Some m"
  shows "rows_of u d' = reset_rows u d m"
    and "direct_of u d' = {up \<in> direct_of u d. up_source up \<noteq> Manual}"
    and "v \<noteq> u \<Longrightarrow> rows_of v d' = rows_of v d" and "v \<noteq> u \<Longrightarrow> direct_of v d' = direct_of v d"
    and "justified_keys d' cid = justified_keys d cid"
proof -
  note eff = reset_grants_effect [OF reset_member_ok(1) [OF assms]]
  have "{ur \<in> rows_of u d. ur_source ur = System} =
      {ur \<in> {ur \<in> rows_of u d. ur_source ur \<noteq> Manual}. ur_source ur \<noteq> Vatusa}" (is "?s = _")
  proof (rule set_eqI)
    fix ur
    show "ur \<in> ?s \<longleftrightarrow> ur \<in> {ur \<in> {ur \<in> rows_of u d. ur_source ur \<noteq> Manual}. ur_source ur \<noteq> Vatusa}"
      by (cases "ur_source ur") auto
  qed
  moreover have "{ur \<in> rows_of u d. ur_source ur = Vatusa} =
      {ur \<in> {ur \<in> rows_of u d. ur_source ur \<noteq> Manual}. ur_source ur = Vatusa}"
    by auto
  ultimately show "rows_of u d' = reset_rows u d m"
    unfolding eff(1) rows_of_start reset_rows_def by (simp split: option.split)
  show "v \<noteq> u \<Longrightarrow> rows_of v d' = rows_of v d"
    using eff(2) by (simp add: rows_of_start)
  have same: "t_user_permissions (d_access d') = t_user_permissions (d_access (reset_start u m d))"
    using same_but_roles_frame(6) [OF eff(3)] .
  then have "direct_of w d' = direct_of w (reset_start u m d)" for w
    by (simp add: direct_of_def)
  then show "direct_of u d' = {up \<in> direct_of u d. up_source up \<noteq> Manual}"
    and "v \<noteq> u \<Longrightarrow> direct_of v d' = direct_of v d"
    by (simp_all add: direct_of_start)
  show "justified_keys d' cid = justified_keys d cid"
    using same_but_roles_frame(5) [OF eff(3)] by (metis desired_keys justified_start)
qed

lemma find_member_start:
  assumes "find_member d u = Some m"
  shows "find_member (reset_start u m d) u = Some (m\<lparr>mb_detached := None\<rparr>)"
proof -
  have "find (\<lambda>m. mb_id m = u) (map (\<lambda>m. if mb_id m = u then m\<lparr>mb_detached := None\<rparr> else m) ms) =
      map_option (\<lambda>m. m\<lparr>mb_detached := None\<rparr>) (find (\<lambda>m. mb_id m = u) ms)" for ms :: "member list"
    by (induction ms) auto
  moreover have "mb_detached m = None \<Longrightarrow> m\<lparr>mb_detached := None\<rparr> = m" by (cases m) simp
  ultimately show ?thesis
    using assms by (cases "mb_detached m") (auto simp: reset_start_def find_member_def drop_manual_def reattach_def)
qed

lemma reset_member_attached:
  assumes "reset_member u d = Inr (change, d')" and "find_member d u = Some m"
  shows "find_member d' u = Some (m\<lparr>mb_detached := None\<rparr>)"
  using same_but_roles_frame(2) [OF reset_grants_effect(3) [OF reset_member_ok(1) [OF assms]]]
    find_member_start [OF assms(2)] by simp

lemma source_as_str_inject [simp]: "source_as_str a = source_as_str b \<longleftrightarrow> a = b"
  by (cases a; cases b) auto

lemma tagged_union_eq:
  fixes P Q P' Q' :: "(bool \<times> 'a) set"
  assumes "P \<subseteq> {x. fst x}" and "P' \<subseteq> {x. fst x}" and "Q \<subseteq> {x. \<not> fst x}" and "Q' \<subseteq> {x. \<not> fst x}"
  shows "P \<union> Q = P' \<union> Q' \<longleftrightarrow> P = P' \<and> Q = Q'"
proof
  assume eq: "P \<union> Q = P' \<union> Q'"
  have "P = (P \<union> Q) \<inter> {x. fst x}" and "Q = (P \<union> Q) \<inter> {x. \<not> fst x}"
    and "P' = (P' \<union> Q') \<inter> {x. fst x}" and "Q' = (P' \<union> Q') \<inter> {x. \<not> fst x}"
    using assms by auto
  with eq show "P = P' \<and> Q = Q'" by metis
qed simp

lemma grant_rows_eq_iff:
  "set (grant_rows d u) = set (grant_rows e u) \<longleftrightarrow> rows_of u d = rows_of u e \<and> direct_of u d = direct_of u e"
proof -
  let ?r = "\<lambda>ur :: user_role_row. (True, ur_role ur, ur_artcc ur, source_as_str (ur_source ur), True)"
  let ?p = "\<lambda>up :: user_permission_row. (False, up_permission up, up_artcc up, source_as_str (up_source up), up_granted up)"
  have rows: "set (grant_rows d u) = ?r ` rows_of u d \<union> ?p ` direct_of u d" for d
    by (simp add: grant_rows_def rows_of_def direct_of_def)
  have r: "inj_on ?r {ur. ur_user ur = u}" and p: "inj_on ?p {up. up_user up = u}"
    by (auto intro!: inj_onI user_role_row.equality user_permission_row.equality)
  have rsub: "rows_of u d \<subseteq> {ur. ur_user ur = u}" and psub: "direct_of u d \<subseteq> {up. up_user up = u}" for d
    by (auto simp: rows_of_def direct_of_def)
  have "?r ` rows_of u d = ?r ` rows_of u e \<longleftrightarrow> rows_of u d = rows_of u e"
    by (rule inj_on_image_eq_iff [OF r rsub rsub])
  moreover have "?p ` direct_of u d = ?p ` direct_of u e \<longleftrightarrow> direct_of u d = direct_of u e"
    by (rule inj_on_image_eq_iff [OF p psub psub])
  moreover have "?r ` rows_of u d \<union> ?p ` direct_of u d = ?r ` rows_of u e \<union> ?p ` direct_of u e \<longleftrightarrow>
      ?r ` rows_of u d = ?r ` rows_of u e \<and> ?p ` direct_of u d = ?p ` direct_of u e"
    by (rule tagged_union_eq) (simp_all add: image_subset_iff)
  ultimately show ?thesis unfolding rows by (simp only:)
qed

text \<open>With no manual row and the justified groups held, there is nothing to do.\<close>

lemma settled_reset_grants:
  assumes "\<forall>ur\<in>rows_of u d. ur_source ur \<noteq> Manual" and "\<forall>up\<in>direct_of u d. up_source up \<noteq> Manual"
    and "\<And>c. cid = Some c \<Longrightarrow> set (held_vatusa d u) = justified_keys d c"
  shows "reset_grants u cid (drop_manual u d) = Inr d"
proof -
  have "drop_manual u d = d"
    using assms(1,2) by (auto simp: drop_manual_def rows_of_def direct_of_def filter_id_conv)
  moreover have "reset_grants u cid d = Inr d"
  proof (cases cid)
    case (Some c)
    with assms(3) have "pending_changes d u (desired_vatusa_grants d c) = ([], [])"
      by (simp add: nothing_pending desired_keys)
    with Some show ?thesis by (simp add: reset_grants_def apply_changes_def)
  qed (simp add: reset_grants_def)
  ultimately show ?thesis by simp
qed

lemma reset_member_snapshot:
  assumes "reset_member u d = Inr (change, d')" and "find_member d u = Some m"
  shows "\<exists>b. access_snapshot d u (or_zero (mb_cid m)) = Inr b"
    and "change \<noteq> None \<Longrightarrow> \<exists>b. access_snapshot d' u (or_zero (mb_cid m)) = Inr b"
  using assms by (auto simp: reset_member_def Let_def bind_result_Inr_iff split: if_splits)

lemma held_iff_rows: "k \<in> set (held_vatusa d u) \<longleftrightarrow> vatusa_key k u \<in> rows_of u d"
  by (simp add: held_vatusa_iff rows_of_def)

lemma held_by_rows:
  "rows_of u d = rows_of u e \<Longrightarrow> set (held_vatusa d u) = set (held_vatusa e u)"
  by (intro set_eqI) (simp only: held_iff_rows)

lemma held_reset:
  assumes "reset_member u d = Inr (change, d')" and "find_member d u = Some m" and "mb_cid m = Some c"
  shows "set (held_vatusa d' u) = justified_keys d c"
  using assms(3) by (intro set_eqI)
    (auto simp: held_iff_rows reset_member_rows(1) [OF assms(1,2)] reset_rows_def)

lemma reset_member_settles:
  assumes "reset_member u d = Inr (change, d')" and "find_member d u = Some m"
  shows "reset_member u d' = Inr (None, d')"
proof -
  let ?m = "m\<lparr>mb_detached := None\<rparr>"
  note att = reset_member_attached [OF assms]
  have "\<forall>ur\<in>rows_of u d'. ur_source ur \<noteq> Manual"
    unfolding reset_member_rows(1) [OF assms] by (auto simp: reset_rows_def split: option.splits)
  moreover have "\<forall>up\<in>direct_of u d'. up_source up \<noteq> Manual"
    unfolding reset_member_rows(2) [OF assms] by simp
  moreover have "set (held_vatusa d' u) = justified_keys d' c" if "mb_cid m = Some c" for c
    using held_reset [OF assms that] reset_member_rows(5) [OF assms, of c] by simp
  ultimately have settled: "reset_grants u (mb_cid m) (drop_manual u d') = Inr d'"
    by (rule settled_reset_grants)
  have "\<exists>b. access_snapshot d' u (or_zero (mb_cid m)) = Inr b"
  proof (cases change)
    case None
    with reset_member_ok(2) [OF assms] have "mb_detached m = None" and same: "rows_of u d = rows_of u d'" "direct_of u d = direct_of u d'"
      by (simp_all add: grant_rows_eq_iff)
    then have start: "reset_start u m d = drop_manual u d" by (simp add: reset_start_def)
    have "reset_grants u (mb_cid m) (drop_manual u d) = Inr d"
      using \<open>\<forall>ur\<in>rows_of u d'. _ ur\<close> \<open>\<forall>up\<in>direct_of u d'. _ up\<close> held_reset [OF assms] held_by_rows [OF same(1)]
      unfolding same [symmetric] by (intro settled_reset_grants) simp_all
    with reset_member_ok(1) [OF assms] start have "d' = d" by simp
    with reset_member_snapshot(1) [OF assms] show ?thesis by simp
  qed (use reset_member_snapshot(2) [OF assms] in simp)
  then show ?thesis
    using att settled by (auto simp: reset_member_def Let_def)
qed


text \<open>\<open>u1\<close>, who was made a coordinator by hand at ZDC, now holds what the roster gives.\<close>

definition drifted_directory :: directory where
  "drifted_directory = synced_directory\<lparr>d_visits := [(1, lit ''ZNY''), (2, lit ''ZNY'')]\<rparr>"

definition reset_sample :: directory where
  "reset_sample = (case reset_member (lit ''u1'') drifted_directory of Inl _ \<Rightarrow> drifted_directory | Inr (_, d) \<Rightarrow> d)"


subsection \<open>Who is reset\<close>

lemma justified_pairs_iff: "(cid, k) \<in> set (justified_pairs d) \<longleftrightarrow> k \<in> justified_keys d cid"
proof -
  have roles: "(cid, k) \<in> set [(c, vm_role_name m, if f = ZHQ then None else Some f).
        (c, f, r) \<leftarrow> d_vatusa_roles d, f = ZHQ \<or> known_facility d f,
        m \<leftarrow> d_mappings d, vm_vatusa_role m = r \<and> (vm_facility m = None \<or> vm_facility m = Some f)] \<longleftrightarrow>
    k \<in> fst ` set [((vm_role_name m, if f = ZHQ then None else Some f), r @ lit ''@'' @ f).
        (c, f, r) \<leftarrow> d_vatusa_roles d, c = cid, f = ZHQ \<or> known_facility d f,
        m \<leftarrow> d_mappings d, vm_vatusa_role m = r \<and> (vm_facility m = None \<or> vm_facility m = Some f)]"
    (is "_ \<in> set (concat (map ?f _)) \<longleftrightarrow> _ \<in> fst ` set (concat (map ?g _))")
  proof -
    have "(cid, k) \<in> set (?f row) \<longleftrightarrow> k \<in> fst ` set (?g row)" for row
    proof (cases row)
      case (fields c f r)
      show ?thesis unfolding fields by (auto simp: image_iff)
    qed
    then show ?thesis
      unfolding set_concat set_map by (simp add: image_UN)
  qed
  have homes: "(cid, k) \<in> set (List.map_filter (\<lambda>u. case (mb_cid u, mb_home u) of
          (Some cid, Some h) \<Rightarrow> if known_facility d h then Some (cid, ROSTER_GROUP, Some h) else None
        | _ \<Rightarrow> None) (d_members d)) \<longleftrightarrow>
    k \<in> fst ` set [((ROSTER_GROUP, mb_home m), lit ''roster home '' @ the (mb_home m)).
        m \<leftarrow> d_members d, mb_cid m = Some cid, mb_home m \<noteq> None \<and> known_facility d (the (mb_home m))]"
    by (auto simp: set_map_filter image_iff split: option.splits if_splits) force+
  have visits: "(cid, k) \<in> set (map (\<lambda>(c, f). (c, ROSTER_GROUP, Some f)) (filter (\<lambda>(_, f). known_facility d f) (d_visits d)))
    \<longleftrightarrow> k \<in> fst ` set [((ROSTER_GROUP, Some f), lit ''roster visit '' @ f). (c, f) \<leftarrow> d_visits d, c = cid, known_facility d f]"
    by (auto simp: image_iff)
  show ?thesis
    unfolding justified_pairs_def justified_keys_def justified_rows_def
    by (simp only: set_remdups set_append Un_iff image_Un roles homes visits)
qed

lemma drifted_iff:
  assumes "mb_cid m = Some c"
  shows "drifted d m \<longleftrightarrow> set (held_vatusa d (mb_id m)) \<noteq> justified_keys d c"
proof -
  have "k \<in> set (justified_of d m) \<longleftrightarrow> (c, k) \<in> set (justified_pairs d)" for k
    using assms by (cases k) (force simp: justified_of_def)
  then have "k \<in> set (justified_of d m) \<longleftrightarrow> k \<in> justified_keys d c" for k
    by (simp only: justified_pairs_iff)
  then have "set (justified_of d m) = justified_keys d c" by blast
  moreover have "drifted d m \<longleftrightarrow> \<not> (set (justified_of d m) \<subseteq> set (held_vatusa d (mb_id m)) \<and>
      set (held_vatusa d (mb_id m)) \<subseteq> set (justified_of d m))"
    by (auto simp: drifted_def list_ex_iff subset_iff)
  ultimately show ?thesis by blast
qed

lemma find_member_distinct:
  assumes "distinct (map mb_id (d_members d))" and "m \<in> set (d_members d)"
  shows "find_member d (mb_id m) = Some m"
proof -
  have "distinct (map mb_id ms) \<Longrightarrow> m \<in> set ms \<Longrightarrow> find (\<lambda>n. mb_id n = mb_id m) ms = Some m" for ms :: "member list"
  proof (induction ms)
    case (Cons n ms)
    then show ?case by (cases "n = m") auto
  qed simp
  with assms show ?thesis by (simp add: find_member_def)
qed

lemma reset_rows_same:
  assumes "mb_cid m = Some c"
  shows "reset_rows u d m = rows_of u d \<longleftrightarrow>
    (\<forall>ur\<in>rows_of u d. ur_source ur \<noteq> Manual) \<and> set (held_vatusa d u) = justified_keys d c"
proof -
  let ?sys = "{x \<in> rows_of u d. ur_source x = System}" and ?man = "{x \<in> rows_of u d. ur_source x = Manual}"
  have "reset_rows u d m = ?sys \<union> (\<lambda>k. vatusa_key k u) ` justified_keys d c"
    using assms by (simp add: reset_rows_def)
  from arg_cong2 [where f = "(=)", OF this rows_by_source [of u d]]
  have eq: "reset_rows u d m = rows_of u d \<longleftrightarrow> ?sys \<union> (\<lambda>k. vatusa_key k u) ` justified_keys d c =
      ?sys \<union> ?man \<union> (\<lambda>k. vatusa_key k u) ` set (held_vatusa d u)" .
  have parts: "?sys \<union> K = ?sys \<union> ?man \<union> K' \<longleftrightarrow> ?man = {} \<and> K = K'"
    if "K \<subseteq> {x. ur_source x = Vatusa}" "K' \<subseteq> {x. ur_source x = Vatusa}" for K K'
  proof
    assume eq: "?sys \<union> K = ?sys \<union> ?man \<union> K'"
    have "?man = (?sys \<union> ?man \<union> K') \<inter> {x. ur_source x = Manual}" "K' = (?sys \<union> ?man \<union> K') \<inter> {x. ur_source x = Vatusa}"
      using that by auto
    moreover have "(?sys \<union> K) \<inter> {x. ur_source x = Manual} = {}" "K = (?sys \<union> K) \<inter> {x. ur_source x = Vatusa}"
      using that by auto
    ultimately show "?man = {} \<and> K = K'" unfolding eq by metis
  qed auto
  have inj: "(\<lambda>k. vatusa_key k u) ` A = (\<lambda>k. vatusa_key k u) ` B \<longleftrightarrow> A = B" for A B
    by (rule inj_image_eq_iff) (simp add: inj_def)
  have keys: "(\<lambda>k. vatusa_key k u) ` A \<subseteq> {x. ur_source x = Vatusa}" for A
    by auto
  have "reset_rows u d m = rows_of u d \<longleftrightarrow> ?man = {} \<and> justified_keys d c = set (held_vatusa d u)"
    unfolding eq by (simp only: parts [OF keys keys] inj)
  then show ?thesis by blast
qed

text \<open>C7. The query that picks the members a reset visits picks, of those with a CID, exactly those
  whom their reset changes.\<close>

theorem reset_candidates_exact:
  assumes "distinct (map mb_id (d_members d))" and "m \<in> set (d_members d)" and "mb_cid m = Some c"
    and "reset_member (mb_id m) d = Inr (change, d')"
  shows "mb_id m \<in> set (reset_candidates d) \<longleftrightarrow> change \<noteq> None"
proof -
  note m = find_member_distinct [OF assms(1,2)]
  let ?u = "mb_id m"
  have "n = m" if "n \<in> set (d_members d)" "mb_id n = ?u" for n
    using that assms(1,2) by (simp add: distinct_map inj_on_def)
  then have "?u \<in> set (reset_candidates d) \<longleftrightarrow> mb_detached m \<noteq> None \<or>
      (\<exists>ur\<in>rows_of ?u d. ur_source ur = Manual) \<or> (\<exists>up\<in>direct_of ?u d. up_source up = Manual) \<or> drifted d m"
    using assms(2) by (auto simp: reset_candidates_def rows_of_def direct_of_def list_ex_iff image_iff)
  also have "\<dots> \<longleftrightarrow> \<not> (mb_detached m = None \<and> reset_rows ?u d m = rows_of ?u d \<and>
      {up \<in> direct_of ?u d. up_source up \<noteq> Manual} = direct_of ?u d)"
    unfolding drifted_iff [OF assms(3)] reset_rows_same [OF assms(3)] by auto
  also have "\<dots> \<longleftrightarrow> change \<noteq> None"
    using reset_member_ok(2) [OF assms(4) m] reset_member_rows(1,2) [OF assms(4) m] grant_rows_eq_iff [of d ?u d']
    by (metis (no_types, lifting))
  finally show ?thesis .
qed

theorem reset_candidates_exact_witness:
  "lit ''u1'' \<in> set (reset_candidates drifted_directory)"
proof -
  let ?m = "\<lparr>mb_id = lit ''u1'', mb_cid = Some 1, mb_home = None, mb_synced = False, mb_detached = None\<rparr> :: member"
  have ids: "distinct (map mb_id (d_members drifted_directory))" and m: "?m \<in> set (d_members drifted_directory)"
    by code_simp+
  have "\<exists>change. reset_member (mb_id ?m) drifted_directory = Inr (Some change, reset_sample)"
    by (rule exI) code_simp
  then obtain change where "reset_member (mb_id ?m) drifted_directory = Inr (Some change, reset_sample)" ..
  from reset_candidates_exact [OF ids m _ this] show ?thesis by simp
qed

subsection \<open>Two edges\<close>

text \<open>The roster group is no system group, so it can be deleted while it is empty; every sync that would
  grant it fails from then on.\<close>

lemma roster_group_can_be_deleted:
  "case attempt (DeleteGroup 0 (sample_caller ''u1'' 1) ROSTER_GROUP) synced_directory synced_directory of
     Inl _ \<Rightarrow> False | Inr w \<Rightarrow> reconcile_member 2 [] w = Inl Internal"
  by code_simp

text \<open>A member at home at ZDC transfers to ZNY. The reason given for the lost group does not name the old
  home, because the home is overwritten before what it justified is read.\<close>

definition transfer_directory :: directory where
  "transfer_directory = synced_directory\<lparr>
     d_members := [\<lparr>mb_id = lit ''u2'', mb_cid = Some 2, mb_home = Some (lit ''ZDC''), mb_synced = True,
       mb_detached = None\<rparr>],
     d_vatusa_roles := [], d_visits := [],
     d_access := (d_access synced_directory)\<lparr>t_user_roles := [role_row (lit ''u2'') ROSTER_GROUP (Some (lit ''ZDC'')) Vatusa]\<rparr>\<rparr>"

lemma transfer_reason_names_no_cause:
  "map_option fst (case upsert_member id \<lparr>vt_cid = 2, vt_facility = lit ''ZNY'', vt_discord_id = None, vt_roles = [],
      vt_visits = []\<rparr> transfer_directory of Inl _ \<Rightarrow> None | Inr r \<Rightarrow> Some r) =
   Some (Some [lit ''granted CONTROLLER at ZNY (holds roster home ZNY)'',
     lit ''revoked CONTROLLER at ZDC (no mapped VATUSA role supports it)''])"
  by code_simp

end
