(* ===== verification/Packages.thy ===== *)
theory Packages
  imports TmuWorld AccessEditors
begin

text \<open>
  Event packages: draft programs, restrictions, ground stops and advisories planned for an event, made
  live together and taken back together (\<open>handlers/events.rs\<close>, \<open>repos/events.rs\<close>, the lifecycle pass of
  \<open>jobs.rs\<close>). The live rows go to the tables of \<open>TmuWorld\<close>. A table is in the order of insertion, which
  is what \<open>order by created_at\<close> returns. The JSON codec of the four payloads (serde) is an argument, as are
  the ids drawn for new rows: \<open>lid\<close> and \<open>jid\<close> give, for an item, the id of its live row and of its
  job. An endpoint reads outside the transaction it writes in and takes the two states, \<open>r\<close> and \<open>w\<close>.
\<close>

section \<open>Items\<close>

record program_item =
  pi_icao :: ustr
  pi_aar :: int
  pi_trail :: int
  pi_mit :: int

record restriction_item =
  ri_requesting :: ustr
  ri_providing :: ustr
  ri_restriction :: ustr
  ri_structured :: "ntml_restriction option"
  ri_start_time :: "int option"
  ri_stop_time :: "int option"

record ground_stop_item =
  si_airport :: ustr
  si_scope :: "ustr option"
  si_until :: "ustr option"

record advisory_item =
  di_facility :: ustr
  di_kind :: ustr
  di_body :: ustr
  di_structured :: "json option"
  di_valid_from :: int
  di_valid_to :: int

record item_codec =
  ic_program :: "json \<Rightarrow> program_item option"
  ic_restriction :: "json \<Rightarrow> restriction_item option"
  ic_ground_stop :: "json \<Rightarrow> ground_stop_item option"
  ic_advisory :: "json \<Rightarrow> advisory_item option"
  iv_program :: "program_item \<Rightarrow> json"
  iv_restriction :: "restriction_item \<Rightarrow> json"
  iv_ground_stop :: "ground_stop_item \<Rightarrow> json"
  iv_advisory :: "advisory_item \<Rightarrow> json"

definition normal_program :: "program_item \<Rightarrow> program_item result" where
  "normal_program p = bind_result (ok_or BadRequest (normalize_icao (pi_icao p))) (\<lambda>icao.
     if pi_aar p < 0 \<or> 200 < pi_aar p then Inl BadRequest
     else Inr (p\<lparr>pi_icao := icao, pi_trail := max (pi_trail p) 0, pi_mit := max (pi_mit p) 0\<rparr>))"

definition normal_restriction :: "restriction_item \<Rightarrow> restriction_item result" where
  "normal_restriction r =
     (let requesting = ascii_upper (trim (ri_requesting r)); providing = ascii_upper (trim (ri_providing r));
          line = trim (case ri_structured r of None \<Rightarrow> ri_restriction r | Some s \<Rightarrow> encode s)
      in if requesting = [] \<or> providing = [] \<or> line = [] then Inl BadRequest
         else Inr (r\<lparr>ri_requesting := requesting, ri_providing := providing, ri_restriction := line\<rparr>))"

definition normal_ground_stop :: "ground_stop_item \<Rightarrow> ground_stop_item result" where
  "normal_ground_stop g = bind_result (ok_or BadRequest (normalize_icao (si_airport g))) (\<lambda>icao.
     Inr (g\<lparr>si_airport := icao,
       si_scope := option_filter (\<lambda>s. s \<noteq> []) (map_option (\<lambda>s. ascii_upper (trim s)) (si_scope g)),
       si_until := option_filter (\<lambda>s. s \<noteq> []) (map_option trim (si_until g))\<rparr>))"

definition normal_advisory :: "advisory_item \<Rightarrow> advisory_item result" where
  "normal_advisory a =
     (let facility = ascii_upper (trim (di_facility a)); kind = trim (di_kind a); body = trim (di_body a)
      in if facility = [] \<or> kind = [] then Inl BadRequest
         else if di_valid_to a \<le> di_valid_from a then Inl BadRequest
         else if \<not> derives_body kind (di_structured a) \<and> body = [] then Inl BadRequest
         else Inr (a\<lparr>di_facility := facility, di_kind := kind, di_body := body\<rparr>))"

definition normalize_item :: "item_codec \<Rightarrow> ustr \<Rightarrow> json \<Rightarrow> json result" where
  "normalize_item codec kind payload =
     (if kind = lit ''program'' then
        bind_result (ok_or BadRequest (ic_program codec payload)) (\<lambda>p.
        bind_result (normal_program p) (\<lambda>p'. Inr (iv_program codec p')))
      else if kind = lit ''restriction'' then
        bind_result (ok_or BadRequest (ic_restriction codec payload)) (\<lambda>r.
        bind_result (normal_restriction r) (\<lambda>r'. Inr (iv_restriction codec r')))
      else if kind = lit ''ground_stop'' then
        bind_result (ok_or BadRequest (ic_ground_stop codec payload)) (\<lambda>g.
        bind_result (normal_ground_stop g) (\<lambda>g'. Inr (iv_ground_stop codec g')))
      else if kind = lit ''advisory'' then
        bind_result (ok_or BadRequest (ic_advisory codec payload)) (\<lambda>a.
        bind_result (normal_advisory a) (\<lambda>a'. Inr (iv_advisory codec a')))
      else Inl BadRequest)"

definition advisory_item_facility :: "ustr \<Rightarrow> json \<Rightarrow> ustr option" where
  "advisory_item_facility kind payload =
     (if kind \<noteq> lit ''advisory'' then None
      else option_filter (\<lambda>f. f \<noteq> []) (map_option (\<lambda>f. ascii_upper (trim f)) (json_str_field payload (lit ''facility''))))"

section \<open>The tables\<close>

datatype pkg_status = PkgDraft | PkgActivated | PkgArchived

record tmi_package =
  pk_id :: ustr
  pk_event_id :: int
  pk_name :: ustr
  pk_status :: pkg_status
  pk_auto_publish :: bool
  pk_activated_at :: "int option"
  pk_archived_at :: "int option"
  pk_updated_by_actor :: "ustr option"

record package_item =
  it_id :: ustr
  it_package_id :: ustr
  it_kind :: ustr
  it_payload :: json
  it_live_ref :: "ustr option"

record plan_event =
  pe_id :: int
  pe_facility :: ustr
  pe_start_time :: int
  pe_end_time :: int

record plan_world =
  pw_events :: "plan_event list"
  pw_packages :: "tmi_package list"
  pw_items :: "package_item list"
  pw_tmu :: tmu_world

definition get_plan_event :: "plan_world \<Rightarrow> int \<Rightarrow> plan_event option" where
  "get_plan_event w eid = find (\<lambda>e. pe_id e = eid) (pw_events w)"

definition upsert_many :: "plan_event list \<Rightarrow> plan_world \<Rightarrow> plan_world" where
  "upsert_many = fold (\<lambda>e w. w\<lparr>pw_events :=
     (if list_ex (\<lambda>x. pe_id x = pe_id e) (pw_events w)
      then map (\<lambda>x. if pe_id x = pe_id e then e else x) (pw_events w) else pw_events w @ [e])\<rparr>)"

text \<open>Packages go with their event and items with their package (\<open>on delete cascade\<close>).\<close>

definition drop_packages :: "(tmi_package \<Rightarrow> bool) \<Rightarrow> plan_world \<Rightarrow> plan_world" where
  "drop_packages P w = w\<lparr>pw_packages := filter (\<lambda>p. \<not> P p) (pw_packages w),
     pw_items := filter (\<lambda>i. \<not> list_ex (\<lambda>p. pk_id p = it_package_id i \<and> P p) (pw_packages w)) (pw_items w)\<rparr>"

definition prune_events :: "int \<Rightarrow> plan_world \<Rightarrow> plan_world" where
  "prune_events cutoff w =
     (let gone = map pe_id (filter (\<lambda>e. pe_end_time e < cutoff) (pw_events w))
      in drop_packages (\<lambda>p. List.member gone (pk_event_id p))
           (w\<lparr>pw_events := filter (\<lambda>e. \<not> pe_end_time e < cutoff) (pw_events w)\<rparr>))"

definition list_package_items :: "plan_world \<Rightarrow> ustr \<Rightarrow> package_item list" where
  "list_package_items w pid = filter (\<lambda>i. it_package_id i = pid) (pw_items w)"

definition list_packages :: "plan_world \<Rightarrow> int \<Rightarrow> (tmi_package \<times> package_item list) list" where
  "list_packages w eid = map (\<lambda>p. (p, list_package_items w (pk_id p))) (filter (\<lambda>p. pk_event_id p = eid) (pw_packages w))"

definition get_package_owner :: "plan_world \<Rightarrow> ustr \<Rightarrow> (int \<times> pkg_status) option" where
  "get_package_owner w pid = map_option (\<lambda>p. (pk_event_id p, pk_status p)) (find (\<lambda>p. pk_id p = pid) (pw_packages w))"

definition create_package :: "ustr \<Rightarrow> int \<Rightarrow> ustr \<Rightarrow> attribution \<Rightarrow> plan_world \<Rightarrow> plan_world result" where
  "create_package pid eid name by_actor w =
     (if get_plan_event w eid = None \<or> list_ex (\<lambda>p. pk_id p = pid) (pw_packages w) then Inl Internal
      else Inr (w\<lparr>pw_packages := pw_packages w @ [\<lparr>pk_id = pid, pk_event_id = eid, pk_name = name, pk_status = PkgDraft,
        pk_auto_publish = False, pk_activated_at = None, pk_archived_at = None,
        pk_updated_by_actor = at_actor_id by_actor\<rparr>]\<rparr>))"

definition delete_package :: "ustr \<Rightarrow> plan_world \<Rightarrow> plan_world" where
  "delete_package pid = drop_packages (\<lambda>p. pk_id p = pid)"

definition item_kinds :: "ustr list" where
  "item_kinds = [lit ''program'', lit ''restriction'', lit ''ground_stop'', lit ''advisory'']"

definition add_package_item :: "ustr \<Rightarrow> ustr \<Rightarrow> ustr \<Rightarrow> json \<Rightarrow> plan_world \<Rightarrow> plan_world result" where
  "add_package_item iid pid kind payload w =
     (if \<not> list_ex (\<lambda>p. pk_id p = pid) (pw_packages w) \<or> \<not> List.member item_kinds kind \<or>
         list_ex (\<lambda>i. it_id i = iid) (pw_items w) then Inl Internal
      else Inr (w\<lparr>pw_items := pw_items w @ [\<lparr>it_id = iid, it_package_id = pid, it_kind = kind, it_payload = payload,
        it_live_ref = None\<rparr>]\<rparr>))"

definition delete_package_item :: "ustr \<Rightarrow> ustr \<Rightarrow> plan_world \<Rightarrow> bool \<times> plan_world" where
  "delete_package_item pid iid w =
     (let P = (\<lambda>i. it_package_id i = pid \<and> it_id i = iid)
      in (list_ex P (pw_items w), w\<lparr>pw_items := filter (\<lambda>i. \<not> P i) (pw_items w)\<rparr>))"

definition set_packages :: "(tmi_package \<Rightarrow> bool) \<Rightarrow> (tmi_package \<Rightarrow> tmi_package) \<Rightarrow> plan_world \<Rightarrow> plan_world" where
  "set_packages P f w = w\<lparr>pw_packages := map (\<lambda>p. if P p then f p else p) (pw_packages w)\<rparr>"

text \<open>Only a draft becomes active; no row updated is a conflict, which rolls the transaction back.\<close>

definition mark_package_activated :: "int \<Rightarrow> ustr \<Rightarrow> attribution \<Rightarrow> plan_world \<Rightarrow> plan_world result" where
  "mark_package_activated now pid by_actor w =
     (let P = (\<lambda>p. pk_id p = pid \<and> pk_status p = PkgDraft) in
      if list_ex P (pw_packages w)
      then Inr (set_packages P (\<lambda>p. p\<lparr>pk_status := PkgActivated, pk_activated_at := Some now,
        pk_updated_by_actor := at_actor_id by_actor\<rparr>) w)
      else Inl Conflict)"

definition set_item_live_ref :: "ustr \<Rightarrow> ustr \<Rightarrow> plan_world \<Rightarrow> plan_world" where
  "set_item_live_ref iid reference w =
     w\<lparr>pw_items := map (\<lambda>i. if it_id i = iid then i\<lparr>it_live_ref := Some reference\<rparr> else i) (pw_items w)\<rparr>"

definition list_package_item_refs :: "plan_world \<Rightarrow> ustr \<Rightarrow> (ustr \<times> ustr option) list" where
  "list_package_item_refs w pid = map (\<lambda>i. (it_kind i, it_live_ref i)) (list_package_items w pid)"

definition mark_package_archived :: "int \<Rightarrow> ustr \<Rightarrow> attribution \<Rightarrow> plan_world \<Rightarrow> plan_world" where
  "mark_package_archived now pid by_actor w =
     (set_packages (\<lambda>p. pk_id p = pid) (\<lambda>p. p\<lparr>pk_status := PkgArchived, pk_archived_at := Some now,
        pk_updated_by_actor := at_actor_id by_actor\<rparr>) w)\<lparr>pw_items :=
      map (\<lambda>i. if it_package_id i = pid then i\<lparr>it_live_ref := None\<rparr> else i) (pw_items w)\<rparr>"

definition set_package_auto :: "ustr \<Rightarrow> bool \<Rightarrow> attribution \<Rightarrow> plan_world \<Rightarrow> plan_world" where
  "set_package_auto pid auto by_actor = set_packages (\<lambda>p. pk_id p = pid)
     (\<lambda>p. p\<lparr>pk_auto_publish := auto, pk_updated_by_actor := at_actor_id by_actor\<rparr>)"

definition schedulable :: "plan_world \<Rightarrow> (tmi_package \<Rightarrow> plan_event \<Rightarrow> bool) \<Rightarrow> (ustr \<times> int \<times> ustr) list" where
  "schedulable w P = List.map_filter (\<lambda>p. case (get_plan_event w (pk_event_id p), pk_updated_by_actor p) of
     (Some e, Some actor) \<Rightarrow> if P p e then Some (pk_id p, pk_event_id p, actor) else None
   | _ \<Rightarrow> None) (pw_packages w)"

definition auto_due_packages :: "int \<Rightarrow> plan_world \<Rightarrow> (ustr \<times> int \<times> ustr) list" where
  "auto_due_packages now w = schedulable w (\<lambda>p e. pk_status p = PkgDraft \<and> pk_auto_publish p \<and>
     pe_start_time e - 30 * minute_ms \<le> now \<and> now < pe_end_time e)"

definition ended_activated_packages :: "int \<Rightarrow> plan_world \<Rightarrow> (ustr \<times> int \<times> ustr) list" where
  "ended_activated_packages now w = schedulable w (\<lambda>p e. pk_status p = PkgActivated \<and> pe_end_time e \<le> now)"

section \<open>Issuing authority\<close>

definition ADVISORY_ISSUE :: ustr where "ADVISORY_ISSUE = lit ''tmu.adv.publish''"

definition EventsPlanUpdate :: permission_path where
  "EventsPlanUpdate = from_segments [lit ''events'', lit ''plan''] Update"

definition require_advisory_authority :: "access_db \<Rightarrow> int \<Rightarrow> principal \<Rightarrow> ustr \<Rightarrow> ustr \<Rightarrow> unit result" where
  "require_advisory_authority db now p facility permission =
     (let scope = permission_scope_in db now p permission in
      if scope_is_empty scope then Inl Unauthorized
      else if \<not> allows scope (Some facility) then Inl Forbidden else Inr ())"

fun require_all :: "('a \<Rightarrow> unit result) \<Rightarrow> 'a list \<Rightarrow> unit result" where
  "require_all check [] = Inr ()"
| "require_all check (x # xs) = bind_result (check x) (\<lambda>_. require_all check xs)"

definition advisory_facilities :: "plan_world \<Rightarrow> ustr \<Rightarrow> ustr list" where
  "advisory_facilities r pid = List.map_filter (\<lambda>i. advisory_item_facility (it_kind i) (it_payload i)) (list_package_items r pid)"

definition require_advisory_scope_for_package :: "access_db \<Rightarrow> int \<Rightarrow> principal \<Rightarrow> ustr \<Rightarrow> plan_world \<Rightarrow> unit result" where
  "require_advisory_scope_for_package db now p pid r =
     require_all (\<lambda>f. require_advisory_authority db now p f ADVISORY_ISSUE) (advisory_facilities r pid)"

definition require_actor_may_issue_package :: "access_db \<Rightarrow> int \<Rightarrow> principal \<Rightarrow> ustr \<Rightarrow> plan_world \<Rightarrow> unit result" where
  "require_actor_may_issue_package db now p pid r =
     (let scope = permission_scope_in db now p ADVISORY_ISSUE in
      if list_all (\<lambda>f. allows scope (Some f)) (advisory_facilities r pid) then Inr () else Inl Forbidden)"

section \<open>Activation\<close>

text \<open>\<open>upsert_program\<close> with the checks of the table, and the insert of a ground stop.\<close>

definition upsert_program :: "int \<Rightarrow> ustr \<Rightarrow> upsert_program_request \<Rightarrow> rate_program list \<Rightarrow> rate_program list result" where
  "upsert_program now icao req ps =
     (if rp_aar req < 1 \<or> 200 < rp_aar req \<or> rp_trail req < 0 \<or> 60 < rp_trail req \<or> rp_mit req < 0 \<or> 300 < rp_mit req
      then Inl Internal
      else let row = \<lparr>pr_icao = icao, pr_request = req, pr_updated_at = now\<rparr> in
        Inr (if list_ex (\<lambda>p. pr_icao p = icao) ps then map (\<lambda>p. if pr_icao p = icao then row else p) ps else ps @ [row]))"

definition delete_program :: "ustr \<Rightarrow> rate_program list \<Rightarrow> rate_program list" where
  "delete_program icao = filter (\<lambda>p. pr_icao p \<noteq> icao)"

definition create_ground_stop :: "int \<Rightarrow> ustr \<Rightarrow> ustr \<Rightarrow> ustr \<Rightarrow> ustr option \<Rightarrow> ground_stop list \<Rightarrow> ground_stop list result" where
  "create_ground_stop now sid airport scope until ss =
     (if list_ex (\<lambda>s. stop_id s = sid) ss then Inl Internal
      else Inr (ss @ [\<lparr>stop_id = sid, stop_airport = airport, stop_scope = scope, stop_until = until,
        stop_status = Draft, stop_published_at = None, stop_created_at = now, stop_updated_at = now,
        stop_ended_at = None, stop_dismissed_at = None\<rparr>]))"

datatype prepared =
    Program program_item
  | Restriction restriction_item
  | GroundStop ground_stop_item
  | Advisory advisory_item "ustr option"

definition prepare_item :: "item_codec \<Rightarrow> guild_config list \<Rightarrow> package_item \<Rightarrow> prepared option result" where
  "prepare_item codec guilds i =
     (if it_kind i = lit ''program'' then
        bind_result (ok_or Internal (ic_program codec (it_payload i))) (\<lambda>p. Inr (Some (Program p)))
      else if it_kind i = lit ''restriction'' then
        bind_result (ok_or Internal (ic_restriction codec (it_payload i))) (\<lambda>r. Inr (Some (Restriction r)))
      else if it_kind i = lit ''ground_stop'' then
        bind_result (ok_or Internal (ic_ground_stop codec (it_payload i))) (\<lambda>g. Inr (Some (GroundStop g)))
      else if it_kind i = lit ''advisory'' then
        bind_result (ok_or Internal (ic_advisory codec (it_payload i))) (\<lambda>a.
          Inr (Some (Advisory a (channel_id guilds ADV_CHANNEL (Some (di_facility a))))))
      else Inr None)"

fun prepare_items :: "item_codec \<Rightarrow> guild_config list \<Rightarrow> package_item list \<Rightarrow> (ustr \<times> prepared) list result" where
  "prepare_items codec guilds [] = Inr []"
| "prepare_items codec guilds (i # is) =
     bind_result (prepare_item codec guilds i) (\<lambda>p.
     bind_result (prepare_items codec guilds is) (\<lambda>ps.
       Inr ((case p of None \<Rightarrow> [] | Some x \<Rightarrow> [(it_id i, x)]) @ ps)))"

definition enqueue_post :: "int \<Rightarrow> ustr \<Rightarrow> ustr \<Rightarrow> json \<Rightarrow> ustr \<Rightarrow> ustr \<Rightarrow> tmu_world \<Rightarrow> tmu_world result" where
  "enqueue_post now jid job_type payload subject_type subject_id m =
     bind_result (enqueue_job (1000 * now) jid job_type payload (Some subject_type) (Some subject_id) (vw_jobs (mw_adv m)))
       (\<lambda>(_, q). Inr (m\<lparr>mw_adv := (mw_adv m)\<lparr>vw_jobs := q\<rparr>\<rparr>))"

record plan_env =
  ne_codec :: item_codec
  ne_tmi :: tmi_env
  ne_doc :: doc_env

definition program_request :: "plan_event \<Rightarrow> program_item \<Rightarrow> upsert_program_request" where
  "program_request event p = \<lparr>rp_aar = pi_aar p, rp_trail = pi_trail p, rp_mit = pi_mit p, rp_gates = [], rp_exclude_wake = [],
     rp_exclude_types = [], rp_jets_only = False, rp_active_until = Some (pe_end_time event)\<rparr>"

definition restriction_request :: "restriction_item \<Rightarrow> create_tmi_request" where
  "restriction_request r = \<lparr>ct_requesting = ri_requesting r, ct_providing = ri_providing r,
     ct_restriction = ri_restriction r, ct_structured = ri_structured r, ct_start_time = ri_start_time r,
     ct_stop_time = ri_stop_time r\<rparr>"

definition advisory_request :: "advisory_item \<Rightarrow> create_advisory_request" where
  "advisory_request a = \<lparr>cr_facility = di_facility a, cr_kind = di_kind a, cr_body = di_body a,
     cr_structured = di_structured a, cr_decoded = None, cr_valid_from = Some (di_valid_from a),
     cr_valid_to = Some (di_valid_to a)\<rparr>"

text \<open>One item made live: its reference and the tables after it.\<close>

fun materialize :: "plan_env \<Rightarrow> int \<Rightarrow> plan_event \<Rightarrow> ustr option \<Rightarrow> ustr \<Rightarrow> ustr \<Rightarrow> prepared \<Rightarrow> tmu_world \<Rightarrow> (ustr \<times> tmu_world) result" where
  "materialize env now event tmu_channel live_id jid (Program p) m =
     bind_result (upsert_program now (pi_icao p) (program_request event p) (mw_rates m)) (\<lambda>rates.
       Inr (pi_icao p, m\<lparr>mw_rates := rates\<rparr>))"
| "materialize env now event tmu_channel live_id jid (Restriction r) m =
     bind_result (create_tmi (ne_tmi env) now live_id (restriction_request r) (mw_tmis m)) (\<lambda>ts.
       case publish_tmi now live_id ts of
         None \<Rightarrow> Inr (live_id, m\<lparr>mw_tmis := ts\<rparr>)
       | Some (t, ts') \<Rightarrow> (case tmu_channel of
           None \<Rightarrow> Inr (live_id, m\<lparr>mw_tmis := ts'\<rparr>)
         | Some channel \<Rightarrow> bind_result (enqueue_post now jid (lit ''tmi_publish'')
               (tmi_publish_job (ne_tmi env) now channel t) (lit ''tmi'') (ti_id t) (m\<lparr>mw_tmis := ts'\<rparr>))
             (\<lambda>m'. Inr (live_id, m'))))"
| "materialize env now event tmu_channel live_id jid (GroundStop g) m =
     bind_result (create_ground_stop now live_id (si_airport g) (coalesce (si_scope g) []) (si_until g) (mw_stops m)) (\<lambda>ss.
       Inr (live_id, m\<lparr>mw_stops := snd (publish_ground_stop now live_id ss)\<rparr>))"
| "materialize env now event tmu_channel live_id jid (Advisory a channel) m =
     bind_result (create_advisory_tx (ne_doc env) now live_id (advisory_request a) None (vw_rows (mw_adv m))) (\<lambda>as.
       case publish_advisory now live_id as of
         (False, _) \<Rightarrow> Inl Internal
       | (True, as') \<Rightarrow> bind_result (ok_or Internal (get_advisory as' live_id)) (\<lambda>adv.
           case channel of
             None \<Rightarrow> Inr (live_id, set_advisories as' m)
           | Some c \<Rightarrow> bind_result (enqueue_post now jid (lit ''adv_publish'') (publish_job_payload c adv)
                 (lit ''advisory'') (av_id adv) (set_advisories as' m)) (\<lambda>m'. Inr (live_id, m'))))"

definition materialize_item :: "plan_env \<Rightarrow> int \<Rightarrow> plan_event \<Rightarrow> ustr option \<Rightarrow> (ustr \<Rightarrow> ustr) \<Rightarrow> (ustr \<Rightarrow> ustr) \<Rightarrow>
    ustr \<times> prepared \<Rightarrow> plan_world \<Rightarrow> plan_world result" where
  "materialize_item env now event tmu_channel lid jid ip w =
     bind_result (materialize env now event tmu_channel (lid (fst ip)) (jid (fst ip)) (snd ip) (pw_tmu w)) (\<lambda>(reference, m).
       Inr (set_item_live_ref (fst ip) reference (w\<lparr>pw_tmu := m\<rparr>)))"

definition activate_package :: "plan_env \<Rightarrow> access_db \<Rightarrow> (principal \<Rightarrow> attribution) \<Rightarrow> int \<Rightarrow> (ustr \<Rightarrow> ustr) \<Rightarrow> (ustr \<Rightarrow> ustr) \<Rightarrow>
    int \<Rightarrow> ustr \<Rightarrow> principal \<Rightarrow> plan_world \<Rightarrow> plan_world \<Rightarrow> plan_world result" where
  "activate_package env db attr now lid jid eid pid p r w =
     bind_result (require_actor_may_issue_package db now p pid r) (\<lambda>_.
     bind_result (ok_or NotFound (get_plan_event r eid)) (\<lambda>event.
     let guilds = vw_guilds (mw_adv (pw_tmu r));
         tmu_channel = channel_id guilds NTML_CHANNEL (normalize_facility (pe_facility event)) in
     bind_result (prepare_items (ne_codec env) guilds (list_package_items r pid)) (\<lambda>prepared.
     bind_result (fold_result (materialize_item env now event tmu_channel lid jid) prepared w) (\<lambda>w1.
       mark_package_activated now pid (attr p) w1))))"

section \<open>Deactivation\<close>

text \<open>Each reference is ended in a transaction of its own. The restriction and its channel are read
  through the pool, so as they were before.\<close>

definition end_item :: "plan_env \<Rightarrow> int \<Rightarrow> (ustr \<Rightarrow> ustr) \<Rightarrow> ustr \<Rightarrow> ustr \<Rightarrow> tmu_world \<Rightarrow> tmu_world result" where
  "end_item env now jid kind reference m =
     (if kind = lit ''program'' then Inr (m\<lparr>mw_rates := delete_program reference (mw_rates m)\<rparr>)
      else if kind = lit ''restriction'' then
        (case cancel_tmi now reference (mw_tmis m) of (ended, ts) \<Rightarrow>
          (case (ended, line_channel (vw_jobs (mw_adv m)) reference, get_tmi (mw_tmis m) reference) of
             (True, Some channel, Some t) \<Rightarrow>
               if (case ti_stop_time t of None \<Rightarrow> True | Some e \<Rightarrow> now < e)
               then enqueue_post now (jid reference) (lit ''tmi_cancel'') (tmi_cancel_job (ne_tmi env) now channel t)
                      (lit ''tmi'') reference (m\<lparr>mw_tmis := ts\<rparr>)
               else Inr (m\<lparr>mw_tmis := ts\<rparr>)
           | _ \<Rightarrow> Inr (m\<lparr>mw_tmis := ts\<rparr>)))
      else if kind = lit ''ground_stop'' then
        Inr (m\<lparr>mw_stops := snd (cancel_ground_stop now reference (mw_stops m))\<rparr>)
      else if kind = lit ''advisory'' then
        (case cancel_advisory reference (vw_rows (mw_adv m)) of (ended, as) \<Rightarrow>
          (case (ended, posted_channel (vw_jobs (mw_adv m)) reference, get_advisory as reference) of
             (True, Some channel, Some a) \<Rightarrow>
               enqueue_post now (jid reference) (lit ''adv_cancel'') (cancel_job_payload (ne_doc env) now channel a)
                 (lit ''advisory'') reference (set_advisories as m)
           | _ \<Rightarrow> Inr (set_advisories as m)))
      else Inr m)"

fun end_items :: "plan_env \<Rightarrow> int \<Rightarrow> (ustr \<Rightarrow> ustr) \<Rightarrow> (ustr \<times> ustr option) list \<Rightarrow> tmu_world \<Rightarrow> unit result \<times> tmu_world" where
  "end_items env now jid [] m = (Inr (), m)"
| "end_items env now jid ((kind, reference) # refs) m =
     (case reference of
        None \<Rightarrow> end_items env now jid refs m
      | Some i \<Rightarrow> (case end_item env now jid kind i m of
          Inl e \<Rightarrow> (Inl e, m)
        | Inr m' \<Rightarrow> end_items env now jid refs m'))"

definition deactivate_package :: "plan_env \<Rightarrow> int \<Rightarrow> (ustr \<Rightarrow> ustr) \<Rightarrow> ustr \<Rightarrow> attribution \<Rightarrow> plan_world \<Rightarrow> unit result \<times> plan_world" where
  "deactivate_package env now jid pid by_actor w =
     (case end_items env now jid (list_package_item_refs w pid) (pw_tmu w) of
        (Inl e, m) \<Rightarrow> (Inl e, w\<lparr>pw_tmu := m\<rparr>)
      | (Inr _, m) \<Rightarrow> (Inr (), mark_package_archived now pid by_actor (w\<lparr>pw_tmu := m\<rparr>)))"

section \<open>The endpoints\<close>

definition planner :: "access_db \<Rightarrow> int \<Rightarrow> caller \<Rightarrow> principal result" where
  "planner db now c =
     bind_result (ensure_permission (Some db) now (cl_user c) (cl_service_account c) (cl_api_key c) EventsPlanUpdate)
       (\<lambda>_. require_any (cl_user c) (cl_service_account c) (cl_api_key c))"

definition package_status :: "plan_world \<Rightarrow> int \<Rightarrow> ustr \<Rightarrow> pkg_status result" where
  "package_status r eid pid =
     bind_result (ok_or NotFound (get_package_owner r pid)) (\<lambda>(owner, status).
       if owner \<noteq> eid then Inl NotFound else Inr status)"

type_synonym package_answer = "(tmi_package \<times> package_item list) list"

definition package_list :: "int \<Rightarrow> plan_world \<Rightarrow> package_answer \<times> plan_world" where
  "package_list eid w = (list_packages w eid, w)"

definition create_event_package :: "access_db \<Rightarrow> (principal \<Rightarrow> attribution) \<Rightarrow> int \<Rightarrow> caller \<Rightarrow> ustr \<Rightarrow> int \<Rightarrow> ustr \<Rightarrow>
    plan_world \<Rightarrow> plan_world \<Rightarrow> (package_answer \<times> plan_world) result" where
  "create_event_package db attr now c pid eid name r w =
     bind_result (planner db now c) (\<lambda>p.
     if trim name = [] then Inl BadRequest
     else if get_plan_event r eid = None then Inl NotFound
     else bind_result (create_package pid eid (trim name) (attr p) w) (\<lambda>w'. Inr (package_list eid w')))"

definition delete_event_package :: "access_db \<Rightarrow> int \<Rightarrow> caller \<Rightarrow> int \<Rightarrow> ustr \<Rightarrow> plan_world \<Rightarrow> plan_world \<Rightarrow>
    (package_answer \<times> plan_world) result" where
  "delete_event_package db now c eid pid r w =
     bind_result (planner db now c) (\<lambda>_.
     bind_result (package_status r eid pid) (\<lambda>_. Inr (package_list eid (delete_package pid w))))"

definition add_event_package_item :: "item_codec \<Rightarrow> access_db \<Rightarrow> int \<Rightarrow> caller \<Rightarrow> ustr \<Rightarrow> int \<Rightarrow> ustr \<Rightarrow> ustr \<Rightarrow> json \<Rightarrow>
    plan_world \<Rightarrow> plan_world \<Rightarrow> (package_answer \<times> plan_world) result" where
  "add_event_package_item codec db now c iid eid pid kind payload r w =
     bind_result (planner db now c) (\<lambda>p.
     bind_result (package_status r eid pid) (\<lambda>status.
     if status \<noteq> PkgDraft then Inl Conflict
     else bind_result (normalize_item codec kind payload) (\<lambda>canonical.
       bind_result (case advisory_item_facility kind canonical of None \<Rightarrow> Inr ()
           | Some f \<Rightarrow> require_advisory_authority db now p f (lit ''tmu.adv.create'')) (\<lambda>_.
       bind_result (add_package_item iid pid kind canonical w) (\<lambda>w'. Inr (package_list eid w'))))))"

definition delete_event_package_item :: "access_db \<Rightarrow> int \<Rightarrow> caller \<Rightarrow> int \<Rightarrow> ustr \<Rightarrow> ustr \<Rightarrow> plan_world \<Rightarrow> plan_world \<Rightarrow>
    (package_answer \<times> plan_world) result" where
  "delete_event_package_item db now c eid pid iid r w =
     bind_result (planner db now c) (\<lambda>_.
     bind_result (package_status r eid pid) (\<lambda>_.
       case delete_package_item pid iid w of
         (False, _) \<Rightarrow> Inl NotFound | (True, w') \<Rightarrow> Inr (package_list eid w')))"

definition activate_event_package :: "plan_env \<Rightarrow> access_db \<Rightarrow> (principal \<Rightarrow> attribution) \<Rightarrow> int \<Rightarrow> (ustr \<Rightarrow> ustr) \<Rightarrow> (ustr \<Rightarrow> ustr) \<Rightarrow>
    caller \<Rightarrow> int \<Rightarrow> ustr \<Rightarrow> plan_world \<Rightarrow> plan_world \<Rightarrow> (package_answer \<times> plan_world) result" where
  "activate_event_package env db attr now lid jid c eid pid r w =
     bind_result (planner db now c) (\<lambda>p.
     bind_result (package_status r eid pid) (\<lambda>status.
     if status \<noteq> PkgDraft then Inl Conflict
     else bind_result (require_advisory_scope_for_package db now p pid r) (\<lambda>_.
       bind_result (activate_package env db attr now lid jid eid pid p r w) (\<lambda>w'. Inr (package_list eid w')))))"

text \<open>A deactivation that fails leaves what it ended before the failure ended.\<close>

definition deactivate_event_package :: "plan_env \<Rightarrow> access_db \<Rightarrow> (principal \<Rightarrow> attribution) \<Rightarrow> int \<Rightarrow> (ustr \<Rightarrow> ustr) \<Rightarrow>
    caller \<Rightarrow> int \<Rightarrow> ustr \<Rightarrow> plan_world \<Rightarrow> plan_world \<Rightarrow> package_answer result \<times> plan_world" where
  "deactivate_event_package env db attr now jid c eid pid r w =
     (case planner db now c of
        Inl e \<Rightarrow> (Inl e, w)
      | Inr p \<Rightarrow> (case package_status r eid pid of
          Inl e \<Rightarrow> (Inl e, w)
        | Inr status \<Rightarrow>
            if status \<noteq> PkgActivated then (Inl Conflict, w)
            else (case deactivate_package env now jid pid (attr p) w of
              (Inl e, w') \<Rightarrow> (Inl e, w')
            | (Inr _, w') \<Rightarrow> (Inr (list_packages w' eid), w'))))"

definition set_event_package_auto :: "access_db \<Rightarrow> (principal \<Rightarrow> attribution) \<Rightarrow> int \<Rightarrow> caller \<Rightarrow> int \<Rightarrow> ustr \<Rightarrow> bool \<Rightarrow>
    plan_world \<Rightarrow> plan_world \<Rightarrow> (package_answer \<times> plan_world) result" where
  "set_event_package_auto db attr now c eid pid auto r w =
     bind_result (planner db now c) (\<lambda>p.
     bind_result (package_status r eid pid) (\<lambda>_.
     bind_result (if auto then require_advisory_scope_for_package db now p pid r else Inr ()) (\<lambda>_.
       Inr (package_list eid (set_package_auto pid auto (attr p) w)))))"

section \<open>The lifecycle pass\<close>

text \<open>The three lookups of a credential by its actor are arguments.\<close>

record actor_lookups =
  lu_user :: "ustr \<Rightarrow> current_user option result"
  lu_api_key :: "ustr \<Rightarrow> current_api_key option result"
  lu_service_account :: "ustr \<Rightarrow> current_service_account option result"

definition from_actor :: "actor_lookups \<Rightarrow> ustr \<Rightarrow> principal option result" where
  "from_actor lu actor =
     bind_result (lu_user lu actor) (\<lambda>u. case u of Some u \<Rightarrow> Inr (Some (User u))
     | None \<Rightarrow> bind_result (lu_api_key lu actor) (\<lambda>k. case k of Some k \<Rightarrow> Inr (Some (ApiKey k))
     | None \<Rightarrow> bind_result (lu_service_account lu actor) (\<lambda>sa. Inr (map_option ServiceAccount sa))))"

fun auto_activate :: "plan_env \<Rightarrow> access_db \<Rightarrow> (principal \<Rightarrow> attribution) \<Rightarrow> actor_lookups \<Rightarrow> int \<Rightarrow> (ustr \<Rightarrow> ustr) \<Rightarrow> (ustr \<Rightarrow> ustr) \<Rightarrow>
    (ustr \<times> int \<times> ustr) list \<Rightarrow> plan_world \<Rightarrow> nat \<times> plan_world" where
  "auto_activate env db attr lu now lid jid [] w = (0, w)"
| "auto_activate env db attr lu now lid jid ((pid, eid, actor) # todo) w =
     (case from_actor lu actor of
        Inr (Some p) \<Rightarrow> (case activate_package env db attr now lid jid eid pid p w w of
            Inl _ \<Rightarrow> auto_activate env db attr lu now lid jid todo w
          | Inr w' \<Rightarrow> (case auto_activate env db attr lu now lid jid todo w' of (n, w'') \<Rightarrow> (Suc n, w'')))
      | _ \<Rightarrow> auto_activate env db attr lu now lid jid todo w)"

definition archive_by :: "(principal \<Rightarrow> attribution) \<Rightarrow> actor_lookups \<Rightarrow> ustr \<Rightarrow> attribution result" where
  "archive_by attr lu actor = bind_result (from_actor lu actor) (\<lambda>p. Inr (case p of
     Some p \<Rightarrow> attr p | None \<Rightarrow> \<lparr>at_user_id = None, at_actor_id = Some actor\<rparr>))"

fun auto_archive :: "plan_env \<Rightarrow> (principal \<Rightarrow> attribution) \<Rightarrow> actor_lookups \<Rightarrow> int \<Rightarrow> (ustr \<Rightarrow> ustr) \<Rightarrow>
    (ustr \<times> int \<times> ustr) list \<Rightarrow> plan_world \<Rightarrow> nat \<times> plan_world" where
  "auto_archive env attr lu now jid [] w = (0, w)"
| "auto_archive env attr lu now jid ((pid, eid, actor) # ended) w =
     (case archive_by attr lu actor of
        Inl _ \<Rightarrow> auto_archive env attr lu now jid ended w
      | Inr by_actor \<Rightarrow> (case deactivate_package env now jid pid by_actor w of
          (Inl _, w') \<Rightarrow> auto_archive env attr lu now jid ended w'
        | (Inr _, w') \<Rightarrow> (case auto_archive env attr lu now jid ended w' of (n, w'') \<Rightarrow> (Suc n, w''))))"

definition event_package_lifecycle_once :: "plan_env \<Rightarrow> access_db \<Rightarrow> (principal \<Rightarrow> attribution) \<Rightarrow> actor_lookups \<Rightarrow> int \<Rightarrow>
    (ustr \<Rightarrow> ustr) \<Rightarrow> (ustr \<Rightarrow> ustr) \<Rightarrow> plan_world \<Rightarrow> nat \<times> plan_world" where
  "event_package_lifecycle_once env db attr lu now lid jid w =
     (case auto_activate env db attr lu now lid jid (auto_due_packages now w) w of (n, w1) \<Rightarrow>
      case auto_archive env attr lu now jid (ended_activated_packages now w1) w1 of (k, w2) \<Rightarrow> (n + k, w2))"

end
