(* ===== verification/PackageLife.thy ===== *)
theory PackageLife
  imports Packages
begin

text \<open>
  What packages guarantee. Activation is all or nothing and happens at most once, however stale the
  reads of the requests that race for it; it publishes an advisory only where its principal may issue
  one; deactivation ends the rows the package's items refer to and no others, so that it takes back what
  an activation made, except a rate program the activation replaced. The last section has what goes wrong.
\<close>

section \<open>Ending the live rows\<close>

definition live_refs :: "ustr \<Rightarrow> (ustr \<times> ustr option) list \<Rightarrow> ustr set" where
  "live_refs kind refs = {i. (kind, Some i) \<in> set refs}"

lemma live_refs_simps [simp]:
  "live_refs kind [] = {}"
  "live_refs kind ((k, Some i) # refs) = (if k = kind then insert i (live_refs kind refs) else live_refs kind refs)"
  "live_refs kind ((k, None) # refs) = live_refs kind refs"
  "live_refs kind (refs @ refs') = live_refs kind refs \<union> live_refs kind refs'"
  by (auto simp: live_refs_def)

definition ended_stop :: "int \<Rightarrow> ground_stop \<Rightarrow> ground_stop" where
  "ended_stop now s = s\<lparr>stop_status := Cancelled, stop_ended_at := Some (coalesce (stop_ended_at s) now), stop_updated_at := now\<rparr>"

text \<open>The tables after the rows named by the references ended.\<close>

definition rows_ended :: "int \<Rightarrow> (ustr \<times> ustr option) list \<Rightarrow> tmu_world \<Rightarrow> tmu_world \<Rightarrow> bool" where
  "rows_ended now refs m m' \<longleftrightarrow>
     mw_tmis m' = map (\<lambda>t. if ti_id t \<in> live_refs (lit ''restriction'') refs \<and> tmi_active t then end_tmi now t else t) (mw_tmis m) \<and>
     mw_stops m' = map (\<lambda>s. if stop_id s \<in> live_refs (lit ''ground_stop'') refs \<and> stop_active s then ended_stop now s else s)
       (mw_stops m) \<and>
     vw_rows (mw_adv m') = map (\<lambda>a. if av_id a \<in> live_refs (lit ''advisory'') refs \<and> live_advisory a then cancelled_row a else a)
       (vw_rows (mw_adv m)) \<and>
     mw_rates m' = filter (\<lambda>p. pr_icao p \<notin> live_refs (lit ''program'') refs) (mw_rates m) \<and>
     mw_gdps m' = mw_gdps m \<and> mw_slots m' = mw_slots m"

lemma rows_ended_Nil [simp]: "rows_ended now [] m m"
  by (simp add: rows_ended_def)

lemma enqueue_post_tables:
  assumes "enqueue_post now jid job_type payload st si m = Inr m'"
  shows "mw_tmis m' = mw_tmis m \<and> mw_stops m' = mw_stops m \<and> vw_rows (mw_adv m') = vw_rows (mw_adv m) \<and>
    mw_rates m' = mw_rates m \<and> mw_gdps m' = mw_gdps m \<and> mw_slots m' = mw_slots m"
  using assms by (auto simp: enqueue_post_def bind_result_Inr_iff)

lemma end_item_effect:
  assumes "end_item env now jid kind i m = Inr m'"
  shows "rows_ended now [(kind, Some i)] m m'"
proof -
  have kinds: "lit ''program'' \<noteq> lit ''restriction''" "lit ''program'' \<noteq> lit ''ground_stop''" "lit ''program'' \<noteq> lit ''advisory''"
    "lit ''restriction'' \<noteq> lit ''ground_stop''" "lit ''restriction'' \<noteq> lit ''advisory''" "lit ''ground_stop'' \<noteq> lit ''advisory''"
    by simp_all
  consider "kind = lit ''program''" | "kind = lit ''restriction''" | "kind = lit ''ground_stop''" | "kind = lit ''advisory''"
    | "kind \<notin> {lit ''program'', lit ''restriction'', lit ''ground_stop'', lit ''advisory''}"
    by blast
  then show ?thesis
  proof cases
    case 2
    obtain ok ts where c: "cancel_tmi now i (mw_tmis m) = (ok, ts)" by (cases "cancel_tmi now i (mw_tmis m)")
    then have "ts = map (\<lambda>t. if ti_id t = i \<and> tmi_active t then end_tmi now t else t) (mw_tmis m)"
      by (simp add: cancel_tmi_def set_rows_def)
    with assms 2 c kinds show ?thesis
      by (auto simp: end_item_def rows_ended_def split: option.splits bool.splits if_splits dest!: enqueue_post_tables)
  next
    case 4
    obtain ok as where c: "cancel_advisory i (vw_rows (mw_adv m)) = (ok, as)" by (cases "cancel_advisory i (vw_rows (mw_adv m))")
    then have "as = map (\<lambda>a. if av_id a = i \<and> live_advisory a then cancelled_row a else a) (vw_rows (mw_adv m))"
      by (simp add: cancel_advisory_def update_rows_def)
    with assms 4 c kinds show ?thesis
      by (auto simp: end_item_def rows_ended_def set_advisories_def split: option.splits bool.splits if_splits dest!: enqueue_post_tables)
  qed (use assms kinds in \<open>auto simp: end_item_def rows_ended_def delete_program_def cancel_ground_stop_def set_stops_def
      ended_stop_def\<close>)
qed

lemma rows_ended_trans:
  assumes "rows_ended now a m m1" and "rows_ended now b m1 m2"
  shows "rows_ended now (a @ b) m m2"
proof -
  have "tmi_active (end_tmi now t) = False" "ti_id (end_tmi now t) = ti_id t" for t
    by (simp_all add: end_tmi_def tmi_active_def)
  moreover have "stop_active (ended_stop now s) = False" "stop_id (ended_stop now s) = stop_id s" for s
    by (simp_all add: ended_stop_def stop_active_def)
  moreover have "live_advisory (cancelled_row r) = False" "av_id (cancelled_row r) = av_id r" for r
    by (simp_all add: cancelled_row_def live_advisory_def)
  ultimately show ?thesis
    using assms by (auto simp: rows_ended_def conj_commute)
qed

lemma end_items_effect:
  "end_items env now jid refs m = (res, m') \<Longrightarrow>
    \<exists>ended rest. refs = ended @ rest \<and> rows_ended now ended m m' \<and> (res = Inr () \<longrightarrow> rest = [])"
proof (induction refs arbitrary: m)
  case (Cons x refs)
  obtain kind reference where x: "x = (kind, reference)" by (cases x)
  show ?case
  proof (cases reference)
    case None
    with Cons.prems x have "end_items env now jid refs m = (res, m')" by simp
    from Cons.IH [OF this] obtain ended rest where "refs = ended @ rest" "rows_ended now ended m m'" "res = Inr () \<longrightarrow> rest = []"
      by blast
    then show ?thesis
      by (intro exI [of _ "x # ended"] exI [of _ rest]) (simp add: x None rows_ended_def)
  next
    case (Some i)
    show ?thesis
    proof (cases "end_item env now jid kind i m")
      case (Inl e)
      with Cons.prems x Some show ?thesis
        by (intro exI [of _ "[]"] exI [of _ "x # refs"]) auto
    next
      case (Inr m1)
      with Cons.prems x Some have "end_items env now jid refs m1 = (res, m')" by simp
      from Cons.IH [OF this] obtain ended rest where "refs = ended @ rest" "rows_ended now ended m1 m'" "res = Inr () \<longrightarrow> rest = []"
        by blast
      moreover from rows_ended_trans [OF end_item_effect [OF Inr] this(2)] x Some
      have "rows_ended now (x # ended) m m'" by simp
      ultimately show ?thesis
        by (intro exI [of _ "x # ended"] exI [of _ rest]) simp
    qed
  qed
qed simp

lemma all_in_map: "(\<forall>y\<in>set (map f xs). Q y) \<longleftrightarrow> (\<forall>x\<in>set xs. Q (f x))"
  by (induction xs) auto

lemma mark_archived:
  shows "\<forall>p\<in>set (pw_packages (mark_package_archived now pid by_actor w)). pk_id p = pid \<longrightarrow> pk_status p = PkgArchived"
    and "\<forall>i\<in>set (pw_items (mark_package_archived now pid by_actor w)). it_package_id i = pid \<longrightarrow> it_live_ref i = None"
    and "pw_tmu (mark_package_archived now pid by_actor w) = pw_tmu w"
    and "pw_events (mark_package_archived now pid by_actor w) = pw_events w"
  unfolding mark_package_archived_def set_packages_def
  by (simp_all add: all_in_map del: set_map)

text \<open>C16. Deactivating a package ends, of the live tables, exactly rows that the package's items refer to: all
  of them when it succeeds, and then the package is archived and its references are cleared; those of
  the first items when a transaction fails, and then the package and its references are as they were, so
  the deactivation can be tried again.\<close>

theorem deactivation_ends_only_its_rows:
  "\<exists>ended rest. list_package_item_refs w pid = ended @ rest \<and>
    (case deactivate_package env now jid pid by_actor w of (res, w') \<Rightarrow>
       rows_ended now ended (pw_tmu w) (pw_tmu w') \<and> pw_events w' = pw_events w \<and>
       (case res of
          Inl _ \<Rightarrow> pw_packages w' = pw_packages w \<and> pw_items w' = pw_items w
        | Inr _ \<Rightarrow> rest = [] \<and> (\<forall>p\<in>set (pw_packages w'). pk_id p = pid \<longrightarrow> pk_status p = PkgArchived) \<and>
            (\<forall>i\<in>set (pw_items w'). it_package_id i = pid \<longrightarrow> it_live_ref i = None)))"
proof -
  obtain res m where run: "end_items env now jid (list_package_item_refs w pid) (pw_tmu w) = (res, m)"
    by (cases "end_items env now jid (list_package_item_refs w pid) (pw_tmu w)")
  from end_items_effect [OF run] obtain ended rest where
    refs: "list_package_item_refs w pid = ended @ rest" and eff: "rows_ended now ended (pw_tmu w) m"
    and all: "res = Inr () \<longrightarrow> rest = []"
    by blast
  show ?thesis
  proof (intro exI conjI)
    show "list_package_item_refs w pid = ended @ rest" by (rule refs)
    show "case deactivate_package env now jid pid by_actor w of (res, w') \<Rightarrow>
       rows_ended now ended (pw_tmu w) (pw_tmu w') \<and> pw_events w' = pw_events w \<and>
       (case res of
          Inl _ \<Rightarrow> pw_packages w' = pw_packages w \<and> pw_items w' = pw_items w
        | Inr _ \<Rightarrow> rest = [] \<and> (\<forall>p\<in>set (pw_packages w'). pk_id p = pid \<longrightarrow> pk_status p = PkgArchived) \<and>
            (\<forall>i\<in>set (pw_items w'). it_package_id i = pid \<longrightarrow> it_live_ref i = None))"
    proof (cases res)
      case (Inl e)
      with eff show ?thesis by (simp add: deactivate_package_def run)
    next
      case (Inr u)
      with eff all mark_archived [of now pid by_actor "w\<lparr>pw_tmu := m\<rparr>"] show ?thesis
        by (simp add: deactivate_package_def run)
    qed
  qed
qed

section \<open>What an activation makes\<close>

fun kind_of :: "prepared \<Rightarrow> ustr" where
  "kind_of (Program _) = lit ''program''"
| "kind_of (Restriction _) = lit ''restriction''"
| "kind_of (GroundStop _) = lit ''ground_stop''"
| "kind_of (Advisory _ _) = lit ''advisory''"

text \<open>The tables grown by published rows with fresh ids that the references name, and by programs.\<close>

definition rows_made :: "(ustr \<times> ustr option) list \<Rightarrow> tmu_world \<Rightarrow> tmu_world \<Rightarrow> bool" where
  "rows_made refs m m' \<longleftrightarrow>
     (\<exists>ts ss as. mw_tmis m' = mw_tmis m @ ts \<and> mw_stops m' = mw_stops m @ ss \<and>
        vw_rows (mw_adv m') = vw_rows (mw_adv m) @ as \<and>
        (\<forall>t\<in>set ts. ti_id t \<in> live_refs (lit ''restriction'') refs \<and> ti_status t = Published) \<and>
        (\<forall>s\<in>set ss. stop_id s \<in> live_refs (lit ''ground_stop'') refs \<and> stop_status s = Published) \<and>
        (\<forall>a\<in>set as. av_id a \<in> live_refs (lit ''advisory'') refs \<and> av_status a = AdvPublished)) \<and>
     live_refs (lit ''restriction'') refs \<inter> ti_id ` set (mw_tmis m) = {} \<and>
     live_refs (lit ''ground_stop'') refs \<inter> stop_id ` set (mw_stops m) = {} \<and>
     live_refs (lit ''advisory'') refs \<inter> av_id ` set (vw_rows (mw_adv m)) = {} \<and>
     filter (\<lambda>p. pr_icao p \<notin> live_refs (lit ''program'') refs) (mw_rates m') =
       filter (\<lambda>p. pr_icao p \<notin> live_refs (lit ''program'') refs) (mw_rates m) \<and>
     mw_gdps m' = mw_gdps m \<and> mw_slots m' = mw_slots m"

lemma rows_made_Nil [simp]: "rows_made [] m m"
  by (simp add: rows_made_def)

lemma filter_notin_mono:
  assumes "filter (\<lambda>p. f p \<notin> A) xs = filter (\<lambda>p. f p \<notin> A) ys"
  shows "filter (\<lambda>p. f p \<notin> A \<union> B) xs = filter (\<lambda>p. f p \<notin> A \<union> B) ys"
    and "filter (\<lambda>p. f p \<notin> B \<union> A) xs = filter (\<lambda>p. f p \<notin> B \<union> A) ys"
proof -
  have "filter (\<lambda>p. f p \<notin> A \<union> B) zs = filter (\<lambda>p. f p \<notin> B) (filter (\<lambda>p. f p \<notin> A) zs)" for zs
    by simp
  then show "filter (\<lambda>p. f p \<notin> A \<union> B) xs = filter (\<lambda>p. f p \<notin> A \<union> B) ys"
    by (simp only: assms)
  then show "filter (\<lambda>p. f p \<notin> B \<union> A) xs = filter (\<lambda>p. f p \<notin> B \<union> A) ys"
    by (simp only: Un_commute)
qed

lemma rows_made_trans:
  assumes "rows_made a m m1" and "rows_made b m1 m2"
  shows "rows_made (a @ b) m m2"
proof -
  let ?p = "lit ''program''"
  have "filter (\<lambda>p. pr_icao p \<notin> live_refs ?p b) (mw_rates m2) = filter (\<lambda>p. pr_icao p \<notin> live_refs ?p b) (mw_rates m1)"
    and "filter (\<lambda>p. pr_icao p \<notin> live_refs ?p a) (mw_rates m1) = filter (\<lambda>p. pr_icao p \<notin> live_refs ?p a) (mw_rates m)"
    using assms by (simp_all add: rows_made_def)
  from filter_notin_mono(2) [OF this(1), of "live_refs ?p a"] filter_notin_mono(1) [OF this(2), of "live_refs ?p b"]
  have "filter (\<lambda>p. pr_icao p \<notin> live_refs ?p (a @ b)) (mw_rates m2) =
      filter (\<lambda>p. pr_icao p \<notin> live_refs ?p (a @ b)) (mw_rates m)"
    by (simp only: live_refs_simps)
  moreover obtain ts ss as where g1: "mw_tmis m1 = mw_tmis m @ ts" "mw_stops m1 = mw_stops m @ ss"
      "vw_rows (mw_adv m1) = vw_rows (mw_adv m) @ as"
      "\<forall>t\<in>set ts. ti_id t \<in> live_refs (lit ''restriction'') a \<and> ti_status t = Published"
      "\<forall>s\<in>set ss. stop_id s \<in> live_refs (lit ''ground_stop'') a \<and> stop_status s = Published"
      "\<forall>x\<in>set as. av_id x \<in> live_refs (lit ''advisory'') a \<and> av_status x = AdvPublished"
    using assms(1) by (auto simp: rows_made_def)
  moreover obtain ts' ss' as' where g2: "mw_tmis m2 = mw_tmis m1 @ ts'" "mw_stops m2 = mw_stops m1 @ ss'"
      "vw_rows (mw_adv m2) = vw_rows (mw_adv m1) @ as'"
      "\<forall>t\<in>set ts'. ti_id t \<in> live_refs (lit ''restriction'') b \<and> ti_status t = Published"
      "\<forall>s\<in>set ss'. stop_id s \<in> live_refs (lit ''ground_stop'') b \<and> stop_status s = Published"
      "\<forall>x\<in>set as'. av_id x \<in> live_refs (lit ''advisory'') b \<and> av_status x = AdvPublished"
    using assms(2) by (auto simp: rows_made_def)
  moreover have "\<exists>ts'' ss'' as''. mw_tmis m2 = mw_tmis m @ ts'' \<and> mw_stops m2 = mw_stops m @ ss'' \<and>
        vw_rows (mw_adv m2) = vw_rows (mw_adv m) @ as'' \<and>
        (\<forall>t\<in>set ts''. ti_id t \<in> live_refs (lit ''restriction'') (a @ b) \<and> ti_status t = Published) \<and>
        (\<forall>s\<in>set ss''. stop_id s \<in> live_refs (lit ''ground_stop'') (a @ b) \<and> stop_status s = Published) \<and>
        (\<forall>x\<in>set as''. av_id x \<in> live_refs (lit ''advisory'') (a @ b) \<and> av_status x = AdvPublished)"
    using g1 g2 by (intro exI [of _ "ts @ ts'"] exI [of _ "ss @ ss'"] exI [of _ "as @ as'"]) auto
  moreover have "mw_gdps m2 = mw_gdps m \<and> mw_slots m2 = mw_slots m"
    using assms by (simp add: rows_made_def)
  moreover have "live_refs (lit ''restriction'') (a @ b) \<inter> ti_id ` set (mw_tmis m) = {} \<and>
      live_refs (lit ''ground_stop'') (a @ b) \<inter> stop_id ` set (mw_stops m) = {} \<and>
      live_refs (lit ''advisory'') (a @ b) \<inter> av_id ` set (vw_rows (mw_adv m)) = {}"
    using assms g1(1-3) by (auto simp: rows_made_def)
  ultimately show ?thesis unfolding rows_made_def by blast
qed

lemma create_tmi_made:
  assumes "create_tmi env now i req ts = Inr ts1"
  shows "\<exists>t. publish_tmi now i ts1 = Some (t, ts @ [t]) \<and> ti_id t = i \<and> ti_status t = Published"
    and "i \<notin> ti_id ` set ts"
proof -
  from assms have fresh: "i \<notin> ti_id ` set ts"
    by (auto simp: create_tmi_def list_ex_iff split: if_splits)
  then have old: "\<forall>x\<in>set ts. ti_id x \<noteq> i" by blast
  then have keep: "map (\<lambda>x. if ti_id x = i \<and> Q x then f x else x) ts = ts" for f Q
    by (auto intro!: map_idI)
  have none: "find (\<lambda>x. ti_id x = i) ts = None"
    using old by (simp add: find_None_iff)
  from assms fresh obtain t where ts1: "ts1 = ts @ [t]" and t: "ti_id t = i" "ti_status t = Draft"
    by (auto simp: create_tmi_def list_ex_iff split: if_splits)
  let ?t = "t\<lparr>ti_status := Published, ti_published_at := Some now, ti_updated_at := now\<rparr>"
  have "set_rows (\<lambda>t. ti_id t = i \<and> ti_status t = Draft)
      (\<lambda>t. t\<lparr>ti_status := Published, ti_published_at := Some now, ti_updated_at := now\<rparr>) ts1 = (True, ts @ [?t])"
    using t by (simp add: set_rows_def ts1 keep)
  moreover have "get_tmi (ts @ [?t]) i = Some ?t"
    using none t by (simp add: get_tmi_def find_append)
  ultimately have "publish_tmi now i ts1 = Some (?t, ts @ [?t])"
    by (simp add: publish_tmi_def)
  with t show "\<exists>t. publish_tmi now i ts1 = Some (t, ts @ [t]) \<and> ti_id t = i \<and> ti_status t = Published"
    by auto
  show "i \<notin> ti_id ` set ts" by (rule fresh)
qed

lemma create_stop_made:
  assumes "create_ground_stop now i airport scope until ss = Inr ss1"
  shows "\<exists>s. snd (publish_ground_stop now i ss1) = ss @ [s] \<and> stop_id s = i \<and> stop_status s = Published"
    and "i \<notin> stop_id ` set ss"
proof -
  from assms have fresh: "i \<notin> stop_id ` set ss"
    by (auto simp: create_ground_stop_def list_ex_iff split: if_splits)
  then have "\<forall>x\<in>set ss. stop_id x \<noteq> i" by blast
  then have keep: "map (\<lambda>x. if stop_id x = i \<and> Q x then f x else x) ss = ss" for f Q
    by (auto intro!: map_idI)
  from assms fresh obtain s where ss1: "ss1 = ss @ [s]" and s: "stop_id s = i" "stop_status s = Draft"
    by (auto simp: create_ground_stop_def list_ex_iff split: if_splits)
  then show "\<exists>s. snd (publish_ground_stop now i ss1) = ss @ [s] \<and> stop_id s = i \<and> stop_status s = Published"
    by (simp add: publish_ground_stop_def set_stops_def ss1 keep)
  show "i \<notin> stop_id ` set ss" by (rule fresh)
qed

lemma create_advisory_made:
  assumes "create_advisory_tx env now i req None as = Inr as1"
  shows "\<exists>a. publish_advisory now i as1 = (True, as @ [a]) \<and> get_advisory (as @ [a]) i = Some a \<and> av_id a = i \<and>
      av_status a = AdvPublished \<and> av_facility a = ascii_upper (trim (cr_facility req))"
    and "i \<notin> av_id ` set as"
proof -
  from assms have fresh: "i \<notin> av_id ` set as"
    by (auto simp: create_advisory_tx_def Let_def bind_result_Inr_iff insert_advisory_def list_ex_iff split: if_splits)
  from assms obtain a where as1: "as1 = as @ [a]" and a: "av_id a = i" "av_status a = AdvDraft"
      "av_facility a = ascii_upper (trim (cr_facility req))"
    by (auto simp: create_advisory_tx_def Let_def bind_result_Inr_iff insert_advisory_def list_ex_iff split: if_splits)
  from fresh have old: "\<forall>x\<in>set as. av_id x \<noteq> i" by blast
  then have keep: "map (\<lambda>x. if av_id x = i \<and> Q x then f x else x) as = as" for f Q
    by (auto intro!: map_idI)
  have none: "find (\<lambda>x. av_id x = i) as = None"
    using old by (simp add: find_None_iff)
  let ?a = "a\<lparr>av_status := AdvPublished, av_published_at := Some now\<rparr>"
  have "publish_advisory now i as1 = (True, as @ [?a])"
    using a by (simp add: publish_advisory_def update_rows_def draft_with_def as1 keep)
  moreover have "get_advisory (as @ [?a]) i = Some ?a"
    using none a by (simp add: get_advisory_def find_append)
  ultimately show "\<exists>a. publish_advisory now i as1 = (True, as @ [a]) \<and> get_advisory (as @ [a]) i = Some a \<and> av_id a = i \<and>
      av_status a = AdvPublished \<and> av_facility a = ascii_upper (trim (cr_facility req))"
    using a by auto
  show "i \<notin> av_id ` set as" by (rule fresh)
qed

text \<open>The facilities of the advisories among prepared items, as the rows store them.\<close>

fun planned_facility :: "prepared \<Rightarrow> ustr option" where
  "planned_facility (Advisory a _) = Some (ascii_upper (trim (di_facility a)))"
| "planned_facility _ = None"

definition new_rows_from :: "ustr option set \<Rightarrow> tmu_world \<Rightarrow> tmu_world \<Rightarrow> bool" where
  "new_rows_from F m m' \<longleftrightarrow> (\<forall>a\<in>set (vw_rows (mw_adv m')). a \<in> set (vw_rows (mw_adv m)) \<or> Some (av_facility a) \<in> F)"

lemma upsert_program_others:
  assumes "upsert_program now icao req ps = Inr ps'"
  shows "filter (\<lambda>p. pr_icao p \<noteq> icao) ps' = filter (\<lambda>p. pr_icao p \<noteq> icao) ps"
proof -
  let ?row = "\<lparr>pr_icao = icao, pr_request = req, pr_updated_at = now\<rparr>"
  have "filter (\<lambda>p. pr_icao p \<noteq> icao) (map (\<lambda>p. if pr_icao p = icao then ?row else p) qs) = filter (\<lambda>p. pr_icao p \<noteq> icao) qs"
    for qs
    by (induction qs) auto
  moreover have "ps' = map (\<lambda>p. if pr_icao p = icao then ?row else p) ps \<or> ps' = ps @ [?row]"
    using assms by (auto simp: upsert_program_def Let_def split: if_splits)
  ultimately show ?thesis by auto
qed

lemma materialize_made:
  assumes "materialize env now event ch i jid x m = Inr (reference, m')"
  shows "rows_made [(kind_of x, Some reference)] m m' \<and> new_rows_from {planned_facility x} m m'"
proof (cases x)
  case (Program p)
  with assms obtain rates where up: "upsert_program now (pi_icao p) (program_request event p) (mw_rates m) = Inr rates"
    and "reference = pi_icao p" "m' = m\<lparr>mw_rates := rates\<rparr>"
    by (auto simp: bind_result_Inr_iff)
  with upsert_program_others [OF up] Program show ?thesis
    by (simp add: rows_made_def new_rows_from_def)
next
  case (Restriction r)
  with assms obtain ts where ts: "create_tmi (ne_tmi env) now i (restriction_request r) (mw_tmis m) = Inr ts"
    by (auto simp: bind_result_Inr_iff)
  from create_tmi_made [OF ts] obtain t where pub: "publish_tmi now i ts = Some (t, mw_tmis m @ [t])"
    and t: "ti_id t = i" "ti_status t = Published" and fresh: "i \<notin> ti_id ` set (mw_tmis m)"
    by blast
  have "reference = i \<and> mw_tmis m' = mw_tmis m @ [t] \<and> mw_stops m' = mw_stops m \<and> vw_rows (mw_adv m') = vw_rows (mw_adv m) \<and>
      mw_rates m' = mw_rates m \<and> mw_gdps m' = mw_gdps m \<and> mw_slots m' = mw_slots m"
    using assms Restriction ts pub by (cases ch) (auto simp: bind_result_Inr_iff dest!: enqueue_post_tables)
  with fresh t Restriction show ?thesis
    by (auto simp: rows_made_def new_rows_from_def)
next
  case (GroundStop g)
  with assms obtain ss where ss: "create_ground_stop now i (si_airport g) (coalesce (si_scope g) []) (si_until g) (mw_stops m) = Inr ss"
    and m': "reference = i" "m' = m\<lparr>mw_stops := snd (publish_ground_stop now i ss)\<rparr>"
    by (auto simp: bind_result_Inr_iff)
  from create_stop_made [OF ss] m' GroundStop show ?thesis
    by (auto simp: rows_made_def new_rows_from_def)
next
  case (Advisory a channel)
  with assms obtain as where as: "create_advisory_tx (ne_doc env) now i (advisory_request a) None (vw_rows (mw_adv m)) = Inr as"
    by (auto simp: bind_result_Inr_iff)
  from create_advisory_made [OF as] obtain v where pub: "publish_advisory now i as = (True, vw_rows (mw_adv m) @ [v])"
    and got: "get_advisory (vw_rows (mw_adv m) @ [v]) i = Some v"
    and v: "av_id v = i" "av_status v = AdvPublished" "av_facility v = ascii_upper (trim (di_facility a))"
    and fresh: "i \<notin> av_id ` set (vw_rows (mw_adv m))"
    by (auto simp: advisory_request_def)
  have "reference = i \<and> mw_tmis m' = mw_tmis m \<and> mw_stops m' = mw_stops m \<and>
      vw_rows (mw_adv m') = vw_rows (mw_adv m) @ [v] \<and>
      mw_rates m' = mw_rates m \<and> mw_gdps m' = mw_gdps m \<and> mw_slots m' = mw_slots m"
    using assms Advisory as pub got by (cases channel) (auto simp: bind_result_Inr_iff set_advisories_def dest!: enqueue_post_tables)
  with fresh v Advisory show ?thesis
    by (auto simp: rows_made_def new_rows_from_def)
qed

text \<open>The items after a fold over prepared ones: each prepared item has its reference.\<close>

definition refs_set :: "(ustr \<times> ustr) list \<Rightarrow> package_item list \<Rightarrow> package_item list" where
  "refs_set rs = map (\<lambda>i. case map_of rs (it_id i) of None \<Rightarrow> i | Some x \<Rightarrow> i\<lparr>it_live_ref := Some x\<rparr>)"

lemma materialize_items_made:
  assumes "fold_result (materialize_item env now event ch lid jid) xs w = Inr w'" and "distinct (map fst xs)"
  shows "\<exists>refs. length refs = length xs \<and>
    rows_made (map2 (\<lambda>ix x. (kind_of (snd ix), Some x)) xs refs) (pw_tmu w) (pw_tmu w') \<and>
    new_rows_from ((planned_facility \<circ> snd) ` set xs) (pw_tmu w) (pw_tmu w') \<and>
    pw_items w' = refs_set (zip (map fst xs) refs) (pw_items w) \<and>
    (\<forall>(ix, reference)\<in>set (zip xs refs). \<forall>p. snd ix = Program p \<longrightarrow> reference = pi_icao p) \<and>
    pw_packages w' = pw_packages w \<and> pw_events w' = pw_events w"
  using assms
proof (induction xs arbitrary: w)
  case Nil
  then show ?case by (simp add: refs_set_def new_rows_from_def)
next
  case (Cons ix xs)
  obtain i x where ix: "ix = (i, x)" by (cases ix)
  from Cons.prems(1) ix obtain w1 where one: "materialize_item env now event ch lid jid (i, x) w = Inr w1"
    and rest: "fold_result (materialize_item env now event ch lid jid) xs w1 = Inr w'"
    by (auto simp: bind_result_Inr_iff)
  from one obtain reference m where mat: "materialize env now event ch (lid i) (jid i) x (pw_tmu w) = Inr (reference, m)"
    and w1: "w1 = set_item_live_ref i reference (w\<lparr>pw_tmu := m\<rparr>)"
    by (auto simp: bind_result_Inr_iff materialize_item_def)
  from Cons.IH [OF rest] Cons.prems(2) obtain refs where len: "length refs = length xs"
    and made: "rows_made (map2 (\<lambda>ix x. (kind_of (snd ix), Some x)) xs refs) (pw_tmu w1) (pw_tmu w')"
    and new: "new_rows_from ((planned_facility \<circ> snd) ` set xs) (pw_tmu w1) (pw_tmu w')"
    and items: "pw_items w' = refs_set (zip (map fst xs) refs) (pw_items w1)"
    and programs: "\<forall>(ix, reference)\<in>set (zip xs refs). \<forall>p. snd ix = Program p \<longrightarrow> reference = pi_icao p"
    and same: "pw_packages w' = pw_packages w1 \<and> pw_events w' = pw_events w1"
    by auto
  have here: "\<forall>p. x = Program p \<longrightarrow> reference = pi_icao p"
    using mat by (auto simp: bind_result_Inr_iff)
  have tmu: "pw_tmu w1 = m" by (simp add: w1 set_item_live_ref_def)
  have "i \<notin> set (map fst xs)" using Cons.prems(2) ix by simp
  then have "map_of (zip (map fst xs) refs) i = None"
    using len by (simp add: map_of_zip_is_None)
  then have "refs_set (zip (map fst xs) refs) (pw_items w1) = refs_set ((i, reference) # zip (map fst xs) refs) (pw_items w)"
    by (auto simp: refs_set_def w1 set_item_live_ref_def)
  moreover from materialize_made [OF mat] have m1: "rows_made [(kind_of x, Some reference)] (pw_tmu w) m"
    and n1: "new_rows_from {planned_facility x} (pw_tmu w) m"
    by blast+
  moreover from rows_made_trans [OF m1] made tmu
  have "rows_made (map2 (\<lambda>ix x. (kind_of (snd ix), Some x)) (ix # xs) (reference # refs)) (pw_tmu w) (pw_tmu w')"
    by (simp add: ix)
  moreover have "new_rows_from ((planned_facility \<circ> snd) ` set (ix # xs)) (pw_tmu w) (pw_tmu w')"
    using n1 new tmu by (auto simp: new_rows_from_def ix)
  moreover have "pw_packages w1 = pw_packages w \<and> pw_events w1 = pw_events w"
    by (simp add: w1 set_item_live_ref_def)
  ultimately show ?case
    using len items same programs here by (intro exI [of _ "reference # refs"]) (simp add: ix)
qed

section \<open>Activation, then deactivation\<close>

lemma prepare_items_ids:
  "prepare_items codec guilds is = Inr xs \<Longrightarrow> map fst xs = map it_id (filter (\<lambda>i. it_kind i \<in> set item_kinds) is) \<and>
    (\<forall>i\<in>set is. it_kind i \<in> set item_kinds \<longrightarrow> (\<exists>x. (it_id i, x) \<in> set xs \<and> kind_of x = it_kind i \<and>
      prepare_item codec guilds i = Inr (Some x))) \<and>
    (\<forall>(iid, x)\<in>set xs. \<exists>i\<in>set is. it_id i = iid \<and> kind_of x = it_kind i \<and> prepare_item codec guilds i = Inr (Some x))"
proof (induction "is" arbitrary: xs)
  case (Cons i "is")
  from Cons.prems obtain p ps where p: "prepare_item codec guilds i = Inr p"
    and ps: "prepare_items codec guilds is = Inr ps"
    and xs: "xs = (case p of None \<Rightarrow> [] | Some x \<Rightarrow> [(it_id i, x)]) @ ps"
    by (auto simp: bind_result_Inr_iff)
  have "p = None \<longleftrightarrow> it_kind i \<notin> set item_kinds"
    using p by (auto simp: prepare_item_def item_kinds_def bind_result_Inr_iff split: if_splits)
  moreover have "kind_of x = it_kind i" if "p = Some x" for x
    using p that by (auto simp: prepare_item_def bind_result_Inr_iff split: if_splits)
  moreover note Cons.IH [OF ps]
  ultimately show ?case
    using p xs by (cases p) auto
qed simp

lemma activate_package_ok:
  assumes "activate_package env db attr now lid jid eid pid p r w = Inr w'"
  shows "\<exists>event xs w1. list_all (\<lambda>f. allows (permission_scope_in db now p ADVISORY_ISSUE) (Some f)) (advisory_facilities r pid) \<and>
    get_plan_event r eid = Some event \<and>
    prepare_items (ne_codec env) (vw_guilds (mw_adv (pw_tmu r))) (list_package_items r pid) = Inr xs \<and>
    fold_result (materialize_item env now event
      (channel_id (vw_guilds (mw_adv (pw_tmu r))) NTML_CHANNEL (normalize_facility (pe_facility event))) lid jid) xs w = Inr w1 \<and>
    mark_package_activated now pid (attr p) w1 = Inr w'"
  using assms by (auto simp: activate_package_def require_actor_may_issue_package_def Let_def bind_result_Inr_iff ok_or_def
      split: if_splits option.splits)

lemma mark_activated_frame:
  assumes "mark_package_activated now pid by_actor w = Inr w'"
  shows "pw_tmu w' = pw_tmu w" and "pw_items w' = pw_items w" and "pw_events w' = pw_events w"
    and "\<forall>p\<in>set (pw_packages w'). pk_id p = pid \<longrightarrow> pk_status p \<noteq> PkgDraft"
    and "\<exists>p\<in>set (pw_packages w). pk_id p = pid \<and> pk_status p = PkgDraft"
proof -
  let ?f = "\<lambda>p. p\<lparr>pk_status := PkgActivated, pk_activated_at := Some now, pk_updated_by_actor := at_actor_id by_actor\<rparr>"
  let ?P = "\<lambda>p. pk_id p = pid \<and> pk_status p = PkgDraft"
  from assms have w': "w' = w\<lparr>pw_packages := map (\<lambda>p. if ?P p then ?f p else p) (pw_packages w)\<rparr>"
    and ex: "list_ex ?P (pw_packages w)"
    by (auto simp: mark_package_activated_def set_packages_def Let_def split: if_splits)
  show "pw_tmu w' = pw_tmu w" and "pw_items w' = pw_items w" and "pw_events w' = pw_events w"
    by (simp_all add: w')
  show "\<forall>p\<in>set (pw_packages w'). pk_id p = pid \<longrightarrow> pk_status p \<noteq> PkgDraft"
    by (simp add: w' all_in_map del: set_map)
  show "\<exists>p\<in>set (pw_packages w). pk_id p = pid \<and> pk_status p = PkgDraft"
    using ex by (auto simp: list_ex_iff)
qed

text \<open>The program airports of a package.\<close>

definition program_airports :: "plan_env \<Rightarrow> plan_world \<Rightarrow> ustr \<Rightarrow> ustr set" where
  "program_airports env w pid = {pi_icao p | i p. i \<in> set (list_package_items w pid) \<and> it_kind i = lit ''program'' \<and>
     ic_program (ne_codec env) (it_payload i) = Some p}"

lemma ended_after_made:
  assumes made: "rows_made refs m m1" and ended: "rows_ended now refs' m1 m2"
    and same: "\<And>k. k \<in> set item_kinds \<Longrightarrow> live_refs k refs' = live_refs k refs"
  shows "\<exists>ts ss as. mw_tmis m2 = mw_tmis m @ ts \<and> (\<forall>t\<in>set ts. ti_status t = Cancelled) \<and>
    mw_stops m2 = mw_stops m @ ss \<and> (\<forall>s\<in>set ss. stop_status s = Cancelled) \<and>
    vw_rows (mw_adv m2) = vw_rows (mw_adv m) @ as \<and> (\<forall>a\<in>set as. av_status a = AdvCancelled) \<and>
    mw_rates m2 = filter (\<lambda>q. pr_icao q \<notin> live_refs (lit ''program'') refs) (mw_rates m) \<and>
    mw_gdps m2 = mw_gdps m \<and> mw_slots m2 = mw_slots m"
proof -
  let ?r = "lit ''restriction''" and ?g = "lit ''ground_stop''" and ?a = "lit ''advisory''"
  have kinds: "live_refs k refs' = live_refs k refs" if "k \<in> {?r, ?g, ?a, lit ''program''}" for k
    using same that by (auto simp: item_kinds_def)
  obtain ts ss as where new: "mw_tmis m1 = mw_tmis m @ ts" "mw_stops m1 = mw_stops m @ ss"
      "vw_rows (mw_adv m1) = vw_rows (mw_adv m) @ as"
      "\<forall>t\<in>set ts. ti_id t \<in> live_refs ?r refs \<and> ti_status t = Published"
      "\<forall>s\<in>set ss. stop_id s \<in> live_refs ?g refs \<and> stop_status s = Published"
      "\<forall>a\<in>set as. av_id a \<in> live_refs ?a refs \<and> av_status a = AdvPublished"
    using made by (auto simp: rows_made_def)
  have old: "\<forall>t\<in>set (mw_tmis m). ti_id t \<notin> live_refs ?r refs" "\<forall>s\<in>set (mw_stops m). stop_id s \<notin> live_refs ?g refs"
      "\<forall>a\<in>set (vw_rows (mw_adv m)). av_id a \<notin> live_refs ?a refs"
    using made by (auto simp: rows_made_def)
  have "mw_tmis m2 = mw_tmis m @ map (end_tmi now) ts"
    using ended new(1,4) old(1) by (auto simp: rows_ended_def kinds tmi_active_def intro!: map_idI)
  moreover have "mw_stops m2 = mw_stops m @ map (ended_stop now) ss"
    using ended new(2,5) old(2) by (auto simp: rows_ended_def kinds stop_active_def intro!: map_idI)
  moreover have "vw_rows (mw_adv m2) = vw_rows (mw_adv m) @ map cancelled_row as"
    using ended new(3,6) old(3) by (auto simp: rows_ended_def kinds live_advisory_def intro!: map_idI)
  moreover have "mw_rates m2 = filter (\<lambda>q. pr_icao q \<notin> live_refs (lit ''program'') refs) (mw_rates m)"
    using ended made by (simp add: rows_ended_def rows_made_def kinds)
  moreover have "mw_gdps m2 = mw_gdps m" "mw_slots m2 = mw_slots m"
    using ended made by (simp_all add: rows_ended_def rows_made_def)
  ultimately show ?thesis
    by (intro exI [of _ "map (end_tmi now) ts"] exI [of _ "map (ended_stop now) ss"] exI [of _ "map cancelled_row as"])
      (simp add: end_tmi_def ended_stop_def cancelled_row_def)
qed

lemma in_zip_fst: "(i, v) \<in> set (zip (map fst xs) ys) \<longleftrightarrow> (\<exists>x. ((i, x), v) \<in> set (zip xs ys))"
  by (induction xs ys rule: list_induct2') auto

lemma in_kinds: "(k, Some v) \<in> set (map2 (\<lambda>ix x. (kind_of (snd ix), Some x)) xs ys) \<longleftrightarrow>
    (\<exists>ix. (ix, v) \<in> set (zip xs ys) \<and> kind_of (snd ix) = k)"
  unfolding set_map by force

lemma refs_after:
  assumes ids: "distinct (map it_id (pw_items w))"
    and prep: "prepare_items codec guilds (list_package_items w pid) = Inr xs" and len: "length refs = length xs"
    and items: "pw_items w1 = refs_set (zip (map fst xs) refs) (pw_items w)" and k: "k \<in> set item_kinds"
  shows "live_refs k (list_package_item_refs w1 pid) = live_refs k (map2 (\<lambda>ix x. (kind_of (snd ix), Some x)) xs refs)"
proof -
  note p = prepare_items_ids [OF prep]
  have same: "i = j" if "i \<in> set (pw_items w)" "j \<in> set (pw_items w)" "it_id i = it_id j" for i j
    using that ids by (auto simp: distinct_map inj_on_def)
  have dist: "distinct (map fst xs)"
    using p ids by (simp add: list_package_items_def distinct_map inj_on_def)
  have assoc: "map_of (zip (map fst xs) refs) iid = Some v \<longleftrightarrow> (\<exists>x. ((iid, x), v) \<in> set (zip xs refs))" for iid v
    using dist len by (simp add: map_of_eq_Some_iff in_zip_fst del: zip_map1)

  have "(k, Some v) \<in> set (list_package_item_refs w1 pid) \<longleftrightarrow> (\<exists>iid x. ((iid, x), v) \<in> set (zip xs refs) \<and> kind_of x = k)"
    (is "?l \<longleftrightarrow> ?r") for v
  proof
    assume ?l
    then obtain i where i: "i \<in> set (list_package_items w pid)" "it_kind i = k"
      and v: "(case map_of (zip (map fst xs) refs) (it_id i) of None \<Rightarrow> it_live_ref i | Some x \<Rightarrow> Some x) = Some v"
      by (auto simp: list_package_item_refs_def list_package_items_def items refs_set_def split: option.splits)
    from p i k have "it_id i \<in> set (map fst xs)" by force
    then obtain u where u: "map_of (zip (map fst xs) refs) (it_id i) = Some u"
      using len map_of_zip_is_None [of "map fst xs" refs "it_id i"] by (metis length_map not_None_eq)
    with v assoc obtain x where x: "((it_id i, x), v) \<in> set (zip xs refs)" by auto
    then have "(it_id i, x) \<in> set xs" by (rule set_zip_leftD)
    with p obtain j where "j \<in> set (list_package_items w pid)" "it_id j = it_id i" "kind_of x = it_kind j" by fastforce
    with i same have "kind_of x = k" by (auto simp: list_package_items_def)
    with x show ?r by blast
  next
    assume ?r
    then obtain iid x where x: "((iid, x), v) \<in> set (zip xs refs)" "kind_of x = k" by blast
    from set_zip_leftD [OF x(1)] p obtain i where i: "i \<in> set (list_package_items w pid)" "it_id i = iid" "it_kind i = k"
      using x(2) by fastforce
    from x(1) i(2) assoc have "map_of (zip (map fst xs) refs) (it_id i) = Some v" by blast
    with i(1) have "i\<lparr>it_live_ref := Some v\<rparr> \<in> set (list_package_items w1 pid)"
      unfolding list_package_items_def items refs_set_def set_filter set_map
      by (intro CollectI conjI image_eqI [where x = i]) auto
    then have "(it_kind (i\<lparr>it_live_ref := Some v\<rparr>), it_live_ref (i\<lparr>it_live_ref := Some v\<rparr>)) \<in> set (list_package_item_refs w1 pid)"
      unfolding list_package_item_refs_def set_map by (rule imageI)
    with i(3) show ?l by simp
  qed
  moreover have "(k, Some v) \<in> set (map2 (\<lambda>ix x. (kind_of (snd ix), Some x)) xs refs) \<longleftrightarrow>
      (\<exists>iid x. ((iid, x), v) \<in> set (zip xs refs) \<and> kind_of x = k)" for v
    unfolding in_kinds by auto
  ultimately show ?thesis by (simp add: live_refs_def)
qed

lemma program_refs:
  assumes prep: "prepare_items (ne_codec env) guilds (list_package_items w pid) = Inr xs" and len: "length refs = length xs"
    and programs: "\<forall>(ix, reference)\<in>set (zip xs refs). \<forall>p. snd ix = Program p \<longrightarrow> reference = pi_icao p"
  shows "live_refs (lit ''program'') (map2 (\<lambda>ix x. (kind_of (snd ix), Some x)) xs refs) = program_airports env w pid"
proof -
  note p = prepare_items_ids [OF prep]
  have kind: "kind_of x = lit ''program'' \<longleftrightarrow> (\<exists>p. x = Program p)" for x by (cases x) auto
  have prog: "prepare_item (ne_codec env) guilds i = Inr (Some (Program q)) \<longleftrightarrow>
      it_kind i = lit ''program'' \<and> ic_program (ne_codec env) (it_payload i) = Some q" for i q
    by (auto simp: prepare_item_def bind_result_Inr_iff ok_or_def split: option.splits)
  have "v \<in> live_refs (lit ''program'') (map2 (\<lambda>ix x. (kind_of (snd ix), Some x)) xs refs) \<longleftrightarrow>
      (\<exists>iid q. (iid, Program q) \<in> set xs \<and> v = pi_icao q)" for v
  proof -
    have "v \<in> live_refs (lit ''program'') (map2 (\<lambda>ix x. (kind_of (snd ix), Some x)) xs refs) \<longleftrightarrow>
        (\<exists>ix q. (ix, v) \<in> set (zip xs refs) \<and> snd ix = Program q)"
      unfolding live_refs_def mem_Collect_eq in_kinds kind by blast
    also have "\<dots> \<longleftrightarrow> (\<exists>iid q. (iid, Program q) \<in> set xs \<and> v = pi_icao q)"
    proof
      assume "\<exists>ix q. (ix, v) \<in> set (zip xs refs) \<and> snd ix = Program q"
      then obtain iid q where z: "((iid, Program q), v) \<in> set (zip xs refs)" by force
      with programs have "v = pi_icao q" by fastforce
      with set_zip_leftD [OF z] show "\<exists>iid q. (iid, Program q) \<in> set xs \<and> v = pi_icao q" by blast
    next
      assume "\<exists>iid q. (iid, Program q) \<in> set xs \<and> v = pi_icao q"
      then obtain iid q where q: "(iid, Program q) \<in> set xs" "v = pi_icao q" by blast
      from q(1) len obtain u where "((iid, Program q), u) \<in> set (zip xs refs)"
        by (metis in_set_impl_in_set_zip1)
      with programs q(2) show "\<exists>ix q. (ix, v) \<in> set (zip xs refs) \<and> snd ix = Program q" by fastforce
    qed
    finally show ?thesis .
  qed
  moreover have "(\<exists>iid q. (iid, Program q) \<in> set xs \<and> v = pi_icao q) \<longleftrightarrow> v \<in> program_airports env w pid" for v
  proof
    assume "\<exists>iid q. (iid, Program q) \<in> set xs \<and> v = pi_icao q"
    then show "v \<in> program_airports env w pid"
      using p prog by (fastforce simp: program_airports_def)
  next
    assume "v \<in> program_airports env w pid"
    then obtain i q where i: "i \<in> set (list_package_items w pid)" "it_kind i = lit ''program''"
      "ic_program (ne_codec env) (it_payload i) = Some q" "v = pi_icao q"
      by (auto simp: program_airports_def)
    with p obtain x where "(it_id i, x) \<in> set xs" "prepare_item (ne_codec env) guilds i = Inr (Some x)"
      by (fastforce simp: item_kinds_def)
    with i prog [of i q] show "\<exists>iid q. (iid, Program q) \<in> set xs \<and> v = pi_icao q" by auto
  qed
  ultimately show ?thesis by blast
qed

lemma deactivation_ok:
  assumes "deactivate_package env now jid pid by_actor w = (Inr (), w')"
  shows "rows_ended now (list_package_item_refs w pid) (pw_tmu w) (pw_tmu w')"
    and "\<forall>q\<in>set (pw_packages w'). pk_id q = pid \<longrightarrow> pk_status q = PkgArchived"
    and "\<forall>i\<in>set (pw_items w'). it_package_id i = pid \<longrightarrow> it_live_ref i = None"
proof -
  from assms obtain m where run: "end_items env now jid (list_package_item_refs w pid) (pw_tmu w) = (Inr (), m)"
    and w': "w' = mark_package_archived now pid by_actor (w\<lparr>pw_tmu := m\<rparr>)"
    by (auto simp: deactivate_package_def split: prod.splits sum.splits)
  from end_items_effect [OF run] show "rows_ended now (list_package_item_refs w pid) (pw_tmu w) (pw_tmu w')"
    by (auto simp: w' mark_archived(3))
  show "\<forall>q\<in>set (pw_packages w'). pk_id q = pid \<longrightarrow> pk_status q = PkgArchived"
    and "\<forall>i\<in>set (pw_items w'). it_package_id i = pid \<longrightarrow> it_live_ref i = None"
    unfolding w' by (rule mark_archived)+
qed


section \<open>Who may issue\<close>


section \<open>At most once\<close>

text \<open>Everything that happens to the plan of an event, for whatever the requests read: \<open>pid\<close> is an id that is
  not drawn for another package.\<close>

inductive plan_step :: "ustr \<Rightarrow> plan_world \<Rightarrow> plan_world \<Rightarrow> bool" for pid :: ustr where
  created: "create_event_package db attr now c new eid name r w = Inr (a, w') \<Longrightarrow> new \<noteq> pid \<Longrightarrow> plan_step pid w w'"
| deleted: "delete_event_package db now c eid i r w = Inr (a, w') \<Longrightarrow> plan_step pid w w'"
| item_added: "add_event_package_item codec db now c iid eid i kind payload r w = Inr (a, w') \<Longrightarrow> plan_step pid w w'"
| item_deleted: "delete_event_package_item db now c eid i iid r w = Inr (a, w') \<Longrightarrow> plan_step pid w w'"
| activated: "activate_event_package env db attr now lid jid c eid i r w = Inr (a, w') \<Longrightarrow> plan_step pid w w'"
| deactivated: "plan_step pid w (snd (deactivate_event_package env db attr now jid c eid i r w))"
| armed: "set_event_package_auto db attr now c eid i auto r w = Inr (a, w') \<Longrightarrow> plan_step pid w w'"
| lifecycle: "plan_step pid w (snd (event_package_lifecycle_once env db attr lu now lid jid w))"
| synced: "plan_step pid w (upsert_many es w)"
| pruned: "plan_step pid w (prune_events cutoff w)"
| elsewhere: "plan_step pid w (w\<lparr>pw_tmu := m\<rparr>)"

definition no_draft :: "ustr \<Rightarrow> plan_world \<Rightarrow> bool" where
  "no_draft pid w \<longleftrightarrow> (\<forall>p\<in>set (pw_packages w). pk_id p = pid \<longrightarrow> pk_status p \<noteq> PkgDraft)"

lemma no_draft_set_packages:
  assumes "\<And>p. pk_id (f p) = pk_id p" and "\<And>p. pk_status p \<noteq> PkgDraft \<Longrightarrow> pk_status (f p) \<noteq> PkgDraft"
  shows "no_draft pid w \<Longrightarrow> no_draft pid (set_packages P f w)"
  using assms by (simp add: no_draft_def set_packages_def all_in_map del: set_map)

lemma no_draft_cong: "pw_packages w' = pw_packages w \<Longrightarrow> no_draft pid w \<Longrightarrow> no_draft pid w'"
  by (simp add: no_draft_def)

lemma no_draft_drop: "no_draft pid w \<Longrightarrow> no_draft pid (drop_packages P w)"
  by (auto simp: no_draft_def drop_packages_def)

lemma materialize_packages:
  "fold_result (materialize_item env now event ch lid jid) xs w = Inr w' \<Longrightarrow> pw_packages w' = pw_packages w"
proof (induction xs arbitrary: w)
  case (Cons x xs)
  then obtain w1 where one: "materialize_item env now event ch lid jid x w = Inr w1"
    and rest: "fold_result (materialize_item env now event ch lid jid) xs w1 = Inr w'"
    by (auto simp: bind_result_Inr_iff)
  from one have "pw_packages w1 = pw_packages w"
    by (auto simp: materialize_item_def set_item_live_ref_def bind_result_Inr_iff)
  with Cons.IH [OF rest] show ?case by simp
qed simp

lemma activate_keeps_no_draft:
  assumes "activate_package env db attr now lid jid eid i p r w = Inr w'" and "no_draft pid w"
  shows "no_draft pid w'"
proof -
  from activate_package_ok [OF assms(1)] obtain xs event ch m where
    made: "fold_result (materialize_item env now event ch lid jid) xs w = Inr m"
    and mark: "mark_package_activated now i (attr p) m = Inr w'"
    by blast
  have "no_draft pid m"
    by (rule no_draft_cong [OF materialize_packages [OF made] assms(2)])
  then show ?thesis
    using mark by (auto simp: mark_package_activated_def Let_def intro!: no_draft_set_packages split: if_splits)
qed

lemma deactivate_keeps_no_draft:
  assumes "no_draft pid w"
  shows "no_draft pid (snd (deactivate_package env now jid i by_actor w))"
proof -
  obtain res m where run: "end_items env now jid (list_package_item_refs w i) (pw_tmu w) = (res, m)"
    by (cases "end_items env now jid (list_package_item_refs w i) (pw_tmu w)")
  have v: "no_draft pid (w\<lparr>pw_tmu := m\<rparr>)"
    by (rule no_draft_cong [OF _ assms]) simp
  have "no_draft pid (set_packages (\<lambda>p. pk_id p = i) (\<lambda>p. p\<lparr>pk_status := PkgArchived, pk_archived_at := Some now,
      pk_updated_by_actor := at_actor_id by_actor\<rparr>) (w\<lparr>pw_tmu := m\<rparr>))"
    by (rule no_draft_set_packages [OF _ _ v]) simp_all
  then have "no_draft pid (mark_package_archived now i by_actor (w\<lparr>pw_tmu := m\<rparr>))"
    by (rule no_draft_cong [rotated]) (simp add: mark_package_archived_def)
  with v show ?thesis by (simp add: deactivate_package_def run split: sum.split)
qed

lemma auto_activate_keeps_no_draft:
  "no_draft pid w \<Longrightarrow> no_draft pid (snd (auto_activate env db attr lu now lid jid todo w))"
proof (induction todo arbitrary: w)
  case (Cons x todo)
  obtain i eid actor where x: "x = (i, eid, actor)" by (cases x)
  have skip: "no_draft pid (snd (auto_activate env db attr lu now lid jid todo w))"
    by (rule Cons.IH [OF Cons.prems])
  show ?case
  proof (cases "\<exists>p w'. from_actor lu actor = Inr (Some p) \<and> activate_package env db attr now lid jid eid i p w w = Inr w'")
    case True
    then obtain p w' where p: "from_actor lu actor = Inr (Some p)"
      and act: "activate_package env db attr now lid jid eid i p w w = Inr w'" by blast
    obtain n w'' where rest: "auto_activate env db attr lu now lid jid todo w' = (n, w'')"
      by (cases "auto_activate env db attr lu now lid jid todo w'")
    from Cons.IH [OF activate_keeps_no_draft [OF act Cons.prems]] show ?thesis
      by (simp add: x p act rest)
  next
    case False
    with skip show ?thesis by (auto simp: x split: sum.split option.split)
  qed
qed simp

lemma auto_archive_keeps_no_draft:
  "no_draft pid w \<Longrightarrow> no_draft pid (snd (auto_archive env attr lu now jid todo w))"
proof (induction todo arbitrary: w)
  case (Cons x todo)
  obtain i eid actor where x: "x = (i, eid, actor)" by (cases x)
  show ?case
  proof (cases "archive_by attr lu actor")
    case (Inl e)
    with Cons show ?thesis by (simp add: x)
  next
    case (Inr by_actor)
    obtain res w' where d: "deactivate_package env now jid i by_actor w = (res, w')"
      by (cases "deactivate_package env now jid i by_actor w")
    obtain n w'' where rest: "auto_archive env attr lu now jid todo w' = (n, w'')"
      by (cases "auto_archive env attr lu now jid todo w'")
    from deactivate_keeps_no_draft [OF Cons.prems, of env now jid i by_actor] d have "no_draft pid w'" by simp
    from Cons.IH [OF this] Inr d rest show ?thesis
      by (simp add: x split: sum.split)
  qed
qed simp

lemma step_keeps_no_draft:
  assumes "plan_step pid w w'" and "no_draft pid w"
  shows "no_draft pid w'"
  using assms
proof cases
  case (created db attr now c new eid name r a)
  with assms(2) show ?thesis
    by (auto simp: create_event_package_def create_package_def package_list_def bind_result_Inr_iff no_draft_def split: if_splits)
next
  case (deleted db now c eid i r a)
  with no_draft_drop [OF assms(2)] show ?thesis
    by (auto simp: delete_event_package_def delete_package_def package_list_def bind_result_Inr_iff)
next
  case (item_added codec db now c iid eid i kind payload r a)
  then have "pw_packages w' = pw_packages w"
    by (auto simp: add_event_package_item_def add_package_item_def package_list_def bind_result_Inr_iff split: if_splits)
  from no_draft_cong [OF this assms(2)] show ?thesis .
next
  case (item_deleted db now c eid i iid r a)
  then have "pw_packages w' = pw_packages w"
    by (auto simp: delete_event_package_item_def delete_package_item_def package_list_def bind_result_Inr_iff Let_def split: bool.splits prod.splits)
  from no_draft_cong [OF this assms(2)] show ?thesis .
next
  case (activated env db attr now lid jid c eid i r a)
  then obtain p where "activate_package env db attr now lid jid eid i p r w = Inr w'"
    by (auto simp: activate_event_package_def package_list_def bind_result_Inr_iff split: if_splits)
  from activate_keeps_no_draft [OF this assms(2)] show ?thesis .
next
  case (deactivated env db attr now jid c eid i r)
  have "no_draft pid (snd (deactivate_package env now jid i by_actor w))" for by_actor
    by (rule deactivate_keeps_no_draft [OF assms(2)])
  then have "deactivate_package env now jid i by_actor w = (res, v) \<Longrightarrow> no_draft pid v" for by_actor res v
    by (metis snd_conv)
  then show ?thesis
    unfolding deactivated using assms(2) by (auto simp: deactivate_event_package_def split: sum.splits prod.splits)
next
  case (armed db attr now c eid i auto r a)
  then obtain p where "w' = set_package_auto i auto (attr p) w"
    by (auto simp: set_event_package_auto_def package_list_def bind_result_Inr_iff)
  then show ?thesis
    using assms(2) by (auto simp: set_package_auto_def intro!: no_draft_set_packages)
next
  case (lifecycle env db attr lu now lid jid)
  obtain n w1 where w1: "auto_activate env db attr lu now lid jid (auto_due_packages now w) w = (n, w1)"
    by (cases "auto_activate env db attr lu now lid jid (auto_due_packages now w) w")
  with auto_activate_keeps_no_draft [OF assms(2), of env db attr lu now lid jid "auto_due_packages now w"]
  have "no_draft pid w1" by simp
  from auto_archive_keeps_no_draft [OF this] show ?thesis
    by (simp add: lifecycle event_package_lifecycle_once_def w1 split: prod.splits) (metis snd_conv)
next
  case (synced es)
  have "pw_packages (upsert_many es v) = pw_packages v" for v
    unfolding upsert_many_def by (induction es arbitrary: v) auto
  from no_draft_cong [OF this assms(2)] synced show ?thesis by simp
next
  case (pruned cutoff)
  with assms(2) show ?thesis
    by (auto simp: prune_events_def Let_def intro!: no_draft_drop intro: no_draft_cong)
next
  case (elsewhere m)
  with assms(2) show ?thesis by (auto intro: no_draft_cong)
qed

text \<open>C13. A package goes live at most once: once an activation of it has committed, every other one, by a
  request or by the lifecycle pass, whoever makes it, whatever it read and whatever happened since,
  fails, and a failed activation writes nothing.\<close>

theorem package_goes_live_once:
  assumes "activate_package env db attr now lid jid eid pid p r w = Inr w1" and "(plan_step pid)\<^sup>*\<^sup>* w1 w2"
  shows "\<exists>e. activate_package env' db' attr' now' lid' jid' eid' pid p' r' w2 = Inl e"
proof -
  from activate_package_ok [OF assms(1)] obtain m where "mark_package_activated now pid (attr p) m = Inr w1"
    by blast
  from mark_activated_frame(4) [OF this] have "no_draft pid w1" by (simp add: no_draft_def)
  with assms(2) have still: "no_draft pid w2"
    by (induction rule: rtranclp_induct) (auto intro: step_keeps_no_draft)
  show ?thesis
  proof (cases "activate_package env' db' attr' now' lid' jid' eid' pid p' r' w2")
    case (Inr w3)
    from activate_package_ok [OF this] obtain xs event ch m where
      made: "fold_result (materialize_item env' now' event ch lid' jid') xs w2 = Inr m"
      and mark: "mark_package_activated now' pid (attr' p') m = Inr w3"
      by blast
    from mark_activated_frame(5) [OF mark] no_draft_cong [OF materialize_packages [OF made] still] show ?thesis
      unfolding no_draft_def by blast
  qed blast
qed

section \<open>An example\<close>

definition sample_codec :: item_codec where
  "sample_codec = \<lparr>
     ic_program = (\<lambda>j. case j of JArray [JString icao, JNumber aar, JNumber trail, JNumber mit] \<Rightarrow>
       Some \<lparr>pi_icao = icao, pi_aar = aar, pi_trail = trail, pi_mit = mit\<rparr> | _ \<Rightarrow> None),
     ic_restriction = (\<lambda>j. case j of JArray [JString requesting, JString providing, JString line] \<Rightarrow>
       Some \<lparr>ri_requesting = requesting, ri_providing = providing, ri_restriction = line, ri_structured = None,
         ri_start_time = None, ri_stop_time = None\<rparr> | _ \<Rightarrow> None),
     ic_ground_stop = (\<lambda>j. case j of JArray [JString airport, JString until] \<Rightarrow>
       Some \<lparr>si_airport = airport, si_scope = None, si_until = Some until\<rparr> | _ \<Rightarrow> None),
     ic_advisory = (\<lambda>j. map_option (\<lambda>f. \<lparr>di_facility = f, di_kind = lit ''general'', di_body = lit ''TEXT'',
       di_structured = None, di_valid_from = 0, di_valid_to = 7200000\<rparr>) (json_str_field j (lit ''facility''))),
     iv_program = (\<lambda>p. JArray [JString (pi_icao p), JNumber (pi_aar p), JNumber (pi_trail p), JNumber (pi_mit p)]),
     iv_restriction = (\<lambda>r. JArray [JString (ri_requesting r), JString (ri_providing r), JString (ri_restriction r)]),
     iv_ground_stop = (\<lambda>g. JArray [JString (si_airport g), JString (coalesce (si_until g) [])]),
     iv_advisory = (\<lambda>a. JObject [(lit ''facility'', JString (di_facility a))])\<rparr>"

definition plan_env_sample :: plan_env where
  "plan_env_sample = \<lparr>ne_codec = sample_codec, ne_tmi = sample_tmi_env, ne_doc = sample_env\<rparr>"

text \<open>\<open>u1\<close> may publish advisories at ZDC, \<open>u2\<close> only draft them.\<close>

definition plan_db :: access_db where
  "plan_db = sample_db\<lparr>t_permissions := map lit [''events.plan.update'', ''tmu.adv.publish'', ''tmu.adv.create''],
     t_user_permissions := map (\<lambda>(u, n, x). \<lparr>up_user = lit u, up_permission = lit n, up_granted = True, up_artcc = x,
       up_source = Manual\<rparr>)
       [(''u1'', ''events.plan.update'', None), (''u1'', ''tmu.adv.publish'', Some (lit ''ZDC'')),
        (''u2'', ''events.plan.update'', None), (''u2'', ''tmu.adv.create'', Some (lit ''ZDC''))]\<rparr>"

definition plan_user :: "string \<Rightarrow> current_user" where
  "plan_user i = \<lparr>cu_id = lit i, cu_cid = 1, cu_email = [], cu_display_name = lit i, cu_rating = None,
     cu_primary_role = None\<rparr>"

definition plan_caller :: "string \<Rightarrow> caller" where
  "plan_caller i = \<lparr>cl_user = Some (plan_user i), cl_service_account = None, cl_api_key = None\<rparr>"

definition plan_attr :: "principal \<Rightarrow> attribution" where
  "plan_attr p = \<lparr>at_user_id = principal_user_id p, at_actor_id = principal_user_id p\<rparr>"

definition plan_lookups :: actor_lookups where
  "plan_lookups = \<lparr>lu_user = (\<lambda>a. Inr (Some \<lparr>cu_id = a, cu_cid = 1, cu_email = [], cu_display_name = a, cu_rating = None,
     cu_primary_role = None\<rparr>)), lu_api_key = (\<lambda>_. Inr None), lu_service_account = (\<lambda>_. Inr None)\<rparr>"

definition plan_item :: "string \<Rightarrow> string \<Rightarrow> json \<Rightarrow> package_item" where
  "plan_item i kind payload = \<lparr>it_id = lit i, it_package_id = lit ''P'', it_kind = lit kind, it_payload = payload,
     it_live_ref = None\<rparr>"

definition plan_with :: "bool \<Rightarrow> package_item list \<Rightarrow> plan_world" where
  "plan_with auto is = \<lparr>pw_events = [\<lparr>pe_id = 7, pe_facility = lit ''ZDC'', pe_start_time = 0, pe_end_time = 3600000\<rparr>],
     pw_packages = [\<lparr>pk_id = lit ''P'', pk_event_id = 7, pk_name = lit ''Plan'', pk_status = PkgDraft, pk_auto_publish = auto,
       pk_activated_at = None, pk_archived_at = None, pk_updated_by_actor = Some (lit ''u1'')\<rparr>],
     pw_items = is, pw_tmu = sample_tmu\<lparr>mw_gdps := [], mw_adv := no_advisories [sample_guild (lit ''C1''), ntml_guild],
       mw_rates := [\<lparr>pr_icao = lit ''KDCA'', pr_request = program_request \<lparr>pe_id = 7, pe_facility = [], pe_start_time = 0,
         pe_end_time = 9\<rparr> \<lparr>pi_icao = lit ''KDCA'', pi_aar = 20, pi_trail = 0, pi_mit = 0\<rparr>, pr_updated_at = 0\<rparr>]\<rparr>\<rparr>"

definition sample_plan :: plan_world where
  "sample_plan = plan_with False
     [plan_item ''i1'' ''program'' (JArray [JString (lit ''KDCA''), JNumber 30, JNumber 0, JNumber 0]),
      plan_item ''i2'' ''restriction'' (JArray [JString (lit ''ZDC''), JString (lit ''ZNY''), JString (lit ''DCA 10MIT'')]),
      plan_item ''i3'' ''ground_stop'' (JArray [JString (lit ''KIAD''), JString (lit ''1800Z'')]),
      plan_item ''i4'' ''advisory'' (JObject [(lit ''facility'', JString (lit ''ZDC''))])]"

definition activate_sample :: "string \<Rightarrow> plan_world \<Rightarrow> plan_world result" where
  "activate_sample u w = activate_package plan_env_sample plan_db plan_attr 60000 (\<lambda>i. i @ [76]) (\<lambda>i. i @ [74]) 7 (lit ''P'')
     (User (plan_user u)) w w"

definition or_self :: "plan_world \<Rightarrow> plan_world result \<Rightarrow> plan_world" where
  "or_self w r = (case r of Inl _ \<Rightarrow> w | Inr w' \<Rightarrow> w')"

definition plan_live :: plan_world where
  "plan_live = or_self sample_plan (activate_sample ''u1'' sample_plan)"

definition plan_archived :: plan_world where
  "plan_archived = snd (deactivate_package plan_env_sample 120000 (\<lambda>i. i @ [75]) (lit ''P'') (plan_attr (User (plan_user ''u1''))) plan_live)"

lemma plan_live_ok: "activate_sample ''u1'' sample_plan = Inr plan_live"
proof -
  have "\<not> isl (activate_sample ''u1'' sample_plan)" by code_simp
  then show ?thesis by (cases "activate_sample ''u1'' sample_plan") (simp_all add: plan_live_def or_self_def)
qed

lemma plan_archived_ok:
  "deactivate_package plan_env_sample 120000 (\<lambda>i. i @ [75]) (lit ''P'') (plan_attr (User (plan_user ''u1''))) plan_live =
     (Inr (), plan_archived)"
proof -
  have "fst (deactivate_package plan_env_sample 120000 (\<lambda>i. i @ [75]) (lit ''P'') (plan_attr (User (plan_user ''u1''))) plan_live) = Inr ()"
    by code_simp
  then show ?thesis by (simp add: plan_archived_def prod_eq_iff)
qed

lemma sample_plan_ids: "distinct (map it_id (pw_items sample_plan))"
  by code_simp


theorem deactivation_ends_only_its_rows_witness:
  "map pk_status (pw_packages plan_archived) = [PkgArchived] \<and>
   (\<exists>ended. list_package_item_refs plan_live (lit ''P'') = ended \<and> ended \<noteq> [] \<and>
      rows_ended 120000 ended (pw_tmu plan_live) (pw_tmu plan_archived))"
proof -
  have one: "map pk_id (pw_packages plan_archived) = [lit ''P'']" by code_simp
  have "list_package_item_refs plan_live (lit ''P'') \<noteq> []" by code_simp
  with deactivation_ends_only_its_rows [where w = plan_live and pid = "lit ''P''" and env = plan_env_sample
      and now = 120000 and jid = "\<lambda>i. i @ [75]" and by_actor = "plan_attr (User (plan_user ''u1''))"] one
  show ?thesis by (auto simp: plan_archived_ok map_eq_Cons_conv)
qed


theorem package_goes_live_once_witness:
  "\<exists>e. activate_sample ''u1'' (snd (event_package_lifecycle_once plan_env_sample plan_db plan_attr plan_lookups 120000
     (\<lambda>i. i @ [77]) (\<lambda>i. i @ [78]) plan_live)) = Inl e"
  unfolding activate_sample_def
  by (rule package_goes_live_once [OF plan_live_ok [unfolded activate_sample_def] r_into_rtranclp [of "plan_step (lit ''P'')"]])
    (rule plan_step.lifecycle)

section \<open>What goes wrong\<close>

text \<open>A rate of 0 is a valid item, but the table of programs wants at least 1: the package can never go live.\<close>

lemma zero_rate_program_blocks_package:
  "let item = JArray [JString (lit ''KDCA''), JNumber 0, JNumber 0, JNumber 0] in
   normalize_item sample_codec (lit ''program'') item = Inr item \<and>
   activate_sample ''u1'' (plan_with False [plan_item ''i1'' ''program'' item]) = Inl Internal"
  by code_simp

text \<open>A planned stop keeps the text of its end, and one with a suffix never lapses; the direct endpoint
  reads the same text as a clock time.\<close>

lemma planned_stop_never_lapses:
  "map until_instant (mw_stops (pw_tmu plan_live)) = [None] \<and> normalize_until (Some (lit ''1800Z'')) = Inr (Some (lit ''1800''))"
  by code_simp

text \<open>A live package can be deleted; nothing refers to its rows then, and they stay in force.\<close>

lemma deleted_package_leaves_rows_live:
  "case delete_event_package plan_db 60000 (plan_caller ''u2'') 7 (lit ''P'') plan_live plan_live of
     Inl _ \<Rightarrow> False
   | Inr (_, w) \<Rightarrow> pw_packages w = [] \<and> pw_items w = [] \<and> map ti_status (mw_tmis (pw_tmu w)) = [Published] \<and>
       map av_status (vw_rows (mw_adv (pw_tmu w))) = [AdvPublished]"
  by code_simp

text \<open>\<open>u2\<close> may not issue an advisory, but adds one to a package \<open>u1\<close> armed, and the pass issues it for
  \<open>u1\<close>.\<close>

lemma armed_package_issues_for_drafter:
  "let w = plan_with True [] in
   case add_event_package_item sample_codec plan_db 0 (plan_caller ''u2'') (lit ''i4'') 7 (lit ''P'') (lit ''advisory'')
       (JObject [(lit ''facility'', JString (lit ''ZDC''))]) w w of
     Inl _ \<Rightarrow> False
   | Inr (_, w1) \<Rightarrow>
       activate_event_package plan_env_sample plan_db plan_attr 60000 (\<lambda>i. i @ [76]) (\<lambda>i. i @ [74]) (plan_caller ''u2'') 7
         (lit ''P'') w1 w1 = Inl Unauthorized \<and>
       map av_status (vw_rows (mw_adv (pw_tmu (snd (event_package_lifecycle_once plan_env_sample plan_db plan_attr plan_lookups
         60000 (\<lambda>i. i @ [76]) (\<lambda>i. i @ [74]) w1))))) = [AdvPublished]"
  by code_simp

end
