(* ===== verification/Spec2Isabelle.thy ===== *)
theory Spec2Isabelle
  imports Errors PermissionTree Catalog AccessScope AccessControl Authorization JobQueue
    AceHandlers Banner DiscordConfig GdpLife TmuWorld FcaLife ReleaseLife AccessSaves SyncLife PackageLife
begin

text \<open>
  A model of the backend of VATUSA OIS, the operational information system of the VATUSA division:
  an axum service over one PostgreSQL database (\<open>src/backend/src\<close>) with the crate \<open>src/crates/ois-core\<close>.
  A request passes the authentication middleware (\<open>auth/\<close>), a handler (\<open>handlers/\<close>) checks a permission
  and its scope, and a repository (\<open>repos/\<close>) runs the statements; work for Discord is written to an
  outbound job queue that a bot leases and acknowledges. A definition has the name of the Rust item it
  translates where Isabelle allows it, with \<open>_handler\<close> for an endpoint whose repository function has the
  same name, and \<open>_full\<close> for an endpoint over all the traffic-management tables.

  Common to all theories. Text is a list of code points (\<open>Prelude\<close>), a table is a list of records, a
  unique constraint is a test before the insert, a transaction is a function that returns either an
  error or the committed tables. \<open>api_error + 'a\<close> is the type of fallible code (\<open>Errors\<close>), so
  every early return is a branch. Random ids, the clock, the live feed, calendar arithmetic, Unicode
  lower-casing and the decoding of stored JSON are arguments; instants are integers in milliseconds, in
  microseconds in the job queue. Who did it and the audit log are not kept.

  The parts and their theories:

  \<^item> Errors (\<open>errors.rs\<close>): \<open>Errors\<close>.

  \<^item> Permissions (\<open>ois-core\<close>, \<open>repos/access.rs\<close>, \<open>auth/\<close>): \<open>Permissions\<close> and \<open>PermissionTree\<close> parse, print and
    normalise permission names and their JSON trees; \<open>Catalog\<close> is the seeded data; \<open>AccessScope\<close> is the
    scope of a permission and the deny rule; \<open>AccessControl\<close> computes effective permissions and what a
    granter may delegate; \<open>Authorization\<close> routes tokens and decides the gates. The lemmas show that the
    gate and the scope readers agree, that an API key never exceeds its owner and that delegation is
    bounded by the granter.

  \<^item> Access editors (\<open>handlers/access.rs\<close>, \<open>repos/access.rs\<close>): \<open>AccessTables\<close> is the directory of members,
    groups, grants and VATUSA rows with the statements that write them; a violated foreign key is
    \<open>Internal\<close>. \<open>AccessEditors\<close> is the endpoints with their guards. As with the releases below, an endpoint
    takes the directory its guard reads and the directory its transaction writes. \<open>AccessLife\<close> proves that
    no run of requests by people who are no server admins creates authority none of them had, \<open>AccessSaves\<close>
    what a save leaves, that system groups stay out of reach, and the cases the guards miss.

  \<^item> VATUSA sync (\<open>repos/vatusa.rs\<close>, \<open>feed/vatusa.rs\<close>, \<open>handlers/access_reset.rs\<close>): \<open>VatusaSync\<close> derives the groups a
    member's VATUSA roles, home and visits justify, reconciles one member or a pulled division with its
    guard against truncated answers, and edits the role mappings; \<open>AccessReset\<close> is the reset of everyone.
    \<open>SyncLife\<close> proves that a sync leaves exactly the justified groups, and what a reset leaves.

  \<^item> Outbound jobs (\<open>repos/integration.rs\<close>, \<open>handlers/integration.rs\<close>): \<open>JobQueue\<close> with all runs of enqueue,
    lease, acknowledge and reap as a step relation; \<open>JobWorkers\<close> states what workers never change.
    \<open>DiscordConfig\<close> resolves a logical channel name for a facility.

  \<^item> ACE support (\<open>repos/ace.rs\<close>, \<open>handlers/ace.rs\<close>): \<open>AceTimes\<close>, \<open>Ace\<close>, \<open>AceHandlers\<close>. The 25 options of
    a time picker are Discord's limit.

  \<^item> Event banners (\<open>handlers/events.rs\<close>): \<open>Banner\<close>.

  \<^item> Ground delay programs (\<open>feed/gdp.rs\<close>, \<open>handlers/gdp.rs\<close>, \<open>repos/gdp.rs\<close>): \<open>Gdp\<close> is ration by schedule,
    \<open>GdpWindow\<close> the program window, \<open>GdpProgram\<close> the tables and endpoints, of an advisory only its program
    and whether it is live; \<open>GdpLife\<close> proves the invariant of the tables and the histories over any run.
    The loops of the window, \<open>advance_past\<close> and \<open>advance_to\<close>, are recursions with a termination proof.

  \<^item> Advisories (\<open>text.rs\<close>, \<open>tmi.rs\<close>, \<open>advisory.rs\<close>, \<open>repos/tmu.rs\<close>, \<open>handlers/tmu.rs\<close>): \<open>DocText\<close> collapses
    white space, \<open>Ntml\<close> is the one-line restriction codec, \<open>AdvisoryDoc\<close> renders the documents, \<open>Advisories\<close>
    is the table with its endpoints and posts, \<open>AdvisoryLife\<close> its runs.

  \<^item> Traffic management initiatives, ground stops and rate programs (\<open>repos/tmu.rs\<close>, \<open>handlers/tmu.rs\<close>):
    \<open>Initiatives\<close>, \<open>InitiativeLife\<close>, \<open>TmuTables\<close>. \<open>RowTable\<close> is the contract their tables share, a locale
    interpreted for the advisories (by id and by number) and for the initiatives.

  \<^item> \<open>TmuWorld\<close> puts these tables together: the program endpoints with the documents they generate, the
    cleanup pass and the pruning of history. It proves that they refine the endpoints and the pass of
    \<open>GdpProgram\<close>, so the results of \<open>GdpLife\<close> hold of the whole.

  \<^item> Flow constrained areas (\<open>feed/fca.rs\<close>, \<open>repos/flow.rs\<close>, \<open>handlers/flow.rs\<close>): \<open>FcaMeter\<close> hands out
    crossing slots; \<open>earliest_slot\<close> has a termination proof and is shown to be the least free time. \<open>Fcas\<close> is
    the area table with its endpoints and the lifecycle pass, \<open>FcaLife\<close> its runs (\<open>RowTable\<close> again). The
    geometry of a crossing is not modelled: crossings come as data. \<open>FlowMetering\<close> composes the frozen
    releases and the meter as the handlers do.

  \<^item> Releases and issued CFRs (\<open>repos/flow.rs\<close>, \<open>handlers/flow.rs\<close>): \<open>ReleaseAuthority\<close> reads the
    precondition headers and decides who may overwrite a held time; its locales \<open>held_table\<close> and \<open>held_rows\<close>
    are the contract of a versioned table, interpreted in \<open>Releases\<close> for both tables. \<open>ReleaseHandlers\<close> is
    the endpoints. A handler takes the tables it reads and the tables it writes as two arguments, because
    the code reads outside the transaction that writes and another writer can come between. \<open>ReleaseLife\<close>
    proves that no run of machine writes loses a controller's time and that a retry is refused.

  \<^item> Event packages (\<open>handlers/events.rs\<close>, \<open>repos/events.rs\<close>, the lifecycle pass of \<open>jobs.rs\<close>): \<open>Packages\<close>
    plans items for an event, makes them live in the tables of \<open>TmuWorld\<close> in one transaction and ends them one by
    one. \<open>PackageLife\<close> proves that a package goes live at most once, that it publishes only where its
    principal may, and what a deactivation takes back; its last section has four ways in which it goes wrong.

  Hypotheses about code that is not here: an id drawn for a new row is not in use; decoding the JSON
  written for a document gives the document back (\<open>documents_ok\<close>); the decoder of a planned advisory reads the
  member \<open>facility\<close>. No fuel is used.

  Not modelled: geometry and trajectories in floating point (\<open>feed/trajectory.rs\<close>, \<open>feed/sectors.rs\<close> and
  the like), network polling and parsing of third-party data, the OAuth sign-in and the HTTP calls to VATUSA,
  statistics whose meaning is SQL aggregation, the router, configuration, metrics and generated
  documentation, the importers, and the web, desktop and Discord clients. Not modelled yet, and next in
  order: the editors of service accounts and API keys, sector limits, crossing geometry,
  shared routes, the run record of a reset.
\<close>

end
